(* ===== verification/Prelude.thy ===== *)
theory Prelude
  imports Main "HOL-Library.Word"
begin

text \<open>
  The shared prelude of the development: the character types of WebKit (\<open>UChar\<close>, \<open>LChar\<close>,
  \<open>UChar32\<close>) at their widths, names for the characters the HTML syntax gives a meaning to,
  C string literals as lists of code units, the theorem collections the component theories fill,
  and the generic facts on lists, options and words that their proofs share.
\<close>

unbundle bit_operations_syntax

section \<open>Theorem collections\<close>

text \<open>
  \<open>ascii_defs\<close>: the character classes; \<open>source_defs\<close>: the operations of the input source;
  \<open>token_defs\<close>: the operations of a token; \<open>macro_defs\<close>: the control-flow macros of the
  tokenizer; \<open>state_defs\<close>: its state handlers; \<open>view_simps\<close>: what an operation does to the
  abstract view of its object.
\<close>

named_theorems ascii_defs
named_theorems source_defs
named_theorems token_defs
named_theorems macro_defs
named_theorems state_defs
named_theorems view_simps

section \<open>Characters\<close>

type_synonym uchar = "16 word"
type_synonym lchar = "8 word"
type_synonym uchar32 = "32 word"
type_synonym unsigned = "32 word"

text \<open>The characters that have a meaning in the HTML syntax, by name.\<close>

abbreviation (input) chr_nul :: uchar where "chr_nul \<equiv> 0"
abbreviation (input) chr_tab :: uchar where "chr_tab \<equiv> 0x09"
abbreviation (input) chr_lf :: uchar where "chr_lf \<equiv> 0x0A"
abbreviation (input) chr_ff :: uchar where "chr_ff \<equiv> 0x0C"
abbreviation (input) chr_cr :: uchar where "chr_cr \<equiv> 0x0D"
abbreviation (input) chr_space :: uchar where "chr_space \<equiv> 0x20"
abbreviation (input) chr_bang :: uchar where "chr_bang \<equiv> 0x21"
abbreviation (input) chr_quot :: uchar where "chr_quot \<equiv> 0x22"
abbreviation (input) chr_hash :: uchar where "chr_hash \<equiv> 0x23"
abbreviation (input) chr_amp :: uchar where "chr_amp \<equiv> 0x26"
abbreviation (input) chr_apos :: uchar where "chr_apos \<equiv> 0x27"
abbreviation (input) chr_plus :: uchar where "chr_plus \<equiv> 0x2B"
abbreviation (input) chr_comma :: uchar where "chr_comma \<equiv> 0x2C"
abbreviation (input) chr_dash :: uchar where "chr_dash \<equiv> 0x2D"
abbreviation (input) chr_dot :: uchar where "chr_dot \<equiv> 0x2E"
abbreviation (input) chr_slash :: uchar where "chr_slash \<equiv> 0x2F"
abbreviation (input) chr_semi :: uchar where "chr_semi \<equiv> 0x3B"
abbreviation (input) chr_lt :: uchar where "chr_lt \<equiv> 0x3C"
abbreviation (input) chr_eq :: uchar where "chr_eq \<equiv> 0x3D"
abbreviation (input) chr_gt :: uchar where "chr_gt \<equiv> 0x3E"
abbreviation (input) chr_quest :: uchar where "chr_quest \<equiv> 0x3F"
abbreviation (input) chr_lbrack :: uchar where "chr_lbrack \<equiv> 0x5B"
abbreviation (input) chr_rbrack :: uchar where "chr_rbrack \<equiv> 0x5D"
abbreviation (input) chr_grave :: uchar where "chr_grave \<equiv> 0x60"
abbreviation (input) replacementCharacter :: uchar where "replacementCharacter \<equiv> 0xFFFD"

text \<open>A C string literal as the code units it stands for.\<close>

definition lit :: "string \<Rightarrow> uchar list" where
  "lit s = map of_char s"

lemma lit_simps [simp]:
  "lit [] = []"
  "lit (c # cs) = of_char c # lit cs"
  by (simp_all add: lit_def)

lemma length_lit [simp]: "length (lit s) = length s"
  by (simp add: lit_def)

section \<open>Lists and options\<close>

lemma drop_Suc_nth: "i < length xs \<Longrightarrow> drop i xs = xs ! i # drop (Suc i) xs"
  by (rule Cons_nth_drop_Suc [symmetric])

lemma take_length_diff: "n \<le> length xs \<Longrightarrow> length (drop (length xs - n) xs) = n"
  by simp

lemma bind_eq_Some_conv:
  "(Option.bind m f = Some y) = (\<exists>x. m = Some x \<and> f x = Some y)"
  by (cases m) auto

section \<open>Words\<close>

lemma ucast_8_16 [simp]: "ucast (ucast (c :: 8 word) :: 16 word) = c"
  by (rule ucast_up_ucast_id) (simp add: is_up)

end
