(* ===== verification/Wtf_Ascii.thy ===== *)
theory Wtf_Ascii
  imports Prelude
begin

text \<open>
  The character classes and case conversions of \<open>Source/WTF/wtf/ASCIICType.h\<close> at the width of
  \<open>UChar\<close>, with their range characterisations: the bit trick \<open>character | 0x20\<close> behind
  \<open>isASCIIAlpha\<close> and \<open>isASCIIAlphaCaselessEqual\<close> accepts exactly the English letters.
\<close>

section \<open>Definitions\<close>

definition isASCII :: "uchar \<Rightarrow> bool" where
  "isASCII character \<longleftrightarrow> character AND NOT 0x7F = 0"

definition isASCIILower :: "uchar \<Rightarrow> bool" where
  "isASCIILower character \<longleftrightarrow> 0x61 \<le> character \<and> character \<le> 0x7A"

definition toASCIILowerUnchecked :: "uchar \<Rightarrow> uchar" where
  "toASCIILowerUnchecked character = character OR 0x20"

definition isASCIIAlpha :: "uchar \<Rightarrow> bool" where
  "isASCIIAlpha character \<longleftrightarrow> isASCIILower (toASCIILowerUnchecked character)"

definition isASCIIDigit :: "uchar \<Rightarrow> bool" where
  "isASCIIDigit character \<longleftrightarrow> 0x30 \<le> character \<and> character \<le> 0x39"

definition isASCIIAlphanumeric :: "uchar \<Rightarrow> bool" where
  "isASCIIAlphanumeric character \<longleftrightarrow> isASCIIDigit character \<or> isASCIIAlpha character"

definition isASCIIHexDigit :: "uchar \<Rightarrow> bool" where
  "isASCIIHexDigit character \<longleftrightarrow> isASCIIDigit character \<or>
     (0x61 \<le> toASCIILowerUnchecked character \<and> toASCIILowerUnchecked character \<le> 0x66)"

definition isASCIISpace :: "uchar \<Rightarrow> bool" where
  "isASCIISpace character \<longleftrightarrow> character \<le> 0x20 \<and>
     (character = 0x20 \<or> (character \<le> 0xD \<and> 0x9 \<le> character))"

definition isASCIIUpper :: "uchar \<Rightarrow> bool" where
  "isASCIIUpper character \<longleftrightarrow> 0x41 \<le> character \<and> character \<le> 0x5A"

definition toASCIILower :: "uchar \<Rightarrow> uchar" where
  "toASCIILower character = character OR push_bit 5 (if isASCIIUpper character then 1 else 0)"

definition toASCIIUpper :: "uchar \<Rightarrow> uchar" where
  "toASCIIUpper character = character AND NOT (push_bit 5 (if isASCIILower character then 1 else 0))"

definition toASCIIHexValue :: "uchar \<Rightarrow> lchar" where
  "toASCIIHexValue character =
     ucast (if character < 0x41 then character - 0x30 else (character - 0x41 + 10) AND 0xF)"

definition isASCIIAlphaCaselessEqual :: "uchar \<Rightarrow> uchar \<Rightarrow> bool" where
  "isASCIIAlphaCaselessEqual inputCharacter expectedASCIILowercaseLetter \<longleftrightarrow>
     toASCIILowerUnchecked inputCharacter = expectedASCIILowercaseLetter"

lemmas [ascii_defs] = isASCII_def isASCIILower_def toASCIILowerUnchecked_def isASCIIAlpha_def
  isASCIIDigit_def isASCIIAlphanumeric_def isASCIIHexDigit_def isASCIISpace_def isASCIIUpper_def
  toASCIILower_def toASCIIUpper_def toASCIIHexValue_def isASCIIAlphaCaselessEqual_def

section \<open>The bit that separates the two cases\<close>

lemma bit5_unat: "bit (c :: uchar) 5 = odd (unat c div 32)"
proof -
  have "bit c 5 = bit (unat c) 5"
    by (simp add: bit_unsigned_iff)
  then show ?thesis by (simp add: bit_iff_odd)
qed

lemma or_0x20: "(c :: uchar) OR 0x20 = (if bit c 5 then c else c + 0x20)"
proof (cases "bit c 5")
  case True
  then have "c OR 2 ^ 5 = c"
    by (intro bit_eqI) (auto simp only: bit_or_iff bit_exp_iff)
  with True show ?thesis by simp
next
  case False
  then have "c AND 2 ^ 5 = 0"
    by (intro bit_eqI) (simp only: bit_and_iff bit_exp_iff, auto)
  then have "c + 0x20 = c OR 0x20"
    by (simp add: disjunctive_add_eq_or)
  with False show ?thesis by simp
qed

lemma unat_or_0x20: "unat ((c :: uchar) OR 0x20) = (if odd (unat c div 32) then unat c else unat c + 32)"
proof (cases "odd (unat c div 32)")
  case True
  then show ?thesis by (simp add: or_0x20 bit5_unat)
next
  case False
  moreover have "unat c < 65536" using unsigned_less [of c] by simp
  ultimately have "unat c div 32 \<noteq> 2047" "unat c div 32 < 2048" by auto
  then have "unat c div 32 < 2047" by linarith
  then have "unat c < 2047 * 32" by (simp add: less_mult_imp_div_less div_less_iff_less_mult)
  then have "unat c + 32 < 65536" by simp
  with False show ?thesis by (simp add: or_0x20 bit5_unat unat_word_ariths)
qed

lemma case_range_aux:
  fixes n :: nat
  assumes "64 \<le> a" "a \<le> b" "b < 96"
    and "96 \<le> n \<Longrightarrow> n < 128 \<Longrightarrow> P" and "64 \<le> n \<Longrightarrow> n < 96 \<Longrightarrow> \<not> P"
  shows "(a + 32 \<le> (if P then n else n + 32) \<and> (if P then n else n + 32) \<le> b + 32)
    \<longleftrightarrow> (a \<le> n \<and> n \<le> b) \<or> (a + 32 \<le> n \<and> n \<le> b + 32)"
  using assms by (cases P) auto

lemma case_range:
  fixes n :: nat
  assumes "64 \<le> a" "a \<le> b" "b < 96"
  shows "(a + 32 \<le> (if odd (n div 32) then n else n + 32) \<and> (if odd (n div 32) then n else n + 32) \<le> b + 32)
    \<longleftrightarrow> (a \<le> n \<and> n \<le> b) \<or> (a + 32 \<le> n \<and> n \<le> b + 32)"
proof (rule case_range_aux [OF assms])
  assume "96 \<le> n" "n < 128"
  then have "n div 32 = 3" by simp
  then show "odd (n div 32)" by simp
next
  assume "64 \<le> n" "n < 96"
  then have "n div 32 = 2" by simp
  then show "\<not> odd (n div 32)" by simp
qed

section \<open>What the classes accept\<close>

lemma isASCIIAlpha_iff:
  "isASCIIAlpha c \<longleftrightarrow> (0x41 \<le> c \<and> c \<le> 0x5A) \<or> (0x61 \<le> c \<and> c \<le> 0x7A)"
  using case_range [of 65 90 "unat c"]
  by (simp add: ascii_defs word_le_nat_alt unat_or_0x20)

lemma isASCIIHexDigit_iff:
  "isASCIIHexDigit c \<longleftrightarrow> (0x30 \<le> c \<and> c \<le> 0x39) \<or> (0x41 \<le> c \<and> c \<le> 0x46) \<or> (0x61 \<le> c \<and> c \<le> 0x66)"
  using case_range [of 65 70 "unat c"]
  by (simp add: ascii_defs word_le_nat_alt unat_or_0x20)

lemma isASCII_iff: "isASCII c \<longleftrightarrow> c < 0x80"
proof -
  have "isASCII c \<longleftrightarrow> c AND NOT (mask 7) = 0"
    by (simp add: isASCII_def mask_eq_exp_minus_1)
  also have "\<dots> \<longleftrightarrow> c AND mask 7 = c"
    unfolding bit_eq_iff by (simp add: bit_simps) blast
  also have "\<dots> \<longleftrightarrow> c < 0x80"
    by (simp add: mask_eq_iff word_less_alt)
  finally show ?thesis .
qed

text \<open>
  The caseless comparison with a lower-case letter accepts that letter in either case and
  nothing else.
\<close>

lemma isASCIIAlphaCaselessEqual_iff:
  assumes "0x61 \<le> l" and "l \<le> 0x7A"
  shows "isASCIIAlphaCaselessEqual c l \<longleftrightarrow> c = l \<or> c = l - 0x20"
proof -
  have l: "unat (l - 0x20) = unat l - 32"
    using assms by (simp add: unat_sub word_le_nat_alt)
  have *: "97 \<le> unat l" "unat l \<le> 122" using assms by (simp_all add: word_le_nat_alt)
  then have "64 \<le> unat l - 32" "unat l - 32 < 96" "unat l - 32 + 32 = unat l" by simp_all
  from case_range [OF this(1) order_refl this(2), of "unat c", unfolded this(3)]
  show ?thesis
    using l * unfolding isASCIIAlphaCaselessEqual_def toASCIILowerUnchecked_def
      word_unat_eq_iff unat_or_0x20 by (auto intro: antisym)
qed

text \<open>Lower-casing changes exactly the upper-case letters, and by the distance of the cases.\<close>

lemma toASCIILower_eq: "toASCIILower c = (if isASCIIUpper c then c + 0x20 else c)"
proof (cases "isASCIIUpper c")
  case True
  then have "65 \<le> unat c" "unat c \<le> 90" by (simp_all add: isASCIIUpper_def word_le_nat_alt)
  then have "unat c div 32 = 2" by simp
  then have "\<not> bit c 5"
    by (simp add: bit5_unat)
  with True show ?thesis by (simp add: toASCIILower_def push_bit_eq_mult or_0x20)
next
  case False
  then show ?thesis by (simp add: toASCIILower_def)
qed

lemma toASCIILower_not_upper [simp]: "\<not> isASCIIUpper (toASCIILower c)"
  unfolding toASCIILower_eq isASCIIUpper_def word_le_nat_alt
  by (simp add: unat_word_ariths)

lemma toASCIILower_zero_iff [simp]: "toASCIILower c = 0 \<longleftrightarrow> c = 0"
  unfolding toASCIILower_eq isASCIIUpper_def word_le_nat_alt word_unat_eq_iff
  by (simp add: unat_word_ariths)

end
