(* ===== verification/Html_Token.thy ===== *)
theory Html_Token
  imports Wtf_Ascii
begin

text \<open>
  The token the tokenizer fills in: \<open>HTMLToken\<close> of \<open>Source/WebCore/html/parser/HTMLToken.h\<close>.

  The model follows a build with assertions enabled, in which \<open>m_currentAttribute\<close> is reset to
  null; the pointer is the index of the attribute it points at. The ghost field \<open>tok_asserts\<close>
  stays \<open>True\<close> as long as every \<open>ASSERT\<close> held and no null pointer was dereferenced, the assertion
  that an offset is not zero apart, which has a field of its own, \<open>tok_offsetAsserts\<close>.
\<close>

section \<open>The members of the class\<close>

record DoctypeData =
  hasPublicIdentifier :: bool
  hasSystemIdentifier :: bool
  publicIdentifier :: "uchar list"
  systemIdentifier :: "uchar list"
  forceQuirks :: bool

datatype TokenType = Uninitialized | DOCTYPE | StartTag | EndTag | Comment | Character | EndOfFile

record Attribute =
  attr_name :: "uchar list"
  attr_value :: "uchar list"
  startOffset :: unsigned
  endOffset :: unsigned

record HTMLToken =
  m_type :: TokenType
  m_data :: "uchar list"
  m_data8BitCheck :: uchar
  m_selfClosing :: bool
  m_attributes :: "Attribute list"
  m_currentAttribute :: "nat option"
  m_doctypeData :: "DoctypeData option"
  m_attributeBaseOffset :: unsigned
  tok_asserts :: bool
  tok_offsetAsserts :: bool

definition tok_assert :: "bool \<Rightarrow> HTMLToken \<Rightarrow> HTMLToken" where
  "tok_assert b t = t\<lparr>tok_asserts := tok_asserts t \<and> b\<rparr>"

definition tok_assertOffset :: "unsigned \<Rightarrow> HTMLToken \<Rightarrow> HTMLToken" where
  "tok_assertOffset offset t = t\<lparr>tok_offsetAsserts := tok_offsetAsserts t \<and> offset \<noteq> 0\<rparr>"

section \<open>Construction and the end of the file\<close>

text \<open>The members the constructor leaves uninitialised have an arbitrary value, here a fixed one.\<close>

definition HTMLToken_new :: HTMLToken where
  "HTMLToken_new = \<lparr>m_type = Uninitialized, m_data = [], m_data8BitCheck = 0, m_selfClosing = False,
     m_attributes = [], m_currentAttribute = None, m_doctypeData = None, m_attributeBaseOffset = 0,
     tok_asserts = True, tok_offsetAsserts = True\<rparr>"

definition HTMLToken_clear :: "HTMLToken \<Rightarrow> HTMLToken" where
  "HTMLToken_clear t = t\<lparr>m_type := Uninitialized, m_data := [], m_data8BitCheck := 0\<rparr>"

definition makeEndOfFile :: "HTMLToken \<Rightarrow> HTMLToken" where
  "makeEndOfFile t = (tok_assert (m_type t = Uninitialized) t)\<lparr>m_type := EndOfFile\<rparr>"

definition appendData :: "uchar \<Rightarrow> HTMLToken \<Rightarrow> HTMLToken" where
  "appendData character t =
     t\<lparr>m_data := m_data t @ [character], m_data8BitCheck := m_data8BitCheck t OR character\<rparr>"

definition isTag :: "HTMLToken \<Rightarrow> bool" where
  "isTag t \<longleftrightarrow> m_type t = StartTag \<or> m_type t = EndTag"

definition appendToName :: "uchar \<Rightarrow> HTMLToken \<Rightarrow> HTMLToken" where
  "appendToName character t =
     appendData character (tok_assert ((isTag t \<or> m_type t = DOCTYPE) \<and> character \<noteq> 0) t)"

section \<open>DOCTYPE tokens\<close>

text \<open>An access through \<open>m_doctypeData\<close>: null is recorded as a failed assertion.\<close>

definition updateDoctypeData :: "(DoctypeData \<Rightarrow> DoctypeData) \<Rightarrow> HTMLToken \<Rightarrow> HTMLToken" where
  "updateDoctypeData f t =
     (case m_doctypeData t of
        None \<Rightarrow> tok_assert False t
      | Some d \<Rightarrow> t\<lparr>m_doctypeData := Some (f d)\<rparr>)"

definition setForceQuirks :: "HTMLToken \<Rightarrow> HTMLToken" where
  "setForceQuirks t =
     updateDoctypeData (\<lambda>d. d\<lparr>forceQuirks := True\<rparr>) (tok_assert (m_type t = DOCTYPE) t)"

definition beginDOCTYPE :: "HTMLToken \<Rightarrow> HTMLToken" where
  "beginDOCTYPE t =
     (tok_assert (m_type t = Uninitialized) t)
       \<lparr>m_type := DOCTYPE,
        m_doctypeData := Some \<lparr>hasPublicIdentifier = False, hasSystemIdentifier = False,
          publicIdentifier = [], systemIdentifier = [], forceQuirks = False\<rparr>\<rparr>"

definition beginDOCTYPE_char :: "uchar \<Rightarrow> HTMLToken \<Rightarrow> HTMLToken" where
  "beginDOCTYPE_char character t =
     appendData character (beginDOCTYPE (tok_assert (character \<noteq> 0) t))"

definition setPublicIdentifierToEmptyString :: "HTMLToken \<Rightarrow> HTMLToken" where
  "setPublicIdentifierToEmptyString t =
     updateDoctypeData (\<lambda>d. d\<lparr>hasPublicIdentifier := True, publicIdentifier := []\<rparr>)
       (tok_assert (m_type t = DOCTYPE) t)"

definition setSystemIdentifierToEmptyString :: "HTMLToken \<Rightarrow> HTMLToken" where
  "setSystemIdentifierToEmptyString t =
     updateDoctypeData (\<lambda>d. d\<lparr>hasSystemIdentifier := True, systemIdentifier := []\<rparr>)
       (tok_assert (m_type t = DOCTYPE) t)"

definition doctypeHas :: "(DoctypeData \<Rightarrow> bool) \<Rightarrow> HTMLToken \<Rightarrow> bool" where
  "doctypeHas P t = (case m_doctypeData t of None \<Rightarrow> False | Some d \<Rightarrow> P d)"

definition appendToPublicIdentifier :: "uchar \<Rightarrow> HTMLToken \<Rightarrow> HTMLToken" where
  "appendToPublicIdentifier character t =
     updateDoctypeData (\<lambda>d. d\<lparr>publicIdentifier := publicIdentifier d @ [character]\<rparr>)
       (tok_assert (character \<noteq> 0 \<and> m_type t = DOCTYPE \<and> doctypeHas hasPublicIdentifier t) t)"

definition appendToSystemIdentifier :: "uchar \<Rightarrow> HTMLToken \<Rightarrow> HTMLToken" where
  "appendToSystemIdentifier character t =
     updateDoctypeData (\<lambda>d. d\<lparr>systemIdentifier := systemIdentifier d @ [character]\<rparr>)
       (tok_assert (character \<noteq> 0 \<and> m_type t = DOCTYPE \<and> doctypeHas hasSystemIdentifier t) t)"

definition releaseDoctypeData :: "HTMLToken \<Rightarrow> DoctypeData option \<times> HTMLToken" where
  "releaseDoctypeData t = (m_doctypeData t, t\<lparr>m_doctypeData := None\<rparr>)"

section \<open>Tags and attributes\<close>

definition setSelfClosing :: "HTMLToken \<Rightarrow> HTMLToken" where
  "setSelfClosing t = (tok_assert (isTag t) t)\<lparr>m_selfClosing := True\<rparr>"

definition beginStartTag :: "uchar \<Rightarrow> HTMLToken \<Rightarrow> HTMLToken" where
  "beginStartTag character t =
     (tok_assert (character \<noteq> 0 \<and> m_type t = Uninitialized) t)
       \<lparr>m_type := StartTag, m_selfClosing := False, m_attributes := [], m_currentAttribute := None,
        m_data := m_data t @ [character], m_data8BitCheck := character\<rparr>"

definition beginEndTag_vector :: "lchar list \<Rightarrow> HTMLToken \<Rightarrow> HTMLToken" where
  "beginEndTag_vector characters t =
     (tok_assert (m_type t = Uninitialized) t)
       \<lparr>m_type := EndTag, m_selfClosing := False, m_attributes := [], m_currentAttribute := None,
        m_data := m_data t @ map ucast characters\<rparr>"

definition beginEndTag :: "lchar \<Rightarrow> HTMLToken \<Rightarrow> HTMLToken" where
  "beginEndTag character t =
     (tok_assert (m_type t = Uninitialized) t)
       \<lparr>m_type := EndTag, m_selfClosing := False, m_attributes := [], m_currentAttribute := None,
        m_data := m_data t @ [ucast character]\<rparr>"

definition beginAttribute :: "unsigned \<Rightarrow> HTMLToken \<Rightarrow> HTMLToken" where
  "beginAttribute offset t0 =
     (let t = tok_assertOffset offset (tok_assert (isTag t0) t0) in
      t\<lparr>m_attributes := m_attributes t @
           [\<lparr>attr_name = [], attr_value = [], startOffset = offset - m_attributeBaseOffset t, endOffset = 0\<rparr>],
        m_currentAttribute := Some (length (m_attributes t))\<rparr>)"

text \<open>An access through \<open>m_currentAttribute\<close>: null is recorded as a failed assertion.\<close>

definition updateCurrentAttribute :: "(Attribute \<Rightarrow> Attribute) \<Rightarrow> HTMLToken \<Rightarrow> HTMLToken" where
  "updateCurrentAttribute f t =
     (case m_currentAttribute t of
        None \<Rightarrow> tok_assert False t
      | Some i \<Rightarrow> (tok_assert (i < length (m_attributes t)) t)
          \<lparr>m_attributes := (m_attributes t)[i := f (m_attributes t ! i)]\<rparr>)"

definition endAttribute :: "unsigned \<Rightarrow> HTMLToken \<Rightarrow> HTMLToken" where
  "endAttribute offset t0 =
     (let t = tok_assertOffset offset t0 in
      (updateCurrentAttribute (\<lambda>a. a\<lparr>endOffset := offset - m_attributeBaseOffset t\<rparr>) t)
        \<lparr>m_currentAttribute := None\<rparr>)"

definition appendToAttributeName :: "uchar \<Rightarrow> HTMLToken \<Rightarrow> HTMLToken" where
  "appendToAttributeName character t =
     updateCurrentAttribute (\<lambda>a. a\<lparr>attr_name := attr_name a @ [character]\<rparr>)
       (tok_assert (character \<noteq> 0 \<and> isTag t) t)"

definition appendToAttributeValue :: "uchar \<Rightarrow> HTMLToken \<Rightarrow> HTMLToken" where
  "appendToAttributeValue character t =
     updateCurrentAttribute (\<lambda>a. a\<lparr>attr_value := attr_value a @ [character]\<rparr>)
       (tok_assert (character \<noteq> 0 \<and> isTag t) t)"

text \<open>The two operations of the XSS auditor; an index out of range is a failed assertion.\<close>

definition appendToAttributeValue_at :: "nat \<Rightarrow> uchar list \<Rightarrow> HTMLToken \<Rightarrow> HTMLToken" where
  "appendToAttributeValue_at i value t =
     (tok_assert (value \<noteq> [] \<and> isTag t \<and> i < length (m_attributes t)) t)
       \<lparr>m_attributes := (m_attributes t)
          [i := (m_attributes t ! i)\<lparr>attr_value := attr_value (m_attributes t ! i) @ value\<rparr>]\<rparr>"

definition eraseValueOfAttribute :: "nat \<Rightarrow> HTMLToken \<Rightarrow> HTMLToken" where
  "eraseValueOfAttribute i t =
     (tok_assert (isTag t \<and> i < length (m_attributes t)) t)
       \<lparr>m_attributes := (m_attributes t)[i := (m_attributes t ! i)\<lparr>attr_value := []\<rparr>]\<rparr>"

definition setAttributeBaseOffset :: "unsigned \<Rightarrow> HTMLToken \<Rightarrow> HTMLToken" where
  "setAttributeBaseOffset attributeBaseOffset t = t\<lparr>m_attributeBaseOffset := attributeBaseOffset\<rparr>"

section \<open>Character and comment tokens\<close>

definition charactersIsAll8BitData :: "HTMLToken \<Rightarrow> bool" where
  "charactersIsAll8BitData t \<longleftrightarrow> m_data8BitCheck t \<le> 0xFF"

definition appendToCharacter_LChar :: "lchar \<Rightarrow> HTMLToken \<Rightarrow> HTMLToken" where
  "appendToCharacter_LChar character t =
     (tok_assert (m_type t = Uninitialized \<or> m_type t = Character) t)
       \<lparr>m_type := Character, m_data := m_data t @ [ucast character]\<rparr>"

definition appendToCharacter :: "uchar \<Rightarrow> HTMLToken \<Rightarrow> HTMLToken" where
  "appendToCharacter character t =
     appendData character
       ((tok_assert (m_type t = Uninitialized \<or> m_type t = Character) t)\<lparr>m_type := Character\<rparr>)"

definition appendToCharacter_vector :: "lchar list \<Rightarrow> HTMLToken \<Rightarrow> HTMLToken" where
  "appendToCharacter_vector characters t =
     (tok_assert (m_type t = Uninitialized \<or> m_type t = Character) t)
       \<lparr>m_type := Character, m_data := m_data t @ map ucast characters\<rparr>"

definition commentIsAll8BitData :: "HTMLToken \<Rightarrow> bool" where
  "commentIsAll8BitData t \<longleftrightarrow> m_data8BitCheck t \<le> 0xFF"

definition beginComment :: "HTMLToken \<Rightarrow> HTMLToken" where
  "beginComment t = (tok_assert (m_type t = Uninitialized) t)\<lparr>m_type := Comment\<rparr>"

definition appendToComment :: "uchar \<Rightarrow> HTMLToken \<Rightarrow> HTMLToken" where
  "appendToComment character t =
     appendData character (tok_assert (character \<noteq> 0 \<and> m_type t = Comment) t)"

section \<open>Finding an attribute\<close>

definition nameMatches :: "Attribute \<Rightarrow> uchar list \<Rightarrow> bool" where
  "nameMatches attribute name \<longleftrightarrow> length (attr_name attribute) = length name \<and>
     (\<forall>i < length name. attr_name attribute ! i = name ! i)"

fun findAttribute :: "Attribute list \<Rightarrow> uchar list \<Rightarrow> Attribute option" where
  "findAttribute [] name = None"
| "findAttribute (attribute # attributes) name =
     (if nameMatches attribute name then Some attribute else findAttribute attributes name)"

lemmas [token_defs] = tok_assert_def tok_assertOffset_def HTMLToken_clear_def makeEndOfFile_def
  appendData_def appendToName_def updateDoctypeData_def setForceQuirks_def beginDOCTYPE_def
  beginDOCTYPE_char_def setPublicIdentifierToEmptyString_def setSystemIdentifierToEmptyString_def
  appendToPublicIdentifier_def appendToSystemIdentifier_def setSelfClosing_def beginStartTag_def
  beginEndTag_vector_def beginEndTag_def beginAttribute_def updateCurrentAttribute_def
  endAttribute_def appendToAttributeName_def appendToAttributeValue_def setAttributeBaseOffset_def
  appendToCharacter_LChar_def appendToCharacter_def appendToCharacter_vector_def beginComment_def
  appendToComment_def doctypeHas_def isTag_def

end
