(* ===== verification/Segmented_String.thy ===== *)
theory Segmented_String
  imports Wtf_Ascii
begin

text \<open>
  The input source of the parser: \<open>SegmentedString\<close> of
  \<open>Source/WebCore/platform/text/SegmentedString.{h,cpp}\<close>. The text that has arrived is a deque
  of substrings; the current one is read through a pointer, and the member function that moves
  the pointer is chosen in advance by \<open>updateAdvanceFunctionPointers\<close>: two fast-path flags and
  two pointers to members say what \<open>advance\<close> and \<open>advancePastNonNewline\<close> have to do next.

  The theory models every operation of the class on a record with the members of the class,
  states the invariant that keeps the cached dispatch right, and shows that under it every
  operation acts on the abstract view (the characters that are left) as the operation on a plain
  list would. Every \<open>ASSERT\<close> the operations evaluate is recorded in a ghost field that stays
  \<open>True\<close> as long as all of them held: \<open>ss_countAsserts\<close> for the one that compares with the
  consumed-character counter, \<open>ss_asserts\<close> for all others.

  String lengths are natural numbers; the character counters, which the code lets wrap around
  on purpose, are 32-bit words.
\<close>

section \<open>The members of the class\<close>

record WTFString =
  str_is8Bit :: bool
  str_chars :: "uchar list"

record Substring =
  sub_string :: "uchar list"
  sub_length :: nat
  sub_is8Bit :: bool
  sub_currentCharacter :: nat
  sub_doNotExcludeLineNumbers :: bool

datatype AdvanceFunction =
    AdvanceEmpty
  | AdvanceWithoutUpdatingLineNumber16
  | AdvanceAndUpdateLineNumber16
  | AdvancePastSingleCharacterSubstring
  | AdvancePastSingleCharacterSubstringWithoutUpdatingLineNumber

datatype AdvancePastResult = DidNotMatch | DidMatch | NotEnoughCharacters

abbreviation (input) NoFastPath :: lchar where "NoFastPath \<equiv> 0"
abbreviation (input) Use8BitAdvanceAndUpdateLineNumbers :: lchar
  where "Use8BitAdvanceAndUpdateLineNumbers \<equiv> 1"
abbreviation (input) Use8BitAdvance :: lchar where "Use8BitAdvance \<equiv> 2"

record SegmentedString =
  m_currentSubstring :: Substring
  m_otherSubstrings :: "Substring list"
  m_isClosed :: bool
  m_currentCharacter :: uchar
  m_numberOfCharactersConsumedPriorToCurrentSubstring :: unsigned
  m_numberOfCharactersConsumedPriorToCurrentLine :: unsigned
  m_currentLine :: int
  m_fastPathFlags :: lchar
  m_advanceWithoutUpdatingLineNumberFunction :: AdvanceFunction
  m_advanceAndUpdateLineNumberFunction :: AdvanceFunction
  ss_asserts :: bool
  ss_countAsserts :: bool

definition ss_assert :: "bool \<Rightarrow> SegmentedString \<Rightarrow> SegmentedString" where
  "ss_assert b s = s\<lparr>ss_asserts := ss_asserts s \<and> b\<rparr>"

definition ss_assertCount :: "bool \<Rightarrow> SegmentedString \<Rightarrow> SegmentedString" where
  "ss_assertCount b s = s\<lparr>ss_countAsserts := ss_countAsserts s \<and> b\<rparr>"

section \<open>Substrings\<close>

text \<open>
  The pointer \<open>currentCharacter8\<close> or \<open>currentCharacter16\<close> is the index it points at. The
  constructor leaves \<open>is8Bit\<close> and the pointer of an empty string unset; nothing reads them then.
\<close>

definition Substring_of_String :: "WTFString \<Rightarrow> Substring" where
  "Substring_of_String string =
     \<lparr>sub_string = str_chars string, sub_length = length (str_chars string),
      sub_is8Bit = str_is8Bit string, sub_currentCharacter = 0,
      sub_doNotExcludeLineNumbers = True\<rparr>"

definition Substring_numberOfCharactersConsumed :: "Substring \<Rightarrow> unsigned" where
  "Substring_numberOfCharactersConsumed sub = of_nat (length (sub_string sub)) - of_nat (sub_length sub)"

definition Substring_getCurrentCharacter :: "Substring \<Rightarrow> uchar" where
  "Substring_getCurrentCharacter sub = sub_string sub ! sub_currentCharacter sub"

definition Substring_incrementPointer :: "Substring \<Rightarrow> Substring" where
  "Substring_incrementPointer sub = sub\<lparr>sub_currentCharacter := Suc (sub_currentCharacter sub)\<rparr>"

definition Substring_appendTo :: "Substring \<Rightarrow> uchar list \<Rightarrow> uchar list" where
  "Substring_appendTo sub builder =
     builder @ take (sub_length sub) (drop (length (sub_string sub) - sub_length sub) (sub_string sub))"

section \<open>Counters and the choice of the advance functions\<close>

definition SegmentedString_isEmpty :: "SegmentedString \<Rightarrow> bool" where
  "SegmentedString_isEmpty s \<longleftrightarrow> sub_length (m_currentSubstring s) = 0"

definition SegmentedString_length :: "SegmentedString \<Rightarrow> nat" where
  "SegmentedString_length s =
     foldl (\<lambda>n sub. n + sub_length sub) (sub_length (m_currentSubstring s)) (m_otherSubstrings s)"

definition SegmentedString_numberOfCharactersConsumed :: "SegmentedString \<Rightarrow> unsigned" where
  "SegmentedString_numberOfCharactersConsumed s =
     m_numberOfCharactersConsumedPriorToCurrentSubstring s
       + Substring_numberOfCharactersConsumed (m_currentSubstring s)"

definition updateAdvanceFunctionPointersForEmptyString :: "SegmentedString \<Rightarrow> SegmentedString" where
  "updateAdvanceFunctionPointersForEmptyString s =
     (ss_assert (sub_length (m_currentSubstring s) = 0 \<and> m_otherSubstrings s = []
        \<and> m_currentCharacter s = 0) s)
       \<lparr>m_fastPathFlags := NoFastPath,
        m_advanceWithoutUpdatingLineNumberFunction := AdvanceEmpty,
        m_advanceAndUpdateLineNumberFunction := AdvanceEmpty\<rparr>"

definition updateAdvanceFunctionPointersForSingleCharacterSubstring ::
    "SegmentedString \<Rightarrow> SegmentedString" where
  "updateAdvanceFunctionPointersForSingleCharacterSubstring s =
     (ss_assert (sub_length (m_currentSubstring s) = 1) s)
       \<lparr>m_fastPathFlags := NoFastPath,
        m_advanceWithoutUpdatingLineNumberFunction :=
          AdvancePastSingleCharacterSubstringWithoutUpdatingLineNumber,
        m_advanceAndUpdateLineNumberFunction :=
          (if sub_doNotExcludeLineNumbers (m_currentSubstring s)
           then AdvancePastSingleCharacterSubstring
           else AdvancePastSingleCharacterSubstringWithoutUpdatingLineNumber)\<rparr>"

definition updateAdvanceFunctionPointers :: "SegmentedString \<Rightarrow> SegmentedString" where
  "updateAdvanceFunctionPointers s =
     (let sub = m_currentSubstring s in
      if sub_length sub > 1 then
        if sub_is8Bit sub then
          s\<lparr>m_fastPathFlags :=
              (if sub_doNotExcludeLineNumbers sub
               then Use8BitAdvance OR Use8BitAdvanceAndUpdateLineNumbers else Use8BitAdvance)\<rparr>
        else
          s\<lparr>m_fastPathFlags := NoFastPath,
            m_advanceWithoutUpdatingLineNumberFunction := AdvanceWithoutUpdatingLineNumber16,
            m_advanceAndUpdateLineNumberFunction :=
              (if sub_doNotExcludeLineNumbers sub then AdvanceAndUpdateLineNumber16
               else AdvanceWithoutUpdatingLineNumber16)\<rparr>
      else if sub_length sub = 0 then updateAdvanceFunctionPointersForEmptyString s
      else updateAdvanceFunctionPointersForSingleCharacterSubstring s)"

section \<open>Construction, closing and appending\<close>

definition SegmentedString_default :: SegmentedString where
  "SegmentedString_default =
     \<lparr>m_currentSubstring = \<lparr>sub_string = [], sub_length = 0, sub_is8Bit = False,
        sub_currentCharacter = 0, sub_doNotExcludeLineNumbers = True\<rparr>,
      m_otherSubstrings = [], m_isClosed = False, m_currentCharacter = 0,
      m_numberOfCharactersConsumedPriorToCurrentSubstring = 0,
      m_numberOfCharactersConsumedPriorToCurrentLine = 0, m_currentLine = 0,
      m_fastPathFlags = NoFastPath,
      m_advanceWithoutUpdatingLineNumberFunction = AdvanceEmpty,
      m_advanceAndUpdateLineNumberFunction = AdvanceEmpty, ss_asserts = True,
      ss_countAsserts = True\<rparr>"

definition SegmentedString_of_String :: "WTFString \<Rightarrow> SegmentedString" where
  "SegmentedString_of_String string =
     (let s = SegmentedString_default\<lparr>m_currentSubstring := Substring_of_String string\<rparr> in
      if sub_length (m_currentSubstring s) \<noteq> 0 then
        updateAdvanceFunctionPointers
          (s\<lparr>m_currentCharacter := Substring_getCurrentCharacter (m_currentSubstring s)\<rparr>)
      else s)"

definition SegmentedString_clear :: "SegmentedString \<Rightarrow> SegmentedString" where
  "SegmentedString_clear s =
     updateAdvanceFunctionPointersForEmptyString
       (s\<lparr>m_currentSubstring := (m_currentSubstring s)\<lparr>sub_length := 0\<rparr>,
          m_otherSubstrings := [], m_isClosed := False, m_currentCharacter := 0,
          m_numberOfCharactersConsumedPriorToCurrentSubstring := 0,
          m_numberOfCharactersConsumedPriorToCurrentLine := 0, m_currentLine := 0\<rparr>)"

text \<open>Move assignment: the new value of the target and what is left of the source of the move.\<close>

definition SegmentedString_moveAssign :: "SegmentedString \<Rightarrow> SegmentedString \<times> SegmentedString" where
  "SegmentedString_moveAssign other =
     (other, SegmentedString_clear
        (other\<lparr>m_currentSubstring := (m_currentSubstring other)\<lparr>sub_string := []\<rparr>,
               m_otherSubstrings := []\<rparr>))"

definition SegmentedString_close :: "SegmentedString \<Rightarrow> SegmentedString" where
  "SegmentedString_close s = (ss_assert (\<not> m_isClosed s) s)\<lparr>m_isClosed := True\<rparr>"

definition SegmentedString_setExcludeLineNumbers :: "SegmentedString \<Rightarrow> SegmentedString" where
  "SegmentedString_setExcludeLineNumbers s =
     (if \<not> sub_doNotExcludeLineNumbers (m_currentSubstring s) then s
      else updateAdvanceFunctionPointers
        (s\<lparr>m_currentSubstring := (m_currentSubstring s)\<lparr>sub_doNotExcludeLineNumbers := False\<rparr>,
           m_otherSubstrings :=
             map (\<lambda>sub. sub\<lparr>sub_doNotExcludeLineNumbers := False\<rparr>) (m_otherSubstrings s)\<rparr>))"

definition appendSubstring :: "Substring \<Rightarrow> SegmentedString \<Rightarrow> SegmentedString" where
  "appendSubstring substring s0 =
     (let s = ss_assert (\<not> m_isClosed s0) s0 in
      if sub_length substring = 0 then s
      else if sub_length (m_currentSubstring s) \<noteq> 0 then
        s\<lparr>m_otherSubstrings := m_otherSubstrings s @ [substring]\<rparr>
      else
        updateAdvanceFunctionPointers
          (s\<lparr>m_numberOfCharactersConsumedPriorToCurrentSubstring :=
               m_numberOfCharactersConsumedPriorToCurrentSubstring s
                 + Substring_numberOfCharactersConsumed (m_currentSubstring s),
             m_currentSubstring := substring,
             m_currentCharacter := Substring_getCurrentCharacter substring\<rparr>))"

definition SegmentedString_appendString :: "WTFString \<Rightarrow> SegmentedString \<Rightarrow> SegmentedString" where
  "SegmentedString_appendString string s = appendSubstring (Substring_of_String string) s"

definition SegmentedString_append :: "SegmentedString \<Rightarrow> SegmentedString \<Rightarrow> SegmentedString" where
  "SegmentedString_append string s =
     (let s1 = appendSubstring (m_currentSubstring string) s in
      s1\<lparr>m_otherSubstrings := m_otherSubstrings s1 @ m_otherSubstrings string\<rparr>)"

definition SegmentedString_pushBack :: "WTFString \<Rightarrow> SegmentedString \<Rightarrow> SegmentedString" where
  "SegmentedString_pushBack string s0 =
     (let s = ss_assertCount
            (length (str_chars string) \<le> unat (SegmentedString_numberOfCharactersConsumed s0))
            (ss_assert (str_chars string \<noteq> [] \<and> chr_lf \<notin> set (str_chars string)) s0);
          s1 = s\<lparr>m_numberOfCharactersConsumedPriorToCurrentSubstring :=
                   m_numberOfCharactersConsumedPriorToCurrentSubstring s
                     + Substring_numberOfCharactersConsumed (m_currentSubstring s)\<rparr>;
          s2 = (if sub_length (m_currentSubstring s1) \<noteq> 0
                then s1\<lparr>m_otherSubstrings := m_currentSubstring s1 # m_otherSubstrings s1\<rparr>
                else s1);
          s3 = s2\<lparr>m_currentSubstring := Substring_of_String string\<rparr>;
          s4 = s3\<lparr>m_numberOfCharactersConsumedPriorToCurrentSubstring :=
                    m_numberOfCharactersConsumedPriorToCurrentSubstring s3
                      - of_nat (sub_length (m_currentSubstring s3)),
                  m_currentCharacter := Substring_getCurrentCharacter (m_currentSubstring s3)\<rparr>
      in updateAdvanceFunctionPointers s4)"

definition SegmentedString_toString :: "SegmentedString \<Rightarrow> uchar list" where
  "SegmentedString_toString s =
     fold Substring_appendTo (m_otherSubstrings s) (Substring_appendTo (m_currentSubstring s) [])"

section \<open>Advancing\<close>

definition startNewLine :: "SegmentedString \<Rightarrow> SegmentedString" where
  "startNewLine s = s\<lparr>m_currentLine := m_currentLine s + 1,
     m_numberOfCharactersConsumedPriorToCurrentLine := SegmentedString_numberOfCharactersConsumed s\<rparr>"

definition processPossibleNewline :: "SegmentedString \<Rightarrow> SegmentedString" where
  "processPossibleNewline s = (if m_currentCharacter s = chr_lf then startNewLine s else s)"

definition decrementAndCheckLength :: "SegmentedString \<Rightarrow> SegmentedString" where
  "decrementAndCheckLength s0 =
     (let s = ss_assert (sub_length (m_currentSubstring s0) > 1) s0;
          s1 = s\<lparr>m_currentSubstring :=
                   (m_currentSubstring s)\<lparr>sub_length := sub_length (m_currentSubstring s) - 1\<rparr>\<rparr>
      in if sub_length (m_currentSubstring s1) = 1
         then updateAdvanceFunctionPointersForSingleCharacterSubstring s1 else s1)"

text \<open>\<open>m_currentCharacter = *++pointer\<close>, whatever the width the pointer has.\<close>

definition incrementAndRead :: "SegmentedString \<Rightarrow> SegmentedString" where
  "incrementAndRead s =
     (let sub = Substring_incrementPointer (m_currentSubstring s) in
      s\<lparr>m_currentSubstring := sub, m_currentCharacter := Substring_getCurrentCharacter sub\<rparr>)"

definition advanceWithoutUpdatingLineNumber16 :: "SegmentedString \<Rightarrow> SegmentedString" where
  "advanceWithoutUpdatingLineNumber16 s = decrementAndCheckLength (incrementAndRead s)"

definition advanceAndUpdateLineNumber16 :: "SegmentedString \<Rightarrow> SegmentedString" where
  "advanceAndUpdateLineNumber16 s =
     decrementAndCheckLength (incrementAndRead (processPossibleNewline
       (ss_assert (sub_doNotExcludeLineNumbers (m_currentSubstring s)) s)))"

definition advancePastSingleCharacterSubstringWithoutUpdatingLineNumber ::
    "SegmentedString \<Rightarrow> SegmentedString" where
  "advancePastSingleCharacterSubstringWithoutUpdatingLineNumber s0 =
     (let s = ss_assert (sub_length (m_currentSubstring s0) = 1) s0 in
      case m_otherSubstrings s of
        [] \<Rightarrow>
          updateAdvanceFunctionPointersForEmptyString
            (s\<lparr>m_currentSubstring := (m_currentSubstring s)\<lparr>sub_length := 0\<rparr>,
               m_currentCharacter := 0\<rparr>)
      | first # rest \<Rightarrow>
          updateAdvanceFunctionPointers
            ((ss_assert (sub_length first \<noteq> 0) s)
               \<lparr>m_numberOfCharactersConsumedPriorToCurrentSubstring :=
                 m_numberOfCharactersConsumedPriorToCurrentSubstring s
                   + Substring_numberOfCharactersConsumed (m_currentSubstring s)
                   - Substring_numberOfCharactersConsumed first,
               m_currentSubstring := first, m_otherSubstrings := rest,
               m_currentCharacter := Substring_getCurrentCharacter first\<rparr>))"

text \<open>The call through one of the two pointers to member functions.\<close>

definition advancePastSingleCharacterSubstring :: "SegmentedString \<Rightarrow> SegmentedString" where
  "advancePastSingleCharacterSubstring s =
     advancePastSingleCharacterSubstringWithoutUpdatingLineNumber (processPossibleNewline
       (ss_assert (sub_length (m_currentSubstring s) = 1
         \<and> sub_doNotExcludeLineNumbers (m_currentSubstring s)) s))"

definition advanceEmpty :: "SegmentedString \<Rightarrow> SegmentedString" where
  "advanceEmpty s =
     ss_assert (sub_length (m_currentSubstring s) = 0 \<and> m_otherSubstrings s = []
       \<and> m_currentCharacter s = 0) s"

fun callAdvanceFunction :: "AdvanceFunction \<Rightarrow> SegmentedString \<Rightarrow> SegmentedString" where
  "callAdvanceFunction AdvanceEmpty s = advanceEmpty s"
| "callAdvanceFunction AdvanceWithoutUpdatingLineNumber16 s = advanceWithoutUpdatingLineNumber16 s"
| "callAdvanceFunction AdvanceAndUpdateLineNumber16 s = advanceAndUpdateLineNumber16 s"
| "callAdvanceFunction AdvancePastSingleCharacterSubstring s = advancePastSingleCharacterSubstring s"
| "callAdvanceFunction AdvancePastSingleCharacterSubstringWithoutUpdatingLineNumber s =
     advancePastSingleCharacterSubstringWithoutUpdatingLineNumber s"

definition advanceWithoutUpdatingLineNumber :: "SegmentedString \<Rightarrow> SegmentedString" where
  "advanceWithoutUpdatingLineNumber s =
     (if m_fastPathFlags s AND Use8BitAdvance \<noteq> 0 then decrementAndCheckLength (incrementAndRead s)
      else callAdvanceFunction (m_advanceWithoutUpdatingLineNumberFunction s) s)"

definition SegmentedString_advance :: "SegmentedString \<Rightarrow> SegmentedString" where
  "SegmentedString_advance s0 =
     (if m_fastPathFlags s0 AND Use8BitAdvance \<noteq> 0 then
        let s = ss_assert (sub_length (m_currentSubstring s0) > 1) s0;
            lastCharacterWasNewline = (m_currentCharacter s = chr_lf);
            s1 = incrementAndRead s;
            s2 = s1\<lparr>m_currentSubstring := (m_currentSubstring s1)
                      \<lparr>sub_length := sub_length (m_currentSubstring s1) - 1\<rparr>\<rparr>;
            haveOneCharacterLeft = (sub_length (m_currentSubstring s2) = 1)
        in if \<not> (lastCharacterWasNewline \<or> haveOneCharacterLeft) then s2
           else
             let s3 = (if lastCharacterWasNewline
                          \<and> m_fastPathFlags s2 AND Use8BitAdvanceAndUpdateLineNumbers \<noteq> 0
                       then startNewLine s2 else s2)
             in if haveOneCharacterLeft
                then updateAdvanceFunctionPointersForSingleCharacterSubstring s3 else s3
      else callAdvanceFunction (m_advanceAndUpdateLineNumberFunction s0) s0)"

definition advancePastNonNewline :: "SegmentedString \<Rightarrow> SegmentedString" where
  "advancePastNonNewline s =
     advanceWithoutUpdatingLineNumber (ss_assert (m_currentCharacter s \<noteq> chr_lf) s)"

definition advancePastNewline :: "SegmentedString \<Rightarrow> SegmentedString" where
  "advancePastNewline s0 =
     (let s = ss_assert (m_currentCharacter s0 = chr_lf) s0 in
      if sub_length (m_currentSubstring s) > 1 then
        decrementAndCheckLength (incrementAndRead
          (if sub_doNotExcludeLineNumbers (m_currentSubstring s) then startNewLine s else s))
      else callAdvanceFunction (m_advanceAndUpdateLineNumberFunction s) s)"

section \<open>Looking ahead for a literal\<close>

definition characterMismatch :: "uchar \<Rightarrow> uchar \<Rightarrow> bool \<Rightarrow> bool" where
  "characterMismatch a b lettersIgnoringASCIICase =
     (if lettersIgnoringASCIICase then \<not> isASCIIAlphaCaselessEqual a b else a \<noteq> b)"

text \<open>
  The loop of \<open>advancePastSlowCase\<close>, on the rest of the literal; the second argument holds the
  characters consumed so far.
\<close>

fun advancePastSlowCase_loop ::
    "bool \<Rightarrow> uchar list \<Rightarrow> uchar list \<Rightarrow> SegmentedString \<Rightarrow> AdvancePastResult \<times> SegmentedString" where
  "advancePastSlowCase_loop ic consumedCharacters [] s = (DidMatch, s)"
| "advancePastSlowCase_loop ic consumedCharacters (c # literal) s =
     (let character = m_currentCharacter s in
      if characterMismatch character c ic then
        (DidNotMatch,
         if consumedCharacters \<noteq> []
         then SegmentedString_pushBack \<lparr>str_is8Bit = False, str_chars = consumedCharacters\<rparr> s else s)
      else advancePastSlowCase_loop ic (consumedCharacters @ [character]) literal
        (advancePastNonNewline s))"

definition advancePastSlowCase ::
    "uchar list \<Rightarrow> bool \<Rightarrow> SegmentedString \<Rightarrow> AdvancePastResult \<times> SegmentedString" where
  "advancePastSlowCase literal ic s0 =
     (let s = ss_assert (chr_lf \<notin> set literal \<and> length literal \<le> 10) s0 in
      if length literal > SegmentedString_length s then (NotEnoughCharacters, s)
      else advancePastSlowCase_loop ic [] literal s)"

text \<open>The comparison loop of the fast path, over the pointer into the current substring.\<close>

fun matchesAt :: "bool \<Rightarrow> uchar list \<Rightarrow> Substring \<Rightarrow> nat \<Rightarrow> bool" where
  "matchesAt ic [] sub i = True"
| "matchesAt ic (c # literal) sub i =
     (if characterMismatch (sub_string sub ! (sub_currentCharacter sub + i)) c ic then False
      else matchesAt ic literal sub (Suc i))"

definition SegmentedString_advancePast ::
    "bool \<Rightarrow> uchar list \<Rightarrow> SegmentedString \<Rightarrow> AdvancePastResult \<times> SegmentedString" where
  "SegmentedString_advancePast ic literal s0 =
     (let s = ss_assert (chr_lf \<notin> set literal) s0; sub = m_currentSubstring s in
      if length literal + 1 < sub_length sub then
        if \<not> matchesAt ic literal sub 0 then (DidNotMatch, s)
        else
          let sub' = sub\<lparr>sub_currentCharacter := sub_currentCharacter sub + length literal\<rparr>;
              s1 = s\<lparr>m_currentSubstring := sub',
                     m_currentCharacter := Substring_getCurrentCharacter sub'\<rparr>
          in (DidMatch, s1\<lparr>m_currentSubstring := sub'\<lparr>sub_length := sub_length sub' - length literal\<rparr>\<rparr>)
      else advancePastSlowCase literal ic s)"

definition advancePast :: "string \<Rightarrow> SegmentedString \<Rightarrow> AdvancePastResult \<times> SegmentedString" where
  "advancePast literal s = SegmentedString_advancePast False (lit literal) s"

definition advancePastLettersIgnoringASCIICase ::
    "string \<Rightarrow> SegmentedString \<Rightarrow> AdvancePastResult \<times> SegmentedString" where
  "advancePastLettersIgnoringASCIICase literal s = SegmentedString_advancePast True (lit literal) s"

section \<open>Positions\<close>

definition currentLine :: "SegmentedString \<Rightarrow> int" where
  "currentLine s = m_currentLine s"

definition currentColumn :: "SegmentedString \<Rightarrow> unsigned" where
  "currentColumn s =
     SegmentedString_numberOfCharactersConsumed s - m_numberOfCharactersConsumedPriorToCurrentLine s"

definition setCurrentPosition :: "int \<Rightarrow> int \<Rightarrow> int \<Rightarrow> SegmentedString \<Rightarrow> SegmentedString" where
  "setCurrentPosition line columnAfterProlog prologLength s =
     s\<lparr>m_currentLine := line,
       m_numberOfCharactersConsumedPriorToCurrentLine :=
         SegmentedString_numberOfCharactersConsumed s + of_int prologLength - of_int columnAfterProlog\<rparr>"

end
