(* ===== verification/Segmented_String_View.thy ===== *)
theory Segmented_String_View
  imports Segmented_String
begin

text \<open>
  The abstract view of the input source: the list of the characters that are still to be read.
  The theory states the representation invariant \<open>ss_inv\<close> (every substring is consistent, no
  queued substring is empty, the cached current character and the cached dispatch fit the current
  substring), shows that every operation of \<open>Segmented_String\<close> keeps it, and that every operation
  acts on the view as the corresponding operation on a list. The interface that the readers of
  the source rely on is the locale \<open>input_source\<close>, interpreted here on the class. The last part
  is about the counters behind line and column numbers.
\<close>

section \<open>Invariant and view\<close>

definition sub_inv :: "Substring \<Rightarrow> bool" where
  "sub_inv sub \<longleftrightarrow> sub_length sub \<le> length (sub_string sub) \<and>
     (0 < sub_length sub \<longrightarrow> sub_currentCharacter sub + sub_length sub = length (sub_string sub))"

definition sub_rest :: "Substring \<Rightarrow> uchar list" where
  "sub_rest sub = drop (length (sub_string sub) - sub_length sub) (sub_string sub)"

definition ss_chars :: "SegmentedString \<Rightarrow> uchar list" where
  "ss_chars s = sub_rest (m_currentSubstring s) @ concat (map sub_rest (m_otherSubstrings s))"

definition first_char :: "uchar list \<Rightarrow> uchar" where
  "first_char cs = (case cs of [] \<Rightarrow> 0 | c # _ \<Rightarrow> c)"

definition dispatch_ok :: "SegmentedString \<Rightarrow> bool" where
  "dispatch_ok s =
     (let sub = m_currentSubstring s; dne = sub_doNotExcludeLineNumbers sub in
      if sub_length sub > 1 then
        if sub_is8Bit sub then m_fastPathFlags s = (if dne then 3 else 2)
        else m_fastPathFlags s = 0
          \<and> m_advanceWithoutUpdatingLineNumberFunction s = AdvanceWithoutUpdatingLineNumber16
          \<and> m_advanceAndUpdateLineNumberFunction s =
              (if dne then AdvanceAndUpdateLineNumber16 else AdvanceWithoutUpdatingLineNumber16)
      else if sub_length sub = 0 then m_fastPathFlags s = 0
          \<and> m_advanceWithoutUpdatingLineNumberFunction s = AdvanceEmpty
          \<and> m_advanceAndUpdateLineNumberFunction s = AdvanceEmpty
      else m_fastPathFlags s = 0
          \<and> m_advanceWithoutUpdatingLineNumberFunction s =
              AdvancePastSingleCharacterSubstringWithoutUpdatingLineNumber
          \<and> m_advanceAndUpdateLineNumberFunction s =
              (if dne then AdvancePastSingleCharacterSubstring
               else AdvancePastSingleCharacterSubstringWithoutUpdatingLineNumber))"

definition ss_inv :: "SegmentedString \<Rightarrow> bool" where
  "ss_inv s \<longleftrightarrow> sub_inv (m_currentSubstring s)
     \<and> (\<forall>sub \<in> set (m_otherSubstrings s). sub_inv sub \<and> 0 < sub_length sub)
     \<and> (sub_length (m_currentSubstring s) = 0 \<longrightarrow> m_otherSubstrings s = [])
     \<and> m_currentCharacter s = first_char (ss_chars s) \<and> dispatch_ok s"

lemma first_char_simps [simp]: "first_char [] = 0" "first_char (c # cs) = c"
  by (simp_all add: first_char_def)

lemma sub_rest_length [simp]: "sub_inv sub \<Longrightarrow> length (sub_rest sub) = sub_length sub"
  by (simp add: sub_rest_def sub_inv_def)

lemma sub_rest_Nil [simp]: "sub_length sub = 0 \<Longrightarrow> sub_rest sub = []"
  by (simp add: sub_rest_def)

lemma sub_rest_Cons:
  assumes "sub_inv sub" "0 < sub_length sub"
  shows "sub_rest sub = Substring_getCurrentCharacter sub #
    drop (Suc (sub_currentCharacter sub)) (sub_string sub)"
proof -
  from assms have *: "length (sub_string sub) - sub_length sub = sub_currentCharacter sub"
    and "sub_currentCharacter sub < length (sub_string sub)"
    by (auto simp: sub_inv_def)
  then show ?thesis
    by (simp add: sub_rest_def Substring_getCurrentCharacter_def Cons_nth_drop_Suc)
qed

lemma sub_step:
  fixes sub :: Substring
  assumes "sub_inv sub" "1 < sub_length sub"
  defines "sub' \<equiv> sub\<lparr>sub_currentCharacter := Suc (sub_currentCharacter sub),
    sub_length := sub_length sub - 1\<rparr>"
  shows "sub_inv sub'" "sub_rest sub' = tl (sub_rest sub)"
    "Substring_getCurrentCharacter sub' = hd (tl (sub_rest sub))"
proof -
  show 1: "sub_inv sub'" using assms by (auto simp: sub_inv_def)
  have "Suc (length (sub_string sub)) - sub_length sub = Suc (sub_currentCharacter sub)"
    using assms by (auto simp: sub_inv_def)
  then have "sub_rest sub = Substring_getCurrentCharacter sub # sub_rest sub'"
    using assms by (simp add: sub_rest_Cons) (simp add: sub_rest_def)
  then show 2: "sub_rest sub' = tl (sub_rest sub)" by simp
  from 1 assms have "sub_rest sub' = Substring_getCurrentCharacter sub' #
    drop (Suc (sub_currentCharacter sub')) (sub_string sub')"
    by (intro sub_rest_Cons) auto
  with 2 show "Substring_getCurrentCharacter sub' = hd (tl (sub_rest sub))"
    by (metis list.sel(1))
qed

lemma dispatch_ok_update: "sub_length (m_currentSubstring s) = 0 \<longrightarrow> m_otherSubstrings s = [] \<and> m_currentCharacter s = 0 \<Longrightarrow>
  dispatch_ok (updateAdvanceFunctionPointers s)"
  by (auto simp: dispatch_ok_def updateAdvanceFunctionPointers_def Let_def
      updateAdvanceFunctionPointersForEmptyString_def ss_assert_def
      updateAdvanceFunctionPointersForSingleCharacterSubstring_def)

lemma update_fields [simp]:
  "m_currentSubstring (updateAdvanceFunctionPointers s) = m_currentSubstring s"
  "m_otherSubstrings (updateAdvanceFunctionPointers s) = m_otherSubstrings s"
  "m_isClosed (updateAdvanceFunctionPointers s) = m_isClosed s"
  "m_currentCharacter (updateAdvanceFunctionPointers s) = m_currentCharacter s"
  "m_currentLine (updateAdvanceFunctionPointers s) = m_currentLine s"
  "ss_countAsserts (updateAdvanceFunctionPointers s) = ss_countAsserts s"
  "m_numberOfCharactersConsumedPriorToCurrentSubstring (updateAdvanceFunctionPointers s) =
     m_numberOfCharactersConsumedPriorToCurrentSubstring s"
  by (simp_all add: updateAdvanceFunctionPointers_def Let_def
      updateAdvanceFunctionPointersForEmptyString_def ss_assert_def
      updateAdvanceFunctionPointersForSingleCharacterSubstring_def)

lemma update_asserts:
  "sub_length (m_currentSubstring s) = 0 \<longrightarrow> m_otherSubstrings s = [] \<and> m_currentCharacter s = 0 \<Longrightarrow>
   ss_asserts (updateAdvanceFunctionPointers s) = ss_asserts s"
  by (auto simp add: updateAdvanceFunctionPointers_def Let_def
      updateAdvanceFunctionPointersForEmptyString_def ss_assert_def
      updateAdvanceFunctionPointersForSingleCharacterSubstring_def)


text \<open>What moving the source one character forward has to achieve.\<close>

definition advanced :: "SegmentedString \<Rightarrow> SegmentedString \<Rightarrow> bool" where
  "advanced s s' \<longleftrightarrow> ss_inv s' \<and> ss_chars s' = tl (ss_chars s) \<and> m_isClosed s' = m_isClosed s
     \<and> ss_asserts s' = ss_asserts s \<and> ss_countAsserts s' = ss_countAsserts s"

text \<open>Bookkeeping of asserts and line numbers does not matter to the invariant and the view.\<close>

lemma ss_assert_True [simp]: "ss_assert True s = s"
  by (simp add: ss_assert_def)

lemma ss_inv_frame [simp]:
  "ss_inv (ss_assert b s) = ss_inv s" "ss_chars (ss_assert b s) = ss_chars s"
  "ss_inv (ss_assertCount b s) = ss_inv s" "ss_chars (ss_assertCount b s) = ss_chars s"
  "ss_inv (startNewLine s) = ss_inv s" "ss_chars (startNewLine s) = ss_chars s"
  "ss_inv (processPossibleNewline s) = ss_inv s"
  "ss_chars (processPossibleNewline s) = ss_chars s"
  by (simp_all add: ss_inv_def ss_chars_def dispatch_ok_def ss_assert_def ss_assertCount_def
      startNewLine_def processPossibleNewline_def Let_def)

lemma ss_fields_frame [simp]:
  "m_currentSubstring (ss_assert b s) = m_currentSubstring s"
  "m_otherSubstrings (ss_assert b s) = m_otherSubstrings s"
  "m_isClosed (ss_assert b s) = m_isClosed s"
  "m_currentCharacter (ss_assert b s) = m_currentCharacter s"
  "m_fastPathFlags (ss_assert b s) = m_fastPathFlags s"
  "m_advanceWithoutUpdatingLineNumberFunction (ss_assert b s) = m_advanceWithoutUpdatingLineNumberFunction s"
  "m_advanceAndUpdateLineNumberFunction (ss_assert b s) = m_advanceAndUpdateLineNumberFunction s"
  "ss_asserts (ss_assert b s) = (ss_asserts s \<and> b)"
  "ss_countAsserts (ss_assert b s) = ss_countAsserts s"
  "m_currentSubstring (startNewLine s) = m_currentSubstring s"
  "m_otherSubstrings (startNewLine s) = m_otherSubstrings s"
  "m_isClosed (startNewLine s) = m_isClosed s"
  "m_currentCharacter (startNewLine s) = m_currentCharacter s"
  "m_fastPathFlags (startNewLine s) = m_fastPathFlags s"
  "ss_asserts (startNewLine s) = ss_asserts s"
  "ss_countAsserts (startNewLine s) = ss_countAsserts s"
  "m_currentSubstring (processPossibleNewline s) = m_currentSubstring s"
  "m_otherSubstrings (processPossibleNewline s) = m_otherSubstrings s"
  "m_isClosed (processPossibleNewline s) = m_isClosed s"
  "m_currentCharacter (processPossibleNewline s) = m_currentCharacter s"
  "ss_asserts (processPossibleNewline s) = ss_asserts s"
  "ss_countAsserts (processPossibleNewline s) = ss_countAsserts s"
  by (simp_all add: ss_assert_def startNewLine_def processPossibleNewline_def)

lemma ss_chars_Nil_iff: "ss_inv s \<Longrightarrow> ss_chars s = [] \<longleftrightarrow> sub_length (m_currentSubstring s) = 0"
  by (metis (no_types, lifting) append_is_Nil_conv concat.simps(1) length_0_conv list.simps(8)
      ss_chars_def ss_inv_def sub_rest_length)

lemma rest_of_single: "sub_inv sub \<Longrightarrow> sub_length sub = 1 \<Longrightarrow> tl (sub_rest sub) = []"
  by (metis One_nat_def diff_Suc_1 length_0_conv length_tl sub_rest_length)

lemma first_char_append [simp]: "xs \<noteq> [] \<Longrightarrow> first_char (xs @ ys) = first_char xs"
  by (cases xs) auto

lemma first_char_hd: "xs \<noteq> [] \<Longrightarrow> first_char xs = hd xs"
  by (cases xs) auto

lemma updateSingle_fields [simp]:
  "m_currentSubstring (updateAdvanceFunctionPointersForSingleCharacterSubstring s) = m_currentSubstring s"
  "m_otherSubstrings (updateAdvanceFunctionPointersForSingleCharacterSubstring s) = m_otherSubstrings s"
  "m_isClosed (updateAdvanceFunctionPointersForSingleCharacterSubstring s) = m_isClosed s"
  "m_currentCharacter (updateAdvanceFunctionPointersForSingleCharacterSubstring s) = m_currentCharacter s"
  "ss_countAsserts (updateAdvanceFunctionPointersForSingleCharacterSubstring s) = ss_countAsserts s"
  "ss_asserts (updateAdvanceFunctionPointersForSingleCharacterSubstring s) =
     (ss_asserts s \<and> sub_length (m_currentSubstring s) = 1)"
  by (simp_all add: updateAdvanceFunctionPointersForSingleCharacterSubstring_def ss_assert_def)

lemma updateSingle_dispatch:
  "sub_length (m_currentSubstring s) = 1 \<Longrightarrow>
   dispatch_ok (updateAdvanceFunctionPointersForSingleCharacterSubstring s)"
  by (simp add: updateAdvanceFunctionPointersForSingleCharacterSubstring_def dispatch_ok_def ss_assert_def)

text \<open>
  A move inside the current substring: the pointer steps, the length shrinks, and the dispatch is
  chosen again when one character is left.
\<close>

definition stepped :: "SegmentedString \<Rightarrow> SegmentedString" where
  "stepped s = (let sub = m_currentSubstring s;
       sub' = sub\<lparr>sub_currentCharacter := Suc (sub_currentCharacter sub), sub_length := sub_length sub - 1\<rparr>
     in s\<lparr>m_currentSubstring := sub', m_currentCharacter := Substring_getCurrentCharacter sub'\<rparr>)"

lemma stepped_fields [simp]:
  "m_otherSubstrings (stepped s) = m_otherSubstrings s"
  "m_isClosed (stepped s) = m_isClosed s"
  "ss_asserts (stepped s) = ss_asserts s"
  "ss_countAsserts (stepped s) = ss_countAsserts s"
  "m_fastPathFlags (stepped s) = m_fastPathFlags s"
  "sub_length (m_currentSubstring (stepped s)) = sub_length (m_currentSubstring s) - 1"
  by (simp_all add: stepped_def Let_def)

lemma stepped_dispatch:
  "dispatch_ok s \<Longrightarrow> 2 < sub_length (m_currentSubstring s) \<Longrightarrow> dispatch_ok (stepped s)"
  by (simp add: dispatch_ok_def stepped_def Let_def split: if_splits)

lemma stepped_view:
  assumes "ss_inv s" "1 < sub_length (m_currentSubstring s)"
  shows "sub_inv (m_currentSubstring (stepped s))"
    "ss_chars (stepped s) = tl (ss_chars s)"
    "m_currentCharacter (stepped s) = first_char (tl (ss_chars s))"
proof -
  let ?sub = "m_currentSubstring s"
  have inv: "sub_inv ?sub" using assms by (simp add: ss_inv_def)
  note st = sub_step [OF inv assms(2)]
  have ne: "sub_rest ?sub \<noteq> []" "tl (sub_rest ?sub) \<noteq> []"
    using inv assms(2) by (auto simp flip: length_0_conv)
  show "sub_inv (m_currentSubstring (stepped s))" using st by (simp add: stepped_def Let_def)
  show "ss_chars (stepped s) = tl (ss_chars s)"
    using st ne by (simp add: ss_chars_def stepped_def Let_def)
  show "m_currentCharacter (stepped s) = first_char (tl (ss_chars s))"
    using st ne by (simp add: ss_chars_def stepped_def Let_def first_char_hd)
qed

lemma ss_chars_updateSingle [simp]:
  "ss_chars (updateAdvanceFunctionPointersForSingleCharacterSubstring s) = ss_chars s"
  by (simp add: ss_chars_def)

lemma advanced_stepped:
  assumes inv: "ss_inv s" and len: "1 < sub_length (m_currentSubstring s)"
    and s': "s' = (if sub_length (m_currentSubstring s) = 2
               then updateAdvanceFunctionPointersForSingleCharacterSubstring (stepped s)
               else stepped s)"
  shows "advanced s s'"
proof -
  note sv = stepped_view [OF inv len]
  have d: "dispatch_ok s'"
    using inv len s' stepped_dispatch [of s] updateSingle_dispatch [of "stepped s"]
    by (auto simp: ss_inv_def)
  have o: "\<forall>sub \<in> set (m_otherSubstrings s). sub_inv sub \<and> 0 < sub_length sub"
    using inv by (simp add: ss_inv_def)
  show ?thesis
    unfolding advanced_def ss_inv_def
    using sv len d o by (simp add: s')
qed

lemma incdec_stepped:
  assumes "1 < sub_length (m_currentSubstring s)"
  shows "decrementAndCheckLength (incrementAndRead s) =
    (if sub_length (m_currentSubstring s) = 2
     then updateAdvanceFunctionPointersForSingleCharacterSubstring (stepped s) else stepped s)"
proof -
  let ?s1 = "ss_assert (sub_length (m_currentSubstring (incrementAndRead s)) > 1) (incrementAndRead s)"
  have eq: "?s1\<lparr>m_currentSubstring := (m_currentSubstring ?s1)
      \<lparr>sub_length := sub_length (m_currentSubstring ?s1) - 1\<rparr>\<rparr> = stepped s"
    by (rule SegmentedString.equality)
      (use assms in \<open>simp_all add: incrementAndRead_def Let_def stepped_def ss_assert_def
        Substring_incrementPointer_def Substring_getCurrentCharacter_def\<close>)
  show ?thesis
    unfolding decrementAndCheckLength_def Let_def eq using assms by auto
qed

lemma incdec_advanced:
  assumes "ss_inv s" and "1 < sub_length (m_currentSubstring s)"
  shows "advanced s (decrementAndCheckLength (incrementAndRead s))"
  by (rule advanced_stepped [OF assms incdec_stepped [OF assms(2)]])

text \<open>Leaving a substring of one character: the next substring becomes current.\<close>

lemma single_advanced:
  assumes inv: "ss_inv s" and len: "sub_length (m_currentSubstring s) = 1"
  shows "advanced s (advancePastSingleCharacterSubstringWithoutUpdatingLineNumber s)"
proof -
  have "sub_inv (m_currentSubstring s)" using inv by (simp add: ss_inv_def)
  then have tl0: "tl (sub_rest (m_currentSubstring s)) = []" "sub_rest (m_currentSubstring s) \<noteq> []"
    using len rest_of_single by (auto simp flip: length_0_conv)
  show ?thesis
  proof (cases "m_otherSubstrings s")
    case Nil
    then show ?thesis
      using tl0 len inv
      by (simp add: advanced_def advancePastSingleCharacterSubstringWithoutUpdatingLineNumber_def Let_def
          ss_inv_def ss_chars_def updateAdvanceFunctionPointersForEmptyString_def dispatch_ok_def
          ss_assert_def sub_inv_def)
  next
    case (Cons sub rest)
    then have sub: "sub_inv sub" "0 < sub_length sub" using inv by (auto simp: ss_inv_def)
    then have "Substring_getCurrentCharacter sub = first_char (sub_rest sub)" "sub_rest sub \<noteq> []"
      by (simp_all add: sub_rest_Cons)
    with Cons sub show ?thesis
      using tl0 len inv
      by (simp add: advanced_def advancePastSingleCharacterSubstringWithoutUpdatingLineNumber_def Let_def
          ss_inv_def ss_chars_def dispatch_ok_update update_asserts)
  qed
qed

lemma advanced_frame:
  "advanced (ss_assert b s) s' \<Longrightarrow> b \<Longrightarrow> advanced s s'"
  "advanced (processPossibleNewline s) s' \<Longrightarrow> advanced s s'"
  "advanced (startNewLine s) s' \<Longrightarrow> advanced s s'"
  by (simp_all add: advanced_def)

lemma empty_advanced:
  assumes "ss_inv s" "sub_length (m_currentSubstring s) = 0"
  shows "advanced s (advanceEmpty s)"
  using assms by (simp add: advanced_def advanceEmpty_def) (simp add: ss_inv_def ss_chars_def)

lemma dispatch_cases:
  assumes "ss_inv s"
  obtains (fast) "1 < sub_length (m_currentSubstring s)" "sub_is8Bit (m_currentSubstring s)"
      "m_fastPathFlags s = (if sub_doNotExcludeLineNumbers (m_currentSubstring s) then 3 else 2)"
  | (wide) "1 < sub_length (m_currentSubstring s)" "\<not> sub_is8Bit (m_currentSubstring s)"
      "m_fastPathFlags s = 0"
      "m_advanceWithoutUpdatingLineNumberFunction s = AdvanceWithoutUpdatingLineNumber16"
      "m_advanceAndUpdateLineNumberFunction s =
         (if sub_doNotExcludeLineNumbers (m_currentSubstring s)
          then AdvanceAndUpdateLineNumber16 else AdvanceWithoutUpdatingLineNumber16)"
  | (single) "sub_length (m_currentSubstring s) = 1" "m_fastPathFlags s = 0"
      "m_advanceWithoutUpdatingLineNumberFunction s =
         AdvancePastSingleCharacterSubstringWithoutUpdatingLineNumber"
      "m_advanceAndUpdateLineNumberFunction s =
         (if sub_doNotExcludeLineNumbers (m_currentSubstring s)
          then AdvancePastSingleCharacterSubstring
          else AdvancePastSingleCharacterSubstringWithoutUpdatingLineNumber)"
  | (empty) "sub_length (m_currentSubstring s) = 0" "m_fastPathFlags s = 0"
      "m_advanceWithoutUpdatingLineNumberFunction s = AdvanceEmpty"
      "m_advanceAndUpdateLineNumberFunction s = AdvanceEmpty"
proof -
  have d: "dispatch_ok s" using assms by (simp add: ss_inv_def)
  consider "sub_length (m_currentSubstring s) > 1" "sub_is8Bit (m_currentSubstring s)"
    | "sub_length (m_currentSubstring s) > 1" "\<not> sub_is8Bit (m_currentSubstring s)"
    | "sub_length (m_currentSubstring s) = 1" | "sub_length (m_currentSubstring s) = 0"
    by linarith
  then show ?thesis
    by cases (use d that in \<open>simp_all add: dispatch_ok_def Let_def\<close>)
qed

lemma advanceWithoutUpdatingLineNumber_advanced:
  assumes "ss_inv s"
  shows "advanced s (advanceWithoutUpdatingLineNumber s)"
  by (cases rule: dispatch_cases [OF assms])
    (simp_all add: advanceWithoutUpdatingLineNumber_def advanceWithoutUpdatingLineNumber16_def
      assms incdec_advanced single_advanced empty_advanced)

lemma advancePastNonNewline_advanced:
  assumes "ss_inv s" and "m_currentCharacter s \<noteq> chr_lf"
  shows "advanced s (advancePastNonNewline s)"
  unfolding advancePastNonNewline_def
  by (rule advanced_frame(1) [OF advanceWithoutUpdatingLineNumber_advanced]) (use assms in simp_all)

lemma wide_line_advanced:
  assumes "ss_inv s" "1 < sub_length (m_currentSubstring s)"
    "sub_doNotExcludeLineNumbers (m_currentSubstring s)"
  shows "advanced s (advanceAndUpdateLineNumber16 s)"
  unfolding advanceAndUpdateLineNumber16_def
  by (rule advanced_frame(1) [OF advanced_frame(2) [OF incdec_advanced]]) (use assms in simp_all)

lemma single_line_advanced:
  assumes "ss_inv s" "sub_length (m_currentSubstring s) = 1"
    "sub_doNotExcludeLineNumbers (m_currentSubstring s)"
  shows "advanced s (advancePastSingleCharacterSubstring s)"
  unfolding advancePastSingleCharacterSubstring_def
  by (rule advanced_frame(1) [OF advanced_frame(2) [OF single_advanced]]) (use assms in simp_all)

lemma callAdvance_advanced:
  assumes "ss_inv s" "m_fastPathFlags s = 0"
  shows "advanced s (callAdvanceFunction (m_advanceAndUpdateLineNumberFunction s) s)"
  by (cases rule: dispatch_cases [OF assms(1)])
    (use assms in \<open>simp_all add: advanceWithoutUpdatingLineNumber16_def incdec_advanced single_advanced
      empty_advanced wide_line_advanced single_line_advanced split: if_splits\<close>)

lemma advancePastNewline_advanced:
  assumes inv: "ss_inv s" and nl: "m_currentCharacter s = chr_lf"
  shows "advanced s (advancePastNewline s)"
proof -
  let ?s = "ss_assert (m_currentCharacter s = chr_lf) s"
  have inv': "ss_inv ?s" using inv by simp
  have "advanced ?s (advancePastNewline s)"
  proof (cases "1 < sub_length (m_currentSubstring s)")
    case True
    then show ?thesis
      using incdec_advanced [of ?s] advanced_frame(3) [OF incdec_advanced, of ?s] inv'
      by (simp add: advancePastNewline_def Let_def)
  next
    case False
    have "m_fastPathFlags ?s = 0"
      by (cases rule: dispatch_cases [OF inv']) (use False in simp_all)
    with False show ?thesis
      using callAdvance_advanced [OF inv'] by (simp add: advancePastNewline_def)
  qed
  then show ?thesis using nl by (rule advanced_frame)
qed

text \<open>The fast path of \<open>advance\<close>: the same move, with the line started after it.\<close>

lemma dispatch_ok_frame [simp]:
  "dispatch_ok (startNewLine s) = dispatch_ok s" "dispatch_ok (ss_assert b s) = dispatch_ok s"
  "dispatch_ok (s\<lparr>m_otherSubstrings := subs\<rparr>) = dispatch_ok s"
  by (simp_all add: dispatch_ok_def startNewLine_def ss_assert_def)

lemma advanced_stepped_line:
  assumes inv: "ss_inv s" and len: "1 < sub_length (m_currentSubstring s)"
    and s': "s' = (if sub_length (m_currentSubstring s) = 2
               then updateAdvanceFunctionPointersForSingleCharacterSubstring (startNewLine (stepped s))
               else startNewLine (stepped s))"
  shows "advanced s s'"
proof -
  note sv = stepped_view [OF inv len]
  have d: "dispatch_ok s'"
    using inv len s' stepped_dispatch [of s] updateSingle_dispatch [of "startNewLine (stepped s)"]
    by (auto simp: ss_inv_def)
  have o: "\<forall>sub \<in> set (m_otherSubstrings s). sub_inv sub \<and> 0 < sub_length sub"
    using inv by (simp add: ss_inv_def)
  show ?thesis
    unfolding advanced_def ss_inv_def
    using sv len d o by (simp add: s')
qed

lemma fast_advance_stepped:
  assumes len: "1 < sub_length (m_currentSubstring s)"
    and fast: "m_fastPathFlags s AND Use8BitAdvance \<noteq> 0"
  shows "SegmentedString_advance s =
    (let t = (if m_currentCharacter s = chr_lf
                \<and> m_fastPathFlags s AND Use8BitAdvanceAndUpdateLineNumbers \<noteq> 0
              then startNewLine (stepped s) else stepped s)
     in if sub_length (m_currentSubstring s) = 2
        then updateAdvanceFunctionPointersForSingleCharacterSubstring t else t)"
proof -
  let ?s1 = "incrementAndRead (ss_assert (sub_length (m_currentSubstring s) > 1) s)"
  have eq: "?s1\<lparr>m_currentSubstring := (m_currentSubstring ?s1)
      \<lparr>sub_length := sub_length (m_currentSubstring ?s1) - 1\<rparr>\<rparr> = stepped s"
    by (rule SegmentedString.equality)
      (use assms in \<open>simp_all add: incrementAndRead_def Let_def stepped_def ss_assert_def
        Substring_incrementPointer_def Substring_getCurrentCharacter_def\<close>)
  show ?thesis
    unfolding SegmentedString_advance_def Let_def eq using assms by auto
qed

lemma SegmentedString_advance_advanced:
  assumes "ss_inv s"
  shows "advanced s (SegmentedString_advance s)"
proof (cases "m_fastPathFlags s AND Use8BitAdvance \<noteq> 0")
  case True
  have len: "1 < sub_length (m_currentSubstring s)"
    by (cases rule: dispatch_cases [OF assms]) (use True in simp_all)
  show ?thesis
    unfolding fast_advance_stepped [OF len True] Let_def
    using advanced_stepped [OF assms len] advanced_stepped_line [OF assms len] by auto
next
  case False
  have "m_fastPathFlags s = 0"
    by (cases rule: dispatch_cases [OF assms]) (use False in \<open>simp_all split: if_splits\<close>)
  then show ?thesis
    using callAdvance_advanced [OF assms] False by (simp add: SegmentedString_advance_def)
qed

text \<open>The same relation for any number of characters; the counter asserts are left out.\<close>

definition moved :: "nat \<Rightarrow> SegmentedString \<Rightarrow> SegmentedString \<Rightarrow> bool" where
  "moved n s s' \<longleftrightarrow> ss_inv s' \<and> ss_chars s' = drop n (ss_chars s) \<and> m_isClosed s' = m_isClosed s
     \<and> ss_asserts s' = ss_asserts s"

lemma advanced_moved: "advanced s s' \<Longrightarrow> moved 1 s s'"
  by (simp add: advanced_def moved_def drop_Suc)

lemma moved_trans: "moved m s s' \<Longrightarrow> moved n s' s'' \<Longrightarrow> moved (m + n) s s''"
  by (simp add: moved_def add.commute)

lemma moved_refl: "ss_inv s \<Longrightarrow> moved 0 s s"
  by (simp add: moved_def)

lemma currentCharacter_view: "ss_inv s \<Longrightarrow> m_currentCharacter s = first_char (ss_chars s)"
  by (simp add: ss_inv_def)

lemma isEmpty_view: "ss_inv s \<Longrightarrow> SegmentedString_isEmpty s \<longleftrightarrow> ss_chars s = []"
  by (simp add: ss_chars_Nil_iff SegmentedString_isEmpty_def)

lemma foldl_length: "foldl (\<lambda>n sub. n + sub_length sub) k subs = k + sum_list (map sub_length subs)"
  by (induction subs arbitrary: k) auto

lemma length_view: "ss_inv s \<Longrightarrow> SegmentedString_length s = length (ss_chars s)"
proof -
  assume "ss_inv s"
  moreover have "\<forall>sub \<in> set subs. sub_inv sub \<Longrightarrow>
      length (concat (map sub_rest subs)) = sum_list (map sub_length subs)" for subs
    by (induction subs) auto
  ultimately show ?thesis
    by (simp add: SegmentedString_length_def ss_chars_def ss_inv_def foldl_length)
qed

lemma appendTo_rest: "sub_inv sub \<Longrightarrow> Substring_appendTo sub b = b @ sub_rest sub"
  by (simp add: Substring_appendTo_def sub_rest_def sub_inv_def)

lemma toString_view: "ss_inv s \<Longrightarrow> SegmentedString_toString s = ss_chars s"
proof -
  assume inv: "ss_inv s"
  have "\<forall>sub \<in> set subs. sub_inv sub \<Longrightarrow>
      fold Substring_appendTo subs b = b @ concat (map sub_rest subs)" for subs b
    by (induction subs arbitrary: b) (auto simp: appendTo_rest)
  with inv show ?thesis
    by (simp add: SegmentedString_toString_def ss_chars_def ss_inv_def appendTo_rest)
qed

section \<open>Construction and growth\<close>

lemma Substring_of_String_simps [simp]:
  "sub_length (Substring_of_String str) = length (str_chars str)"
  "sub_string (Substring_of_String str) = str_chars str"
  "sub_inv (Substring_of_String str)" "sub_rest (Substring_of_String str) = str_chars str"
  by (simp_all add: Substring_of_String_def sub_inv_def sub_rest_def)

lemma getCurrent_of_String [simp]:
  "str_chars str \<noteq> [] \<Longrightarrow> Substring_getCurrentCharacter (Substring_of_String str) = hd (str_chars str)"
  by (simp add: Substring_getCurrentCharacter_def Substring_of_String_def hd_conv_nth)

lemma default_view: "ss_inv SegmentedString_default" "ss_chars SegmentedString_default = []"
  by (simp_all add: SegmentedString_default_def ss_inv_def ss_chars_def dispatch_ok_def sub_inv_def)

lemma of_String_view:
  "ss_inv (SegmentedString_of_String str)" "ss_chars (SegmentedString_of_String str) = str_chars str"
  "ss_asserts (SegmentedString_of_String str)" "\<not> m_isClosed (SegmentedString_of_String str)"
proof -
  let ?s = "SegmentedString_default\<lparr>m_currentSubstring := Substring_of_String str,
      m_currentCharacter := Substring_getCurrentCharacter (Substring_of_String str)\<rparr>"
  show "ss_chars (SegmentedString_of_String str) = str_chars str"
    "ss_asserts (SegmentedString_of_String str)" "\<not> m_isClosed (SegmentedString_of_String str)"
    by (auto simp: SegmentedString_of_String_def Let_def ss_chars_def SegmentedString_default_def
        update_asserts)
  show "ss_inv (SegmentedString_of_String str)"
  proof (cases "str_chars str = []")
    case True
    then show ?thesis
      by (simp add: SegmentedString_of_String_def SegmentedString_default_def ss_inv_def ss_chars_def
          dispatch_ok_def)
  next
    case False
    then have "dispatch_ok (updateAdvanceFunctionPointers ?s)" by (intro dispatch_ok_update) simp
    with False show ?thesis
      by (simp add: SegmentedString_of_String_def ss_inv_def ss_chars_def first_char_hd
          SegmentedString_default_def)
  qed
qed

text \<open>
  Installing a non-empty substring as the current one, in front of substrings that are all right:
  the common end of \<open>pushBack\<close>, \<open>appendSubstring\<close> and of leaving a substring.
\<close>

lemma installed_view:
  assumes "sub_inv (m_currentSubstring s)" "0 < sub_length (m_currentSubstring s)"
    and "\<forall>sub \<in> set (m_otherSubstrings s). sub_inv sub \<and> 0 < sub_length sub"
    and "m_currentCharacter s = Substring_getCurrentCharacter (m_currentSubstring s)"
  shows "ss_inv (updateAdvanceFunctionPointers s)"
    "ss_chars (updateAdvanceFunctionPointers s) = ss_chars s"
    "ss_asserts (updateAdvanceFunctionPointers s) = ss_asserts s"
proof -
  show "ss_chars (updateAdvanceFunctionPointers s) = ss_chars s" by (simp add: ss_chars_def)
  moreover have "first_char (ss_chars s) = m_currentCharacter s"
    using assms by (simp add: ss_chars_def sub_rest_Cons)
  moreover have "dispatch_ok (updateAdvanceFunctionPointers s)"
    using assms by (simp add: dispatch_ok_update)
  ultimately show "ss_inv (updateAdvanceFunctionPointers s)"
    using assms by (simp add: ss_inv_def)
  show "ss_asserts (updateAdvanceFunctionPointers s) = ss_asserts s"
    using assms by (simp add: update_asserts)
qed

lemma assertCount_fields [simp]:
  "m_currentSubstring (ss_assertCount b s) = m_currentSubstring s"
  "m_otherSubstrings (ss_assertCount b s) = m_otherSubstrings s"
  "m_isClosed (ss_assertCount b s) = m_isClosed s"
  "m_currentCharacter (ss_assertCount b s) = m_currentCharacter s"
  "m_currentLine (ss_assertCount b s) = m_currentLine s"
  "m_currentLine (ss_assert b s) = m_currentLine s"
  "ss_asserts (ss_assertCount b s) = ss_asserts s"
  by (simp_all add: ss_assertCount_def ss_assert_def)

lemma pushBack_view:
  assumes inv: "ss_inv s" and ne: "str_chars str \<noteq> []"
  shows "ss_inv (SegmentedString_pushBack str s)"
    "ss_chars (SegmentedString_pushBack str s) = str_chars str @ ss_chars s"
    "m_isClosed (SegmentedString_pushBack str s) = m_isClosed s"
    "ss_asserts (SegmentedString_pushBack str s) = (ss_asserts s \<and> chr_lf \<notin> set (str_chars str))"
    "m_currentLine (SegmentedString_pushBack str s) = m_currentLine s"
proof -
  have o: "\<forall>sub \<in> set (m_otherSubstrings s). sub_inv sub \<and> 0 < sub_length sub"
    "sub_inv (m_currentSubstring s)" "sub_length (m_currentSubstring s) = 0 \<longrightarrow> m_otherSubstrings s = []"
    using inv by (simp_all add: ss_inv_def)
  show "ss_inv (SegmentedString_pushBack str s)"
    unfolding SegmentedString_pushBack_def Let_def
    by (rule installed_view(1)) (use o ne in auto)
  have "ss_chars (SegmentedString_pushBack str s) = str_chars str @ ss_chars s \<and>
    m_isClosed (SegmentedString_pushBack str s) = m_isClosed s \<and>
    m_currentLine (SegmentedString_pushBack str s) = m_currentLine s"
    unfolding SegmentedString_pushBack_def Let_def ss_chars_def using o ne by auto
  then show "ss_chars (SegmentedString_pushBack str s) = str_chars str @ ss_chars s"
    "m_isClosed (SegmentedString_pushBack str s) = m_isClosed s"
    "m_currentLine (SegmentedString_pushBack str s) = m_currentLine s" by simp_all
  show "ss_asserts (SegmentedString_pushBack str s) = (ss_asserts s \<and> chr_lf \<notin> set (str_chars str))"
    unfolding SegmentedString_pushBack_def Let_def
    by (subst installed_view(3)) (use o ne in auto)
qed

lemma appendSubstring_view:
  assumes inv: "ss_inv s" and sub: "sub_inv sub"
  shows "ss_inv (appendSubstring sub s)" "ss_chars (appendSubstring sub s) = ss_chars s @ sub_rest sub"
    "m_isClosed (appendSubstring sub s) = m_isClosed s"
    "ss_asserts (appendSubstring sub s) = (ss_asserts s \<and> \<not> m_isClosed s)"
proof -
  have o: "\<forall>sub \<in> set (m_otherSubstrings s). sub_inv sub \<and> 0 < sub_length sub"
    "sub_inv (m_currentSubstring s)" "sub_length (m_currentSubstring s) = 0 \<longrightarrow> m_otherSubstrings s = []"
    "m_currentCharacter s = first_char (ss_chars s)"
    using inv by (simp_all add: ss_inv_def)
  consider "sub_length sub = 0" | "0 < sub_length sub" "0 < sub_length (m_currentSubstring s)"
    | "0 < sub_length sub" "sub_length (m_currentSubstring s) = 0" by auto
  then have "ss_inv (appendSubstring sub s) \<and> ss_chars (appendSubstring sub s) = ss_chars s @ sub_rest sub \<and>
    m_isClosed (appendSubstring sub s) = m_isClosed s \<and>
    ss_asserts (appendSubstring sub s) = (ss_asserts s \<and> \<not> m_isClosed s)"
  proof cases
    case 1
    then show ?thesis using inv by (simp add: appendSubstring_def)
  next
    case 2
    let ?t = "ss_assert (\<not> m_isClosed s) s"
    have *: "ss_chars (?t\<lparr>m_otherSubstrings := m_otherSubstrings ?t @ [sub]\<rparr>) = ss_chars s @ sub_rest sub"
      by (simp add: ss_chars_def)
    moreover have "ss_chars s \<noteq> []" using 2 ss_chars_Nil_iff [OF inv] by simp
    moreover have "dispatch_ok (?t\<lparr>m_otherSubstrings := m_otherSubstrings ?t @ [sub]\<rparr>)"
      using inv by (simp add: ss_inv_def)
    ultimately have "ss_inv (?t\<lparr>m_otherSubstrings := m_otherSubstrings ?t @ [sub]\<rparr>)"
      using o sub 2 unfolding ss_inv_def by auto
    with * 2 show ?thesis by (simp add: appendSubstring_def)
  next
    case 3
    then show ?thesis
      unfolding appendSubstring_def Let_def
      using o sub by (simp add: installed_view) (simp add: ss_chars_def)
  qed
  then show "ss_inv (appendSubstring sub s)" "ss_chars (appendSubstring sub s) = ss_chars s @ sub_rest sub"
    "m_isClosed (appendSubstring sub s) = m_isClosed s"
    "ss_asserts (appendSubstring sub s) = (ss_asserts s \<and> \<not> m_isClosed s)" by simp_all
qed

lemma ss_inv_append_others:
  assumes inv: "ss_inv s" and o: "\<forall>sub \<in> set subs. sub_inv sub \<and> 0 < sub_length sub"
    and e: "sub_length (m_currentSubstring s) = 0 \<Longrightarrow> subs = []"
  shows "ss_inv (s\<lparr>m_otherSubstrings := m_otherSubstrings s @ subs\<rparr>)"
    "ss_chars (s\<lparr>m_otherSubstrings := m_otherSubstrings s @ subs\<rparr>) = ss_chars s @ concat (map sub_rest subs)"
proof -
  show *: "ss_chars (s\<lparr>m_otherSubstrings := m_otherSubstrings s @ subs\<rparr>) = ss_chars s @ concat (map sub_rest subs)"
    by (simp add: ss_chars_def)
  have "first_char (ss_chars s @ concat (map sub_rest subs)) = first_char (ss_chars s)"
    using e ss_chars_Nil_iff [OF inv] by (cases "subs = []") auto
  moreover have "dispatch_ok (s\<lparr>m_otherSubstrings := m_otherSubstrings s @ subs\<rparr>)"
    using inv by (simp add: ss_inv_def)
  ultimately show "ss_inv (s\<lparr>m_otherSubstrings := m_otherSubstrings s @ subs\<rparr>)"
    using inv o e * unfolding ss_inv_def by auto
qed

lemma append_view:
  assumes inv: "ss_inv s" and inv': "ss_inv string"
  shows "ss_inv (SegmentedString_append string s)"
    "ss_chars (SegmentedString_append string s) = ss_chars s @ ss_chars string"
    "m_isClosed (SegmentedString_append string s) = m_isClosed s"
    "ss_asserts (SegmentedString_append string s) = (ss_asserts s \<and> \<not> m_isClosed s)"
proof -
  let ?s1 = "appendSubstring (m_currentSubstring string) s"
  have i: "sub_inv (m_currentSubstring string)"
    "\<forall>sub \<in> set (m_otherSubstrings string). sub_inv sub \<and> 0 < sub_length sub"
    "sub_length (m_currentSubstring string) = 0 \<longrightarrow> m_otherSubstrings string = []"
    using inv' by (simp_all add: ss_inv_def)
  note a = appendSubstring_view [OF inv i(1)]
  have "m_otherSubstrings string = []" if "sub_length (m_currentSubstring ?s1) = 0"
    using that i(1,3) ss_chars_Nil_iff [OF a(1)] a(2) by (metis append_is_Nil_conv list.size(3) sub_rest_length)
  note b = ss_inv_append_others [OF a(1) i(2) this]
  show "ss_inv (SegmentedString_append string s)"
    using b by (simp add: SegmentedString_append_def Let_def)
  show "ss_chars (SegmentedString_append string s) = ss_chars s @ ss_chars string"
    using a b by (simp add: SegmentedString_append_def Let_def) (simp add: ss_chars_def)
  show "m_isClosed (SegmentedString_append string s) = m_isClosed s"
    "ss_asserts (SegmentedString_append string s) = (ss_asserts s \<and> \<not> m_isClosed s)"
    using a by (simp_all add: SegmentedString_append_def Let_def)
qed

section \<open>Looking ahead for a literal\<close>

text \<open>Literals that \<open>advancePast\<close> may be called with, and when the source starts with one.\<close>

definition literal_ok :: "bool \<Rightarrow> uchar list \<Rightarrow> bool" where
  "literal_ok ic literal \<longleftrightarrow> (\<forall>c \<in> set literal. c \<noteq> chr_lf \<and> (ic \<longrightarrow> isASCIILower c))"

definition starts_with :: "bool \<Rightarrow> uchar list \<Rightarrow> uchar list \<Rightarrow> bool" where
  "starts_with ic cs literal \<longleftrightarrow> length literal \<le> length cs \<and>
     (\<forall>i < length literal. \<not> characterMismatch (cs ! i) (literal ! i) ic)"

lemma starts_with_Nil [simp]: "starts_with ic cs []"
  by (simp add: starts_with_def)

lemma starts_with_Cons:
  "starts_with ic cs (l # literal) \<longleftrightarrow>
     (\<exists>c cs'. cs = c # cs' \<and> \<not> characterMismatch c l ic \<and> starts_with ic cs' literal)"
  by (cases cs) (auto simp: starts_with_def less_Suc_eq_0_disj)

lemma mismatch_lf: "literal_ok ic (l # literal) \<Longrightarrow> \<not> characterMismatch c l ic \<Longrightarrow> c \<noteq> chr_lf"
  by (auto simp: literal_ok_def characterMismatch_def isASCIILower_def isASCIIAlphaCaselessEqual_iff
      split: if_splits)

lemma advanced_view:
  assumes "advanced s s'" "ss_chars s = c # cs"
  shows "ss_inv s'" "ss_chars s' = cs" "m_isClosed s' = m_isClosed s" "ss_asserts s' = ss_asserts s"
  using assms by (simp_all add: advanced_def)

lemma slow_loop_view:
  assumes "ss_inv s" "literal_ok ic literal" "length literal \<le> length (ss_chars s)"
    "chr_lf \<notin> set consumed"
    and "advancePastSlowCase_loop ic consumed literal s = (r, s')"
  shows "if starts_with ic (ss_chars s) literal then r = DidMatch \<and> moved (length literal) s s'
    else r = DidNotMatch \<and> ss_inv s' \<and> ss_chars s' = consumed @ ss_chars s
      \<and> m_isClosed s' = m_isClosed s \<and> ss_asserts s' = ss_asserts s"
  using assms
proof (induction literal arbitrary: s consumed)
  case Nil
  then show ?case by (simp add: moved_refl)
next
  case (Cons l literal)
  then obtain c cs where cs: "ss_chars s = c # cs" by (cases "ss_chars s") auto
  then have cur: "m_currentCharacter s = c" using Cons.prems(1) by (simp add: currentCharacter_view)
  show ?case
  proof (cases "characterMismatch c l ic")
    case True
    then have "\<not> starts_with ic (ss_chars s) (l # literal)" by (simp add: cs starts_with_Cons)
    then show ?thesis
      using Cons.prems True cur pushBack_view [OF Cons.prems(1)] by (auto simp: Let_def split: if_splits)
  next
    case False
    then have nl: "c \<noteq> chr_lf" using Cons.prems(2) mismatch_lf by blast
    note adv = advanced_view [OF advancePastNonNewline_advanced [OF Cons.prems(1), unfolded cur, OF nl] cs]
    have "if starts_with ic cs literal then r = DidMatch \<and> moved (length literal) (advancePastNonNewline s) s'
      else r = DidNotMatch \<and> ss_inv s' \<and> ss_chars s' = (consumed @ [c]) @ cs
        \<and> m_isClosed s' = m_isClosed s \<and> ss_asserts s' = ss_asserts s"
      using Cons.IH [OF adv(1), of "consumed @ [c]"] Cons.prems(2-) False cur nl cs adv
      by (simp add: Let_def literal_ok_def)
    then show ?thesis
      using False cs adv by (auto simp: starts_with_Cons moved_def split: if_splits)
  qed
qed

lemma slow_view:
  assumes "ss_inv s" "literal_ok ic literal" "length literal \<le> 10"
    and "advancePastSlowCase literal ic s = (r, s')"
  shows "if length (ss_chars s) < length literal then r = NotEnoughCharacters \<and> moved 0 s s'
    else if starts_with ic (ss_chars s) literal then r = DidMatch \<and> moved (length literal) s s'
    else r = DidNotMatch \<and> moved 0 s s'"
proof -
  let ?s = "ss_assert (chr_lf \<notin> set literal \<and> length literal \<le> 10) s"
  have ok: "chr_lf \<notin> set literal \<and> length literal \<le> 10" using assms by (auto simp: literal_ok_def)
  then have s: "?s = s" by (simp add: ss_assert_def)
  have "advancePastSlowCase literal ic s =
    (if length literal > length (ss_chars s) then (NotEnoughCharacters, s)
     else advancePastSlowCase_loop ic [] literal s)"
    unfolding advancePastSlowCase_def s Let_def using assms(1) by (simp add: length_view)
  with assms show ?thesis
    using slow_loop_view [of s ic literal "[]" r s'] by (auto simp: moved_def)
qed

lemma matchesAt_iff:
  "sub_currentCharacter sub + i + length literal \<le> length (sub_string sub) \<Longrightarrow>
   matchesAt ic literal sub i \<longleftrightarrow>
     starts_with ic (drop (sub_currentCharacter sub + i) (sub_string sub)) literal"
proof (induction literal arbitrary: i)
  case (Cons l literal)
  then have "drop (sub_currentCharacter sub + i) (sub_string sub) =
      sub_string sub ! (sub_currentCharacter sub + i) #
      drop (sub_currentCharacter sub + Suc i) (sub_string sub)"
    by (simp add: Cons_nth_drop_Suc)
  moreover have "matchesAt ic literal sub (Suc i) \<longleftrightarrow>
     starts_with ic (drop (sub_currentCharacter sub + Suc i) (sub_string sub)) literal"
    using Cons.prems by (intro Cons.IH) simp
  ultimately show ?case by (simp add: starts_with_Cons)
qed simp

lemma starts_with_append:
  "length literal \<le> length xs \<Longrightarrow> starts_with ic (xs @ ys) literal = starts_with ic xs literal"
  by (simp add: starts_with_def nth_append cong: conj_cong)

lemma advancePast_view:
  assumes inv: "ss_inv s" and ok: "literal_ok ic literal" and len: "length literal \<le> 10"
    and r: "SegmentedString_advancePast ic literal s = (r, s')"
  shows "if length (ss_chars s) < length literal then r = NotEnoughCharacters \<and> moved 0 s s'
    else if starts_with ic (ss_chars s) literal then r = DidMatch \<and> moved (length literal) s s'
    else r = DidNotMatch \<and> moved 0 s s'"
proof -
  let ?sub = "m_currentSubstring s" and ?n = "length literal"
  let ?sub' = "?sub\<lparr>sub_currentCharacter := sub_currentCharacter ?sub + ?n, sub_length := sub_length ?sub - ?n\<rparr>"
  have s: "ss_assert (chr_lf \<notin> set literal) s = s" using ok by (auto simp: literal_ok_def ss_assert_def)
  show ?thesis
  proof (cases "?n + 1 < sub_length ?sub")
    case False
    then have "advancePastSlowCase literal ic s = (r, s')"
      using r unfolding SegmentedString_advancePast_def Let_def s by simp
    then show ?thesis using slow_view [OF inv ok len] by blast
  next
    case True
    have si: "sub_inv ?sub" "sub_currentCharacter ?sub + sub_length ?sub = length (sub_string ?sub)"
      using inv True by (auto simp: ss_inv_def sub_inv_def)
    have rest: "sub_rest ?sub = drop (sub_currentCharacter ?sub) (sub_string ?sub)"
      using si(2) by (metis add_diff_cancel_right' sub_rest_def)
    have st: "starts_with ic (ss_chars s) literal = matchesAt ic literal ?sub 0"
      using True si by (simp add: ss_chars_def rest matchesAt_iff starts_with_append)
    have nlt: "\<not> length (ss_chars s) < ?n" using True si by (simp add: ss_chars_def)
    have sub': "sub_inv ?sub'" "sub_rest ?sub' = drop ?n (sub_rest ?sub)"
    proof -
      show "sub_inv ?sub'" using True si by (auto simp: sub_inv_def)
      have "length (sub_string ?sub) - (sub_length ?sub - ?n) = ?n + sub_currentCharacter ?sub"
        using True si(2) by linarith
      then show "sub_rest ?sub' = drop ?n (sub_rest ?sub)" by (simp add: rest) (simp add: sub_rest_def)
    qed
    have "Substring_getCurrentCharacter ?sub' = first_char (sub_rest ?sub')"
      using sub_rest_Cons [OF sub'(1)] True by simp
    moreover have "sub_rest ?sub' \<noteq> []" using sub'(1) True by (auto simp flip: length_0_conv)
    moreover have "Suc 0 < sub_length ?sub - ?n" "Suc 0 < sub_length ?sub" using True by simp_all
    then have "dispatch_ok (s\<lparr>m_currentSubstring := ?sub', m_currentCharacter := c\<rparr>)" for c
      using inv by (simp add: ss_inv_def dispatch_ok_def Let_def)
    ultimately have "moved ?n s (s\<lparr>m_currentSubstring := ?sub',
        m_currentCharacter := Substring_getCurrentCharacter ?sub'\<rparr>)"
      using inv True sub' si unfolding moved_def ss_inv_def ss_chars_def by simp
    moreover have "SegmentedString_advancePast ic literal s =
      (if matchesAt ic literal ?sub 0 then (DidMatch, s\<lparr>m_currentSubstring := ?sub',
        m_currentCharacter := Substring_getCurrentCharacter ?sub'\<rparr>) else (DidNotMatch, s))"
      unfolding SegmentedString_advancePast_def Let_def s using True
      by (simp add: Substring_getCurrentCharacter_def)
    ultimately show ?thesis using r st nlt inv by (auto simp: moved_refl split: if_splits)
  qed
qed

section \<open>The remaining operations\<close>

lemma clear_view: "ss_inv (SegmentedString_clear s)" "ss_chars (SegmentedString_clear s) = []"
  by (simp_all add: SegmentedString_clear_def updateAdvanceFunctionPointersForEmptyString_def ss_inv_def
      ss_chars_def dispatch_ok_def sub_inv_def ss_assert_def)

lemma close_view:
  "ss_inv (SegmentedString_close s) = ss_inv s" "ss_chars (SegmentedString_close s) = ss_chars s"
  "m_isClosed (SegmentedString_close s)"
  "ss_asserts (SegmentedString_close s) = (ss_asserts s \<and> \<not> m_isClosed s)"
  by (simp_all add: SegmentedString_close_def ss_inv_def ss_chars_def dispatch_ok_def ss_assert_def)

lemma sub_exclude [simp]:
  "sub_inv (sub\<lparr>sub_doNotExcludeLineNumbers := b\<rparr>) = sub_inv sub"
  "sub_rest (sub\<lparr>sub_doNotExcludeLineNumbers := b\<rparr>) = sub_rest sub"
  by (simp_all add: sub_inv_def sub_rest_def)

lemma setExcludeLineNumbers_view:
  assumes inv: "ss_inv s"
  shows "ss_inv (SegmentedString_setExcludeLineNumbers s)"
    "ss_chars (SegmentedString_setExcludeLineNumbers s) = ss_chars s"
proof -
  let ?t = "s\<lparr>m_currentSubstring := (m_currentSubstring s)\<lparr>sub_doNotExcludeLineNumbers := False\<rparr>,
    m_otherSubstrings := map (\<lambda>sub. sub\<lparr>sub_doNotExcludeLineNumbers := False\<rparr>) (m_otherSubstrings s)\<rparr>"
  have c: "ss_chars ?t = ss_chars s" by (simp add: ss_chars_def comp_def)
  then show *: "ss_chars (SegmentedString_setExcludeLineNumbers s) = ss_chars s"
    by (simp add: SegmentedString_setExcludeLineNumbers_def) (simp add: ss_chars_def)
  have "dispatch_ok (updateAdvanceFunctionPointers ?t)"
    using inv ss_chars_Nil_iff [OF inv]
    by (intro dispatch_ok_update) (auto simp: ss_inv_def)
  with inv * show "ss_inv (SegmentedString_setExcludeLineNumbers s)"
    by (auto simp: SegmentedString_setExcludeLineNumbers_def ss_inv_def)
qed

section \<open>Counting and positions\<close>

text \<open>
  What one step adds to the number of characters consumed: nothing when it leaves the last
  character of a substring for the next substring, one otherwise.
\<close>

definition last_of_segment :: "SegmentedString \<Rightarrow> bool" where
  "last_of_segment s \<longleftrightarrow> sub_length (m_currentSubstring s) = 1 \<and> m_otherSubstrings s \<noteq> []"

lemma count_frame [simp]:
  "SegmentedString_numberOfCharactersConsumed (ss_assert b s) = SegmentedString_numberOfCharactersConsumed s"
  "SegmentedString_numberOfCharactersConsumed (startNewLine s) = SegmentedString_numberOfCharactersConsumed s"
  "SegmentedString_numberOfCharactersConsumed (processPossibleNewline s) = SegmentedString_numberOfCharactersConsumed s"
  "SegmentedString_numberOfCharactersConsumed (updateAdvanceFunctionPointersForSingleCharacterSubstring s) =
     SegmentedString_numberOfCharactersConsumed s"
  "SegmentedString_numberOfCharactersConsumed (updateAdvanceFunctionPointers s) =
     SegmentedString_numberOfCharactersConsumed s"
  by (simp_all add: SegmentedString_numberOfCharactersConsumed_def ss_assert_def startNewLine_def
      processPossibleNewline_def updateAdvanceFunctionPointersForSingleCharacterSubstring_def)

lemma stepped_count:
  "1 < sub_length (m_currentSubstring s) \<Longrightarrow>
   SegmentedString_numberOfCharactersConsumed (stepped s) = SegmentedString_numberOfCharactersConsumed s + 1"
  by (simp add: SegmentedString_numberOfCharactersConsumed_def stepped_def Let_def
      Substring_numberOfCharactersConsumed_def of_nat_diff)

lemma incdec_count:
  "1 < sub_length (m_currentSubstring s) \<Longrightarrow>
   SegmentedString_numberOfCharactersConsumed (decrementAndCheckLength (incrementAndRead s)) =
     SegmentedString_numberOfCharactersConsumed s + 1"
  by (simp add: incdec_stepped stepped_count)

lemma single_count:
  "sub_length (m_currentSubstring s) = 1 \<Longrightarrow>
   SegmentedString_numberOfCharactersConsumed
     (advancePastSingleCharacterSubstringWithoutUpdatingLineNumber s) =
     SegmentedString_numberOfCharactersConsumed s + (if m_otherSubstrings s = [] then 1 else 0)"
  by (cases "m_otherSubstrings s")
    (simp_all add: advancePastSingleCharacterSubstringWithoutUpdatingLineNumber_def Let_def
      SegmentedString_numberOfCharactersConsumed_def Substring_numberOfCharactersConsumed_def
      updateAdvanceFunctionPointersForEmptyString_def ss_assert_def)

lemma advance_count:
  assumes "ss_inv s" "ss_chars s \<noteq> []"
  shows "SegmentedString_numberOfCharactersConsumed (SegmentedString_advance s) =
    SegmentedString_numberOfCharactersConsumed s + (if last_of_segment s then 0 else 1)"
  using assms(1)
proof (cases rule: dispatch_cases)
  case fast
  then have "m_fastPathFlags s AND Use8BitAdvance \<noteq> 0" by auto
  from fast_advance_stepped [OF fast(1) this] fast(1) show ?thesis
    by (simp add: Let_def stepped_count last_of_segment_def)
next
  case wide
  then show ?thesis
    by (simp add: SegmentedString_advance_def advanceAndUpdateLineNumber16_def
        advanceWithoutUpdatingLineNumber16_def incdec_count last_of_segment_def)
next
  case single
  then show ?thesis
    by (simp add: SegmentedString_advance_def advancePastSingleCharacterSubstring_def single_count
        last_of_segment_def)
next
  case empty
  then show ?thesis using assms by (simp add: ss_chars_Nil_iff)
qed

lemma pushBack_count:
  "SegmentedString_numberOfCharactersConsumed (SegmentedString_pushBack str s) =
     SegmentedString_numberOfCharactersConsumed s - of_nat (length (str_chars str))"
  by (simp add: SegmentedString_pushBack_def Let_def)
   (simp add: SegmentedString_numberOfCharactersConsumed_def Substring_numberOfCharactersConsumed_def
     ss_assert_def ss_assertCount_def)

section \<open>The interface to the readers of the source\<close>

text \<open>
  What a reader may assume of a source: it sees the first of the remaining characters, and a step
  drops it. A source that can take characters back puts them in front of the rest.
\<close>

locale input_source =
  fixes inv :: "'s \<Rightarrow> bool" and chars :: "'s \<Rightarrow> uchar list" and current :: "'s \<Rightarrow> uchar"
    and advance :: "'s \<Rightarrow> 's"
  assumes current_law: "inv s \<Longrightarrow> current s = first_char (chars s)"
    and advance_inv: "inv s \<Longrightarrow> inv (advance s)"
    and advance_law: "inv s \<Longrightarrow> chars (advance s) = tl (chars s)"
begin

lemma advance_funpow: "inv s \<Longrightarrow> inv ((advance ^^ n) s) \<and> chars ((advance ^^ n) s) = drop n (chars s)"
  by (induction n) (auto simp: advance_inv advance_law drop_Suc tl_drop)

lemma read_prefix:
  assumes "inv s" "n \<le> length (chars s)"
  shows "map (\<lambda>i. current ((advance ^^ i) s)) [0..<n] = take n (chars s)"
proof (rule nth_equalityI)
  fix i assume "i < length (map (\<lambda>i. current ((advance ^^ i) s)) [0..<n])"
  then have "i < n" "drop i (chars s) \<noteq> []" using assms by auto
  then show "map (\<lambda>i. current ((advance ^^ i) s)) [0..<n] ! i = take n (chars s) ! i"
    using assms advance_funpow by (simp add: current_law first_char_hd hd_drop_conv_nth)
qed (use assms in simp)

end

locale rewindable_source = input_source +
  fixes pushBack :: "uchar list \<Rightarrow> 's \<Rightarrow> 's"
  assumes pushBack_inv: "inv s \<Longrightarrow> cs \<noteq> [] \<Longrightarrow> inv (pushBack cs s)"
    and pushBack_law: "inv s \<Longrightarrow> cs \<noteq> [] \<Longrightarrow> chars (pushBack cs s) = cs @ chars s"
begin

text \<open>Reading ahead and pushing back what was read restores the view.\<close>

lemma lookahead:
  assumes "inv s" "0 < n" "n \<le> length (chars s)"
  defines "cs \<equiv> map (\<lambda>i. current ((advance ^^ i) s)) [0..<n]"
  shows "inv (pushBack cs ((advance ^^ n) s)) \<and> chars (pushBack cs ((advance ^^ n) s)) = chars s"
proof -
  have "cs = take n (chars s)" using assms(1,3) unfolding cs_def by (rule read_prefix)
  moreover from this have "cs \<noteq> []" using assms by auto
  ultimately show ?thesis using assms(1) advance_funpow by (simp add: pushBack_inv pushBack_law)
qed

end

abbreviation pushBack16 :: "uchar list \<Rightarrow> SegmentedString \<Rightarrow> SegmentedString" where
  "pushBack16 cs \<equiv> SegmentedString_pushBack \<lparr>str_is8Bit = False, str_chars = cs\<rparr>"

interpretation ss: rewindable_source ss_inv ss_chars m_currentCharacter SegmentedString_advance pushBack16
proof unfold_locales
  fix s :: SegmentedString and cs :: "uchar list"
  assume inv: "ss_inv s"
  then show "m_currentCharacter s = first_char (ss_chars s)" by (rule currentCharacter_view)
  show "ss_inv (SegmentedString_advance s)" "ss_chars (SegmentedString_advance s) = tl (ss_chars s)"
    using SegmentedString_advance_advanced [OF inv] by (simp_all add: advanced_def)
  assume "cs \<noteq> []"
  then show "ss_inv (pushBack16 cs s)" "ss_chars (pushBack16 cs s) = cs @ ss_chars s"
    using pushBack_view [OF inv] by simp_all
qed

section \<open>Properties\<close>

text \<open>
  C21. Whatever way text is cut into strings of either width when it is appended to a source, the
  parser reads exactly the concatenation: the characters seen by repeated \<open>advance\<close> are those of
  the strings, in order, and the source is then empty.
\<close>

theorem segmented_reading:
  assumes "s = fold SegmentedString_appendString strs SegmentedString_default"
    and "n = length (concat (map str_chars strs))"
  shows "map (\<lambda>i. m_currentCharacter ((SegmentedString_advance ^^ i) s)) [0..<n] =
      concat (map str_chars strs)
    \<and> SegmentedString_isEmpty ((SegmentedString_advance ^^ n) s) \<and> ss_asserts s"
proof -
  have "ss_inv (fold SegmentedString_appendString strs t) \<and>
    ss_chars (fold SegmentedString_appendString strs t) = ss_chars t @ concat (map str_chars strs) \<and>
    ss_asserts (fold SegmentedString_appendString strs t) = ss_asserts t"
    if "ss_inv t" "\<not> m_isClosed t" for t
    using that
    by (induction strs arbitrary: t) (simp_all add: SegmentedString_appendString_def appendSubstring_view)
  from this [of SegmentedString_default] have s: "ss_inv s"
      "ss_chars s = concat (map str_chars strs)" "ss_asserts s"
    by (simp_all add: assms(1) default_view, simp_all add: SegmentedString_default_def)
  then show ?thesis
    using ss.read_prefix [of s n] ss.advance_funpow [of s n] assms(2) by (simp add: isEmpty_view)
qed

theorem segmented_reading_witness:
  "map (\<lambda>i. m_currentCharacter ((SegmentedString_advance ^^ i)
      (fold SegmentedString_appendString
        [\<lparr>str_is8Bit = True, str_chars = [0x3C, 0x0A]\<rparr>, \<lparr>str_is8Bit = False, str_chars = [0x3042]\<rparr>]
        SegmentedString_default))) [0..<3] = [0x3C, 0x0A, 0x3042]"
  using segmented_reading [OF refl refl,
      of "[\<lparr>str_is8Bit = True, str_chars = [0x3C, 0x0A]\<rparr>, \<lparr>str_is8Bit = False, str_chars = [0x3042]\<rparr>]"]
  by (simp add: numeral_3_eq_3)

text \<open>
  C22. The three ways to step over a character (\<open>advance\<close>, \<open>advancePastNonNewline\<close>,
  \<open>advancePastNewline\<close>), with all their fast paths, widths and changes of substring, drop the
  first remaining character, keep the invariant, and evaluate no failing \<open>ASSERT\<close>, as long as
  the specialised ones are called on the characters they are for.
\<close>

theorem advance_refines:
  assumes "ss_inv s"
    and "s' = SegmentedString_advance s
      \<or> s' = advancePastNonNewline s \<and> m_currentCharacter s \<noteq> chr_lf
      \<or> s' = advancePastNewline s \<and> m_currentCharacter s = chr_lf"
  shows "ss_inv s' \<and> ss_chars s' = tl (ss_chars s) \<and> m_isClosed s' = m_isClosed s
    \<and> ss_asserts s' = ss_asserts s"
  using assms SegmentedString_advance_advanced [of s] advancePastNonNewline_advanced [of s]
    advancePastNewline_advanced [of s] by (auto simp: advanced_def)

lemma SegmentedString_of_String_inv [simp]: "ss_inv (SegmentedString_of_String str)"
  by (rule of_String_view)

theorem advance_refines_witness:
  "ss_chars (advancePastNonNewline (SegmentedString_of_String
     \<lparr>str_is8Bit = True, str_chars = [0x3C, 0x0A]\<rparr>)) = [0x0A]"
  using advance_refines [of "SegmentedString_of_String \<lparr>str_is8Bit = True, str_chars = [0x3C, 0x0A]\<rparr>", OF _ disjI2 [OF disjI1]]
  by (simp add: of_String_view currentCharacter_view)





text \<open>
  C25. The number of characters consumed grows by one with every step except the step that leaves
  the last character of a substring for the next substring, which is not counted: over a text
  cut into many substrings the counter falls behind by one for each boundary.
\<close>

theorem consumed_count_step:
  assumes "ss_inv s" "ss_chars s \<noteq> []"
  shows "SegmentedString_numberOfCharactersConsumed (SegmentedString_advance s) =
    SegmentedString_numberOfCharactersConsumed s
      + (if sub_length (m_currentSubstring s) = 1 \<and> m_otherSubstrings s \<noteq> [] then 0 else 1)"
  using advance_count [OF assms] by (simp add: last_of_segment_def)

theorem consumed_count_step_witness:
  "let s = SegmentedString_appendString \<lparr>str_is8Bit = True, str_chars = [0x62]\<rparr>
       (SegmentedString_of_String \<lparr>str_is8Bit = True, str_chars = [0x61]\<rparr>)
   in SegmentedString_numberOfCharactersConsumed (SegmentedString_advance s) =
      SegmentedString_numberOfCharactersConsumed s"
proof -
  let ?s0 = "SegmentedString_of_String \<lparr>str_is8Bit = True, str_chars = [0x61]\<rparr>"
  let ?s = "appendSubstring (Substring_of_String \<lparr>str_is8Bit = True, str_chars = [0x62]\<rparr>) ?s0"
  have "ss_inv ?s" "ss_chars ?s = [0x61, 0x62]" by (simp_all add: appendSubstring_view of_String_view)
  moreover have "sub_length (m_currentSubstring ?s) = 1" "m_otherSubstrings ?s \<noteq> []"
    by (simp_all add: appendSubstring_def Let_def SegmentedString_of_String_def)
  ultimately show ?thesis
    using consumed_count_step [of ?s] by (simp add: SegmentedString_appendString_def)
qed

text \<open>
  C26. The column after a line break depends on the width of the string: stepping over a newline
  that is followed by more characters of the same string restarts the column at 0 in an 8-bit
  string (the line is started after the step) and at 1 in a 16-bit string (it is started before).
\<close>

theorem column_after_newline:
  assumes "ss_inv s" "m_currentCharacter s = chr_lf" "1 < sub_length (m_currentSubstring s)"
    "sub_doNotExcludeLineNumbers (m_currentSubstring s)"
  shows "currentLine (SegmentedString_advance s) = currentLine s + 1
    \<and> currentColumn (SegmentedString_advance s) = (if sub_is8Bit (m_currentSubstring s) then 0 else 1)"
proof -
  have frame: "m_numberOfCharactersConsumedPriorToCurrentLine (stepped t) =
      m_numberOfCharactersConsumedPriorToCurrentLine t" "m_currentLine (stepped t) = m_currentLine t"
    "m_currentLine (updateAdvanceFunctionPointersForSingleCharacterSubstring t) = m_currentLine t"
    "m_numberOfCharactersConsumedPriorToCurrentLine (updateAdvanceFunctionPointersForSingleCharacterSubstring t) =
      m_numberOfCharactersConsumedPriorToCurrentLine t" for t
    by (simp_all add: stepped_def Let_def updateAdvanceFunctionPointersForSingleCharacterSubstring_def ss_assert_def)
  have line: "m_currentLine (startNewLine t) = m_currentLine t + 1"
    "m_numberOfCharactersConsumedPriorToCurrentLine (startNewLine t) = SegmentedString_numberOfCharactersConsumed t" for t
    by (simp_all add: startNewLine_def)
  from assms(1) show ?thesis
  proof (cases rule: dispatch_cases)
    case fast
    then have "m_fastPathFlags s AND Use8BitAdvance \<noteq> 0" by auto
    from fast_advance_stepped [OF assms(3) this] fast assms show ?thesis
      by (simp add: Let_def currentLine_def currentColumn_def frame line)
  next
    case wide
    with assms have "SegmentedString_advance s = decrementAndCheckLength (incrementAndRead (startNewLine s))"
      by (simp add: SegmentedString_advance_def advanceAndUpdateLineNumber16_def processPossibleNewline_def
          ss_assert_def)
    with wide assms show ?thesis
      by (simp add: incdec_stepped currentLine_def currentColumn_def frame line stepped_count)
  qed (use assms in simp_all)
qed

theorem column_after_newline_witness:
  "currentColumn (SegmentedString_advance (SegmentedString_of_String
     \<lparr>str_is8Bit = True, str_chars = [0x0A, 0x61, 0x62]\<rparr>)) = 0
   \<and> currentColumn (SegmentedString_advance (SegmentedString_of_String
     \<lparr>str_is8Bit = False, str_chars = [0x0A, 0x61, 0x62]\<rparr>)) = 1"
  using column_after_newline [of "SegmentedString_of_String \<lparr>str_is8Bit = True, str_chars = [0x0A, 0x61, 0x62]\<rparr>"]
    column_after_newline [of "SegmentedString_of_String \<lparr>str_is8Bit = False, str_chars = [0x0A, 0x61, 0x62]\<rparr>"]
  by (simp add: currentCharacter_view of_String_view)
   (simp add: SegmentedString_of_String_def Substring_of_String_def Let_def)

end
