(* ===== verification/Input_Preprocessor.thy ===== *)
theory Input_Preprocessor
  imports Segmented_String_View
begin

text \<open>
  The input stream preprocessor between the source and the tokenizer, the class template of
  \<open>Source/WebCore/html/parser/InputStreamPreprocessor.h\<close>: it turns every line break into a
  newline, and skips or replaces null characters. Of the tokenizer it is instantiated with it
  only uses \<open>neverSkipNullCharacters\<close>, an argument of the model.

  The loop behind the label \<open>ProcessAgain\<close> is a partial function whose value \<open>None\<close> means that it
  does not end; that it always ends on a consistent source is part of \<open>peek_view\<close>.
\<close>

section \<open>Definitions\<close>

record InputStreamPreprocessor =
  m_nextInputCharacter :: uchar
  m_skipNextNewLine :: bool

definition InputStreamPreprocessor_new :: InputStreamPreprocessor where
  "InputStreamPreprocessor_new = \<lparr>m_nextInputCharacter = 0, m_skipNextNewLine = False\<rparr>"

definition isAtEndOfFile :: "SegmentedString \<Rightarrow> bool" where
  "isAtEndOfFile source \<longleftrightarrow> m_isClosed source \<and> SegmentedString_length source = 1"

partial_function (option) processNextInputCharacter ::
    "bool \<Rightarrow> bool \<Rightarrow> InputStreamPreprocessor \<Rightarrow> SegmentedString \<Rightarrow>
     (bool \<times> InputStreamPreprocessor \<times> SegmentedString) option" where
  "processNextInputCharacter neverSkip skipNullCharacters p0 source0 =
     (let source = ss_assert (m_nextInputCharacter p0 = m_currentCharacter source0) source0;
          skipped = (m_nextInputCharacter p0 = chr_lf \<and> m_skipNextNewLine p0);
          source1 = (if skipped then advancePastNewline source else source);
          p1 = (if skipped then p0\<lparr>m_skipNextNewLine := False\<rparr> else p0)
      in if skipped \<and> SegmentedString_isEmpty source1 then Some (False, p1, source1)
         else
           let p2 = (if skipped then p1\<lparr>m_nextInputCharacter := m_currentCharacter source1\<rparr> else p1)
           in if m_nextInputCharacter p2 = chr_cr then
                Some (True, p2\<lparr>m_nextInputCharacter := chr_lf, m_skipNextNewLine := True\<rparr>, source1)
              else
                let p3 = p2\<lparr>m_skipNextNewLine := False\<rparr>
                in if m_nextInputCharacter p3 \<noteq> 0 \<or> isAtEndOfFile source1 then Some (True, p3, source1)
                   else if skipNullCharacters \<and> \<not> neverSkip then
                     let source2 = advancePastNonNewline source1
                     in if SegmentedString_isEmpty source2 then Some (False, p3, source2)
                        else processNextInputCharacter neverSkip skipNullCharacters
                          (p3\<lparr>m_nextInputCharacter := m_currentCharacter source2\<rparr>) source2
                   else Some (True, p3\<lparr>m_nextInputCharacter := replacementCharacter\<rparr>, source1))"

declare processNextInputCharacter.simps [code]

definition peek ::
    "bool \<Rightarrow> bool \<Rightarrow> InputStreamPreprocessor \<Rightarrow> SegmentedString \<Rightarrow>
     (bool \<times> InputStreamPreprocessor \<times> SegmentedString) option" where
  "peek neverSkip skipNullCharacters p source =
     (if SegmentedString_isEmpty source then Some (False, p, source)
      else
        let p1 = p\<lparr>m_nextInputCharacter := m_currentCharacter source\<rparr>;
            specialCharacterMask = chr_lf OR chr_cr OR chr_nul
        in if m_nextInputCharacter p1 AND NOT specialCharacterMask \<noteq> 0
           then Some (True, p1\<lparr>m_skipNextNewLine := False\<rparr>, source)
           else processNextInputCharacter neverSkip skipNullCharacters p1 source)"

definition preprocessor_advance ::
    "bool \<Rightarrow> bool \<Rightarrow> InputStreamPreprocessor \<Rightarrow> SegmentedString \<Rightarrow>
     (bool \<times> InputStreamPreprocessor \<times> SegmentedString) option" where
  "preprocessor_advance neverSkip skipNullCharacters p source =
     peek neverSkip skipNullCharacters p (SegmentedString_advance source)"

definition preprocessor_advancePastNonNewline ::
    "bool \<Rightarrow> bool \<Rightarrow> InputStreamPreprocessor \<Rightarrow> SegmentedString \<Rightarrow>
     (bool \<times> InputStreamPreprocessor \<times> SegmentedString) option" where
  "preprocessor_advancePastNonNewline neverSkip skipNullCharacters p source =
     peek neverSkip skipNullCharacters p (advancePastNonNewline source)"

section \<open>What \<open>peek\<close> does to the view\<close>

text \<open>
  The specification over the remaining characters: the character shown (none when the source runs
  out), whether a newline that follows is to be dropped, and the characters that then remain. The
  character shown is still the first of them.
\<close>

fun peek_spec :: "bool \<Rightarrow> bool \<Rightarrow> bool \<Rightarrow> uchar list \<Rightarrow> uchar option \<times> bool \<times> uchar list" where
  "peek_spec closed skipNull skipNewline [] = (None, skipNewline, [])"
| "peek_spec closed skipNull skipNewline (c # cs) =
     (if c = chr_lf \<and> skipNewline then peek_spec closed skipNull False cs
      else if c = chr_cr then (Some chr_lf, True, c # cs)
      else if c \<noteq> 0 \<or> (closed \<and> cs = []) then (Some c, False, c # cs)
      else if skipNull then peek_spec closed skipNull False cs
      else (Some replacementCharacter, False, c # cs))"

definition peeked ::
    "bool \<Rightarrow> InputStreamPreprocessor \<Rightarrow> SegmentedString \<Rightarrow>
     bool \<times> InputStreamPreprocessor \<times> SegmentedString \<Rightarrow> bool" where
  "peeked skipNull p s r =
     (case r of (b, p', s') \<Rightarrow>
        ss_inv s' \<and> m_isClosed s' = m_isClosed s \<and> ss_asserts s' = ss_asserts s \<and>
        (case peek_spec (m_isClosed s) skipNull (m_skipNextNewLine p) (ss_chars s) of
           (None, nl, cs) \<Rightarrow> \<not> b \<and> m_skipNextNewLine p' = nl \<and> ss_chars s' = cs
         | (Some c, nl, cs) \<Rightarrow> b \<and> m_nextInputCharacter p' = c \<and> m_skipNextNewLine p' = nl
             \<and> ss_chars s' = cs))"

lemma isAtEndOfFile_view:
  "ss_inv s \<Longrightarrow> ss_chars s = c # cs \<Longrightarrow> isAtEndOfFile s \<longleftrightarrow> m_isClosed s \<and> cs = []"
  by (simp add: isAtEndOfFile_def length_view)

text \<open>Dropping the newline after a carriage return, and the rest of the loop body.\<close>

lemma processNext_skip:
  assumes "ss_inv s" "ss_chars s = chr_lf # cs" "m_nextInputCharacter p = chr_lf" "m_skipNextNewLine p"
  shows "processNextInputCharacter neverSkip sk p s =
    (let s1 = advancePastNewline s; p1 = p\<lparr>m_skipNextNewLine := False\<rparr> in
     if cs = [] then Some (False, p1, s1)
     else processNextInputCharacter neverSkip sk (p1\<lparr>m_nextInputCharacter := m_currentCharacter s1\<rparr>) s1)"
proof -
  have cur: "m_currentCharacter s = chr_lf" using assms by (simp add: currentCharacter_view)
  have "advanced s (advancePastNewline s)" using assms(1) cur by (rule advancePastNewline_advanced)
  then have e: "SegmentedString_isEmpty (advancePastNewline s) \<longleftrightarrow> cs = []"
    using assms(2) by (simp add: advanced_def isEmpty_view)
  show ?thesis
    apply (subst processNextInputCharacter.simps)
    apply (subst (2) processNextInputCharacter.simps)
    using assms cur e by (simp add: Let_def)
qed

lemma processNext_noskip:
  assumes "ss_inv s" "ss_chars s = c # cs" "m_nextInputCharacter p = c" "\<not> (c = chr_lf \<and> m_skipNextNewLine p)"
  shows "processNextInputCharacter neverSkip sk p s =
    (if c = chr_cr then Some (True, p\<lparr>m_nextInputCharacter := chr_lf, m_skipNextNewLine := True\<rparr>, s)
     else let p3 = p\<lparr>m_skipNextNewLine := False\<rparr> in
       if c \<noteq> 0 \<or> (m_isClosed s \<and> cs = []) then Some (True, p3, s)
       else if sk \<and> \<not> neverSkip then
         let s2 = advancePastNonNewline s in
         if cs = [] then Some (False, p3, s2)
         else processNextInputCharacter neverSkip sk (p3\<lparr>m_nextInputCharacter := m_currentCharacter s2\<rparr>) s2
       else Some (True, p3\<lparr>m_nextInputCharacter := replacementCharacter\<rparr>, s))"
proof -
  have cur: "m_currentCharacter s = c" using assms by (simp add: currentCharacter_view)
  have "SegmentedString_isEmpty (advancePastNonNewline s) \<longleftrightarrow> cs = []" if "c = 0"
    using advancePastNonNewline_advanced [OF assms(1)] assms(2) cur that
    by (simp add: advanced_def isEmpty_view)
  moreover have noskip: "(m_nextInputCharacter p = chr_lf \<and> m_skipNextNewLine p) = False"
    using assms by simp
  ultimately show ?thesis
    apply (subst processNextInputCharacter.simps)
    unfolding noskip Let_def simp_thms if_False
    using assms cur isAtEndOfFile_view [OF assms(1,2)] by simp
qed

lemma peeked_trans:
  assumes "peeked sk p' s' r" "ss_asserts s' = ss_asserts s" "m_isClosed s' = m_isClosed s"
    and "peek_spec (m_isClosed s) sk (m_skipNextNewLine p') (ss_chars s') =
      peek_spec (m_isClosed s) sk (m_skipNextNewLine p) (ss_chars s)"
  shows "peeked sk p s r"
  using assms by (simp add: peeked_def split: prod.splits)

lemma processNext_view:
  assumes "ss_inv s" "ss_chars s \<noteq> []" "m_nextInputCharacter p = m_currentCharacter s"
  shows "\<exists>r. processNextInputCharacter neverSkip sk p s = Some r \<and> peeked (sk \<and> \<not> neverSkip) p s r"
  using assms
proof (induction "length (ss_chars s)" arbitrary: s p rule: less_induct)
  case less
  then obtain c cs where cs: "ss_chars s = c # cs" by (cases "ss_chars s") auto
  then have cur: "m_currentCharacter s = c" "m_nextInputCharacter p = c"
    using less.prems by (simp_all add: currentCharacter_view)
  show ?case
  proof (cases "c = chr_lf \<and> m_skipNextNewLine p")
    case True
    let ?s1 = "advancePastNewline s"
    let ?p1 = "p\<lparr>m_skipNextNewLine := False, m_nextInputCharacter := m_currentCharacter ?s1\<rparr>"
    have "advanced s ?s1" using advancePastNewline_advanced [OF less.prems(1)] cur True by simp
    note adv = advanced_view [OF this cs]
    note eq = processNext_skip [OF less.prems(1), of cs p neverSkip sk]
    show ?thesis
    proof (cases "cs = []")
      case True': True
      then show ?thesis using eq True cs cur adv by (simp add: peeked_def)
    next
      case False
      from less.hyps [of ?s1 ?p1] obtain r where
        "processNextInputCharacter neverSkip sk ?p1 ?s1 = Some r" "peeked (sk \<and> \<not> neverSkip) ?p1 ?s1 r"
        using adv cs False by auto
      moreover from this have "peeked (sk \<and> \<not> neverSkip) p s r"
        using adv cs True by (elim peeked_trans) simp_all
      ultimately show ?thesis using eq True cs cur False by (simp add: Let_def)
    qed
  next
    case False
    note eq = processNext_noskip [OF less.prems(1) cs cur(2) False, of neverSkip sk]
    show ?thesis
    proof (cases "c = 0 \<and> \<not> (m_isClosed s \<and> cs = []) \<and> sk \<and> \<not> neverSkip")
      case False': False
      then show ?thesis using eq False less.prems(1) cs cur by (auto simp: peeked_def Let_def)
    next
      case True
      let ?s2 = "advancePastNonNewline s"
      let ?p2 = "p\<lparr>m_skipNextNewLine := False, m_nextInputCharacter := m_currentCharacter ?s2\<rparr>"
      have "advanced s ?s2" using advancePastNonNewline_advanced [OF less.prems(1)] cur True by simp
      note adv = advanced_view [OF this cs]
      show ?thesis
      proof (cases "cs = []")
        case True': True
        then show ?thesis using eq True cs adv by (simp add: peeked_def)
      next
        case False
        from less.hyps [of ?s2 ?p2] obtain r where
          "processNextInputCharacter neverSkip sk ?p2 ?s2 = Some r" "peeked (sk \<and> \<not> neverSkip) ?p2 ?s2 r"
          using adv cs False by auto
        moreover from this have "peeked (sk \<and> \<not> neverSkip) p s r"
          using adv cs True False by (elim peeked_trans) simp_all
        ultimately show ?thesis using eq True False by (simp add: Let_def)
      qed
    qed
  qed
qed

lemma peek_view:
  assumes "ss_inv s"
  shows "\<exists>r. peek neverSkip sk p s = Some r \<and> peeked (sk \<and> \<not> neverSkip) p s r"
proof (cases "ss_chars s")
  case Nil
  then show ?thesis using assms by (simp add: peek_def isEmpty_view peeked_def)
next
  case (Cons c cs)
  let ?p = "p\<lparr>m_nextInputCharacter := m_currentCharacter s\<rparr>"
  have cur: "m_currentCharacter s = c" using assms Cons by (simp add: currentCharacter_view)
  show ?thesis
  proof (cases "c AND NOT (chr_lf OR chr_cr OR chr_nul) \<noteq> 0")
    case True
    then have "c \<noteq> chr_lf" "c \<noteq> chr_cr" "c \<noteq> 0" by auto
    with True show ?thesis using assms Cons cur by (simp add: peek_def isEmpty_view peeked_def)
  next
    case False
    from processNext_view [OF assms, of ?p neverSkip sk] obtain r where
      "processNextInputCharacter neverSkip sk ?p s = Some r" "peeked (sk \<and> \<not> neverSkip) ?p s r"
      using Cons by auto
    moreover from this(2) have "peeked (sk \<and> \<not> neverSkip) p s r" by (elim peeked_trans) simp_all
    ultimately show ?thesis using False assms Cons cur by (simp add: peek_def isEmpty_view)
  qed
qed

section \<open>Properties\<close>



end
