(* ===== verification/Html_Entity_Search.thy ===== *)
theory Html_Entity_Search
  imports Wtf_Ascii "HOL-Library.Sublist"
begin

text \<open>
  The incremental search of a character reference name in the sorted table of names,
  \<open>Source/WebCore/html/parser/HTMLEntitySearch.{h,cpp}\<close>. A search remembers the range of the
  table whose entries start with the characters seen so far, and narrows it by binary search with
  every further character.

  The table itself is generated at build time (\<open>HTMLEntityTable.cpp\<close>), so it is a parameter: its
  entries, and the two lookups by first character. \<open>entity_table_ok\<close> states what its generator
  documents: the entries are sorted and distinct, and the lookups return the ends of the range of
  entries that start with the character. Pointers into the table are indices.
\<close>

section \<open>The table\<close>

record HTMLEntityTableEntry =
  entity :: "uchar list"
  firstValue :: uchar32
  secondValue :: uchar32

definition lastCharacter :: "HTMLEntityTableEntry \<Rightarrow> uchar" where
  "lastCharacter e = entity e ! (length (entity e) - 1)"

record HTMLEntityTable =
  entries :: "HTMLEntityTableEntry list"
  firstEntryStartingWith :: "uchar \<Rightarrow> nat option"
  lastEntryStartingWith :: "uchar \<Rightarrow> nat option"

section \<open>The search\<close>

datatype CompareResult = Before | Prefix | After

record HTMLEntitySearch =
  m_currentLength :: nat
  m_mostRecentMatch :: "nat option"
  m_first :: "nat option"
  m_last :: "nat option"
  es_asserts :: bool

definition halfway :: "nat \<Rightarrow> nat \<Rightarrow> nat" where
  "halfway left right = left + (right - left) div 2"

definition HTMLEntitySearch_new :: "HTMLEntityTable \<Rightarrow> HTMLEntitySearch" where
  "HTMLEntitySearch_new tbl = \<lparr>m_currentLength = 0, m_mostRecentMatch = None, m_first = Some 0,
     m_last = Some (length (entries tbl) - 1), es_asserts = True\<rparr>"

definition isEntityPrefix :: "HTMLEntitySearch \<Rightarrow> bool" where
  "isEntityPrefix es \<longleftrightarrow> m_first es \<noteq> None"

definition compareEntry :: "HTMLEntityTable \<Rightarrow> nat \<Rightarrow> nat \<Rightarrow> uchar \<Rightarrow> CompareResult" where
  "compareEntry tbl currentLength i nextCharacter =
     (let e = entity (entries tbl ! i) in
      if length e < currentLength + 1 then Before
      else
        let entryNextCharacter = e ! currentLength in
        if entryNextCharacter = nextCharacter then Prefix
        else if entryNextCharacter < nextCharacter then Before else After)"

function findFirst_loop :: "HTMLEntityTable \<Rightarrow> nat \<Rightarrow> uchar \<Rightarrow> nat \<Rightarrow> nat \<Rightarrow> nat" where
  "findFirst_loop tbl n c left right =
     (if left + 1 < right then
        let probe = halfway left right in
        if compareEntry tbl n probe c = Before then findFirst_loop tbl n c probe right
        else findFirst_loop tbl n c left probe
      else right)"
  by auto
termination
  by (relation "measure (\<lambda>(tbl, n, c, left, right). right - left)") (auto simp: halfway_def)

definition findFirst :: "HTMLEntityTable \<Rightarrow> nat \<Rightarrow> nat \<Rightarrow> nat \<Rightarrow> uchar \<Rightarrow> nat" where
  "findFirst tbl n left right c =
     (if left = right then left
      else
        let result = compareEntry tbl n left c in
        if result = Prefix then left
        else if result = After then right
        else findFirst_loop tbl n c left right)"

function findLast_loop :: "HTMLEntityTable \<Rightarrow> nat \<Rightarrow> uchar \<Rightarrow> nat \<Rightarrow> nat \<Rightarrow> nat" where
  "findLast_loop tbl n c left right =
     (if left + 1 < right then
        let probe = halfway left right in
        if compareEntry tbl n probe c = After then findLast_loop tbl n c left probe
        else findLast_loop tbl n c probe right
      else left)"
  by auto
termination
  by (relation "measure (\<lambda>(tbl, n, c, left, right). right - left)") (auto simp: halfway_def)

definition findLast :: "HTMLEntityTable \<Rightarrow> nat \<Rightarrow> nat \<Rightarrow> nat \<Rightarrow> uchar \<Rightarrow> nat" where
  "findLast tbl n left right c =
     (if left = right then right
      else
        let result = compareEntry tbl n right c in
        if result = Prefix then right
        else if result = Before then left
        else findLast_loop tbl n c left right)"

declare findFirst_loop.simps [simp del] findLast_loop.simps [simp del]

definition HTMLEntitySearch_fail :: "HTMLEntitySearch \<Rightarrow> HTMLEntitySearch" where
  "HTMLEntitySearch_fail es = es\<lparr>m_first := None, m_last := None\<rparr>"

text \<open>The end of \<open>advance\<close>: one more character, and a match if the first entry is that long.\<close>

definition countAndMatch :: "HTMLEntityTable \<Rightarrow> nat \<Rightarrow> nat \<Rightarrow> HTMLEntitySearch \<Rightarrow> HTMLEntitySearch" where
  "countAndMatch tbl first lst es =
     (let es1 = es\<lparr>m_first := Some first, m_last := Some lst, m_currentLength := m_currentLength es + 1\<rparr>
      in if length (entity (entries tbl ! first)) \<noteq> m_currentLength es1 then es1
         else es1\<lparr>m_mostRecentMatch := Some first\<rparr>)"

definition HTMLEntitySearch_advance ::
    "HTMLEntityTable \<Rightarrow> uchar \<Rightarrow> HTMLEntitySearch \<Rightarrow> HTMLEntitySearch" where
  "HTMLEntitySearch_advance tbl nextCharacter es0 =
     (let es = es0\<lparr>es_asserts := es_asserts es0 \<and> isEntityPrefix es0\<rparr> in
      if m_currentLength es = 0 then
        case (firstEntryStartingWith tbl nextCharacter, lastEntryStartingWith tbl nextCharacter) of
          (Some first, Some lst) \<Rightarrow> countAndMatch tbl first lst es
        | _ \<Rightarrow> HTMLEntitySearch_fail es
      else
        case (m_first es, m_last es) of
          (Some left, Some right) \<Rightarrow>
            let first = findFirst tbl (m_currentLength es) left right nextCharacter;
                lst = findLast tbl (m_currentLength es) first right nextCharacter
            in if first = lst \<and> compareEntry tbl (m_currentLength es) first nextCharacter \<noteq> Prefix
               then HTMLEntitySearch_fail es
               else countAndMatch tbl first lst es
        | _ \<Rightarrow> es\<lparr>es_asserts := False\<rparr>)"

section \<open>What is assumed of the table\<close>

fun index_where :: "('a \<Rightarrow> bool) \<Rightarrow> 'a list \<Rightarrow> nat option" where
  "index_where P [] = None"
| "index_where P (x # xs) = (if P x then Some 0 else map_option Suc (index_where P xs))"

definition entity_char_ok :: "uchar \<Rightarrow> bool" where
  "entity_char_ok c \<longleftrightarrow> isASCIIAlphanumeric c \<or> c = chr_semi"

definition entity_value_ok :: "uchar32 \<Rightarrow> bool" where
  "entity_value_ok v \<longleftrightarrow> v \<le> 0x10FFFF \<and> \<not> (0xD800 \<le> v \<and> v \<le> 0xDFFF)"

definition entity_entry_ok :: "HTMLEntityTableEntry \<Rightarrow> bool" where
  "entity_entry_ok e \<longleftrightarrow> entity e \<noteq> [] \<and> list_all entity_char_ok (entity e)
     \<and> chr_semi \<notin> set (butlast (entity e))
     \<and> entity_value_ok (firstValue e) \<and> firstValue e \<noteq> 0 \<and> entity_value_ok (secondValue e)"

definition starting_with :: "uchar \<Rightarrow> HTMLEntityTableEntry \<Rightarrow> bool" where
  "starting_with c e \<longleftrightarrow> entity e \<noteq> [] \<and> hd (entity e) = c"

text \<open>
  The table as its generator describes it: sorted by name, no name twice, and the lookups by first
  character give the first and the last such entry. A name consists of letters and digits and may
  end with a semicolon; its values are code points, the first one not null.
\<close>

definition entity_table_ok :: "HTMLEntityTable \<Rightarrow> bool" where
  "entity_table_ok tbl \<longleftrightarrow>
     list_all entity_entry_ok (entries tbl)
     \<and> sorted_wrt ord_class.lexordp (map entity (entries tbl))
     \<and> firstEntryStartingWith tbl = (\<lambda>c. index_where (starting_with c) (entries tbl))
     \<and> lastEntryStartingWith tbl =
         (\<lambda>c. map_option (\<lambda>i. length (entries tbl) - 1 - i) (index_where (starting_with c) (rev (entries tbl))))"

abbreviation name_at :: "HTMLEntityTable \<Rightarrow> nat \<Rightarrow> uchar list" where
  "name_at tbl i \<equiv> entity (entries tbl ! i)"

section \<open>Binary search on a monotone key\<close>

text \<open>The position of the next character of an entry in the order, as a number.\<close>

definition next_key :: "HTMLEntityTable \<Rightarrow> nat \<Rightarrow> nat \<Rightarrow> nat" where
  "next_key tbl n i = (if length (name_at tbl i) \<le> n then 0 else Suc (unat (name_at tbl i ! n)))"

lemma compareEntry_key:
  "compareEntry tbl n i c = Before \<longleftrightarrow> next_key tbl n i < Suc (unat c)"
  "compareEntry tbl n i c = Prefix \<longleftrightarrow> next_key tbl n i = Suc (unat c)"
  "compareEntry tbl n i c = After \<longleftrightarrow> next_key tbl n i > Suc (unat c)"
  by (auto simp: compareEntry_def next_key_def Let_def word_less_nat_alt word_unat_eq_iff not_less)

lemma halfway_between: "left + 1 < right \<Longrightarrow> left < halfway left right \<and> halfway left right < right"
  by (auto simp: halfway_def)

lemma findFirst_loop_spec:
  assumes "left < right" "next_key tbl n left < Suc (unat c)"
    and "\<And>i j. left \<le> i \<Longrightarrow> i \<le> j \<Longrightarrow> j \<le> right \<Longrightarrow> next_key tbl n i \<le> next_key tbl n j"
  shows "left < findFirst_loop tbl n c left right \<and> findFirst_loop tbl n c left right \<le> right
    \<and> (\<forall>i. left \<le> i \<and> i < findFirst_loop tbl n c left right \<longrightarrow> next_key tbl n i < Suc (unat c))
    \<and> (findFirst_loop tbl n c left right = right
        \<or> Suc (unat c) \<le> next_key tbl n (findFirst_loop tbl n c left right))"
  using assms
proof (induction tbl n c left right rule: findFirst_loop.induct)
  case (1 tbl n c left right)
  let ?probe = "halfway left right"
  show ?case
  proof (cases "left + 1 < right")
    case False
    then have "next_key tbl n i < Suc (unat c)" if "left \<le> i" "i < right" for i
      using that "1.prems"(2) by (metis Suc_eq_plus1 Suc_lessI le_neq_implies_less less_trans_Suc order_le_less_trans not_less_eq)
    then show ?thesis using False "1.prems"(1) by (simp add: findFirst_loop.simps)
  next
    case True
    note hb = halfway_between [OF True]
    show ?thesis
    proof (cases "compareEntry tbl n ?probe c = Before")
      case b: True
      have below: "next_key tbl n i < Suc (unat c)" if "left \<le> i" "i \<le> ?probe" for i
        using that "1.prems"(3) [of i ?probe] hb b by (simp add: compareEntry_key)
      have "?probe < findFirst_loop tbl n c ?probe right \<and> findFirst_loop tbl n c ?probe right \<le> right
        \<and> (\<forall>i. ?probe \<le> i \<and> i < findFirst_loop tbl n c ?probe right \<longrightarrow> next_key tbl n i < Suc (unat c))
        \<and> (findFirst_loop tbl n c ?probe right = right
          \<or> Suc (unat c) \<le> next_key tbl n (findFirst_loop tbl n c ?probe right))"
        using True b hb "1.prems"(3) by (intro "1.IH"(1)) (auto simp: compareEntry_key)
      moreover have eq: "findFirst_loop tbl n c left right = findFirst_loop tbl n c ?probe right"
        using True b by (subst findFirst_loop.simps) (simp add: Let_def)
      ultimately show ?thesis
        unfolding eq using hb below by (meson le_cases less_trans)
    next
      case nb: False
      have "left < findFirst_loop tbl n c left ?probe \<and> findFirst_loop tbl n c left ?probe \<le> ?probe
        \<and> (\<forall>i. left \<le> i \<and> i < findFirst_loop tbl n c left ?probe \<longrightarrow> next_key tbl n i < Suc (unat c))
        \<and> (findFirst_loop tbl n c left ?probe = ?probe
          \<or> Suc (unat c) \<le> next_key tbl n (findFirst_loop tbl n c left ?probe))"
        using True nb hb "1.prems" by (intro "1.IH"(2)) auto
      moreover have eq: "findFirst_loop tbl n c left right = findFirst_loop tbl n c left ?probe"
        using True nb by (subst findFirst_loop.simps) (simp add: Let_def)
      ultimately show ?thesis
        unfolding eq using hb  nb by (auto simp: compareEntry_key)
    qed
  qed
qed

lemma findLast_loop_spec:
  assumes "left < right" "Suc (unat c) < next_key tbl n right"
    and "\<And>i j. left \<le> i \<Longrightarrow> i \<le> j \<Longrightarrow> j \<le> right \<Longrightarrow> next_key tbl n i \<le> next_key tbl n j"
  shows "left \<le> findLast_loop tbl n c left right \<and> findLast_loop tbl n c left right < right
    \<and> (\<forall>i. findLast_loop tbl n c left right < i \<and> i \<le> right \<longrightarrow> Suc (unat c) < next_key tbl n i)
    \<and> (findLast_loop tbl n c left right = left
        \<or> next_key tbl n (findLast_loop tbl n c left right) \<le> Suc (unat c))"
  using assms
proof (induction tbl n c left right rule: findLast_loop.induct)
  case (1 tbl n c left right)
  let ?probe = "halfway left right"
  show ?case
  proof (cases "left + 1 < right")
    case False
    then have "Suc (unat c) < next_key tbl n i" if "left < i" "i \<le> right" for i
      using that "1.prems"(2) by (metis Suc_eq_plus1 Suc_leI le_antisym not_less order_trans)
    then show ?thesis using False "1.prems"(1) by (simp add: findLast_loop.simps)
  next
    case True
    note hb = halfway_between [OF True]
    show ?thesis
    proof (cases "compareEntry tbl n ?probe c = After")
      case a: True
      have above: "Suc (unat c) < next_key tbl n i" if "?probe \<le> i" "i \<le> right" for i
        using that "1.prems"(3) [of ?probe i] hb a by (simp add: compareEntry_key)
      have "left \<le> findLast_loop tbl n c left ?probe \<and> findLast_loop tbl n c left ?probe < ?probe
        \<and> (\<forall>i. findLast_loop tbl n c left ?probe < i \<and> i \<le> ?probe \<longrightarrow> Suc (unat c) < next_key tbl n i)
        \<and> (findLast_loop tbl n c left ?probe = left
          \<or> next_key tbl n (findLast_loop tbl n c left ?probe) \<le> Suc (unat c))"
        using True a hb "1.prems"(3) by (intro "1.IH"(1)) (auto simp: compareEntry_key)
      moreover have eq: "findLast_loop tbl n c left right = findLast_loop tbl n c left ?probe"
        using True a by (subst findLast_loop.simps) (simp add: Let_def)
      ultimately show ?thesis
        unfolding eq using hb above by (meson le_cases less_trans)
    next
      case na: False
      have "?probe \<le> findLast_loop tbl n c ?probe right \<and> findLast_loop tbl n c ?probe right < right
        \<and> (\<forall>i. findLast_loop tbl n c ?probe right < i \<and> i \<le> right \<longrightarrow> Suc (unat c) < next_key tbl n i)
        \<and> (findLast_loop tbl n c ?probe right = ?probe
          \<or> next_key tbl n (findLast_loop tbl n c ?probe right) \<le> Suc (unat c))"
        using True na hb "1.prems" by (intro "1.IH"(2)) auto
      moreover have eq: "findLast_loop tbl n c left right = findLast_loop tbl n c ?probe right"
        using True na by (subst findLast_loop.simps) (simp add: Let_def)
      ultimately show ?thesis
        unfolding eq using hb  na by (auto simp: compareEntry_key)
    qed
  qed
qed

text \<open>Both searches together find the range of a key, or end on one entry with another key.\<close>

lemma find_range:
  assumes "left \<le> right"
    and mono: "\<And>i j. left \<le> i \<Longrightarrow> i \<le> j \<Longrightarrow> j \<le> right \<Longrightarrow> next_key tbl n i \<le> next_key tbl n j"
    and first: "first = findFirst tbl n left right c" and lst: "lst = findLast tbl n first right c"
  shows "left \<le> first \<and> first \<le> lst \<and> lst \<le> right \<and>
    (if \<exists>i. left \<le> i \<and> i \<le> right \<and> next_key tbl n i = Suc (unat c)
     then {i. left \<le> i \<and> i \<le> right \<and> next_key tbl n i = Suc (unat c)} = {first..lst}
     else first = lst \<and> next_key tbl n first \<noteq> Suc (unat c))"
proof -
  let ?k = "next_key tbl n" and ?K = "Suc (unat c)"
  have F: "left \<le> first \<and> first \<le> right
    \<and> (\<forall>i. left \<le> i \<and> i < first \<longrightarrow> ?k i \<noteq> ?K)
    \<and> (first = right \<or> ?K \<le> ?k first)"
  proof (cases "left = right")
    case True
    then show ?thesis by (simp add: first findFirst_def)
  next
    case False
    then have lr: "left < right" using assms(1) by simp
    consider "?k left = ?K" | "?k left > ?K" | "?k left < ?K" by linarith
    then show ?thesis
    proof cases
      case 1
      then show ?thesis using lr False by (simp add: first findFirst_def compareEntry_key Let_def)
    next
      case 2
      then have "first = right" using False by (simp add: first findFirst_def compareEntry_key Let_def)
      moreover have "?k i \<noteq> ?K" if "left \<le> i" "i < right" for i
        using mono [of left i] that 2 by simp
      ultimately show ?thesis using lr by simp
    next
      case 3
      then have "first = findFirst_loop tbl n c left right"
        using False by (simp add: first findFirst_def compareEntry_key Let_def)
      with findFirst_loop_spec [OF lr 3 mono] show ?thesis by auto
    qed
  qed
  have L: "first \<le> lst \<and> lst \<le> right \<and> (\<forall>i. lst < i \<and> i \<le> right \<longrightarrow> ?k i > ?K)
    \<and> (lst = first \<or> ?k lst \<le> ?K)"
  proof (cases "first = right")
    case True
    then show ?thesis by (simp add: lst findLast_def)
  next
    case False
    with F have lr: "first < right" "?K \<le> ?k first" by auto
    consider "?k right = ?K" | "?k right > ?K" using mono [of first right] lr F by linarith
    then show ?thesis
    proof cases
      case 1
      then show ?thesis using lr False by (simp add: lst findLast_def compareEntry_key Let_def)
    next
      case 2
      then have "lst = findLast_loop tbl n c first right"
        using False by (simp add: lst findLast_def compareEntry_key Let_def)
      with findLast_loop_spec [OF lr(1) 2] mono F show ?thesis by auto
    qed
  qed
  show ?thesis
  proof (cases "\<exists>i. left \<le> i \<and> i \<le> right \<and> ?k i = ?K")
    case True
    then obtain i where i: "left \<le> i" "i \<le> right" "?k i = ?K" by blast
    have fi: "first \<le> i"
    proof (rule ccontr)
      assume "\<not> first \<le> i"
      then have "i < first" by simp
      then show False using F i by blast
    qed
    have il: "i \<le> lst"
    proof (rule ccontr)
      assume "\<not> i \<le> lst"
      then have "lst < i" by simp
      then have "?k i > ?K" using L i by blast
      then show False using i by simp
    qed
    have kf: "?k first = ?K"
    proof (cases "first = right")
      case True
      then show ?thesis using fi i by simp
    next
      case False
      then have "?K \<le> ?k first" using F by simp
      moreover have "?k first \<le> ?k i" using F fi i by (intro mono) auto
      ultimately show ?thesis using i by simp
    qed
    have "?k first \<le> ?k lst" using F L by (intro mono) auto
    then have "?k lst = ?K" using L kf by auto
    then have "{i. left \<le> i \<and> i \<le> right \<and> ?k i = ?K} = {first..lst}"
    proof (intro equalityI subsetI)
      fix j assume "j \<in> {i. left \<le> i \<and> i \<le> right \<and> ?k i = ?K}"
      then have "left \<le> j" "j \<le> right" "?k j = ?K" by simp_all
      then have "\<not> j < first" "\<not> lst < j" using F L by (blast, metis less_irrefl)
      then show "j \<in> {first..lst}" by simp
    next
      fix j assume "j \<in> {first..lst}"
      then have "left \<le> j" "j \<le> right" "?k first \<le> ?k j" "?k j \<le> ?k lst"
        using F L mono by auto
      then show "j \<in> {i. left \<le> i \<and> i \<le> right \<and> ?k i = ?K}" using kf \<open>?k lst = ?K\<close> by simp
    qed
    with True F L show ?thesis by simp
  next
    case False
    then have "?k first \<noteq> ?K" using F by auto
    moreover have "lst = first"
    proof (rule ccontr)
      assume "lst \<noteq> first"
      then have "?k lst \<le> ?K" "first < lst" using L by auto
      moreover have "?K \<le> ?k first" using F L \<open>first < lst\<close> by auto
      moreover have "?k first \<le> ?k lst" using F L by (intro mono) auto
      ultimately have "?k first = ?K" by simp
      then show False using False F by auto
    qed
    ultimately show ?thesis unfolding if_not_P [OF False] using F L by simp
  qed
qed

section \<open>The range of a prefix\<close>

definition prefix_range :: "HTMLEntityTable \<Rightarrow> uchar list \<Rightarrow> nat set" where
  "prefix_range tbl p = {i. i < length (entries tbl) \<and> prefix p (name_at tbl i)}"

lemma table_sorted:
  assumes "entity_table_ok tbl" "i < j" "j < length (entries tbl)"
  shows "ord_class.lexordp (name_at tbl i) (name_at tbl j)"
  using assms by (auto simp: entity_table_ok_def sorted_wrt_iff_nth_less)

lemma lexordp_common_prefix:
  fixes p :: "uchar list"
  shows "ord_class.lexordp (p @ u) (p @ v) \<longleftrightarrow> ord_class.lexordp u v"
  by (induction p) auto

lemma next_key_mono:
  assumes ok: "entity_table_ok tbl" and range: "prefix_range tbl p = {l..r}" "l \<le> r" "n = length p"
    and ij: "l \<le> i" "i \<le> j" "j \<le> r"
  shows "next_key tbl n i \<le> next_key tbl n j"
proof (cases "i = j")
  case False
  have "i \<in> prefix_range tbl p" "j \<in> prefix_range tbl p" using range ij by auto
  then obtain u v where u: "name_at tbl i = p @ u" and v: "name_at tbl j = p @ v"
    and j: "j < length (entries tbl)" by (auto simp: prefix_range_def prefix_def)
  have "ord_class.lexordp u v"
    using table_sorted [OF ok _ j, of i] ij False u v by (simp add: lexordp_common_prefix)
  then show ?thesis
    using u v \<open>n = length p\<close> by (cases u; cases v) (auto simp: next_key_def nth_append word_less_nat_alt)
qed simp

lemma next_key_prefix:
  assumes "i < length (entries tbl)" "prefix p (name_at tbl i)" "n = length p"
  shows "next_key tbl n i = Suc (unat c) \<longleftrightarrow> prefix (p @ [c]) (name_at tbl i)"
proof -
  from assms obtain u where "name_at tbl i = p @ u" by (auto simp: prefix_def)
  then show ?thesis using assms(3) by (cases u) (auto simp: next_key_def word_unat_eq_iff)
qed

lemma prefix_range_snoc:
  assumes "n = length p"
  shows "prefix_range tbl (p @ [c]) = {i \<in> prefix_range tbl p. next_key tbl n i = Suc (unat c)}"
  using next_key_prefix [OF _ _ assms] by (auto simp: prefix_range_def dest: append_prefixD)

section \<open>Lookup by the first character\<close>

lemma index_where_Some:
  "index_where P xs = Some i \<longleftrightarrow> i < length xs \<and> P (xs ! i) \<and> (\<forall>j < i. \<not> P (xs ! j))"
proof (induction xs arbitrary: i)
  case (Cons x xs)
  then show ?case by (cases i) (auto simp: less_Suc_eq_0_disj)
qed simp

lemma index_where_None: "index_where P xs = None \<longleftrightarrow> (\<forall>x \<in> set xs. \<not> P x)"
  by (induction xs) auto

lemma starting_with_prefix: "starting_with c e \<longleftrightarrow> prefix [c] (entity e)"
  by (cases "entity e") (auto simp: starting_with_def)

lemma prefix_between:
  fixes p :: "uchar list"
  assumes "ord_class.lexordp x y" "ord_class.lexordp y z" "prefix p x" "prefix p z"
  shows "prefix p y"
  using assms
proof (induction p arbitrary: x y z)
  case (Cons a p)
  obtain x' where x: "x = a # x'" "prefix p x'" using Cons.prems(3) by (cases x) auto
  obtain z' where z: "z = a # z'" "prefix p z'" using Cons.prems(4) by (cases z) auto
  obtain b y' where y: "y = b # y'" using Cons.prems(1) x by (cases y) auto
  have "\<not> b < a" using Cons.prems(1) x y by (simp add: order.asym) (metis order.asym)
  moreover have "\<not> a < b" using Cons.prems(2) z y by (simp add: order.asym) (metis order.asym)
  ultimately have ba: "b = a" by (metis linorder_neqE)
  then have "ord_class.lexordp x' y'" "ord_class.lexordp y' z'"
    using Cons.prems(1,2) x y z by simp_all
  then show ?case using Cons.IH x z y ba by simp
qed simp

lemma index_where_rev:
  assumes "index_where P (rev xs) = Some k"
  defines "i \<equiv> length xs - 1 - k"
  shows "i < length xs \<and> P (xs ! i) \<and> (\<forall>j. i < j \<and> j < length xs \<longrightarrow> \<not> P (xs ! j))"
proof -
  from assms(1) have k: "k < length xs" "P (rev xs ! k)" "\<forall>j < k. \<not> P (rev xs ! j)"
    by (auto simp: index_where_Some)
  have "\<not> P (xs ! j)" if "i < j" "j < length xs" for j
    using k(3) that by (auto simp: i_def rev_nth dest!: spec [of _ "length xs - 1 - j"])
  with k show ?thesis by (auto simp: i_def rev_nth)
qed

lemma first_char_range:
  assumes ok: "entity_table_ok tbl"
  shows "case (firstEntryStartingWith tbl c, lastEntryStartingWith tbl c) of
      (Some l, Some r) \<Rightarrow> l \<le> r \<and> prefix_range tbl [c] = {l..r}
    | _ \<Rightarrow> prefix_range tbl [c] = {}"
proof -
  let ?P = "starting_with c" and ?es = "entries tbl"
  have f: "firstEntryStartingWith tbl c = index_where ?P ?es"
    and l: "lastEntryStartingWith tbl c = map_option (\<lambda>i. length ?es - 1 - i) (index_where ?P (rev ?es))"
    using ok by (simp_all add: entity_table_ok_def)
  show ?thesis
  proof (cases "\<exists>e \<in> set ?es. ?P e")
    case False
    then have "index_where ?P ?es = None" by (simp add: index_where_None)
    moreover have "prefix_range tbl [c] = {}"
      using False by (auto simp: prefix_range_def starting_with_prefix)
    ultimately show ?thesis by (simp add: f)
  next
    case True
    then obtain a b where a: "index_where ?P ?es = Some a" and b: "index_where ?P (rev ?es) = Some b"
      by (metis index_where_None not_None_eq set_rev)
    define r where "r = length ?es - 1 - b"
    have A: "a < length ?es" "?P (?es ! a)" "\<forall>j < a. \<not> ?P (?es ! j)"
      using a by (auto simp: index_where_Some)
    have R: "r < length ?es" "?P (?es ! r)" "\<forall>j. r < j \<and> j < length ?es \<longrightarrow> \<not> ?P (?es ! j)"
      using index_where_rev [OF b] by (auto simp: r_def)
    have ar: "a \<le> r" using A R by (meson not_le)
    have in_range: "j \<in> prefix_range tbl [c]" if ab: "a \<le> j" "j \<le> r" for j
    proof -
      consider "j = a" | "j = r" | "a < j" "j < r" using ab by linarith
      then show ?thesis
      proof cases
        case 3
        then show ?thesis
          using prefix_between [OF table_sorted [OF ok 3(1)] table_sorted [OF ok 3(2)]] A R
          by (simp add: prefix_range_def starting_with_prefix)
      qed (use A R in \<open>simp_all add: prefix_range_def starting_with_prefix\<close>)
    qed
    have bounds: "a \<le> j \<and> j \<le> r" if "j \<in> prefix_range tbl [c]" for j
    proof -
      have "j < length ?es" "?P (?es ! j)" using that by (simp_all add: prefix_range_def starting_with_prefix)
      then have "\<not> j < a" "\<not> r < j" using A(3) R(3) by blast+
      then show ?thesis by simp
    qed
    have "prefix_range tbl [c] = {a..r}" 
    proof (intro equalityI subsetI)
      fix j
      show "j \<in> {a..r}" if "j \<in> prefix_range tbl [c]" using bounds [OF that] by simp
      show "j \<in> prefix_range tbl [c]" if "j \<in> {a..r}" using that in_range by simp
    qed
    with ar show ?thesis by (simp add: f l a b r_def)
  qed
qed

section \<open>The state of a search\<close>

definition has_prefix :: "HTMLEntityTable \<Rightarrow> uchar list \<Rightarrow> bool" where
  "has_prefix tbl p \<longleftrightarrow> (\<exists>e \<in> set (entries tbl). prefix p (entity e))"

text \<open>The longest name in the table that the characters start with.\<close>

definition longest_match :: "HTMLEntityTable \<Rightarrow> uchar list \<Rightarrow> nat option \<Rightarrow> bool" where
  "longest_match tbl p m \<longleftrightarrow>
     (case m of
        None \<Rightarrow> \<forall>i < length (entries tbl). \<not> prefix (name_at tbl i) p
      | Some i \<Rightarrow> i < length (entries tbl) \<and> prefix (name_at tbl i) p
          \<and> (\<forall>j < length (entries tbl). prefix (name_at tbl j) p \<longrightarrow>
               length (name_at tbl j) \<le> length (name_at tbl i)))"

text \<open>
  What the members say after the characters \<open>p\<close> have been accepted: the range between the two
  pointers is the range of the prefix \<open>p\<close> (before the first character it is not used).
\<close>

definition search_inv :: "HTMLEntityTable \<Rightarrow> uchar list \<Rightarrow> HTMLEntitySearch \<Rightarrow> bool" where
  "search_inv tbl p es \<longleftrightarrow> m_currentLength es = length p \<and> longest_match tbl p (m_mostRecentMatch es)
     \<and> es_asserts es
     \<and> (case (m_first es, m_last es) of
          (Some l, Some r) \<Rightarrow> p \<noteq> [] \<longrightarrow> l \<le> r \<and> prefix_range tbl p = {l..r}
        | _ \<Rightarrow> False)"

lemma has_prefix_range: "has_prefix tbl p \<longleftrightarrow> prefix_range tbl p \<noteq> {}"
  by (auto simp: has_prefix_def prefix_range_def set_conv_nth)

lemma entry_ne: "entity_table_ok tbl \<Longrightarrow> i < length (entries tbl) \<Longrightarrow> name_at tbl i \<noteq> []"
  by (simp add: entity_table_ok_def entity_entry_ok_def list_all_length)

lemma search_inv_new: "entity_table_ok tbl \<Longrightarrow> search_inv tbl [] (HTMLEntitySearch_new tbl)"
  by (simp add: search_inv_def HTMLEntitySearch_new_def longest_match_def entry_ne)

lemma prefix_snoc_cases: "prefix q (p @ [c]) \<longleftrightarrow> q = p @ [c] \<or> prefix q p"
  by (rule prefix_snoc)

text \<open>If the characters are a name themselves, that name is the first of their range.\<close>

lemma exact_is_first:
  assumes ok: "entity_table_ok tbl" and r: "prefix_range tbl p = {l..r}" "l \<le> r"
    and j: "j < length (entries tbl)" "name_at tbl j = p"
  shows "j = l"
proof -
  have "j \<in> prefix_range tbl p" using j by (simp add: prefix_range_def)
  then have "l \<le> j" using r by simp
  moreover have "\<not> l < j"
  proof
    assume "l < j"
    then have "ord_class.lexordp (name_at tbl l) p" using table_sorted [OF ok _ j(1)] j(2) by simp
    moreover have "l \<in> prefix_range tbl p" using r by simp
    then obtain u where "name_at tbl l = p @ u" by (auto simp: prefix_range_def prefix_def)
    ultimately show False using lexordp_common_prefix [of p u "[]"] by simp
  qed
  ultimately show ?thesis by simp
qed

lemma longest_match_snoc:
  assumes ok: "entity_table_ok tbl" and m: "longest_match tbl p m"
    and r: "prefix_range tbl (p @ [c]) = {l..r}" "l \<le> r"
  shows "longest_match tbl (p @ [c]) (if length (name_at tbl l) = length (p @ [c]) then Some l else m)"
proof (cases "length (name_at tbl l) = length (p @ [c])")
  case True
  have "l \<in> prefix_range tbl (p @ [c])" using r by simp
  then have "l < length (entries tbl)" "prefix (p @ [c]) (name_at tbl l)" by (simp_all add: prefix_range_def)
  then have "name_at tbl l = p @ [c]" using True by (auto simp: prefix_def)
  with \<open>l < length (entries tbl)\<close> show ?thesis
    using True by (auto simp: longest_match_def dest: prefix_length_le)
next
  case False
  have "name_at tbl j \<noteq> p @ [c]" if "j < length (entries tbl)" for j
    using exact_is_first [OF ok r that] False by auto
  then have "prefix (name_at tbl j) (p @ [c]) \<longleftrightarrow> prefix (name_at tbl j) p" if "j < length (entries tbl)" for j
    using that by simp
  then show ?thesis using m False by (simp add: longest_match_def split: option.splits)
qed

lemma countAndMatch_inv:
  assumes ok: "entity_table_ok tbl" and es: "m_currentLength es = length p" "longest_match tbl p (m_mostRecentMatch es)"
    "es_asserts es" and r: "prefix_range tbl (p @ [c]) = {l..r}" "l \<le> r"
  shows "search_inv tbl (p @ [c]) (countAndMatch tbl l r es)"
  using longest_match_snoc [OF ok es(2) r] es r
  by (simp add: search_inv_def countAndMatch_def Let_def split: if_splits)

lemma search_advance:
  assumes ok: "entity_table_ok tbl" and inv: "search_inv tbl p es"
  shows "if has_prefix tbl (p @ [c]) then search_inv tbl (p @ [c]) (HTMLEntitySearch_advance tbl c es)
    else \<not> isEntityPrefix (HTMLEntitySearch_advance tbl c es)
      \<and> m_mostRecentMatch (HTMLEntitySearch_advance tbl c es) = m_mostRecentMatch es
      \<and> m_currentLength (HTMLEntitySearch_advance tbl c es) = m_currentLength es
      \<and> es_asserts (HTMLEntitySearch_advance tbl c es)"
proof -
  obtain l r where lr: "m_first es = Some l" "m_last es = Some r"
    and range: "p \<noteq> [] \<Longrightarrow> l \<le> r \<and> prefix_range tbl p = {l..r}"
    and len: "m_currentLength es = length p" and m: "longest_match tbl p (m_mostRecentMatch es)"
    and a: "es_asserts es"
    using inv by (auto simp: search_inv_def split: option.splits)
  let ?es = "es\<lparr>es_asserts := es_asserts es \<and> isEntityPrefix es\<rparr>"
  have e: "?es = es" using a lr by (simp add: isEntityPrefix_def)
  show ?thesis
  proof (cases "p = []")
    case True
    have adv: "HTMLEntitySearch_advance tbl c es =
      (case (firstEntryStartingWith tbl c, lastEntryStartingWith tbl c) of
        (Some f, Some g) \<Rightarrow> countAndMatch tbl f g es | _ \<Rightarrow> HTMLEntitySearch_fail es)"
      unfolding HTMLEntitySearch_advance_def Let_def e using True len by simp
    show ?thesis
      using first_char_range [OF ok, of c] True len m a countAndMatch_inv [OF ok len m a, of c]
      by (auto simp: adv has_prefix_range HTMLEntitySearch_fail_def isEntityPrefix_def split: option.splits)
  next
    case False
    define f g where "f = findFirst tbl (length p) l r c" and "g = findLast tbl (length p) f r c"
    have adv: "HTMLEntitySearch_advance tbl c es =
      (if f = g \<and> compareEntry tbl (length p) f c \<noteq> Prefix then HTMLEntitySearch_fail es
       else countAndMatch tbl f g es)"
      unfolding HTMLEntitySearch_advance_def Let_def e using False len lr by (simp add: f_def g_def)
    have R: "l \<le> r" "prefix_range tbl p = {l..r}" using range False by simp_all
    have mono: "next_key tbl (length p) i \<le> next_key tbl (length p) j" if "l \<le> i" "i \<le> j" "j \<le> r" for i j
      using next_key_mono [OF ok R(2,1) refl that] .
    note fr = find_range [OF R(1) mono f_def g_def]
    have pr: "prefix_range tbl (p @ [c]) =
        {i. l \<le> i \<and> i \<le> r \<and> next_key tbl (length p) i = Suc (unat c)}"
      by (subst prefix_range_snoc [OF refl]) (auto simp: R(2))
    show ?thesis
    proof (cases "prefix_range tbl (p @ [c]) = {}")
      case True
      then have "\<not> (\<exists>i. l \<le> i \<and> i \<le> r \<and> next_key tbl (length p) i = Suc (unat c))" using pr by blast
      then have "f = g" "compareEntry tbl (length p) f c \<noteq> Prefix"
        using fr by (simp_all add: compareEntry_key)
      with True show ?thesis
        using a by (simp add: adv has_prefix_range HTMLEntitySearch_fail_def isEntityPrefix_def)
    next
      case ne: False
      then have "\<exists>i. l \<le> i \<and> i \<le> r \<and> next_key tbl (length p) i = Suc (unat c)" using pr by blast
      then have fg: "f \<le> g" "prefix_range tbl (p @ [c]) = {f..g}" using fr pr by simp_all
      then have "f \<in> prefix_range tbl (p @ [c])" by simp
      then have "compareEntry tbl (length p) f c = Prefix" using pr by (simp add: compareEntry_key)
      then have "HTMLEntitySearch_advance tbl c es = countAndMatch tbl f g es" by (simp add: adv)
      with ne show ?thesis using countAndMatch_inv [OF ok len m a fg(2,1)] by (simp add: has_prefix_range)
    qed
  qed
qed

section \<open>A small table\<close>

text \<open>A table with an entry for every letter, and one name with and without semicolon.\<close>

definition entity_table_of :: "HTMLEntityTableEntry list \<Rightarrow> HTMLEntityTable" where
  "entity_table_of es = \<lparr>entries = es,
     firstEntryStartingWith = (\<lambda>c. index_where (starting_with c) es),
     lastEntryStartingWith =
       (\<lambda>c. map_option (\<lambda>i. length es - 1 - i) (index_where (starting_with c) (rev es)))\<rparr>"

definition letter_entry :: "uchar \<Rightarrow> HTMLEntityTableEntry" where
  "letter_entry c = \<lparr>entity = [c, chr_semi], firstValue = 0x1D504, secondValue = 0\<rparr>"

definition upper_letters :: "uchar list" where
  "upper_letters = [0x41, 0x42, 0x43, 0x44, 0x45, 0x46, 0x47, 0x48, 0x49, 0x4A, 0x4B, 0x4C, 0x4D,
     0x4E, 0x4F, 0x50, 0x51, 0x52, 0x53, 0x54, 0x55, 0x56, 0x57, 0x58, 0x59, 0x5A]"

definition lower_letters :: "uchar list" where
  "lower_letters = [0x62, 0x63, 0x64, 0x65, 0x66, 0x67, 0x68, 0x69, 0x6A, 0x6B, 0x6C, 0x6D,
     0x6E, 0x6F, 0x70, 0x71, 0x72, 0x73, 0x74, 0x75, 0x76, 0x77, 0x78, 0x79, 0x7A]"

definition small_table :: HTMLEntityTable where
  "small_table = entity_table_of (map letter_entry upper_letters @ [letter_entry 0x61,
     \<lparr>entity = [0x61, 0x6D, 0x70], firstValue = 0x26, secondValue = 0\<rparr>,
     \<lparr>entity = [0x61, 0x6D, 0x70, 0x3B], firstValue = 0x26, secondValue = 0\<rparr>]
     @ map letter_entry lower_letters)"

lemma entity_table_of_ok:
  assumes "list_all entity_entry_ok es" "sorted_wrt ord_class.lexordp (map entity es)"
  shows "entity_table_ok (entity_table_of es)"
  using assms by (simp add: entity_table_ok_def entity_table_of_def)

lemma small_table_ok: "entity_table_ok small_table"
  unfolding small_table_def
proof (rule entity_table_of_ok)
qed (simp_all add: upper_letters_def lower_letters_def letter_entry_def entity_entry_ok_def entity_char_ok_def entity_value_ok_def
   isASCIIAlphanumeric_def isASCIIDigit_def isASCIIAlpha_def isASCIILower_def toASCIILowerUnchecked_def)

text \<open>Every letter starts a name: the generator of the table relies on it.\<close>

definition letters_covered :: "HTMLEntityTable \<Rightarrow> bool" where
  "letters_covered tbl \<longleftrightarrow> (\<forall>c. isASCIIAlpha c \<longrightarrow> has_prefix tbl [c])"

lemma word_interval:
  fixes c :: uchar
  assumes "of_nat a \<le> c" "c \<le> of_nat b" "a < 65536" "b < 65536"
  shows "c \<in> of_nat ` {a..b}"
proof -
  have "a \<le> unat c" "unat c \<le> b"
    using assms by (simp_all add: word_le_nat_alt unat_of_nat take_bit_nat_eq_self)
  then show ?thesis by (intro image_eqI [of _ _ "unat c"]) simp_all
qed

lemma small_table_letters: "letters_covered small_table"
  unfolding letters_covered_def
proof (intro allI impI)
  fix c assume "isASCIIAlpha c"
  then have "c \<in> of_nat ` {65..90} \<or> c \<in> of_nat ` {97..122}"
    using word_interval [of 65 c 90] word_interval [of 97 c 122] by (auto simp: isASCIIAlpha_iff)
  moreover have "of_nat ` {65..90} = set upper_letters"
    by (simp add: upper_letters_def atLeastAtMost_upt upt_rec)
  moreover have "of_nat ` {97..122} = insert 0x61 (set lower_letters)"
    by (simp add: lower_letters_def atLeastAtMost_upt upt_rec)
  ultimately have "letter_entry c \<in> set (entries small_table)"
    by (auto simp: small_table_def entity_table_of_def)
  moreover have "prefix [c] (entity (letter_entry c))" by (simp add: letter_entry_def)
  ultimately show "has_prefix small_table [c]" unfolding has_prefix_def by blast
qed

section \<open>Properties\<close>

lemma search_fold:
  assumes ok: "entity_table_ok tbl" and "has_prefix tbl p"
  shows "search_inv tbl p (fold (HTMLEntitySearch_advance tbl) p (HTMLEntitySearch_new tbl))"
  using assms(2)
proof (induction p rule: rev_induct)
  case Nil
  then show ?case using search_inv_new [OF ok] by simp
next
  case (snoc c p)
  have "has_prefix tbl p" using snoc.prems by (auto simp: has_prefix_def dest: append_prefixD)
  from search_advance [OF ok snoc.IH [OF this], of c] snoc.prems show ?case by simp
qed



end
