(* ===== verification/Html_Entity_Parser.thy ===== *)
theory Html_Entity_Parser
  imports Segmented_String_View Html_Entity_Search
begin

text \<open>
  Decoding of character references: the template \<open>consumeCharacterReference\<close> of
  \<open>Source/WebCore/xml/parser/CharacterReferenceParserInlines.h\<close> and its instance for HTML in
  \<open>Source/WebCore/html/parser/HTMLEntityParser.cpp\<close>.

  The class that is the template's argument is the record \<open>ParserFunctions\<close>. The result of a
  decoder is whether it succeeded, the decoded characters, whether it ran out of characters, and
  the source. \<open>UChar32\<close> is a 32-bit word that the comparisons read as signed, like the code.
\<close>

section \<open>Code points\<close>

definition windowsLatin1ExtensionArray :: "uchar list" where
  "windowsLatin1ExtensionArray =
    [0x20AC, 0x0081, 0x201A, 0x0192, 0x201E, 0x2026, 0x2020, 0x2021,
     0x02C6, 0x2030, 0x0160, 0x2039, 0x0152, 0x008D, 0x017D, 0x008F,
     0x0090, 0x2018, 0x2019, 0x201C, 0x201D, 0x2022, 0x2013, 0x2014,
     0x02DC, 0x2122, 0x0161, 0x203A, 0x0153, 0x009D, 0x017E, 0x0178]"

abbreviation (input) UCHAR_MAX_VALUE :: int where "UCHAR_MAX_VALUE \<equiv> 0x10FFFF"

definition U_IS_SURROGATE :: "uchar32 \<Rightarrow> bool" where
  "U_IS_SURROGATE c \<longleftrightarrow> c AND 0xFFFFF800 = 0xD800"

definition legalEntityFor :: "uchar32 \<Rightarrow> uchar32" where
  "legalEntityFor value =
     (if sint value \<le> 0 \<or> sint value > UCHAR_MAX_VALUE \<or> U_IS_SURROGATE value then 0xFFFD
      else if value AND NOT 0x1F \<noteq> 0x80 then value
      else ucast (windowsLatin1ExtensionArray ! unat (value - 0x80)))"

definition appendUChar32 :: "uchar32 \<Rightarrow> uchar list" where
  "appendUChar32 c =
     (if c \<le> 0xFFFF then [ucast c]
      else [ucast (drop_bit 10 c + 0xD7C0), ucast (c AND 0x3FF OR 0xDC00)])"

section \<open>The decoders\<close>

type_synonym decoded = "bool \<times> uchar list \<times> bool \<times> SegmentedString"

record ParserFunctions =
  pf_legalEntityFor :: "uchar32 \<Rightarrow> uchar32"
  pf_acceptMalformed :: bool
  pf_consumeNamedEntity :: "SegmentedString \<Rightarrow> uchar \<Rightarrow> uchar \<Rightarrow> decoded option"

text \<open>A string builder stays 8-bit until a wider character is appended.\<close>

definition StringBuilder_toString :: "uchar list \<Rightarrow> WTFString" where
  "StringBuilder_toString characters =
     \<lparr>str_is8Bit = list_all (\<lambda>c. c \<le> 0xFF) characters, str_chars = characters\<rparr>"

definition unconsumeCharacters :: "uchar list \<Rightarrow> SegmentedString \<Rightarrow> SegmentedString" where
  "unconsumeCharacters consumedCharacters source =
     SegmentedString_pushBack (StringBuilder_toString consumedCharacters) source"

definition ASCIILiteral :: "string \<Rightarrow> WTFString" where
  "ASCIILiteral characters = \<lparr>str_is8Bit = True, str_chars = lit characters\<rparr>"

text \<open>The first loop of \<open>consumeNamedEntity\<close>.\<close>

partial_function (option) consumeNamedEntity_loop ::
    "HTMLEntityTable \<Rightarrow> HTMLEntitySearch \<Rightarrow> uchar list \<Rightarrow> uchar \<Rightarrow> SegmentedString \<Rightarrow>
     (HTMLEntitySearch \<times> uchar list \<times> uchar \<times> SegmentedString) option" where
  "consumeNamedEntity_loop tbl entitySearch consumedCharacters cc source =
     (if SegmentedString_isEmpty source then Some (entitySearch, consumedCharacters, cc, source)
      else
        let cc = m_currentCharacter source;
            entitySearch = HTMLEntitySearch_advance tbl cc entitySearch
        in if \<not> isEntityPrefix entitySearch then Some (entitySearch, consumedCharacters, cc, source)
           else consumeNamedEntity_loop tbl entitySearch (consumedCharacters @ [cc]) cc
             (advancePastNonNewline source))"

text \<open>The second loop, which consumes the characters of the match again.\<close>

fun consumeReference :: "uchar list \<Rightarrow> uchar list \<Rightarrow> SegmentedString \<Rightarrow> uchar list \<times> SegmentedString" where
  "consumeReference [] consumedCharacters source = (consumedCharacters, source)"
| "consumeReference (r # reference) consumedCharacters source =
     (let cc = m_currentCharacter source;
          source1 = advancePastNonNewline (ss_assert (cc = r) source);
          source2 = ss_assert (\<not> SegmentedString_isEmpty source1) source1
      in consumeReference reference (consumedCharacters @ [cc]) source2)"

definition consumeNamedEntity ::
    "HTMLEntityTable \<Rightarrow> SegmentedString \<Rightarrow> uchar \<Rightarrow> uchar \<Rightarrow> decoded option" where
  "consumeNamedEntity tbl source0 additionalAllowedCharacter cc0 =
     (case consumeNamedEntity_loop tbl (HTMLEntitySearch_new tbl) [] cc0 source0 of
        None \<Rightarrow> None
      | Some (entitySearch, consumedCharacters, cc, source) \<Rightarrow>
          if SegmentedString_isEmpty source then
            Some (False, [], True, unconsumeCharacters consumedCharacters source)
          else
            case m_mostRecentMatch entitySearch of
              None \<Rightarrow> Some (False, [], False, unconsumeCharacters consumedCharacters source)
            | Some i \<Rightarrow>
                let match = entries tbl ! i;
                    (consumedCharacters, cc, source) =
                      (if length (entity match) \<noteq> m_currentLength entitySearch then
                         let (consumed, source1) =
                           consumeReference (entity match) [] (unconsumeCharacters consumedCharacters source)
                         in (consumed, m_currentCharacter source1, source1)
                       else (consumedCharacters, cc, source))
                in if lastCharacter match = chr_semi \<or> additionalAllowedCharacter = 0
                      \<or> \<not> (isASCIIAlphanumeric cc \<or> cc = chr_eq)
                   then Some (True,
                     appendUChar32 (firstValue match) @
                       (if secondValue match \<noteq> 0 then appendUChar32 (secondValue match) else []),
                     False, source)
                   else Some (False, [], False, unconsumeCharacters consumedCharacters source))"

datatype ReferenceState =
  Initial | Number | MaybeHexLowerCaseX | MaybeHexUpperCaseX | Hex | Decimal | Named

definition hexStep :: "uchar32 \<Rightarrow> uchar \<Rightarrow> uchar32" where
  "hexStep result character = result * 16 + ucast (toASCIIHexValue character)"

definition decimalStep :: "uchar32 \<Rightarrow> uchar \<Rightarrow> uchar32" where
  "decimalStep result character = result * 10 + ucast character - 0x30"

text \<open>The end of a number: the character after the last digit decides what is consumed.\<close>

definition finishNumber ::
    "ParserFunctions \<Rightarrow> uchar32 \<Rightarrow> bool \<Rightarrow> uchar list \<Rightarrow> uchar \<Rightarrow> SegmentedString \<Rightarrow> decoded" where
  "finishNumber pf result overflow consumedCharacters character source =
     (let decoded = appendUChar32 (pf_legalEntityFor pf (if overflow then 0 else result)) in
      if character = chr_semi then (True, decoded, False, advancePastNonNewline source)
      else if pf_acceptMalformed pf then (True, decoded, False, source)
      else (False, [], False, unconsumeCharacters consumedCharacters source))"

partial_function (option) consumeCharacterReference_loop ::
    "ParserFunctions \<Rightarrow> uchar \<Rightarrow> ReferenceState \<Rightarrow> uchar32 \<Rightarrow> bool \<Rightarrow> uchar list \<Rightarrow> SegmentedString \<Rightarrow>
     decoded option" where
  "consumeCharacterReference_loop pf additionalAllowedCharacter state result overflow consumedCharacters source =
     (if SegmentedString_isEmpty source then
        Some (False, [], True, unconsumeCharacters consumedCharacters source)
      else
        let character = m_currentCharacter source;
            hex = hexStep result character;
            decimal = decimalStep result character
        in case state of
             Initial \<Rightarrow>
               if character = chr_tab \<or> character = chr_lf \<or> character = chr_ff \<or> character = chr_space
                  \<or> character = chr_lt \<or> character = chr_amp
               then Some (False, [], False, source)
               else if additionalAllowedCharacter \<noteq> 0 \<and> character = additionalAllowedCharacter
               then Some (False, [], False, source)
               else if character = chr_hash
               then consumeCharacterReference_loop pf additionalAllowedCharacter Number result overflow
                 (consumedCharacters @ [character]) (advancePastNonNewline source)
               else if isASCIIAlpha character
               then pf_consumeNamedEntity pf source additionalAllowedCharacter character
               else Some (False, [], False, source)
           | Number \<Rightarrow>
               if character = 0x78
               then consumeCharacterReference_loop pf additionalAllowedCharacter MaybeHexLowerCaseX result overflow
                 (consumedCharacters @ [character]) (advancePastNonNewline source)
               else if character = 0x58
               then consumeCharacterReference_loop pf additionalAllowedCharacter MaybeHexUpperCaseX result overflow
                 (consumedCharacters @ [character]) (advancePastNonNewline source)
               else if isASCIIDigit character
               then consumeCharacterReference_loop pf additionalAllowedCharacter Decimal decimal
                 (overflow \<or> sint decimal > UCHAR_MAX_VALUE)
                 (consumedCharacters @ [character]) (advancePastNonNewline source)
               else Some (False, [], False, SegmentedString_pushBack (ASCIILiteral ''#'') source)
           | MaybeHexLowerCaseX \<Rightarrow>
               if isASCIIHexDigit character
               then consumeCharacterReference_loop pf additionalAllowedCharacter Hex hex
                 (overflow \<or> sint hex > UCHAR_MAX_VALUE)
                 (consumedCharacters @ [character]) (advancePastNonNewline source)
               else Some (False, [], False, SegmentedString_pushBack (ASCIILiteral ''#x'') source)
           | MaybeHexUpperCaseX \<Rightarrow>
               if isASCIIHexDigit character
               then consumeCharacterReference_loop pf additionalAllowedCharacter Hex hex
                 (overflow \<or> sint hex > UCHAR_MAX_VALUE)
                 (consumedCharacters @ [character]) (advancePastNonNewline source)
               else Some (False, [], False, SegmentedString_pushBack (ASCIILiteral ''#X'') source)
           | Hex \<Rightarrow>
               if isASCIIHexDigit character
               then consumeCharacterReference_loop pf additionalAllowedCharacter Hex hex
                 (overflow \<or> sint hex > UCHAR_MAX_VALUE)
                 (consumedCharacters @ [character]) (advancePastNonNewline source)
               else Some (finishNumber pf result overflow consumedCharacters character source)
           | Decimal \<Rightarrow>
               if isASCIIDigit character
               then consumeCharacterReference_loop pf additionalAllowedCharacter Decimal decimal
                 (overflow \<or> sint decimal > UCHAR_MAX_VALUE)
                 (consumedCharacters @ [character]) (advancePastNonNewline source)
               else Some (finishNumber pf result overflow consumedCharacters character source)
           | Named \<Rightarrow> pf_consumeNamedEntity pf source additionalAllowedCharacter character)"

declare consumeNamedEntity_loop.simps [code] consumeCharacterReference_loop.simps [code]

definition consumeCharacterReference ::
    "ParserFunctions \<Rightarrow> SegmentedString \<Rightarrow> uchar \<Rightarrow> decoded option" where
  "consumeCharacterReference pf source additionalAllowedCharacter =
     consumeCharacterReference_loop pf additionalAllowedCharacter Initial 0 False []
       (ss_assert (additionalAllowedCharacter \<in> {0, chr_quot, chr_apos, chr_gt}) source)"

definition HTMLEntityParser :: "HTMLEntityTable \<Rightarrow> ParserFunctions" where
  "HTMLEntityParser tbl = \<lparr>pf_legalEntityFor = legalEntityFor, pf_acceptMalformed = True,
     pf_consumeNamedEntity = consumeNamedEntity tbl\<rparr>"

definition consumeHTMLEntity :: "HTMLEntityTable \<Rightarrow> SegmentedString \<Rightarrow> uchar \<Rightarrow> decoded option" where
  "consumeHTMLEntity tbl source additionalAllowedCharacter =
     consumeCharacterReference (HTMLEntityParser tbl) source additionalAllowedCharacter"

section \<open>Decoding a name without a source\<close>

definition appendUChar32ToUCharArray :: "uchar32 \<Rightarrow> uchar list" where
  "appendUChar32ToUCharArray value =
     (if value \<le> 0xFFFF then [ucast value]
      else [ucast (drop_bit 10 value + 0xD7C0), ucast (value AND 0x3FF OR 0xDC00)])"

fun decodeName_loop :: "HTMLEntityTable \<Rightarrow> uchar list \<Rightarrow> HTMLEntitySearch \<Rightarrow> HTMLEntitySearch option" where
  "decodeName_loop tbl [] search = Some search"
| "decodeName_loop tbl (c # name) search =
     (let search = HTMLEntitySearch_advance tbl c search in
      if \<not> isEntityPrefix search then None else decodeName_loop tbl name search)"

text \<open>\<open>None\<close> stands for the access through a null \<open>mostRecentMatch()\<close>.\<close>

definition decodeNamedEntityToUCharArray :: "HTMLEntityTable \<Rightarrow> uchar list \<Rightarrow> uchar list option" where
  "decodeNamedEntityToUCharArray tbl name =
     (case decodeName_loop tbl name (HTMLEntitySearch_new tbl) of
        None \<Rightarrow> Some []
      | Some search \<Rightarrow>
          let search = HTMLEntitySearch_advance tbl chr_semi search in
          if \<not> isEntityPrefix search then Some []
          else
            case m_mostRecentMatch search of
              None \<Rightarrow> None
            | Some i \<Rightarrow>
                Some (appendUChar32ToUCharArray (firstValue (entries tbl ! i)) @
                  (if secondValue (entries tbl ! i) = 0 then []
                   else appendUChar32ToUCharArray (secondValue (entries tbl ! i)))))"

end
