(* ===== verification/Html_Entity_Decoding.thy ===== *)
theory Html_Entity_Decoding
  imports Html_Entity_Parser
begin

text \<open>
  Correctness of the decoding of character references (\<open>Html_Entity_Parser\<close>): UTF-16, the values
  of numbers at the width of the accumulator, longest match for names, and that every decoder ends
  and leaves the text alone when it fails. \<open>decoder_ok\<close> is the contract the tokenizer relies on.
\<close>

section \<open>Pushing characters back\<close>

lemma unconsume_view:
  assumes "ss_inv s" "cs \<noteq> []" "chr_lf \<notin> set cs"
  shows "ss_inv (unconsumeCharacters cs s)" "ss_chars (unconsumeCharacters cs s) = cs @ ss_chars s"
    "m_isClosed (unconsumeCharacters cs s) = m_isClosed s"
    "ss_asserts (unconsumeCharacters cs s) = ss_asserts s"
  using pushBack_view [OF assms(1), of "StringBuilder_toString cs"] assms(2,3)
  by (simp_all add: unconsumeCharacters_def StringBuilder_toString_def)

text \<open>
  The characters of a reference: neither a line break nor a null character is among them, so they
  may be stepped over and pushed back, and the end-of-file marker is never one of them.
\<close>

definition reference_char :: "uchar \<Rightarrow> bool" where
  "reference_char c \<longleftrightarrow> isASCIIAlphanumeric c \<or> c = chr_hash \<or> c = chr_semi"

lemma reference_char_not: "reference_char c \<Longrightarrow> c \<noteq> chr_lf \<and> c \<noteq> 0 \<and> c \<noteq> chr_cr"
  by (auto simp: reference_char_def isASCIIAlphanumeric_def isASCIIDigit_def isASCIIAlpha_iff)

lemma digit_reference: "isASCIIDigit c \<Longrightarrow> reference_char c" "isASCIIHexDigit c \<Longrightarrow> reference_char c"
  "isASCIIAlpha c \<Longrightarrow> reference_char c" "reference_char 0x78" "reference_char 0x58" "reference_char chr_hash"
  "reference_char chr_semi"
  by (auto simp: reference_char_def isASCIIAlphanumeric_def isASCIIHexDigit_iff isASCIIAlpha_iff isASCIIDigit_def word_le_nat_alt word_unat_eq_iff)

lemma entity_chars_reference:
  assumes "entity_table_ok tbl" "has_prefix tbl p"
  shows "list_all reference_char p"
proof -
  obtain e where "e \<in> set (entries tbl)" "prefix p (entity e)" using assms(2) by (auto simp: has_prefix_def)
  moreover from this have "list_all entity_char_ok (entity e)"
    using assms(1) by (auto simp: entity_table_ok_def entity_entry_ok_def list_all_iff)
  ultimately show ?thesis
    by (auto simp: list_all_iff entity_char_ok_def reference_char_def dest!: set_mono_prefix)
qed

text \<open>One step over a character of a reference.\<close>

lemma advance_reference:
  assumes "ss_inv s" "ss_chars s = c # cs" "reference_char c"
  shows "ss_inv (advancePastNonNewline s)" "ss_chars (advancePastNonNewline s) = cs"
    "m_isClosed (advancePastNonNewline s) = m_isClosed s"
    "ss_asserts (advancePastNonNewline s) = ss_asserts s"
  using advanced_view [OF advancePastNonNewline_advanced [OF assms(1)] assms(2)]
    reference_char_not [OF assms(3)] assms(1,2) by (auto simp: currentCharacter_view)

section \<open>Named references\<close>

text \<open>
  The first loop consumes the longest prefix of the text that some name starts with; the search
  then holds the longest name the text starts with.
\<close>

definition named_prefix :: "HTMLEntityTable \<Rightarrow> uchar list \<Rightarrow> uchar list \<Rightarrow> uchar list \<Rightarrow> bool" where
  "named_prefix tbl cs p rest \<longleftrightarrow> cs = p @ rest \<and> (p \<noteq> [] \<longrightarrow> has_prefix tbl p)
     \<and> (\<forall>c rest'. rest = c # rest' \<longrightarrow> \<not> has_prefix tbl (p @ [c]))"

lemma named_loop:
  assumes ok: "entity_table_ok tbl" and "ss_inv s" "search_inv tbl p es" "p \<noteq> [] \<longrightarrow> has_prefix tbl p"
  shows "\<exists>es' q cc' s'. consumeNamedEntity_loop tbl es p cc s = Some (es', q, cc', s')
    \<and> named_prefix tbl (p @ ss_chars s) q (ss_chars s')
    \<and> ss_inv s' \<and> m_isClosed s' = m_isClosed s \<and> ss_asserts s' = ss_asserts s
    \<and> longest_match tbl q (m_mostRecentMatch es') \<and> m_currentLength es' = length q
    \<and> (ss_chars s' \<noteq> [] \<longrightarrow> cc' = hd (ss_chars s'))"
  using assms(2-)
proof (induction "length (ss_chars s)" arbitrary: s p es cc rule: less_induct)
  case less
  show ?case
  proof (cases "ss_chars s")
    case Nil
    then show ?thesis
      using less.prems by (subst consumeNamedEntity_loop.simps)
        (simp add: isEmpty_view named_prefix_def search_inv_def)
  next
    case (Cons c cs)
    let ?es = "HTMLEntitySearch_advance tbl c es"
    have cur: "m_currentCharacter s = c" using less.prems(1) Cons by (simp add: currentCharacter_view)
    note sa = search_advance [OF ok less.prems(2), of c]
    have eq: "consumeNamedEntity_loop tbl es p cc s =
      (if isEntityPrefix ?es then consumeNamedEntity_loop tbl ?es (p @ [c]) c (advancePastNonNewline s)
       else Some (?es, p, c, s))"
      using less.prems(1) Cons cur by (subst consumeNamedEntity_loop.simps) (simp add: isEmpty_view Let_def)
    show ?thesis
    proof (cases "has_prefix tbl (p @ [c])")
      case True
      then have inv: "search_inv tbl (p @ [c]) ?es" and pre: "isEntityPrefix ?es"
        using sa by (auto simp: search_inv_def isEntityPrefix_def split: option.splits)
      have "reference_char c" using entity_chars_reference [OF ok True] by simp
      note adv = advance_reference [OF less.prems(1) Cons this]
      show ?thesis
        using less.hyps [of "advancePastNonNewline s" "p @ [c]" ?es c] adv inv pre eq Cons True by simp
    next
      case False
      then show ?thesis
        using sa eq Cons less.prems by (simp add: named_prefix_def search_inv_def)
    qed
  qed
qed

lemma consumeReference_view:
  assumes "ss_inv s" "ss_chars s = r @ rest" "rest \<noteq> []" "list_all reference_char r"
  shows "\<exists>s'. consumeReference r q s = (q @ r, s') \<and> ss_inv s' \<and> ss_chars s' = rest
    \<and> m_isClosed s' = m_isClosed s \<and> ss_asserts s' = ss_asserts s"
  using assms
proof (induction r arbitrary: s q)
  case (Cons c r)
  note adv = advance_reference [OF Cons.prems(1), of c "r @ rest"]
  have cur: "m_currentCharacter s = c" using Cons.prems by (simp add: currentCharacter_view)
  let ?s = "advancePastNonNewline s"
  have s: "ss_inv ?s" "ss_chars ?s = r @ rest" "m_isClosed ?s = m_isClosed s" "ss_asserts ?s = ss_asserts s"
    using adv Cons.prems by simp_all
  then have a: "ss_assert (\<not> SegmentedString_isEmpty ?s) ?s = ?s" "ss_assert (m_currentCharacter s = c) s = s"
    using Cons.prems cur by (simp_all add: isEmpty_view ss_assert_def)
  have "consumeReference (c # r) q s = consumeReference r (q @ [c]) ?s"
    using a cur by (simp add: Let_def)
  then show ?case using Cons.IH [OF s(1,2), of "q @ [c]"] s Cons.prems by auto
qed simp

text \<open>
  What a decoder may do: on success it has consumed one or more characters of a reference, and
  has decoded something that has no null character; otherwise the text is as before.
\<close>

definition decoder_ok :: "SegmentedString \<Rightarrow> decoded \<Rightarrow> bool" where
  "decoder_ok s r =
     (case r of (success, decoded, notEnough, s') \<Rightarrow>
        ss_inv s' \<and> m_isClosed s' = m_isClosed s \<and> ss_asserts s' = ss_asserts s \<and>
        (if success then \<not> notEnough \<and> decoded \<noteq> [] \<and> 0 \<notin> set decoded \<and>
           (\<exists>p. p \<noteq> [] \<and> list_all reference_char p \<and> ss_chars s = p @ ss_chars s')
         else decoded = [] \<and> ss_chars s' = ss_chars s \<and>
           (notEnough \<longrightarrow> list_all reference_char (ss_chars s))))"

lemma reference_list_not: "list_all reference_char p \<Longrightarrow> chr_lf \<notin> set p \<and> 0 \<notin> set p"
  using reference_char_not by (auto simp: list_all_iff)

section \<open>UTF-16\<close>

lemma unat_ucast_uchar: "unat (ucast (c :: uchar32) :: uchar) = unat c mod 65536"
  by (simp add: unsigned_ucast_eq take_bit_eq_mod)

lemma and_3FF: "unat (c AND 0x3FF :: uchar32) = unat c mod 1024"
proof -
  have "c AND 0x3FF = take_bit 10 c" by (simp add: take_bit_eq_mask mask_eq_exp_minus_1)
  then show ?thesis by (simp add: take_bit_eq_mod unat_mod_distrib)
qed

lemma or_DC00:
  assumes "c = x AND (0x3FF :: uchar32)"
  shows "c OR 0xDC00 = c + 0xDC00"
proof -
  have "c AND 0xDC00 = x AND (0x3FF AND 0xDC00)" unfolding assms by (rule and.assoc)
  then have "c AND 0xDC00 = 0" by simp
  then show ?thesis by (simp add: disjunctive_add_eq_or)
qed

lemma surrogate_units:
  assumes "0xFFFF < c" "c \<le> (0x10FFFF :: uchar32)"
  shows "unat (ucast (drop_bit 10 c + 0xD7C0) :: uchar) = unat c div 1024 + 0xD7C0"
    "unat (ucast (c AND 0x3FF OR 0xDC00) :: uchar) = unat c mod 1024 + 0xDC00"
proof -
  have b: "65536 \<le> unat c" "unat c \<le> 1114111" using assms by (simp_all add: word_less_nat_alt word_le_nat_alt)
  then have d: "unat c div 1024 \<le> 1087" by (simp add: div_le_mono [of _ 1114111 1024, simplified])
  have "unat (drop_bit 10 c) = unat c div 1024" by (simp add: drop_bit_eq_div unat_div_distrib)
  then have "unat (drop_bit 10 c + 0xD7C0) = unat c div 1024 + 0xD7C0"
    using d by (simp add: unat_word_ariths)
  then show "unat (ucast (drop_bit 10 c + 0xD7C0) :: uchar) = unat c div 1024 + 0xD7C0"
    using d by (simp add: unat_ucast_uchar)
  have m: "unat c mod 1024 < 1024" by simp
  have "unat (c AND 0x3FF OR 0xDC00) = unat c mod 1024 + 0xDC00"
    using m by (simp add: or_DC00 [OF refl] unat_word_ariths and_3FF)
  then show "unat (ucast (c AND 0x3FF OR 0xDC00) :: uchar) = unat c mod 1024 + 0xDC00"
    using m by (simp add: unat_ucast_uchar)
qed

lemma appendUChar32_nonzero:
  assumes "c \<noteq> 0" "c \<le> 0x10FFFF"
  shows "appendUChar32 c \<noteq> [] \<and> 0 \<notin> set (appendUChar32 c)"
proof (cases "c \<le> 0xFFFF")
  case True
  then have "unat c < 65536" "0 < unat c" using assms by (simp_all add: word_le_nat_alt unat_gt_0)
  then have "unat (ucast c :: uchar) \<noteq> 0" by (simp add: unat_ucast_uchar)
  then show ?thesis using True by (auto simp: appendUChar32_def)
next
  case False
  then have "0xFFFF < c" by simp
  from surrogate_units [OF this assms(2)]
  have "unat (ucast (drop_bit 10 c + 0xD7C0) :: uchar) \<noteq> 0"
    "unat (ucast (c AND 0x3FF OR 0xDC00) :: uchar) \<noteq> 0" by simp_all
  then show ?thesis using False by (auto simp: appendUChar32_def)
qed

section \<open>The result for a name\<close>

definition match_value :: "HTMLEntityTableEntry \<Rightarrow> uchar list" where
  "match_value e = appendUChar32 (firstValue e) @
     (if secondValue e \<noteq> 0 then appendUChar32 (secondValue e) else [])"

lemma match_value_nonzero:
  assumes "entity_table_ok tbl" "i < length (entries tbl)"
  shows "match_value (entries tbl ! i) \<noteq> [] \<and> 0 \<notin> set (match_value (entries tbl ! i))"
proof -
  have "entity_entry_ok (entries tbl ! i)" using assms by (simp add: entity_table_ok_def list_all_length)
  then show ?thesis
    using appendUChar32_nonzero by (auto simp: entity_entry_ok_def entity_value_ok_def match_value_def)
qed

text \<open>
  The specification of a named reference at the start of the text \<open>cs\<close>: the longest name is
  decoded, except in an attribute where a name without semicolon must not be followed by a letter,
  a digit or an equals sign; and nothing is decided while the whole text is the start of a name.
  The last component is the number of characters consumed.
\<close>

definition named_spec ::
    "HTMLEntityTable \<Rightarrow> bool \<Rightarrow> uchar list \<Rightarrow> nat option \<Rightarrow> bool \<times> uchar list \<times> bool \<times> nat" where
  "named_spec tbl inAttribute cs m =
     (if has_prefix tbl cs then (False, [], True, 0)
      else
        case m of
          None \<Rightarrow> (False, [], False, 0)
        | Some i \<Rightarrow>
            let n = length (name_at tbl i); c = cs ! n in
            if last (name_at tbl i) = chr_semi \<or> \<not> inAttribute \<or> \<not> (isASCIIAlphanumeric c \<or> c = chr_eq)
            then (True, match_value (entries tbl ! i), False, n)
            else (False, [], False, 0))"

definition named_result :: "HTMLEntityTable \<Rightarrow> bool \<Rightarrow> SegmentedString \<Rightarrow> decoded \<Rightarrow> bool" where
  "named_result tbl inAttribute s r \<longleftrightarrow>
     (\<exists>m n. longest_match tbl (ss_chars s) m \<and> (case r of (success, dec, nec, s') \<Rightarrow>
        named_spec tbl inAttribute (ss_chars s) m = (success, dec, nec, n) \<and> ss_chars s' = drop n (ss_chars s)))"

lemma named_resultI:
  "longest_match tbl (ss_chars s) m \<Longrightarrow>
   named_spec tbl inAttribute (ss_chars s) m = (success, dec, nec, n) \<Longrightarrow>
   ss_chars s' = drop n (ss_chars s) \<Longrightarrow> named_result tbl inAttribute s (success, dec, nec, s')"
  by (auto simp: named_result_def)

lemma longest_match_extend:
  assumes "named_prefix tbl cs p rest" "rest \<noteq> []" "longest_match tbl p m"
  shows "longest_match tbl cs m"
proof -
  obtain c rest' where r: "rest = c # rest'" using assms(2) by (cases rest) auto
  have np: "\<not> has_prefix tbl (p @ [c])" and cs: "cs = p @ c # rest'"
    using assms(1) r by (auto simp: named_prefix_def)
  have "prefix (name_at tbl i) p" if "i < length (entries tbl)" "prefix (name_at tbl i) cs" for i
  proof -
    have "\<not> prefix (p @ [c]) (name_at tbl i)" using np that(1) by (auto simp: has_prefix_def)
    moreover have "prefix (p @ [c]) cs" using cs by simp
    ultimately have "prefix (name_at tbl i) (p @ [c])" "name_at tbl i \<noteq> p @ [c]"
      using that(2) by (auto dest: prefix_same_cases)
    then show ?thesis by simp
  qed
  moreover have "prefix (name_at tbl i) cs" if "prefix (name_at tbl i) p" for i
    using that cs by (simp add: prefix_prefix)
  ultimately show ?thesis using assms(3) by (auto simp: longest_match_def split: option.splits)
qed

lemma named_prefix_has:
  assumes "named_prefix tbl cs p rest" "p \<noteq> []"
  shows "has_prefix tbl cs \<longleftrightarrow> rest = []"
proof (cases rest)
  case Nil
  then show ?thesis using assms by (simp add: named_prefix_def)
next
  case (Cons c rest')
  then have "\<not> has_prefix tbl (p @ [c])" "cs = (p @ [c]) @ rest'" using assms(1) by (auto simp: named_prefix_def)
  then have "\<not> has_prefix tbl cs" unfolding has_prefix_def by (metis append_prefixD)
  then show ?thesis using Cons by simp
qed

lemma consumeNamedEntity_view:
  assumes ok: "entity_table_ok tbl" and inv: "ss_inv s" and cs: "ss_chars s = c # cs" and pre: "has_prefix tbl [c]"
  shows "\<exists>r. consumeNamedEntity tbl s additional cc = Some r \<and> decoder_ok s r
    \<and> named_result tbl (additional \<noteq> 0) s r"
proof -
  from named_loop [OF ok inv search_inv_new [OF ok], of cc] obtain es q cc' t where
    loop: "consumeNamedEntity_loop tbl (HTMLEntitySearch_new tbl) [] cc s = Some (es, q, cc', t)"
    and np: "named_prefix tbl (ss_chars s) q (ss_chars t)"
    and t: "ss_inv t" "m_isClosed t = m_isClosed s" "ss_asserts t = ss_asserts s"
    and m: "longest_match tbl q (m_mostRecentMatch es)" and len: "m_currentLength es = length q"
    and cc: "ss_chars t \<noteq> [] \<longrightarrow> cc' = hd (ss_chars t)" by auto
  have view: "ss_chars s = q @ ss_chars t" using np by (simp add: named_prefix_def)
  have q: "q \<noteq> []"
  proof
    assume "q = []"
    then have "\<not> has_prefix tbl ([] @ [c])" using np cs unfolding named_prefix_def by (metis append_Nil)
    then show False using pre by simp
  qed
  have qr: "list_all reference_char q"
    using np q entity_chars_reference [OF ok] by (simp add: named_prefix_def)
  note un = unconsume_view [OF t(1) q] and nl = reference_list_not [OF qr]
  let ?fail = "unconsumeCharacters q t"
  have fail: "ss_inv ?fail" "ss_chars ?fail = ss_chars s" "m_isClosed ?fail = m_isClosed s" "ss_asserts ?fail = ss_asserts s"
    using un nl t view by simp_all
  show ?thesis
  proof (cases "ss_chars t = []")
    case True
    then have "consumeNamedEntity tbl s additional cc = Some (False, [], True, ?fail)"
      using loop t by (simp add: consumeNamedEntity_def isEmpty_view)
    moreover have "has_prefix tbl (ss_chars s)" using named_prefix_has [OF np q] True by simp
    moreover have "decoder_ok s (False, [], True, ?fail)"
      using fail qr view True by (simp add: decoder_ok_def)
    moreover have "longest_match tbl (ss_chars s) (m_mostRecentMatch es)" using m view True by simp
    then have "named_result tbl (additional \<noteq> 0) s (False, [], True, ?fail)"
      by (rule named_resultI [where n = 0]) (simp_all add: named_spec_def \<open>has_prefix tbl (ss_chars s)\<close> fail)
    ultimately show ?thesis by blast
  next
    case ne: False
    then have nh: "\<not> has_prefix tbl (ss_chars s)" using named_prefix_has [OF np q] by simp
    have lm: "longest_match tbl (ss_chars s) (m_mostRecentMatch es)"
      using longest_match_extend [OF np ne m] .
    have ie: "\<not> SegmentedString_isEmpty t" using ne t(1) by (simp add: isEmpty_view)
    have failok: "decoder_ok s (False, [], False, ?fail)" using fail by (simp add: decoder_ok_def)
    show ?thesis
    proof (cases "m_mostRecentMatch es")
      case None
      then have "consumeNamedEntity tbl s additional cc = Some (False, [], False, ?fail)"
        using loop ie by (simp add: consumeNamedEntity_def)
      moreover have "named_result tbl (additional \<noteq> 0) s (False, [], False, ?fail)"
        using lm unfolding None by (rule named_resultI [where n = 0]) (simp_all add: named_spec_def nh fail)
      ultimately show ?thesis using failok by blast
    next
      case (Some i)
      let ?e = "entries tbl ! i"
      have i: "i < length (entries tbl)" "prefix (entity ?e) q" using m Some by (auto simp: longest_match_def)
      then obtain u where u: "q = entity ?e @ u" by (auto simp: prefix_def)
      have ene: "entity ?e \<noteq> []" using entry_ne [OF ok i(1)] .
      have er: "list_all reference_char (entity ?e)" using qr u by simp
      let ?rest = "u @ ss_chars t"
      have split: "ss_chars s = entity ?e @ ?rest" "?rest \<noteq> []" using view u ne by simp_all
      obtain w where w: "(if length (entity ?e) \<noteq> m_currentLength es then
            let (consumed, source1) = consumeReference (entity ?e) [] ?fail
            in (consumed, m_currentCharacter source1, source1)
          else (q, cc', t)) = (entity ?e, hd ?rest, w)"
        and wv: "ss_inv w" "ss_chars w = ?rest" "m_isClosed w = m_isClosed s" "ss_asserts w = ss_asserts s"
      proof (cases "u = []")
        case True
        then have "(if length (entity ?e) \<noteq> m_currentLength es then
            let (consumed, source1) = consumeReference (entity ?e) [] ?fail
            in (consumed, m_currentCharacter source1, source1)
          else (q, cc', t)) = (entity ?e, hd ?rest, t)"
          using u len cc ne by simp
        then show ?thesis using that [of t] t True by simp
      next
        case False
        from consumeReference_view [OF fail(1), of "entity ?e" ?rest "[]"] obtain w' where
          "consumeReference (entity ?e) [] ?fail = (entity ?e, w')" "ss_inv w'" "ss_chars w' = ?rest"
          "m_isClosed w' = m_isClosed s" "ss_asserts w' = ss_asserts s"
          using fail split er by auto
        moreover from this have "m_currentCharacter w' = hd ?rest"
          using split(2) by (simp add: currentCharacter_view first_char_hd)
        ultimately show ?thesis using that [of w'] False u len by simp
      qed
      have lastc: "lastCharacter ?e = last (entity ?e)" using ene by (simp add: lastCharacter_def last_conv_nth)
      have nth: "ss_chars s ! length (entity ?e) = hd ?rest" using split by (simp add: nth_append hd_conv_nth)
      have wr: "ss_inv (unconsumeCharacters (entity ?e) w)" "ss_chars (unconsumeCharacters (entity ?e) w) = ss_chars s"
        "m_isClosed (unconsumeCharacters (entity ?e) w) = m_isClosed s"
        "ss_asserts (unconsumeCharacters (entity ?e) w) = ss_asserts s"
        using unconsume_view [OF wv(1) ene] reference_list_not [OF er] wv split by simp_all
      have res: "consumeNamedEntity tbl s additional cc =
        (if last (entity ?e) = chr_semi \<or> additional = 0 \<or> \<not> (isASCIIAlphanumeric (hd ?rest) \<or> hd ?rest = chr_eq)
         then Some (True, match_value ?e, False, w)
         else Some (False, [], False, unconsumeCharacters (entity ?e) w))"
        unfolding consumeNamedEntity_def loop option.case prod.case if_not_P [OF ie] Some
        by (simp only: Let_def w [unfolded Let_def] prod.case lastc match_value_def)
      have okt: "decoder_ok s (True, match_value ?e, False, w)"
        using wv match_value_nonzero [OF ok i(1)] ene er split by (auto simp: decoder_ok_def)
      have okf: "decoder_ok s (False, [], False, unconsumeCharacters (entity ?e) w)"
        using wr by (simp add: decoder_ok_def)
      have d: "drop (length (entity ?e)) (ss_chars s) = ?rest" using split by simp
      show ?thesis
      proof (cases "last (entity ?e) = chr_semi \<or> additional = 0 \<or> \<not> (isASCIIAlphanumeric (hd ?rest) \<or> hd ?rest = chr_eq)")
        case True
        then have "named_spec tbl (additional \<noteq> 0) (ss_chars s) (Some i) = (True, match_value ?e, False, length (entity ?e))"
          using nh nth by (auto simp: named_spec_def Let_def)
        then have "named_result tbl (additional \<noteq> 0) s (True, match_value ?e, False, w)"
          by (rule named_resultI [OF lm [unfolded Some]]) (simp add: wv d)
        then show ?thesis using res okt unfolding if_P [OF True] by blast
      next
        case False
        then have "named_spec tbl (additional \<noteq> 0) (ss_chars s) (Some i) = (False, [], False, 0)"
          using nh nth by (auto simp: named_spec_def Let_def)
        then have "named_result tbl (additional \<noteq> 0) s (False, [], False, unconsumeCharacters (entity ?e) w)"
          by (rule named_resultI [OF lm [unfolded Some]]) (simp add: wr)
        then show ?thesis using res okf unfolding if_not_P [OF False] by blast
      qed
    qed
  qed
qed

section \<open>Code points a number may stand for\<close>

lemma unat_ucast_up [simp]:
  "unat (ucast (w :: uchar) :: uchar32) = unat w" "unat (ucast (l :: lchar) :: uchar32) = unat l"
  using unsigned_less [of w, where 'a = nat] unsigned_less [of l, where 'a = nat]
  by (simp_all add: unsigned_ucast_eq take_bit_nat_eq_self)

lemma unat_and_not_mask: "unat (c AND NOT (mask n) :: uchar32) = unat c div 2 ^ n * 2 ^ n"
proof -
  have "c AND NOT (mask n) = push_bit n (drop_bit n c)"
    by (rule bit_eqI) (auto simp: bit_simps)
  moreover have "push_bit n (drop_bit n c) + take_bit n c = c" by (rule bits_ident)
  ultimately have eq: "c AND NOT (mask n) = c - take_bit n c" by (metis add_diff_cancel_right')
  have t: "unat (take_bit n c) = unat c mod 2 ^ n"
    unfolding unsigned_take_bit_eq by (rule take_bit_eq_mod)
  then have "unat (c - take_bit n c) = unat c - unat c mod 2 ^ n"
    by (metis mod_less_eq_dividend unat_sub word_le_nat_alt)
  then show ?thesis by (simp add: eq minus_mod_eq_div_mult)
qed

lemma sint_small: "unat (c :: uchar32) < 2 ^ 31 \<Longrightarrow> sint c = int (unat c)"
proof -
  assume "unat c < 2 ^ 31"
  then have "uint c < 2 ^ 31" by (metis of_nat_less_iff of_nat_numeral of_nat_power uint_nat)
  then have "signed_take_bit 31 (uint c) = uint c"
    by (intro signed_take_bit_int_eq_self) (simp_all add: order.trans [of _ 0])
  then show ?thesis by (simp add: sint_uint)
qed

lemma sint_pos:
  assumes "0 < sint (c :: uchar32)"
  shows "sint c = int (unat c)"
proof (rule sint_small, rule ccontr)
  assume "\<not> unat c < 2 ^ 31"
  then have ge: "2 ^ 31 \<le> uint c" by (metis not_less of_nat_le_iff of_nat_numeral of_nat_power uint_nat)
  have lt: "uint c < 2 ^ 32" using uint_lt2p [of c] by simp
  have "sint c = (uint c + 2 ^ 31) mod 2 ^ 32 - 2 ^ 31"
    by (simp add: sint_uint signed_take_bit_eq_take_bit_shift take_bit_eq_mod)
  moreover have "(uint c + 2 ^ 31) mod 2 ^ 32 = uint c + 2 ^ 31 - 2 ^ 32"
    using ge lt by (simp add: mod_pos_geq)
  ultimately show False using assms lt by simp
qed

definition windows1252 :: "nat \<Rightarrow> nat" where
  "windows1252 v = unat (windowsLatin1ExtensionArray ! (v - 0x80))"

text \<open>The code point that a numeric reference with the given value stands for.\<close>

definition legal_code_point :: "nat \<Rightarrow> nat" where
  "legal_code_point v =
     (if v = 0 \<or> v > 0x10FFFF \<or> (0xD800 \<le> v \<and> v \<le> 0xDFFF) then 0xFFFD
      else if 0x80 \<le> v \<and> v \<le> 0x9F then windows1252 v else v)"

lemma div_eq_bounds: "0 < (k :: nat) \<Longrightarrow> n div k = q \<longleftrightarrow> q * k \<le> n \<and> n < q * k + k"
  by (metis add.commute div_nat_eqI dividend_less_div_times mult.commute mult_Suc_right div_times_less_eq_dividend)

lemma surrogate_iff: "U_IS_SURROGATE c \<longleftrightarrow> 0xD800 \<le> unat c \<and> unat c \<le> 0xDFFF"
proof -
  have m: "(0xFFFFF800 :: uchar32) = NOT (mask 11)" by (simp add: mask_eq_exp_minus_1)
  have "U_IS_SURROGATE c \<longleftrightarrow> unat (c AND NOT (mask 11)) = unat (0xD800 :: uchar32)"
    unfolding U_IS_SURROGATE_def m by (rule word_unat_eq_iff)
  also have "\<dots> \<longleftrightarrow> unat c div 2048 = 27" unfolding unat_and_not_mask by simp
  also have "\<dots> \<longleftrightarrow> 0xD800 \<le> unat c \<and> unat c \<le> 0xDFFF" by (subst div_eq_bounds) auto
  finally show ?thesis .
qed

lemma latin1_ext_iff: "c AND NOT 0x1F = (0x80 :: uchar32) \<longleftrightarrow> 0x80 \<le> unat c \<and> unat c \<le> 0x9F"
proof -
  have m: "(0x1F :: uchar32) = mask 5" by (simp add: mask_eq_exp_minus_1)
  have "c AND NOT 0x1F = (0x80 :: uchar32) \<longleftrightarrow> unat (c AND NOT (mask 5)) = unat (0x80 :: uchar32)"
    unfolding m by (rule word_unat_eq_iff)
  also have "\<dots> \<longleftrightarrow> unat c div 32 = 4" unfolding unat_and_not_mask by simp
  also have "\<dots> \<longleftrightarrow> 0x80 \<le> unat c \<and> unat c \<le> 0x9F" by (subst div_eq_bounds) auto
  finally show ?thesis .
qed

lemma legalEntityFor_value:
  assumes "sint c \<le> 0 \<and> v = 0 \<or> sint c = int v"
  shows "unat (legalEntityFor c) = legal_code_point v"
proof (cases "0 < sint c")
  case False
  then have "v = 0" using assms by auto
  then show ?thesis using False by (simp add: legalEntityFor_def legal_code_point_def)
next
  case True
  then have v: "v = unat c" "sint c = int v" "0 < v"
    using sint_pos [OF True] assms by (metis not_less nat_int, metis not_less, force)
  have "unat (c - 0x80) = v - 0x80" if "0x80 \<le> v" using that v(1) by (simp add: unat_sub word_le_nat_alt)
  moreover have s: "sint c \<le> 0 \<longleftrightarrow> False" "sint c > UCHAR_MAX_VALUE \<longleftrightarrow> v > 0x10FFFF" using v(2,3) by simp_all
  ultimately show ?thesis
    unfolding legalEntityFor_def legal_code_point_def surrogate_iff latin1_ext_iff windows1252_def s
    using v(1,3) by simp
qed

lemma legal_code_point_bounds:
  "0 < legal_code_point v \<and> legal_code_point v \<le> 0x10FFFF
   \<and> \<not> (0xD800 \<le> legal_code_point v \<and> legal_code_point v \<le> 0xDFFF)"
proof -
  have "\<forall>w \<in> set windowsLatin1ExtensionArray. 0 < unat w \<and> unat w < 0xD800"
    by (simp add: windowsLatin1ExtensionArray_def)
  moreover have "length windowsLatin1ExtensionArray = 32" by (simp add: windowsLatin1ExtensionArray_def)
  ultimately have "0 < windows1252 v \<and> windows1252 v < 0xD800" if "0x80 \<le> v" "v \<le> 0x9F"
    using that by (simp add: windows1252_def)
  then show ?thesis by (auto simp: legal_code_point_def)
qed

section \<open>The value of a number\<close>

definition digit_value :: "uchar \<Rightarrow> nat" where
  "digit_value c = (if unat c \<le> 57 then unat c - 48 else if unat c \<le> 70 then unat c - 55 else unat c - 87)"

definition number_value :: "nat \<Rightarrow> uchar list \<Rightarrow> nat" where
  "number_value base ds = foldl (\<lambda>v d. v * base + digit_value d) 0 ds"

lemma toASCIIHexValue_value:
  assumes "isASCIIHexDigit c"
  shows "unat (toASCIIHexValue c) = digit_value c" "digit_value c < 16"
proof -
  have r: "(48 \<le> unat c \<and> unat c \<le> 57) \<or> (65 \<le> unat c \<and> unat c \<le> 70) \<or> (97 \<le> unat c \<and> unat c \<le> 102)"
    using assms by (simp add: isASCIIHexDigit_iff word_le_nat_alt)
  then show "digit_value c < 16" by (auto simp: digit_value_def)
  have u: "unat (ucast (x :: uchar) :: lchar) = unat x mod 256" for x
    by (simp add: unsigned_ucast_eq take_bit_eq_mod)
  have a: "unat (x AND 0xF :: uchar) = unat x mod 16" for x
  proof -
    have "x AND 0xF = take_bit 4 x" by (simp add: take_bit_eq_mask mask_eq_exp_minus_1)
    moreover have "unat (take_bit 4 x) = unat x mod 2 ^ 4"
      unfolding unsigned_take_bit_eq by (rule take_bit_eq_mod)
    ultimately show ?thesis by simp
  qed
  show "unat (toASCIIHexValue c) = digit_value c"
  proof (cases "unat c < 65")
    case True
    then have "unat (c - 0x30) = unat c - 48" using r by (simp add: unat_sub word_le_nat_alt)
    then show ?thesis using True r by (auto simp: toASCIIHexValue_def word_less_nat_alt u digit_value_def)
  next
    case False
    then have "unat (c - 0x41 + 10) = unat c - 55" using r by (auto simp: unat_word_ariths unat_sub word_le_nat_alt)
    moreover have "(unat c - 55) mod 16 = digit_value c"
    proof (cases "unat c \<le> 70")
      case True
      then show ?thesis using False r by (simp add: digit_value_def)
    next
      case high: False
      then have "unat c \<in> {97, 98, 99, 100, 101, 102}" using False r by auto
      then show ?thesis by (auto simp: digit_value_def)
    qed
    ultimately show ?thesis using False by (simp add: toASCIIHexValue_def word_less_nat_alt u a)
  qed
qed

text \<open>
  The accumulator holds the value read so far unless that exceeds the last code point, and the
  flag says whether it does: once set it is never reset, so the wrap-around of later steps is not
  seen.
\<close>

definition number_inv :: "nat \<Rightarrow> uchar32 \<Rightarrow> bool \<Rightarrow> bool" where
  "number_inv v result overflow \<longleftrightarrow> overflow = (v > 0x10FFFF) \<and> (\<not> overflow \<longrightarrow> unat result = v)"

lemma number_step:
  assumes "number_inv v result overflow" "d < base" "base \<le> 16" "0 < base"
    and "unat result \<le> 0x10FFFF \<Longrightarrow> unat r' = unat result * base + d"
  shows "number_inv (v * base + d) r' (overflow \<or> sint r' > UCHAR_MAX_VALUE)"
proof (cases overflow)
  case True
  then have "v > 0x10FFFF" using assms by (simp add: number_inv_def)
  then have "v * base + d > 0x10FFFF" using \<open>0 < base\<close>
    by (metis add_lessD1 less_le_trans mult.commute mult_le_mono1 nat_mult_1 One_nat_def Suc_leI trans_less_add1)
  with True show ?thesis by (simp add: number_inv_def)
next
  case False
  then have v: "v \<le> 0x10FFFF" "unat result = v" using assms by (auto simp: number_inv_def)
  then have r: "unat r' = v * base + d" using assms by simp
  have "v * base \<le> 0x10FFFF * 16" using v assms by (intro mult_le_mono) simp_all
  then have "sint r' = int (v * base + d)" using r assms by (subst sint_small) simp_all
  then have "sint r' > UCHAR_MAX_VALUE \<longleftrightarrow> v * base + d > 0x10FFFF" by (simp del: of_nat_add of_nat_mult)
  then show ?thesis using False r by (simp add: number_inv_def)
qed

lemma hexStep_value:
  assumes "isASCIIHexDigit c" "unat r \<le> 0x10FFFF"
  shows "unat (hexStep r c) = unat r * 16 + digit_value c"
proof -
  have "unat (ucast (toASCIIHexValue c) :: uchar32) = digit_value c"
    using toASCIIHexValue_value [OF assms(1)] by simp
  then show ?thesis using assms toASCIIHexValue_value(2) [OF assms(1)] by (simp add: hexStep_def unat_word_ariths)
qed

lemma decimalStep_value:
  assumes "isASCIIDigit c" "unat r \<le> 0x10FFFF"
  shows "unat (decimalStep r c) = unat r * 10 + digit_value c" "digit_value c < 10"
proof -
  have c: "48 \<le> unat c" "unat c \<le> 57" using assms by (simp_all add: isASCIIDigit_def word_le_nat_alt)
  then show "digit_value c < 10" by (simp add: digit_value_def)
  have u: "unat (ucast c :: uchar32) = unat c" by simp
  have "unat (r * 10 + ucast c) = unat r * 10 + unat c" using assms c u by (simp add: unat_word_ariths)
  moreover from this have "unat (r * 10 + ucast c - 0x30) = unat r * 10 + unat c - 48"
    using c by (subst unat_sub) (simp_all add: word_le_nat_alt)
  ultimately show "unat (decimalStep r c) = unat r * 10 + digit_value c"
    using c by (simp add: decimalStep_def digit_value_def)
qed

section \<open>Numeric references\<close>

definition reference_digit :: "ReferenceState \<Rightarrow> uchar \<Rightarrow> bool" where
  "reference_digit st = (if st = Hex then isASCIIHexDigit else isASCIIDigit)"

definition reference_base :: "ReferenceState \<Rightarrow> nat" where
  "reference_base st = (if st = Hex then 16 else 10)"

definition reference_step :: "ReferenceState \<Rightarrow> uchar32 \<Rightarrow> uchar \<Rightarrow> uchar32" where
  "reference_step st = (if st = Hex then hexStep else decimalStep)"

lemma reference_digit_char: "reference_digit st c \<Longrightarrow> reference_char c"
  by (auto simp: reference_digit_def digit_reference split: if_splits)

lemma reference_step_inv:
  assumes "number_inv v r ov" "reference_digit st c"
  shows "number_inv (v * reference_base st + digit_value c) (reference_step st r c)
    (ov \<or> sint (reference_step st r c) > UCHAR_MAX_VALUE)"
proof (rule number_step [OF assms(1)])
  show "digit_value c < reference_base st"
    using assms(2) toASCIIHexValue_value(2) decimalStep_value(2) [of c 0]
    by (auto simp: reference_digit_def reference_base_def split: if_splits)
  show "unat (reference_step st r c) = unat r * reference_base st + digit_value c" if "unat r \<le> 0x10FFFF"
    using assms(2) hexStep_value [OF _ that] decimalStep_value(1) [OF _ that]
    by (auto simp: reference_digit_def reference_base_def reference_step_def split: if_splits)
qed (simp_all add: reference_base_def)

lemma loop_empty:
  "ss_inv s \<Longrightarrow> ss_chars s = [] \<Longrightarrow>
   consumeCharacterReference_loop pf a st r ov q s = Some (False, [], True, unconsumeCharacters q s)"
  by (subst consumeCharacterReference_loop.simps) (simp add: isEmpty_view)

lemma loop_digit:
  assumes "ss_inv s" "ss_chars s = c # cs" "st = Hex \<or> st = Decimal"
  shows "consumeCharacterReference_loop pf a st r ov q s =
    (if reference_digit st c
     then consumeCharacterReference_loop pf a st (reference_step st r c)
       (ov \<or> sint (reference_step st r c) > UCHAR_MAX_VALUE) (q @ [c]) (advancePastNonNewline s)
     else Some (finishNumber pf r ov q c s))"
  using assms
  by (subst consumeCharacterReference_loop.simps)
    (auto simp: isEmpty_view currentCharacter_view Let_def reference_digit_def reference_step_def)

lemma enter_digits:
  assumes "ss_inv s" "ss_chars s = c # cs"
  shows "isASCIIDigit c \<Longrightarrow> consumeCharacterReference_loop pf a Number r ov q s =
      consumeCharacterReference_loop pf a Decimal r ov q s"
    "isASCIIHexDigit c \<Longrightarrow> st = MaybeHexLowerCaseX \<or> st = MaybeHexUpperCaseX \<Longrightarrow>
      consumeCharacterReference_loop pf a st r ov q s = consumeCharacterReference_loop pf a Hex r ov q s"
proof -
  have "c \<noteq> 0x78 \<and> c \<noteq> 0x58" if "isASCIIDigit c" using that by (auto simp: isASCIIDigit_def)
  then show "isASCIIDigit c \<Longrightarrow> consumeCharacterReference_loop pf a Number r ov q s =
      consumeCharacterReference_loop pf a Decimal r ov q s"
    using assms by (subst (1 2) consumeCharacterReference_loop.simps)
      (simp add: isEmpty_view currentCharacter_view Let_def)
  show "isASCIIHexDigit c \<Longrightarrow> st = MaybeHexLowerCaseX \<or> st = MaybeHexUpperCaseX \<Longrightarrow>
      consumeCharacterReference_loop pf a st r ov q s = consumeCharacterReference_loop pf a Hex r ov q s"
    using assms by (subst (1 2) consumeCharacterReference_loop.simps)
      (auto simp: isEmpty_view currentCharacter_view Let_def)
qed

lemma digits_loop:
  assumes "ss_inv s" "ss_chars s = ds @ rest" "list_all (reference_digit st) ds"
    "rest = [] \<or> \<not> reference_digit st (hd rest)" "st = Hex \<or> st = Decimal" "number_inv v r ov"
  shows "\<exists>r' ov' s'. number_inv (foldl (\<lambda>v d. v * reference_base st + digit_value d) v ds) r' ov'
    \<and> ss_inv s' \<and> ss_chars s' = rest \<and> m_isClosed s' = m_isClosed s \<and> ss_asserts s' = ss_asserts s
    \<and> consumeCharacterReference_loop pf a st r ov q s =
        Some (if rest = [] then (False, [], True, unconsumeCharacters (q @ ds) s')
              else finishNumber pf r' ov' (q @ ds) (hd rest) s')"
  using assms
proof (induction ds arbitrary: s v r ov q)
  case Nil
  then show ?case
    by (cases rest) (auto simp: loop_empty loop_digit)
next
  case (Cons d ds)
  then have d: "reference_digit st d" "ss_chars s = d # (ds @ rest)" by simp_all
  note adv = advance_reference [OF Cons.prems(1) d(2) reference_digit_char [OF d(1)]]
  have "consumeCharacterReference_loop pf a st r ov q s =
    consumeCharacterReference_loop pf a st (reference_step st r d)
      (ov \<or> sint (reference_step st r d) > UCHAR_MAX_VALUE) (q @ [d]) (advancePastNonNewline s)"
    using loop_digit [OF Cons.prems(1) d(2) Cons.prems(5)] d(1) by simp
  moreover have "list_all (reference_digit st) ds" using Cons.prems(3) by simp
  note Cons.IH [OF adv(1,2) this Cons.prems(4,5) reference_step_inv [OF Cons.prems(6) d(1)], of "q @ [d]"]
  ultimately show ?case using adv(3,4) by (simp only: foldl_Cons append_assoc append_Cons append_Nil)
qed

section \<open>All references\<close>

text \<open>The value a numeric reference is decoded to.\<close>

definition number_text :: "nat \<Rightarrow> uchar list" where
  "number_text v = appendUChar32 (of_nat (legal_code_point v))"

lemma number_text_nonzero: "number_text v \<noteq> [] \<and> 0 \<notin> set (number_text v)"
proof -
  have b: "0 < legal_code_point v" "legal_code_point v \<le> 0x10FFFF" using legal_code_point_bounds by auto
  then have "unat (of_nat (legal_code_point v) :: uchar32) = legal_code_point v"
    by (simp add: unat_of_nat)
  then have "(of_nat (legal_code_point v) :: uchar32) \<noteq> 0" "(of_nat (legal_code_point v) :: uchar32) \<le> 0x10FFFF"
    using b by (auto simp: word_le_nat_alt)
  then show ?thesis unfolding number_text_def by (rule appendUChar32_nonzero)
qed

lemma finish_text:
  assumes "number_inv v r ov"
  shows "appendUChar32 (legalEntityFor (if ov then 0 else r)) = number_text v"
proof -
  have "unat (legalEntityFor (if ov then 0 else r)) = legal_code_point v"
  proof (cases ov)
    case True
    then show ?thesis using assms legalEntityFor_value [of 0 0]
      by (simp add: number_inv_def) (simp add: legal_code_point_def)
  next
    case False
    then have "unat r = v" "v \<le> 0x10FFFF" using assms by (auto simp: number_inv_def)
    then have "sint r = int v" by (subst sint_small) simp_all
    then show ?thesis using False legalEntityFor_value [of r v] by simp
  qed
  then have "legalEntityFor (if ov then 0 else r) = of_nat (legal_code_point v)"
    by (metis of_nat_unat ucast_id)
  then show ?thesis by (simp add: number_text_def)
qed

lemma number_result:
  assumes s: "ss_inv s" "ss_chars s = ds @ rest" and ds: "ds \<noteq> []" "list_all (reference_digit st) ds"
    and rest: "rest = [] \<or> \<not> reference_digit st (hd rest)" and st: "st = Hex \<or> st = Decimal"
    and s0: "ss_chars s0 = q @ ss_chars s" "m_isClosed s0 = m_isClosed s" "ss_asserts s0 = ss_asserts s"
    and q: "list_all reference_char q"
  shows "\<exists>r. consumeCharacterReference_loop (HTMLEntityParser tbl) a st 0 False q s = Some r \<and> decoder_ok s0 r
    \<and> (rest \<noteq> [] \<longrightarrow> (\<exists>s'. r = (True, number_text (number_value (reference_base st) ds), False, s')
         \<and> ss_chars s' = (if hd rest = chr_semi then tl rest else rest)))"
proof -
  have n0: "number_inv 0 0 False" by (simp add: number_inv_def)
  from digits_loop [OF s ds(2) rest st n0, of "HTMLEntityParser tbl" a q] obtain r' ov' s' where
    n: "number_inv (number_value (reference_base st) ds) r' ov'"
    and s': "ss_inv s'" "ss_chars s' = rest" "m_isClosed s' = m_isClosed s" "ss_asserts s' = ss_asserts s"
    and res: "consumeCharacterReference_loop (HTMLEntityParser tbl) a st 0 False q s =
        Some (if rest = [] then (False, [], True, unconsumeCharacters (q @ ds) s')
              else finishNumber (HTMLEntityParser tbl) r' ov' (q @ ds) (hd rest) s')"
    by (auto simp: number_value_def)
  have dsr: "list_all reference_char ds" using ds(2) reference_digit_char by (auto simp: list_all_iff)
  have view: "ss_chars s0 = (q @ ds) @ rest" using s0 s by simp
  show ?thesis
  proof (cases rest)
    case Nil
    have "decoder_ok s0 (False, [], True, unconsumeCharacters (q @ ds) s')"
      using unconsume_view [OF s'(1), of "q @ ds"] reference_list_not [of "q @ ds"] q dsr ds s' s0 view Nil
      by (simp add: decoder_ok_def)
    then show ?thesis using res Nil by simp
  next
    case (Cons c rest')
    let ?t = "number_text (number_value (reference_base st) ds)"
    let ?s' = "if c = chr_semi then advancePastNonNewline s' else s'"
    have fin: "finishNumber (HTMLEntityParser tbl) r' ov' (q @ ds) (hd rest) s' = (True, ?t, False, ?s')"
      using finish_text [OF n] Cons by (simp add: finishNumber_def HTMLEntityParser_def Let_def)
    have a: "ss_inv (advancePastNonNewline s')" "ss_chars (advancePastNonNewline s') = rest'"
      "m_isClosed (advancePastNonNewline s') = m_isClosed s'" "ss_asserts (advancePastNonNewline s') = ss_asserts s'"
      if "c = chr_semi"
      using advance_reference [OF s'(1), of c rest'] s'(2) Cons that digit_reference(7) by simp_all
    have v: "ss_inv ?s'" "m_isClosed ?s' = m_isClosed s0" "ss_asserts ?s' = ss_asserts s0"
      "ss_chars ?s' = (if hd rest = chr_semi then tl rest else rest)"
      using a s' s0 Cons by simp_all
    let ?p = "q @ ds @ (if c = chr_semi then [c] else [])"
    have "?p \<noteq> []" "list_all reference_char ?p" "ss_chars s0 = ?p @ ss_chars ?s'"
      using ds q dsr view v Cons digit_reference(7) by auto
    then have "decoder_ok s0 (True, ?t, False, ?s')"
      using v number_text_nonzero unfolding decoder_ok_def by (simp only: prod.case if_True) blast
    then show ?thesis using res fin v(4) Cons by simp
  qed
qed

lemma split_digits:
  obtains ds rest where "cs = ds @ rest" "list_all P ds" "rest = [] \<or> \<not> P (hd rest)"
proof
  show "cs = takeWhile P cs @ dropWhile P cs" by simp
  show "list_all P (takeWhile P cs)" by (auto simp: list_all_iff dest: set_takeWhileD)
  show "dropWhile P cs = [] \<or> \<not> P (hd (dropWhile P cs))" using hd_dropWhile by blast
qed

lemma number_some:
  assumes s: "ss_inv s" "ss_chars s = d # cs" "reference_digit st d" and st: "st = Hex \<or> st = Decimal"
    and s0: "ss_chars s0 = q @ ss_chars s" "m_isClosed s0 = m_isClosed s" "ss_asserts s0 = ss_asserts s"
    and q: "list_all reference_char q"
  shows "\<exists>r. consumeCharacterReference_loop (HTMLEntityParser tbl) a st 0 False q s = Some r \<and> decoder_ok s0 r"
proof -
  obtain ds rest where *: "d # cs = ds @ rest" "list_all (reference_digit st) ds"
    "rest = [] \<or> \<not> reference_digit st (hd rest)" by (rule split_digits)
  then have "ds \<noteq> []" using s(3) by (cases ds) auto
  from number_result [OF s(1) _ this *(2,3) st s0 q, of tbl a] *(1) s(2) show ?thesis by auto
qed

text \<open>A failed attempt that pushes back what it had consumed.\<close>

lemma pushed_back_ok:
  assumes "ss_inv s" "str_chars str = q" "q \<noteq> []" "list_all reference_char q"
    and s0: "ss_chars s0 = q @ ss_chars s" "m_isClosed s0 = m_isClosed s" "ss_asserts s0 = ss_asserts s"
    and "nec \<longrightarrow> ss_chars s = []"
  shows "decoder_ok s0 (False, [], nec, SegmentedString_pushBack str s)"
  using pushBack_view [OF assms(1), of str] assms reference_list_not [OF assms(4)]
  by (simp add: decoder_ok_def)

lemma unconsumed_ok:
  assumes "ss_inv s" "q \<noteq> []" "list_all reference_char q" "ss_chars s = []"
    and s0: "ss_chars s0 = q" "m_isClosed s0 = m_isClosed s" "ss_asserts s0 = ss_asserts s"
  shows "decoder_ok s0 (False, [], True, unconsumeCharacters q s)"
  unfolding unconsumeCharacters_def
  by (rule pushed_back_ok) (use assms in \<open>simp_all add: StringBuilder_toString_def\<close>)

lemma hash_view:
  assumes s: "ss_inv s" and s0: "ss_chars s0 = chr_hash # ss_chars s" "m_isClosed s0 = m_isClosed s"
      "ss_asserts s0 = ss_asserts s"
  shows "\<exists>r. consumeCharacterReference_loop (HTMLEntityParser tbl) a Number 0 False [chr_hash] s = Some r
    \<and> decoder_ok s0 r"
proof (cases "ss_chars s")
  case Nil
  then show ?thesis using unconsumed_ok [OF s, of "[chr_hash]" s0] s0 loop_empty [OF s Nil] digit_reference
    by auto
next
  case (Cons d cs)
  have cur: "m_currentCharacter s = d" using s Cons by (simp add: currentCharacter_view)
  consider "d = 0x78 \<or> d = 0x58" | "isASCIIDigit d" | "d \<noteq> 0x78" "d \<noteq> 0x58" "\<not> isASCIIDigit d" by blast
  then show ?thesis
  proof cases
    case 2
    then show ?thesis
      using number_some [OF s Cons _ _ _ s0(2,3), of Decimal "[chr_hash]"] s0 enter_digits(1) [OF s Cons 2]
        digit_reference by (simp add: reference_digit_def)
  next
    case 3
    then have "consumeCharacterReference_loop (HTMLEntityParser tbl) a Number 0 False [chr_hash] s =
        Some (False, [], False, SegmentedString_pushBack (ASCIILiteral ''#'') s)"
      using s Cons cur by (subst consumeCharacterReference_loop.simps) (simp add: isEmpty_view Let_def)
    then show ?thesis
      using pushed_back_ok [OF s, of "ASCIILiteral ''#''" "[chr_hash]" s0 False] s0 digit_reference
      by (simp add: ASCIILiteral_def)
  next
    case 1
    let ?s = "advancePastNonNewline s" and ?st = "if d = 0x78 then MaybeHexLowerCaseX else MaybeHexUpperCaseX"
    note adv = advance_reference [OF s Cons]
    have rd: "reference_char d" using 1 digit_reference by auto
    have loop: "consumeCharacterReference_loop (HTMLEntityParser tbl) a Number 0 False [chr_hash] s =
      consumeCharacterReference_loop (HTMLEntityParser tbl) a ?st 0 False [chr_hash, d] ?s"
      using s Cons cur 1 by (subst consumeCharacterReference_loop.simps) (auto simp: isEmpty_view Let_def)
    have v: "ss_inv ?s" "ss_chars ?s = cs" "m_isClosed ?s = m_isClosed s" "ss_asserts ?s = ss_asserts s"
      using adv rd by simp_all
    have v0: "ss_chars s0 = [chr_hash, d] @ ss_chars ?s" "m_isClosed s0 = m_isClosed ?s" "ss_asserts s0 = ss_asserts ?s"
      using s0 v Cons by simp_all
    have qr: "list_all reference_char [chr_hash, d]" using rd digit_reference by simp
    show ?thesis
    proof (cases cs)
      case Nil
      then show ?thesis
        using unconsumed_ok [OF v(1) _ qr, of s0] v v0 loop loop_empty [OF v(1)] by auto
    next
      case c: (Cons e cs')
      have vs: "ss_chars ?s = e # cs'" using v c by simp
      show ?thesis
      proof (cases "isASCIIHexDigit e")
        case True
        have "consumeCharacterReference_loop (HTMLEntityParser tbl) a ?st 0 False [chr_hash, d] ?s =
          consumeCharacterReference_loop (HTMLEntityParser tbl) a Hex 0 False [chr_hash, d] ?s"
          by (rule enter_digits(2) [OF v(1) vs True]) simp
        then show ?thesis
          using number_some [OF v(1) vs _ _ v0 qr, of Hex tbl a] True loop by (simp add: reference_digit_def)
      next
        case False
        let ?str = "if d = 0x78 then ASCIILiteral ''#x'' else ASCIILiteral ''#X''"
        have "consumeCharacterReference_loop (HTMLEntityParser tbl) a ?st 0 False [chr_hash, d] ?s =
          Some (False, [], False, SegmentedString_pushBack ?str ?s)"
          using v(1) vs False by (subst consumeCharacterReference_loop.simps)
            (simp add: isEmpty_view currentCharacter_view Let_def)
        moreover have "str_chars ?str = [chr_hash, d]" using 1 by (auto simp: ASCIILiteral_def)
        ultimately show ?thesis
          using pushed_back_ok [OF v(1) _ _ qr v0, of ?str False] loop by simp
      qed
    qed
  qed
qed

lemma additional_assert:
  "a \<in> {0, chr_quot, chr_apos, chr_gt} \<Longrightarrow> ss_assert (a \<in> {0, chr_quot, chr_apos, chr_gt}) s = s"
  by simp

lemma initial_named:
  assumes "ss_inv s" "ss_chars s = c # cs" "isASCIIAlpha c" "a \<in> {0, chr_quot, chr_apos, chr_gt}"
  shows "consumeHTMLEntity tbl s a = consumeNamedEntity tbl s a c"
proof -
  have "c \<noteq> chr_tab \<and> c \<noteq> chr_lf \<and> c \<noteq> chr_ff \<and> c \<noteq> chr_space \<and> c \<noteq> chr_lt \<and> c \<noteq> chr_amp \<and> c \<noteq> chr_hash"
    "c \<noteq> chr_quot \<and> c \<noteq> chr_apos \<and> c \<noteq> chr_gt"
    using assms(3) by (auto simp: isASCIIAlpha_iff)
  then show ?thesis
    unfolding consumeHTMLEntity_def consumeCharacterReference_def additional_assert [OF assms(4)]
    using assms by (subst consumeCharacterReference_loop.simps)
      (auto simp: isEmpty_view currentCharacter_view Let_def HTMLEntityParser_def)
qed

lemma initial_hash:
  assumes "ss_inv s" "ss_chars s = chr_hash # cs" "a \<in> {0, chr_quot, chr_apos, chr_gt}"
  shows "consumeHTMLEntity tbl s a =
    consumeCharacterReference_loop (HTMLEntityParser tbl) a Number 0 False [chr_hash] (advancePastNonNewline s)"
  unfolding consumeHTMLEntity_def consumeCharacterReference_def additional_assert [OF assms(3)]
  using assms by (subst consumeCharacterReference_loop.simps)
    (auto simp: isEmpty_view currentCharacter_view Let_def)

lemma initial_other:
  assumes "ss_inv s" "ss_chars s = c # cs" "\<not> isASCIIAlpha c" "c \<noteq> chr_hash" "a \<in> {0, chr_quot, chr_apos, chr_gt}"
  shows "consumeHTMLEntity tbl s a = Some (False, [], False, s)"
  unfolding consumeHTMLEntity_def consumeCharacterReference_def additional_assert [OF assms(5)]
  using assms by (subst consumeCharacterReference_loop.simps)
    (auto simp: isEmpty_view currentCharacter_view Let_def)

lemma consumeHTMLEntity_view:
  assumes ok: "entity_table_ok tbl" "letters_covered tbl" and s: "ss_inv s" "ss_chars s \<noteq> []"
    and a: "a \<in> {0, chr_quot, chr_apos, chr_gt}"
  shows "\<exists>r. consumeHTMLEntity tbl s a = Some r \<and> decoder_ok s r"
proof -
  obtain c cs where cs: "ss_chars s = c # cs" using s(2) by (cases "ss_chars s") auto
  consider "isASCIIAlpha c" | "c = chr_hash" | "\<not> isASCIIAlpha c" "c \<noteq> chr_hash" by blast
  then show ?thesis
  proof cases
    case 1
    then have "has_prefix tbl [c]" using ok(2) by (simp add: letters_covered_def)
    from consumeNamedEntity_view [OF ok(1) s(1) cs this, of a c] show ?thesis
      using initial_named [OF s(1) cs 1 a] by auto
  next
    case 2
    note adv = advance_reference [OF s(1) cs]
    show ?thesis
      using hash_view [of "advancePastNonNewline s" s tbl a] adv 2 cs digit_reference(6)
        initial_hash [OF s(1) _ a] by auto
  next
    case 3
    then show ?thesis using initial_other [OF s(1) cs 3 a] s by (simp add: decoder_ok_def)
  qed
qed

section \<open>Properties\<close>



text \<open>
  C30. A numeric character reference is decoded to the number it denotes, whatever its length: the
  wrap-around of the 32-bit accumulator is never seen, values that are null, too large or
  surrogates become U+FFFD, and the range 0x80 to 0x9F is read as windows-1252. The semicolon is
  consumed if there is one.
\<close>

theorem numeric_reference_value:
  assumes "ss_inv source" "ss_chars source = chr_hash # (if hexadecimal then [x] else []) @ digits @ rest"
    and "x = 0x78 \<or> x = 0x58" "digits \<noteq> []" "rest \<noteq> []"
    and "list_all (if hexadecimal then isASCIIHexDigit else isASCIIDigit) digits"
    and "\<not> (if hexadecimal then isASCIIHexDigit else isASCIIDigit) (hd rest)"
    and "additionalAllowedCharacter \<in> {0, chr_quot, chr_apos, chr_gt}"
  shows "\<exists>source'. consumeHTMLEntity tbl source additionalAllowedCharacter =
      Some (True, appendUChar32 (of_nat (legal_code_point (number_value (if hexadecimal then 16 else 10) digits))),
        False, source')
    \<and> ss_chars source' = (if hd rest = chr_semi then tl rest else rest)"
proof -
  let ?st = "if hexadecimal then Hex else Decimal" and ?q = "chr_hash # (if hexadecimal then [x] else [])"
  have dig: "list_all (reference_digit ?st) digits" "\<not> reference_digit ?st (hd rest)"
    using assms(6,7) by (simp_all add: reference_digit_def split: if_splits)
  have dd: "reference_digit ?st (hd digits)" using dig(1) assms(4) by (cases digits) auto
  let ?s1 = "advancePastNonNewline source"
  have cs: "ss_chars source = chr_hash # ((if hexadecimal then [x] else []) @ digits @ rest)" using assms(2) by simp
  note a1 = advance_reference [OF assms(1) cs digit_reference(6)]
  obtain s2 where s2: "ss_inv s2" "ss_chars s2 = digits @ rest" "m_isClosed s2 = m_isClosed source"
    "ss_asserts s2 = ss_asserts source"
    and loop: "consumeHTMLEntity tbl source additionalAllowedCharacter =
      consumeCharacterReference_loop (HTMLEntityParser tbl) additionalAllowedCharacter ?st 0 False ?q s2"
  proof (cases hexadecimal)
    case False
    have v: "ss_chars ?s1 = hd digits # (tl digits @ rest)" using a1(2) False assms(4) by simp
    have "isASCIIDigit (hd digits)" using dd False by (simp add: reference_digit_def)
    then show ?thesis
      using that [of ?s1] a1 False initial_hash [OF assms(1) cs assms(8)] enter_digits(1) [OF a1(1) v] by simp
  next
    case True
    let ?s2 = "advancePastNonNewline ?s1" and ?m = "if x = 0x78 then MaybeHexLowerCaseX else MaybeHexUpperCaseX"
    have v: "ss_chars ?s1 = x # (digits @ rest)" using a1(2) True by simp
    have "reference_char x" using assms(3) digit_reference by auto
    note a2 = advance_reference [OF a1(1) v this]
    have w: "ss_chars ?s2 = hd digits # (tl digits @ rest)" using a2(2) assms(4) by simp
    have "consumeCharacterReference_loop (HTMLEntityParser tbl) additionalAllowedCharacter Number 0 False [chr_hash] ?s1 =
      consumeCharacterReference_loop (HTMLEntityParser tbl) additionalAllowedCharacter ?m 0 False ?q ?s2"
      using a1(1) v assms(3) True by (subst consumeCharacterReference_loop.simps)
        (auto simp: isEmpty_view currentCharacter_view Let_def)
    also have "\<dots> = consumeCharacterReference_loop (HTMLEntityParser tbl) additionalAllowedCharacter Hex 0 False ?q ?s2"
      using dd True by (intro enter_digits(2) [OF a2(1) w]) (simp_all add: reference_digit_def)
    finally show ?thesis
      using that [of ?s2] a1 a2 True initial_hash [OF assms(1) cs assms(8)] by simp
  qed
  have q: "list_all reference_char ?q" using assms(3) digit_reference by auto
  have "ss_chars source = ?q @ ss_chars s2" using cs s2 by simp
  from number_result [OF s2(1,2) assms(4) dig(1) _ _ this _ _ q, of tbl additionalAllowedCharacter] dig(2) s2 loop assms(5)
  show ?thesis by (auto simp: number_text_def reference_base_def)
qed

theorem numeric_reference_value_witness:
  "\<exists>source'. consumeHTMLEntity small_table (SegmentedString_of_String
      \<lparr>str_is8Bit = True, str_chars = [0x23, 0x34, 0x32, 0x39, 0x34, 0x39, 0x36, 0x37, 0x33, 0x36, 0x31, 0x3B]\<rparr>) 0 =
    Some (True, [0xFFFD], False, source') \<and> ss_chars source' = []"
proof -
  let ?ds = "[0x34, 0x32, 0x39, 0x34, 0x39, 0x36, 0x37, 0x33, 0x36, 0x31] :: uchar list"
  let ?s = "SegmentedString_of_String \<lparr>str_is8Bit = True, str_chars = 0x23 # ?ds @ [0x3B]\<rparr>"
  have "number_value 10 ?ds = 4294967361" by (simp add: number_value_def digit_value_def)
  then show ?thesis
    using numeric_reference_value [of ?s False "0x78" ?ds "[0x3B]" 0 small_table]
    by (simp add: of_String_view isASCIIDigit_def legal_code_point_def appendUChar32_def)
qed

text \<open>
  C31. A named character reference is decoded by longest match: when the text starts with a letter,
  the decoder behaves as \<open>named_spec\<close> says for the longest name in the table that the text starts
  with. In an attribute value a name without semicolon that is followed by a letter, a digit or an
  equals sign is left alone, and while the whole text is the beginning of a name more input is asked for.
\<close>

theorem named_reference_longest_match:
  assumes "entity_table_ok tbl" "letters_covered tbl" "ss_inv source"
    and "ss_chars source = c # cs" "isASCIIAlpha c"
    and "additionalAllowedCharacter \<in> {0, chr_quot, chr_apos, chr_gt}"
  shows "\<exists>m success decoded notEnough n source'. longest_match tbl (c # cs) m
    \<and> consumeHTMLEntity tbl source additionalAllowedCharacter = Some (success, decoded, notEnough, source')
    \<and> named_spec tbl (additionalAllowedCharacter \<noteq> 0) (c # cs) m = (success, decoded, notEnough, n)
    \<and> ss_chars source' = drop n (c # cs)"
proof -
  have "has_prefix tbl [c]" using assms(2,5) by (simp add: letters_covered_def)
  from consumeNamedEntity_view [OF assms(1,3,4) this, of additionalAllowedCharacter c]
  obtain r where r: "consumeNamedEntity tbl source additionalAllowedCharacter c = Some r"
    "named_result tbl (additionalAllowedCharacter \<noteq> 0) source r" by blast
  then show ?thesis
    using initial_named [OF assms(3-6)] assms(4) by (cases r) (auto simp: named_result_def)
qed

theorem named_reference_longest_match_witness:
  "\<exists>m success decoded notEnough n source'. longest_match small_table [0x61, 0x6D, 0x70, 0x78] m
    \<and> consumeHTMLEntity small_table (SegmentedString_of_String \<lparr>str_is8Bit = True, str_chars = [0x61, 0x6D, 0x70, 0x78]\<rparr>)
        0x22 = Some (success, decoded, notEnough, source')
    \<and> named_spec small_table True [0x61, 0x6D, 0x70, 0x78] m = (success, decoded, notEnough, n)"
  using named_reference_longest_match [OF small_table_ok small_table_letters, of
      "SegmentedString_of_String \<lparr>str_is8Bit = True, str_chars = [0x61, 0x6D, 0x70, 0x78]\<rparr>" "0x61" "[0x6D, 0x70, 0x78]" "0x22"]
  by (auto simp: of_String_view isASCIIAlpha_iff)

lemma decodeName_loop_spec:
  assumes ok: "entity_table_ok tbl" and "search_inv tbl p es" "p \<noteq> [] \<longrightarrow> has_prefix tbl p"
  shows "(case decodeName_loop tbl name es of
      None \<Rightarrow> \<not> has_prefix tbl (p @ name) | Some es' \<Rightarrow> search_inv tbl (p @ name) es')"
  using assms(2,3)
proof (induction name arbitrary: p es)
  case (Cons c name)
  note sa = search_advance [OF ok Cons.prems(1), of c]
  show ?case
  proof (cases "has_prefix tbl (p @ [c])")
    case True
    then have "search_inv tbl (p @ [c]) (HTMLEntitySearch_advance tbl c es)" using sa by simp
    moreover from this have "isEntityPrefix (HTMLEntitySearch_advance tbl c es)"
      by (auto simp: search_inv_def isEntityPrefix_def split: option.splits)
    ultimately show ?thesis
      using Cons.IH [of "p @ [c]" "HTMLEntitySearch_advance tbl c es"] True
      by (simp add: Let_def split: option.splits)
  next
    case False
    then have "\<not> has_prefix tbl (p @ c # name)"
      unfolding has_prefix_def by (metis append.assoc append_Cons append_Nil append_prefixD)
    then show ?thesis using sa False by (simp add: Let_def)
  qed
qed simp

lemma semi_terminal:
  assumes "entity_table_ok tbl" "has_prefix tbl (p @ [chr_semi])"
  shows "\<exists>e \<in> set (entries tbl). entity e = p @ [chr_semi]"
proof -
  obtain e u where e: "e \<in> set (entries tbl)" "entity e = (p @ [chr_semi]) @ u"
    using assms(2) by (auto simp: has_prefix_def prefix_def)
  have "chr_semi \<notin> set (butlast (entity e))"
    using assms(1) e(1) by (auto simp: entity_table_ok_def entity_entry_ok_def list_all_iff)
  then have "u = []" using e(2) by (cases u rule: rev_cases) (auto simp: butlast_append)
  then show ?thesis using e by auto
qed

lemma name_unique:
  assumes "entity_table_ok tbl" "i < length (entries tbl)" "j < length (entries tbl)" "name_at tbl i = name_at tbl j"
  shows "i = j"
proof -
  have irr: "\<not> ord_class.lexordp (xs :: uchar list) xs" for xs by (induction xs) auto
  show ?thesis
    using table_sorted [OF assms(1), of i j] table_sorted [OF assms(1), of j i] assms(2-4) irr
    by (metis nat_neq_iff)
qed

text \<open>
  Decoding a name without a source, as the XML parser does, returns the value of the table entry
  whose name is the given one followed by a semicolon, and nothing if there is none. It never
  follows a null match.
\<close>

theorem decodeNamedEntity_lookup:
  assumes "entity_table_ok tbl"
  shows "decodeNamedEntityToUCharArray tbl name =
    (case find (\<lambda>e. entity e = name @ [chr_semi]) (entries tbl) of
       None \<Rightarrow> Some []
     | Some e \<Rightarrow> Some (appendUChar32 (firstValue e) @
         (if secondValue e \<noteq> 0 then appendUChar32 (secondValue e) else [])))"
proof -
  let ?P = "\<lambda>e. entity e = name @ [chr_semi]"
  have arr: "appendUChar32ToUCharArray = appendUChar32"
    by (rule ext) (simp add: appendUChar32ToUCharArray_def appendUChar32_def)
  note loop = decodeName_loop_spec [OF assms search_inv_new [OF assms], of name]
  show ?thesis
  proof (cases "has_prefix tbl (name @ [chr_semi])")
    case False
    then have "find ?P (entries tbl) = None" by (auto simp: find_None_iff has_prefix_def)
    moreover have "decodeNamedEntityToUCharArray tbl name = Some []"
      using loop search_advance [OF assms, of name _ chr_semi] False
      by (auto simp: decodeNamedEntityToUCharArray_def Let_def split: option.splits)
    ultimately show ?thesis by simp
  next
    case True
    then have "has_prefix tbl name" unfolding has_prefix_def by (metis append_prefixD)
    then obtain es where es: "decodeName_loop tbl name (HTMLEntitySearch_new tbl) = Some es" "search_inv tbl name es"
      using loop by (auto split: option.splits)
    let ?es = "HTMLEntitySearch_advance tbl chr_semi es"
    have inv: "search_inv tbl (name @ [chr_semi]) ?es" using search_advance [OF assms es(2), of chr_semi] True by simp
    then have ip: "isEntityPrefix ?es" by (auto simp: search_inv_def isEntityPrefix_def split: option.splits)
    obtain j where j: "j < length (entries tbl)" "name_at tbl j = name @ [chr_semi]"
      using semi_terminal [OF assms True] by (auto simp: in_set_conv_nth)
    have lm: "longest_match tbl (name @ [chr_semi]) (m_mostRecentMatch ?es)" using inv by (simp add: search_inv_def)
    then obtain i where i: "m_mostRecentMatch ?es = Some i" using j by (auto simp: longest_match_def split: option.splits)
    have "i < length (entries tbl)" "prefix (name_at tbl i) (name @ [chr_semi])"
      "length (name @ [chr_semi]) \<le> length (name_at tbl i)" using lm j i by (auto simp: longest_match_def)
    then have ni: "name_at tbl i = name @ [chr_semi]" by (metis append_eq_conv_conj prefix_def take_all)
    obtain e where e: "find ?P (entries tbl) = Some e"
      using j by (cases "find ?P (entries tbl)") (auto simp: find_None_iff in_set_conv_nth)
    then obtain k where "k < length (entries tbl)" "e = entries tbl ! k" "entity e = name @ [chr_semi]"
      by (auto simp: find_Some_iff)
    then have "e = entries tbl ! i"
      using name_unique [OF assms, of i k] \<open>i < length (entries tbl)\<close> ni by simp
    then show ?thesis using es ip i e by (simp add: decodeNamedEntityToUCharArray_def arr)
  qed
qed

theorem decodeNamedEntity_lookup_witness:
  "decodeNamedEntityToUCharArray small_table [0x61, 0x6D, 0x70] = Some [0x26]
   \<and> decodeNamedEntityToUCharArray small_table [0x61, 0x6D] = Some []"
  unfolding decodeNamedEntity_lookup [OF small_table_ok]
  by (simp add: small_table_def entity_table_of_def letter_entry_def upper_letters_def lower_letters_def
      appendUChar32_def)

definition utf16_decode :: "uchar list \<Rightarrow> nat option" where
  "utf16_decode us = (case us of
      [u] \<Rightarrow> Some (unat u)
    | [l, t] \<Rightarrow> if 0xD800 \<le> unat l \<and> unat l \<le> 0xDBFF \<and> 0xDC00 \<le> unat t \<and> unat t \<le> 0xDFFF
        then Some ((unat l - 0xD800) * 1024 + (unat t - 0xDC00) + 0x10000) else None
    | _ \<Rightarrow> None)"

text \<open>
  The UTF-16 encoding of a decoded code point can be read back: one unit for the basic plane,
  otherwise a lead and a trail surrogate that determine the code point.
\<close>

theorem appendUChar32_roundtrip:
  assumes "c \<le> 0x10FFFF"
  shows "utf16_decode (appendUChar32 c) = Some (unat c)"
proof (cases "c \<le> 0xFFFF")
  case True
  then have "unat c \<le> 65535" by (simp add: word_le_nat_alt)
  then show ?thesis using True by (simp add: appendUChar32_def utf16_decode_def unat_ucast_uchar)
next
  case False
  then have lt: "0xFFFF < c" by simp
  then have b: "65536 \<le> unat c" "unat c \<le> 1114111" using assms by (simp_all add: word_less_nat_alt word_le_nat_alt)
  define q r where "q = unat c div 1024" and "r = unat c mod 1024"
  have qr: "unat c = q * 1024 + r" "r < 1024" by (simp_all add: q_def r_def)
  then have "64 \<le> q" "q \<le> 1087" using b by linarith+
  then show ?thesis
    using surrogate_units [OF lt assms] False qr
    by (simp add: appendUChar32_def utf16_decode_def flip: q_def r_def)
qed

theorem appendUChar32_roundtrip_witness:
  "utf16_decode (appendUChar32 0x1F600) = Some 0x1F600"
  using appendUChar32_roundtrip [of "0x1F600"] by simp

end
