(* ===== verification/Html_Tokenizer.thy ===== *)
theory Html_Tokenizer
  imports Html_Token Input_Preprocessor Html_Entity_Decoding
begin

text \<open>
  The HTML tokenizer, \<open>Source/WebCore/html/parser/HTMLTokenizer.{h,cpp}\<close>: its members, its helper
  functions, and the control-flow macros of \<open>Source/WebCore/xml/parser/MarkupTokenizerInlines.h\<close>.
  The blocks of \<open>processToken\<close> are in \<open>Html_Tokenizer_States\<close>.

  The outcome of a block is a jump to another block with a character to look at (\<open>Goto\<close>), or a
  return from \<open>processToken\<close> (\<open>Return\<close>). A macro is fallible only because the preprocessor and the
  entity decoder contain loops: \<open>None\<close> stands for a loop that does not end.

  Failed assertions are recorded in ghost fields: those of the token and of the source in their own
  records, those of the tokenizer in \<open>tz_asserts\<close>, and the one of \<open>commitToPartialEndTag\<close> that
  compares the character with the source in \<open>tz_rawAsserts\<close>. \<open>parseError\<close> does nothing and is left out.
\<close>

section \<open>The members of the class\<close>

datatype (plugins only: code) State =
    DataState | CharacterReferenceInDataState | RCDATAState | CharacterReferenceInRCDATAState
  | RAWTEXTState | ScriptDataState | PLAINTEXTState | TagOpenState | EndTagOpenState | TagNameState
  | RCDATALessThanSignState | RCDATAEndTagOpenState | RCDATAEndTagNameState
  | RAWTEXTLessThanSignState | RAWTEXTEndTagOpenState | RAWTEXTEndTagNameState
  | ScriptDataLessThanSignState | ScriptDataEndTagOpenState | ScriptDataEndTagNameState
  | ScriptDataEscapeStartState | ScriptDataEscapeStartDashState | ScriptDataEscapedState
  | ScriptDataEscapedDashState | ScriptDataEscapedDashDashState | ScriptDataEscapedLessThanSignState
  | ScriptDataEscapedEndTagOpenState | ScriptDataEscapedEndTagNameState
  | ScriptDataDoubleEscapeStartState | ScriptDataDoubleEscapedState | ScriptDataDoubleEscapedDashState
  | ScriptDataDoubleEscapedDashDashState | ScriptDataDoubleEscapedLessThanSignState
  | ScriptDataDoubleEscapeEndState
  | BeforeAttributeNameState | AttributeNameState | AfterAttributeNameState | BeforeAttributeValueState
  | AttributeValueDoubleQuotedState | AttributeValueSingleQuotedState | AttributeValueUnquotedState
  | CharacterReferenceInAttributeValueState | AfterAttributeValueQuotedState | SelfClosingStartTagState
  | BogusCommentState | ContinueBogusCommentState | MarkupDeclarationOpenState
  | CommentStartState | CommentStartDashState | CommentState | CommentEndDashState | CommentEndState
  | CommentEndBangState
  | DOCTYPEState | BeforeDOCTYPENameState | DOCTYPENameState | AfterDOCTYPENameState
  | AfterDOCTYPEPublicKeywordState | BeforeDOCTYPEPublicIdentifierState
  | DOCTYPEPublicIdentifierDoubleQuotedState | DOCTYPEPublicIdentifierSingleQuotedState
  | AfterDOCTYPEPublicIdentifierState | BetweenDOCTYPEPublicAndSystemIdentifiersState
  | AfterDOCTYPESystemKeywordState | BeforeDOCTYPESystemIdentifierState
  | DOCTYPESystemIdentifierDoubleQuotedState | DOCTYPESystemIdentifierSingleQuotedState
  | AfterDOCTYPESystemIdentifierState | BogusDOCTYPEState
  | CDATASectionState | CDATASectionRightSquareBracketState | CDATASectionDoubleRightSquareBracketState

record HTMLParserOptions =
  scriptEnabled :: bool
  pluginsEnabled :: bool
  usePreHTML5ParserQuirks :: bool
  maximumDOMTreeDepth :: unsigned

definition HTMLParserOptions_new :: HTMLParserOptions where
  "HTMLParserOptions_new = \<lparr>scriptEnabled = False, pluginsEnabled = False,
     usePreHTML5ParserQuirks = False, maximumDOMTreeDepth = 512\<rparr>"

record HTMLTokenizer =
  m_state :: State
  m_forceNullCharacterReplacement :: bool
  m_shouldAllowCDATA :: bool
  m_token :: HTMLToken
  m_additionalAllowedCharacter :: uchar
  m_preprocessor :: InputStreamPreprocessor
  m_appropriateEndTagName :: "uchar list"
  m_temporaryBuffer :: "lchar list"
  m_bufferedEndTagName :: "lchar list"
  m_options :: HTMLParserOptions
  tz_asserts :: bool
  tz_rawAsserts :: bool

definition tz_assert :: "bool \<Rightarrow> HTMLTokenizer \<Rightarrow> HTMLTokenizer" where
  "tz_assert b tz = tz\<lparr>tz_asserts := tz_asserts tz \<and> b\<rparr>"

definition tz_assertRaw :: "bool \<Rightarrow> HTMLTokenizer \<Rightarrow> HTMLTokenizer" where
  "tz_assertRaw b tz = tz\<lparr>tz_rawAsserts := tz_rawAsserts tz \<and> b\<rparr>"

definition withToken :: "(HTMLToken \<Rightarrow> HTMLToken) \<Rightarrow> HTMLTokenizer \<Rightarrow> HTMLTokenizer" where
  "withToken f tz = tz\<lparr>m_token := f (m_token tz)\<rparr>"

definition HTMLTokenizer_new :: "HTMLParserOptions \<Rightarrow> HTMLTokenizer" where
  "HTMLTokenizer_new options =
     \<lparr>m_state = DataState, m_forceNullCharacterReplacement = False, m_shouldAllowCDATA = False,
      m_token = HTMLToken_new, m_additionalAllowedCharacter = 0,
      m_preprocessor = InputStreamPreprocessor_new, m_appropriateEndTagName = [],
      m_temporaryBuffer = [], m_bufferedEndTagName = [], m_options = options,
      tz_asserts = True, tz_rawAsserts = True\<rparr>"

section \<open>Helpers\<close>

definition convertASCIIAlphaToLower :: "uchar \<Rightarrow> lchar" where
  "convertASCIIAlphaToLower character = ucast (toASCIILowerUnchecked character)"

text \<open>The string is given without its terminating null character.\<close>

fun vectorEqualsString :: "lchar list \<Rightarrow> uchar list \<Rightarrow> bool" where
  "vectorEqualsString [] string \<longleftrightarrow> string = []"
| "vectorEqualsString (v # vector) string \<longleftrightarrow>
     (case string of [] \<Rightarrow> False | s # string' \<Rightarrow> ucast v = s \<and> vectorEqualsString vector string')"

definition inEndTagBufferingState :: "HTMLTokenizer \<Rightarrow> bool" where
  "inEndTagBufferingState tz \<longleftrightarrow>
     m_state tz = RCDATAEndTagOpenState \<or> m_state tz = RCDATAEndTagNameState
     \<or> m_state tz = RAWTEXTEndTagOpenState \<or> m_state tz = RAWTEXTEndTagNameState
     \<or> m_state tz = ScriptDataEndTagOpenState \<or> m_state tz = ScriptDataEndTagNameState
     \<or> m_state tz = ScriptDataEscapedEndTagOpenState \<or> m_state tz = ScriptDataEscapedEndTagNameState"

definition isNullCharacterSkippingState :: "State \<Rightarrow> bool" where
  "isNullCharacterSkippingState state \<longleftrightarrow>
     state = DataState \<or> state = RCDATAState \<or> state = RAWTEXTState"

definition isTokenizerWhitespace :: "uchar \<Rightarrow> bool" where
  "isTokenizerWhitespace character \<longleftrightarrow>
     character = chr_space \<or> character = chr_lf \<or> character = chr_tab \<or> character = chr_ff"

definition haveBufferedCharacterToken :: "HTMLTokenizer \<Rightarrow> bool" where
  "haveBufferedCharacterToken tz \<longleftrightarrow> m_type (m_token tz) = Character"

definition bufferASCIICharacter :: "uchar \<Rightarrow> HTMLTokenizer \<Rightarrow> HTMLTokenizer" where
  "bufferASCIICharacter character tz =
     withToken (appendToCharacter_LChar (ucast character))
       (tz_assert (character \<noteq> 0 \<and> isASCII character) tz)"

definition bufferCharacter :: "uchar \<Rightarrow> HTMLTokenizer \<Rightarrow> HTMLTokenizer" where
  "bufferCharacter character tz =
     withToken (appendToCharacter character) (tz_assert (character \<noteq> 0) tz)"

definition saveEndTagNameIfNeeded :: "HTMLTokenizer \<Rightarrow> HTMLTokenizer" where
  "saveEndTagNameIfNeeded tz0 =
     (let tz = tz_assert (m_type (m_token tz0) \<noteq> Uninitialized) tz0 in
      if m_type (m_token tz) = StartTag then tz\<lparr>m_appropriateEndTagName := m_data (m_token tz)\<rparr> else tz)"

definition appendToTemporaryBuffer :: "uchar \<Rightarrow> HTMLTokenizer \<Rightarrow> HTMLTokenizer" where
  "appendToTemporaryBuffer character tz =
     (tz_assert (isASCII character) tz)\<lparr>m_temporaryBuffer := m_temporaryBuffer tz @ [ucast character]\<rparr>"

definition clearTemporaryBuffer :: "HTMLTokenizer \<Rightarrow> HTMLTokenizer" where
  "clearTemporaryBuffer tz = tz\<lparr>m_temporaryBuffer := []\<rparr>"

definition clearAppropriateEndTagName :: "HTMLTokenizer \<Rightarrow> HTMLTokenizer" where
  "clearAppropriateEndTagName tz = tz\<lparr>m_appropriateEndTagName := []\<rparr>"

definition setAdditionalAllowedCharacter :: "uchar \<Rightarrow> HTMLTokenizer \<Rightarrow> HTMLTokenizer" where
  "setAdditionalAllowedCharacter character tz = tz\<lparr>m_additionalAllowedCharacter := character\<rparr>"

definition temporaryBufferIs :: "string \<Rightarrow> HTMLTokenizer \<Rightarrow> bool" where
  "temporaryBufferIs expectedString tz = vectorEqualsString (m_temporaryBuffer tz) (lit expectedString)"

definition appendToPossibleEndTag :: "uchar \<Rightarrow> HTMLTokenizer \<Rightarrow> HTMLTokenizer" where
  "appendToPossibleEndTag character tz =
     (tz_assert (isASCII character) tz)
       \<lparr>m_bufferedEndTagName := m_bufferedEndTagName tz @ [ucast character]\<rparr>"

definition isAppropriateEndTag :: "HTMLTokenizer \<Rightarrow> bool" where
  "isAppropriateEndTag tz \<longleftrightarrow>
     length (m_bufferedEndTagName tz) = length (m_appropriateEndTagName tz) \<and>
     (\<forall>i < length (m_bufferedEndTagName tz).
        ucast (m_bufferedEndTagName tz ! i) = m_appropriateEndTagName tz ! i)"

definition flushBufferedEndTag :: "HTMLTokenizer \<Rightarrow> HTMLTokenizer" where
  "flushBufferedEndTag tz =
     (withToken (beginEndTag_vector (m_bufferedEndTagName tz)) tz)
       \<lparr>m_bufferedEndTagName := [], m_appropriateEndTagName := [], m_temporaryBuffer := []\<rparr>"

section \<open>Control flow\<close>

datatype outcome =
    Goto State HTMLTokenizer SegmentedString uchar
  | Return bool HTMLTokenizer SegmentedString

definition RETURN_IN_CURRENT_STATE ::
    "State \<Rightarrow> bool \<Rightarrow> HTMLTokenizer \<Rightarrow> SegmentedString \<Rightarrow> outcome option" where
  "RETURN_IN_CURRENT_STATE currentState expression tz source =
     Some (Return expression (tz\<lparr>m_state := currentState\<rparr>) source)"

definition RECONSUME_IN :: "State \<Rightarrow> HTMLTokenizer \<Rightarrow> SegmentedString \<Rightarrow> uchar \<Rightarrow> outcome option" where
  "RECONSUME_IN newState tz source character = Some (Goto newState tz source character)"

text \<open>What the three macros that read the next character do with the preprocessor's answer.\<close>

definition afterPeek ::
    "State \<Rightarrow> HTMLTokenizer \<Rightarrow> (bool \<times> InputStreamPreprocessor \<times> SegmentedString) option \<Rightarrow> outcome option" where
  "afterPeek newState tz answer =
     (case answer of
        None \<Rightarrow> None
      | Some (found, preprocessor, source) \<Rightarrow>
          let tz1 = tz\<lparr>m_preprocessor := preprocessor\<rparr> in
          Some (if found then Goto newState tz1 source (m_nextInputCharacter preprocessor)
                else Return (haveBufferedCharacterToken tz1) (tz1\<lparr>m_state := newState\<rparr>) source))"

definition ADVANCE_TO :: "State \<Rightarrow> HTMLTokenizer \<Rightarrow> SegmentedString \<Rightarrow> outcome option" where
  "ADVANCE_TO newState tz source =
     afterPeek newState tz
       (preprocessor_advance (m_forceNullCharacterReplacement tz) (isNullCharacterSkippingState newState)
          (m_preprocessor tz) source)"

definition ADVANCE_PAST_NON_NEWLINE_TO :: "State \<Rightarrow> HTMLTokenizer \<Rightarrow> SegmentedString \<Rightarrow> outcome option" where
  "ADVANCE_PAST_NON_NEWLINE_TO newState tz source =
     afterPeek newState tz
       (preprocessor_advancePastNonNewline (m_forceNullCharacterReplacement tz)
          (isNullCharacterSkippingState newState) (m_preprocessor tz) source)"

definition SWITCH_TO :: "State \<Rightarrow> HTMLTokenizer \<Rightarrow> SegmentedString \<Rightarrow> outcome option" where
  "SWITCH_TO newState tz source =
     afterPeek newState tz
       (peek (m_forceNullCharacterReplacement tz) (isNullCharacterSkippingState newState)
          (m_preprocessor tz) source)"

definition emitAndResumeInDataState :: "HTMLTokenizer \<Rightarrow> SegmentedString \<Rightarrow> outcome option" where
  "emitAndResumeInDataState tz source =
     Some (Return True ((saveEndTagNameIfNeeded tz)\<lparr>m_state := DataState\<rparr>) (advancePastNonNewline source))"

definition emitAndReconsumeInDataState :: "HTMLTokenizer \<Rightarrow> SegmentedString \<Rightarrow> outcome option" where
  "emitAndReconsumeInDataState tz source =
     Some (Return True ((saveEndTagNameIfNeeded tz)\<lparr>m_state := DataState\<rparr>) source)"

definition emitEndOfFile :: "HTMLTokenizer \<Rightarrow> SegmentedString \<Rightarrow> outcome option" where
  "emitEndOfFile tz0 source =
     (let tz = tz0\<lparr>m_state := DataState\<rparr> in
      if haveBufferedCharacterToken tz then Some (Return True tz source)
      else Some (Return True (withToken (\<lambda>t. makeEndOfFile (HTMLToken_clear t)) tz)
             (SegmentedString_advance source)))"

definition processEntity ::
    "HTMLEntityTable \<Rightarrow> HTMLTokenizer \<Rightarrow> SegmentedString \<Rightarrow> (bool \<times> HTMLTokenizer \<times> SegmentedString) option" where
  "processEntity tbl tz source =
     (case consumeHTMLEntity tbl source 0 of
        None \<Rightarrow> None
      | Some (success, decodedEntity, notEnoughCharacters, source1) \<Rightarrow>
          Some (if notEnoughCharacters then (False, tz, source1)
                else if \<not> success then
                  (True, bufferASCIICharacter chr_amp (tz_assert (decodedEntity = []) tz), source1)
                else (True, fold bufferCharacter decodedEntity tz, source1)))"

text \<open>The result says whether \<open>processToken\<close> is to return.\<close>

definition commitToPartialEndTag ::
    "SegmentedString \<Rightarrow> uchar \<Rightarrow> State \<Rightarrow> HTMLTokenizer \<Rightarrow> bool \<times> HTMLTokenizer \<times> SegmentedString" where
  "commitToPartialEndTag source character state tz0 =
     (let tz = appendToTemporaryBuffer character (tz_assertRaw (m_currentCharacter source = character) tz0);
          source1 = SegmentedString_advance source
      in if haveBufferedCharacterToken tz then (True, tz\<lparr>m_state := state\<rparr>, source1)
         else (False, flushBufferedEndTag tz, source1))"

definition commitToCompleteEndTag :: "HTMLTokenizer \<Rightarrow> SegmentedString \<Rightarrow> outcome option" where
  "commitToCompleteEndTag tz0 source =
     (let tz1 = appendToTemporaryBuffer chr_gt (tz_assert (m_currentCharacter source = chr_gt) tz0);
          source1 = advancePastNonNewline source;
          tz = tz1\<lparr>m_state := DataState\<rparr>
      in if haveBufferedCharacterToken tz then Some (Return True tz source1)
         else Some (Return True (flushBufferedEndTag tz) source1))"

type_synonym handler = "HTMLTokenizer \<Rightarrow> SegmentedString \<Rightarrow> uchar \<Rightarrow> outcome option"

lemmas [macro_defs] = RETURN_IN_CURRENT_STATE_def RECONSUME_IN_def afterPeek_def ADVANCE_TO_def
  ADVANCE_PAST_NON_NEWLINE_TO_def SWITCH_TO_def emitAndResumeInDataState_def
  emitAndReconsumeInDataState_def emitEndOfFile_def commitToPartialEndTag_def commitToCompleteEndTag_def

end
