(* ===== verification/Html_Tokenizer_States.thy ===== *)
theory Html_Tokenizer_States
  imports Html_Tokenizer
begin

text \<open>
  The blocks of \<open>HTMLTokenizer::processToken\<close> and what drives them.

  Every \<open>BEGIN_STATE ... END_STATE\<close> block is a definition \<open>do_<State>\<close> of the tokenizer, the source and
  the current character, in the order of \<open>Source/WebCore/html/parser/HTMLTokenizer.cpp\<close>. \<open>step\<close> picks
  the block of a state, \<open>run\<close> follows the jumps, and \<open>processToken\<close> and \<open>nextToken\<close> are the entry points.
\<close>

section \<open>Text\<close>

definition do_DataState :: handler where
  "do_DataState tz source character =
     (if character = chr_amp then ADVANCE_PAST_NON_NEWLINE_TO CharacterReferenceInDataState tz source
      else if character = chr_lt then
        (if haveBufferedCharacterToken tz then RETURN_IN_CURRENT_STATE DataState True tz source
         else ADVANCE_PAST_NON_NEWLINE_TO TagOpenState tz source)
      else if character = 0 then emitEndOfFile tz source
      else ADVANCE_TO DataState (bufferCharacter character tz) source)"

definition do_CharacterReferenceInDataState :: "HTMLEntityTable \<Rightarrow> handler" where
  "do_CharacterReferenceInDataState tbl tz source character =
     (case processEntity tbl tz source of
        None \<Rightarrow> None
      | Some (False, tz, source) \<Rightarrow>
          RETURN_IN_CURRENT_STATE CharacterReferenceInDataState (haveBufferedCharacterToken tz) tz source
      | Some (True, tz, source) \<Rightarrow> SWITCH_TO DataState tz source)"

definition do_RCDATAState :: handler where
  "do_RCDATAState tz source character =
     (if character = chr_amp then ADVANCE_PAST_NON_NEWLINE_TO CharacterReferenceInRCDATAState tz source
      else if character = chr_lt then ADVANCE_PAST_NON_NEWLINE_TO RCDATALessThanSignState tz source
      else if character = 0 then RECONSUME_IN DataState tz source character
      else ADVANCE_TO RCDATAState (bufferCharacter character tz) source)"

definition do_CharacterReferenceInRCDATAState :: "HTMLEntityTable \<Rightarrow> handler" where
  "do_CharacterReferenceInRCDATAState tbl tz source character =
     (case processEntity tbl tz source of
        None \<Rightarrow> None
      | Some (False, tz, source) \<Rightarrow>
          RETURN_IN_CURRENT_STATE CharacterReferenceInRCDATAState (haveBufferedCharacterToken tz) tz source
      | Some (True, tz, source) \<Rightarrow> SWITCH_TO RCDATAState tz source)"

definition do_RAWTEXTState :: handler where
  "do_RAWTEXTState tz source character =
     (if character = chr_lt then ADVANCE_PAST_NON_NEWLINE_TO RAWTEXTLessThanSignState tz source
      else if character = 0 then RECONSUME_IN DataState tz source character
      else ADVANCE_TO RAWTEXTState (bufferCharacter character tz) source)"

definition do_ScriptDataState :: handler where
  "do_ScriptDataState tz source character =
     (if character = chr_lt then ADVANCE_PAST_NON_NEWLINE_TO ScriptDataLessThanSignState tz source
      else if character = 0 then RECONSUME_IN DataState tz source character
      else ADVANCE_TO ScriptDataState (bufferCharacter character tz) source)"

definition do_PLAINTEXTState :: handler where
  "do_PLAINTEXTState tz source character =
     (if character = 0 then RECONSUME_IN DataState tz source character
      else ADVANCE_TO PLAINTEXTState (bufferCharacter character tz) source)"

section \<open>Tags\<close>

definition do_TagOpenState :: handler where
  "do_TagOpenState tz source character =
     (if character = chr_bang then ADVANCE_PAST_NON_NEWLINE_TO MarkupDeclarationOpenState tz source
      else if character = chr_slash then ADVANCE_PAST_NON_NEWLINE_TO EndTagOpenState tz source
      else if isASCIIAlpha character then
        ADVANCE_PAST_NON_NEWLINE_TO TagNameState
          (withToken (beginStartTag (ucast (convertASCIIAlphaToLower character))) tz) source
      else if character = chr_quest then RECONSUME_IN BogusCommentState tz source character
      else RECONSUME_IN DataState (bufferASCIICharacter chr_lt tz) source character)"

definition do_EndTagOpenState :: handler where
  "do_EndTagOpenState tz source character =
     (if isASCIIAlpha character then
        ADVANCE_PAST_NON_NEWLINE_TO TagNameState
          (clearAppropriateEndTagName (withToken (beginEndTag (convertASCIIAlphaToLower character)) tz))
            source
      else if character = chr_gt then ADVANCE_PAST_NON_NEWLINE_TO DataState tz source
      else if character = 0 then
        RECONSUME_IN DataState
          (bufferASCIICharacter chr_slash (bufferASCIICharacter chr_lt tz)) source character
      else RECONSUME_IN BogusCommentState tz source character)"

definition do_TagNameState :: handler where
  "do_TagNameState tz source character =
     (if isTokenizerWhitespace character then ADVANCE_TO BeforeAttributeNameState tz source
      else if character = chr_slash then ADVANCE_PAST_NON_NEWLINE_TO SelfClosingStartTagState tz source
      else if character = chr_gt then emitAndResumeInDataState tz source
      else if usePreHTML5ParserQuirks (m_options tz) \<and> character = chr_lt then
        emitAndReconsumeInDataState tz source
      else if character = 0 then RECONSUME_IN DataState tz source character
      else
        ADVANCE_PAST_NON_NEWLINE_TO TagNameState
          (withToken (appendToName (toASCIILower character)) tz) source)"

section \<open>End tags inside text\<close>

text \<open>
  The four states that read the name of a possible end tag inside text have the same block, for
  another name state and text state.
\<close>

definition commitPartial :: "uchar \<Rightarrow> State \<Rightarrow> HTMLTokenizer \<Rightarrow> SegmentedString \<Rightarrow> outcome option" where
  "commitPartial character newState tz source =
     (case commitToPartialEndTag source character newState tz of
        (True, tz, source) \<Rightarrow> Some (Return True tz source)
      | (False, tz, source) \<Rightarrow> SWITCH_TO newState tz source)"

definition rejectEndTag :: "HTMLTokenizer \<Rightarrow> HTMLTokenizer" where
  "rejectEndTag tz =
     (withToken (appendToCharacter_vector (m_temporaryBuffer tz))
        (bufferASCIICharacter chr_slash (bufferASCIICharacter chr_lt tz)))
       \<lparr>m_bufferedEndTagName := [], m_temporaryBuffer := []\<rparr>"

definition endTagNameBlock :: "State \<Rightarrow> State \<Rightarrow> handler" where
  "endTagNameBlock nameState textState tz source character =
     (if isASCIIAlpha character then
        ADVANCE_PAST_NON_NEWLINE_TO nameState
          (appendToPossibleEndTag (ucast (convertASCIIAlphaToLower character))
            (appendToTemporaryBuffer character tz)) source
      else if isTokenizerWhitespace character \<and> isAppropriateEndTag tz then
        commitPartial character BeforeAttributeNameState tz source
      else if character = chr_slash \<and> isAppropriateEndTag tz then
        commitPartial chr_slash SelfClosingStartTagState tz source
      else if character = chr_gt \<and> isAppropriateEndTag tz then commitToCompleteEndTag tz source
      else RECONSUME_IN textState (rejectEndTag tz) source character)"

definition do_RCDATALessThanSignState :: handler where
  "do_RCDATALessThanSignState tz source character =
     (if character = chr_slash then
        ADVANCE_PAST_NON_NEWLINE_TO RCDATAEndTagOpenState
          (tz_assert (m_bufferedEndTagName tz = []) (clearTemporaryBuffer tz)) source
      else RECONSUME_IN RCDATAState (bufferASCIICharacter chr_lt tz) source character)"

definition do_RCDATAEndTagOpenState :: handler where
  "do_RCDATAEndTagOpenState tz source character =
     (if isASCIIAlpha character then
        ADVANCE_PAST_NON_NEWLINE_TO RCDATAEndTagNameState
          (appendToPossibleEndTag (ucast (convertASCIIAlphaToLower character)) (appendToTemporaryBuffer
            character tz)) source
      else
        RECONSUME_IN RCDATAState
          (bufferASCIICharacter chr_slash (bufferASCIICharacter chr_lt tz)) source character)"

definition do_RCDATAEndTagNameState :: handler where
  "do_RCDATAEndTagNameState tz source character =
     endTagNameBlock RCDATAEndTagNameState RCDATAState tz source character"

definition do_RAWTEXTLessThanSignState :: handler where
  "do_RAWTEXTLessThanSignState tz source character =
     (if character = chr_slash then
        ADVANCE_PAST_NON_NEWLINE_TO RAWTEXTEndTagOpenState
          (tz_assert (m_bufferedEndTagName tz = []) (clearTemporaryBuffer tz)) source
      else RECONSUME_IN RAWTEXTState (bufferASCIICharacter chr_lt tz) source character)"

definition do_RAWTEXTEndTagOpenState :: handler where
  "do_RAWTEXTEndTagOpenState tz source character =
     (if isASCIIAlpha character then
        ADVANCE_PAST_NON_NEWLINE_TO RAWTEXTEndTagNameState
          (appendToPossibleEndTag (ucast (convertASCIIAlphaToLower character)) (appendToTemporaryBuffer
            character tz)) source
      else
        RECONSUME_IN RAWTEXTState
          (bufferASCIICharacter chr_slash (bufferASCIICharacter chr_lt tz)) source character)"

definition do_RAWTEXTEndTagNameState :: handler where
  "do_RAWTEXTEndTagNameState tz source character =
     endTagNameBlock RAWTEXTEndTagNameState RAWTEXTState tz source character"

definition do_ScriptDataLessThanSignState :: handler where
  "do_ScriptDataLessThanSignState tz source character =
     (if character = chr_slash then
        ADVANCE_PAST_NON_NEWLINE_TO ScriptDataEndTagOpenState
          (tz_assert (m_bufferedEndTagName tz = []) (clearTemporaryBuffer tz)) source
      else if character = chr_bang then
        ADVANCE_PAST_NON_NEWLINE_TO ScriptDataEscapeStartState
          (bufferASCIICharacter chr_bang (bufferASCIICharacter chr_lt tz)) source
      else RECONSUME_IN ScriptDataState (bufferASCIICharacter chr_lt tz) source character)"

definition do_ScriptDataEndTagOpenState :: handler where
  "do_ScriptDataEndTagOpenState tz source character =
     (if isASCIIAlpha character then
        ADVANCE_PAST_NON_NEWLINE_TO ScriptDataEndTagNameState
          (appendToPossibleEndTag (ucast (convertASCIIAlphaToLower character)) (appendToTemporaryBuffer
            character tz)) source
      else
        RECONSUME_IN ScriptDataState
          (bufferASCIICharacter chr_slash (bufferASCIICharacter chr_lt tz)) source character)"

definition do_ScriptDataEndTagNameState :: handler where
  "do_ScriptDataEndTagNameState tz source character =
     endTagNameBlock ScriptDataEndTagNameState ScriptDataState tz source character"

section \<open>Escaped script data\<close>

definition do_ScriptDataEscapeStartState :: handler where
  "do_ScriptDataEscapeStartState tz source character =
     (if character = chr_dash then
        ADVANCE_PAST_NON_NEWLINE_TO ScriptDataEscapeStartDashState
          (bufferASCIICharacter chr_dash tz) source
      else RECONSUME_IN ScriptDataState tz source character)"

definition do_ScriptDataEscapeStartDashState :: handler where
  "do_ScriptDataEscapeStartDashState tz source character =
     (if character = chr_dash then
        ADVANCE_PAST_NON_NEWLINE_TO ScriptDataEscapedDashDashState
          (bufferASCIICharacter chr_dash tz) source
      else RECONSUME_IN ScriptDataState tz source character)"

definition do_ScriptDataEscapedState :: handler where
  "do_ScriptDataEscapedState tz source character =
     (if character = chr_dash then
        ADVANCE_PAST_NON_NEWLINE_TO ScriptDataEscapedDashState (bufferASCIICharacter chr_dash tz) source
      else if character = chr_lt then
        ADVANCE_PAST_NON_NEWLINE_TO ScriptDataEscapedLessThanSignState tz source
      else if character = 0 then RECONSUME_IN DataState tz source character
      else ADVANCE_TO ScriptDataEscapedState (bufferCharacter character tz) source)"

definition do_ScriptDataEscapedDashState :: handler where
  "do_ScriptDataEscapedDashState tz source character =
     (if character = chr_dash then
        ADVANCE_PAST_NON_NEWLINE_TO ScriptDataEscapedDashDashState
          (bufferASCIICharacter chr_dash tz) source
      else if character = chr_lt then
        ADVANCE_PAST_NON_NEWLINE_TO ScriptDataEscapedLessThanSignState tz source
      else if character = 0 then RECONSUME_IN DataState tz source character
      else ADVANCE_TO ScriptDataEscapedState (bufferCharacter character tz) source)"

definition do_ScriptDataEscapedDashDashState :: handler where
  "do_ScriptDataEscapedDashDashState tz source character =
     (if character = chr_dash then
        ADVANCE_PAST_NON_NEWLINE_TO ScriptDataEscapedDashDashState
          (bufferASCIICharacter chr_dash tz) source
      else if character = chr_lt then
        ADVANCE_PAST_NON_NEWLINE_TO ScriptDataEscapedLessThanSignState tz source
      else if character = chr_gt then
        ADVANCE_PAST_NON_NEWLINE_TO ScriptDataState (bufferASCIICharacter chr_gt tz) source
      else if character = 0 then RECONSUME_IN DataState tz source character
      else ADVANCE_TO ScriptDataEscapedState (bufferCharacter character tz) source)"

definition do_ScriptDataEscapedLessThanSignState :: handler where
  "do_ScriptDataEscapedLessThanSignState tz source character =
     (if character = chr_slash then
        ADVANCE_PAST_NON_NEWLINE_TO ScriptDataEscapedEndTagOpenState
          (tz_assert (m_bufferedEndTagName tz = []) (clearTemporaryBuffer tz)) source
      else if isASCIIAlpha character then
        ADVANCE_PAST_NON_NEWLINE_TO ScriptDataDoubleEscapeStartState
          (appendToTemporaryBuffer (ucast (convertASCIIAlphaToLower character)) (clearTemporaryBuffer
            (bufferASCIICharacter character (bufferASCIICharacter chr_lt tz)))) source
      else RECONSUME_IN ScriptDataEscapedState (bufferASCIICharacter chr_lt tz) source character)"

definition do_ScriptDataEscapedEndTagOpenState :: handler where
  "do_ScriptDataEscapedEndTagOpenState tz source character =
     (if isASCIIAlpha character then
        ADVANCE_PAST_NON_NEWLINE_TO ScriptDataEscapedEndTagNameState
          (appendToPossibleEndTag (ucast (convertASCIIAlphaToLower character)) (appendToTemporaryBuffer
            character tz)) source
      else
        RECONSUME_IN ScriptDataEscapedState
          (bufferASCIICharacter chr_slash (bufferASCIICharacter chr_lt tz)) source character)"

definition do_ScriptDataEscapedEndTagNameState :: handler where
  "do_ScriptDataEscapedEndTagNameState tz source character =
     endTagNameBlock ScriptDataEscapedEndTagNameState ScriptDataEscapedState tz source character"

definition do_ScriptDataDoubleEscapeStartState :: handler where
  "do_ScriptDataDoubleEscapeStartState tz source character =
     (if isTokenizerWhitespace character \<or> character = chr_slash \<or> character = chr_gt then
        let tz1 = bufferASCIICharacter character tz in
        if temporaryBufferIs ''script'' tz1 then ADVANCE_TO ScriptDataDoubleEscapedState tz1 source
        else ADVANCE_TO ScriptDataEscapedState tz1 source
      else if isASCIIAlpha character then
        ADVANCE_PAST_NON_NEWLINE_TO ScriptDataDoubleEscapeStartState
          (appendToTemporaryBuffer (ucast (convertASCIIAlphaToLower character))
            (bufferASCIICharacter character tz)) source
      else RECONSUME_IN ScriptDataEscapedState tz source character)"

definition do_ScriptDataDoubleEscapedState :: handler where
  "do_ScriptDataDoubleEscapedState tz source character =
     (if character = chr_dash then
        ADVANCE_PAST_NON_NEWLINE_TO ScriptDataDoubleEscapedDashState
          (bufferASCIICharacter chr_dash tz) source
      else if character = chr_lt then
        ADVANCE_PAST_NON_NEWLINE_TO ScriptDataDoubleEscapedLessThanSignState
          (bufferASCIICharacter chr_lt tz) source
      else if character = 0 then RECONSUME_IN DataState tz source character
      else ADVANCE_TO ScriptDataDoubleEscapedState (bufferCharacter character tz) source)"

definition do_ScriptDataDoubleEscapedDashState :: handler where
  "do_ScriptDataDoubleEscapedDashState tz source character =
     (if character = chr_dash then
        ADVANCE_PAST_NON_NEWLINE_TO ScriptDataDoubleEscapedDashDashState
          (bufferASCIICharacter chr_dash tz) source
      else if character = chr_lt then
        ADVANCE_PAST_NON_NEWLINE_TO ScriptDataDoubleEscapedLessThanSignState
          (bufferASCIICharacter chr_lt tz) source
      else if character = 0 then RECONSUME_IN DataState tz source character
      else ADVANCE_TO ScriptDataDoubleEscapedState (bufferCharacter character tz) source)"

definition do_ScriptDataDoubleEscapedDashDashState :: handler where
  "do_ScriptDataDoubleEscapedDashDashState tz source character =
     (if character = chr_dash then
        ADVANCE_PAST_NON_NEWLINE_TO ScriptDataDoubleEscapedDashDashState
          (bufferASCIICharacter chr_dash tz) source
      else if character = chr_lt then
        ADVANCE_PAST_NON_NEWLINE_TO ScriptDataDoubleEscapedLessThanSignState
          (bufferASCIICharacter chr_lt tz) source
      else if character = chr_gt then
        ADVANCE_PAST_NON_NEWLINE_TO ScriptDataState (bufferASCIICharacter chr_gt tz) source
      else if character = 0 then RECONSUME_IN DataState tz source character
      else ADVANCE_TO ScriptDataDoubleEscapedState (bufferCharacter character tz) source)"

definition do_ScriptDataDoubleEscapedLessThanSignState :: handler where
  "do_ScriptDataDoubleEscapedLessThanSignState tz source character =
     (if character = chr_slash then
        ADVANCE_PAST_NON_NEWLINE_TO ScriptDataDoubleEscapeEndState
          (clearTemporaryBuffer (bufferASCIICharacter chr_slash tz)) source
      else RECONSUME_IN ScriptDataDoubleEscapedState tz source character)"

definition do_ScriptDataDoubleEscapeEndState :: handler where
  "do_ScriptDataDoubleEscapeEndState tz source character =
     (if isTokenizerWhitespace character \<or> character = chr_slash \<or> character = chr_gt then
        let tz1 = bufferASCIICharacter character tz in
        if temporaryBufferIs ''script'' tz1 then ADVANCE_TO ScriptDataEscapedState tz1 source
        else ADVANCE_TO ScriptDataDoubleEscapedState tz1 source
      else if isASCIIAlpha character then
        ADVANCE_PAST_NON_NEWLINE_TO ScriptDataDoubleEscapeEndState
          (appendToTemporaryBuffer (ucast (convertASCIIAlphaToLower character))
            (bufferASCIICharacter character tz)) source
      else RECONSUME_IN ScriptDataDoubleEscapedState tz source character)"

section \<open>Attributes\<close>

definition do_BeforeAttributeNameState :: handler where
  "do_BeforeAttributeNameState tz source character =
     (if isTokenizerWhitespace character then ADVANCE_TO BeforeAttributeNameState tz source
      else if character = chr_slash then ADVANCE_PAST_NON_NEWLINE_TO SelfClosingStartTagState tz source
      else if character = chr_gt then emitAndResumeInDataState tz source
      else if usePreHTML5ParserQuirks (m_options tz) \<and> character = chr_lt then
        emitAndReconsumeInDataState tz source
      else if character = 0 then RECONSUME_IN DataState tz source character
      else
        ADVANCE_PAST_NON_NEWLINE_TO AttributeNameState
          (withToken (appendToAttributeName (toASCIILower character)) (withToken (beginAttribute
            (SegmentedString_numberOfCharactersConsumed source)) tz)) source)"

definition do_AttributeNameState :: handler where
  "do_AttributeNameState tz source character =
     (if isTokenizerWhitespace character then ADVANCE_TO AfterAttributeNameState tz source
      else if character = chr_slash then ADVANCE_PAST_NON_NEWLINE_TO SelfClosingStartTagState tz source
      else if character = chr_eq then ADVANCE_PAST_NON_NEWLINE_TO BeforeAttributeValueState tz source
      else if character = chr_gt then emitAndResumeInDataState tz source
      else if usePreHTML5ParserQuirks (m_options tz) \<and> character = chr_lt then
        emitAndReconsumeInDataState tz source
      else if character = 0 then RECONSUME_IN DataState tz source character
      else
        ADVANCE_PAST_NON_NEWLINE_TO AttributeNameState
          (withToken (appendToAttributeName (toASCIILower character)) tz) source)"

definition do_AfterAttributeNameState :: handler where
  "do_AfterAttributeNameState tz source character =
     (if isTokenizerWhitespace character then ADVANCE_TO AfterAttributeNameState tz source
      else if character = chr_slash then ADVANCE_PAST_NON_NEWLINE_TO SelfClosingStartTagState tz source
      else if character = chr_eq then ADVANCE_PAST_NON_NEWLINE_TO BeforeAttributeValueState tz source
      else if character = chr_gt then emitAndResumeInDataState tz source
      else if usePreHTML5ParserQuirks (m_options tz) \<and> character = chr_lt then
        emitAndReconsumeInDataState tz source
      else if character = 0 then RECONSUME_IN DataState tz source character
      else
        ADVANCE_PAST_NON_NEWLINE_TO AttributeNameState
          (withToken (appendToAttributeName (toASCIILower character)) (withToken (beginAttribute
            (SegmentedString_numberOfCharactersConsumed source)) tz)) source)"

definition do_BeforeAttributeValueState :: handler where
  "do_BeforeAttributeValueState tz source character =
     (if isTokenizerWhitespace character then ADVANCE_TO BeforeAttributeValueState tz source
      else if character = chr_quot then ADVANCE_PAST_NON_NEWLINE_TO AttributeValueDoubleQuotedState tz source
      else if character = chr_amp then RECONSUME_IN AttributeValueUnquotedState tz source character
      else if character = chr_apos then ADVANCE_PAST_NON_NEWLINE_TO AttributeValueSingleQuotedState tz source
      else if character = chr_gt then emitAndResumeInDataState tz source
      else if character = 0 then RECONSUME_IN DataState tz source character
      else
        ADVANCE_PAST_NON_NEWLINE_TO AttributeValueUnquotedState
          (withToken (appendToAttributeValue character) tz) source)"

definition do_AttributeValueDoubleQuotedState :: handler where
  "do_AttributeValueDoubleQuotedState tz source character =
     (if character = chr_quot then
        ADVANCE_PAST_NON_NEWLINE_TO AfterAttributeValueQuotedState
          (withToken (endAttribute (SegmentedString_numberOfCharactersConsumed source)) tz) source
      else if character = chr_amp then
        ADVANCE_PAST_NON_NEWLINE_TO CharacterReferenceInAttributeValueState
          (setAdditionalAllowedCharacter chr_quot tz) source
      else if character = 0 then
        RECONSUME_IN DataState
          (withToken (endAttribute (SegmentedString_numberOfCharactersConsumed source)) tz) source
            character
      else
        ADVANCE_TO AttributeValueDoubleQuotedState
          (withToken (appendToAttributeValue character) tz) source)"

definition do_AttributeValueSingleQuotedState :: handler where
  "do_AttributeValueSingleQuotedState tz source character =
     (if character = chr_apos then
        ADVANCE_PAST_NON_NEWLINE_TO AfterAttributeValueQuotedState
          (withToken (endAttribute (SegmentedString_numberOfCharactersConsumed source)) tz) source
      else if character = chr_amp then
        ADVANCE_PAST_NON_NEWLINE_TO CharacterReferenceInAttributeValueState
          (setAdditionalAllowedCharacter chr_apos tz) source
      else if character = 0 then
        RECONSUME_IN DataState
          (withToken (endAttribute (SegmentedString_numberOfCharactersConsumed source)) tz) source
            character
      else
        ADVANCE_TO AttributeValueSingleQuotedState
          (withToken (appendToAttributeValue character) tz) source)"

definition do_AttributeValueUnquotedState :: handler where
  "do_AttributeValueUnquotedState tz source character =
     (if isTokenizerWhitespace character then
        ADVANCE_TO BeforeAttributeNameState
          (withToken (endAttribute (SegmentedString_numberOfCharactersConsumed source)) tz) source
      else if character = chr_amp then
        ADVANCE_PAST_NON_NEWLINE_TO CharacterReferenceInAttributeValueState
          (setAdditionalAllowedCharacter chr_gt tz) source
      else if character = chr_gt then
        emitAndResumeInDataState
          (withToken (endAttribute (SegmentedString_numberOfCharactersConsumed source)) tz) source
      else if character = 0 then
        RECONSUME_IN DataState
          (withToken (endAttribute (SegmentedString_numberOfCharactersConsumed source)) tz) source
            character
      else
        ADVANCE_PAST_NON_NEWLINE_TO AttributeValueUnquotedState
          (withToken (appendToAttributeValue character) tz) source)"

definition do_CharacterReferenceInAttributeValueState :: "HTMLEntityTable \<Rightarrow> handler" where
  "do_CharacterReferenceInAttributeValueState tbl tz source character =
     (case consumeHTMLEntity tbl source (m_additionalAllowedCharacter tz) of
        None \<Rightarrow> None
      | Some (success, decodedEntity, notEnoughCharacters, source1) \<Rightarrow>
          if notEnoughCharacters then
            RETURN_IN_CURRENT_STATE CharacterReferenceInAttributeValueState
              (haveBufferedCharacterToken tz) tz source1
          else
            let tz1 =
              (if \<not> success then
                 withToken (appendToAttributeValue chr_amp) (tz_assert (decodedEntity = []) tz)
               else withToken (fold appendToAttributeValue decodedEntity) tz)
            in if m_additionalAllowedCharacter tz1 = chr_quot then
                 SWITCH_TO AttributeValueDoubleQuotedState tz1 source1
               else if m_additionalAllowedCharacter tz1 = chr_apos then
                 SWITCH_TO AttributeValueSingleQuotedState tz1 source1
               else
                 SWITCH_TO AttributeValueUnquotedState
                   (tz_assert (m_additionalAllowedCharacter tz1 = chr_gt) tz1) source1)"

definition do_AfterAttributeValueQuotedState :: handler where
  "do_AfterAttributeValueQuotedState tz source character =
     (if isTokenizerWhitespace character then ADVANCE_TO BeforeAttributeNameState tz source
      else if character = chr_slash then ADVANCE_PAST_NON_NEWLINE_TO SelfClosingStartTagState tz source
      else if character = chr_gt then emitAndResumeInDataState tz source
      else if usePreHTML5ParserQuirks (m_options tz) \<and> character = chr_lt then
        emitAndReconsumeInDataState tz source
      else if character = 0 then RECONSUME_IN DataState tz source character
      else RECONSUME_IN BeforeAttributeNameState tz source character)"

definition do_SelfClosingStartTagState :: handler where
  "do_SelfClosingStartTagState tz source character =
     (if character = chr_gt then emitAndResumeInDataState (withToken setSelfClosing tz) source
      else if character = 0 then RECONSUME_IN DataState tz source character
      else RECONSUME_IN BeforeAttributeNameState tz source character)"

section \<open>Comments\<close>

definition do_BogusCommentState :: handler where
  "do_BogusCommentState tz source character =
     RECONSUME_IN ContinueBogusCommentState (withToken beginComment tz) source character"

definition do_ContinueBogusCommentState :: handler where
  "do_ContinueBogusCommentState tz source character =
     (if character = chr_gt then emitAndResumeInDataState tz source
      else if character = 0 then emitAndReconsumeInDataState tz source
      else ADVANCE_TO ContinueBogusCommentState (withToken (appendToComment character) tz) source)"

definition do_MarkupDeclarationOpenState :: handler where
  "do_MarkupDeclarationOpenState tz source character =
     (if character = chr_dash then
        case advancePast ''--'' source of
          (DidMatch, source) \<Rightarrow> SWITCH_TO CommentStartState (withToken beginComment tz) source
        | (NotEnoughCharacters, source) \<Rightarrow>
            RETURN_IN_CURRENT_STATE MarkupDeclarationOpenState (haveBufferedCharacterToken tz) tz source
        | (DidNotMatch, source) \<Rightarrow> RECONSUME_IN BogusCommentState tz source character
      else if isASCIIAlphaCaselessEqual character 0x64 then
        case advancePastLettersIgnoringASCIICase ''doctype'' source of
          (DidMatch, source) \<Rightarrow> SWITCH_TO DOCTYPEState tz source
        | (NotEnoughCharacters, source) \<Rightarrow>
            RETURN_IN_CURRENT_STATE MarkupDeclarationOpenState (haveBufferedCharacterToken tz) tz source
        | (DidNotMatch, source) \<Rightarrow> RECONSUME_IN BogusCommentState tz source character
      else if character = chr_lbrack \<and> m_shouldAllowCDATA tz then
        case advancePast ''[CDATA['' source of
          (DidMatch, source) \<Rightarrow> SWITCH_TO CDATASectionState tz source
        | (NotEnoughCharacters, source) \<Rightarrow>
            RETURN_IN_CURRENT_STATE MarkupDeclarationOpenState (haveBufferedCharacterToken tz) tz source
        | (DidNotMatch, source) \<Rightarrow> RECONSUME_IN BogusCommentState tz source character
      else RECONSUME_IN BogusCommentState tz source character)"

definition do_CommentStartState :: handler where
  "do_CommentStartState tz source character =
     (if character = chr_dash then ADVANCE_PAST_NON_NEWLINE_TO CommentStartDashState tz source
      else if character = chr_gt then emitAndResumeInDataState tz source
      else if character = 0 then emitAndReconsumeInDataState tz source
      else ADVANCE_TO CommentState (withToken (appendToComment character) tz) source)"

definition do_CommentStartDashState :: handler where
  "do_CommentStartDashState tz source character =
     (if character = chr_dash then ADVANCE_PAST_NON_NEWLINE_TO CommentEndState tz source
      else if character = chr_gt then emitAndResumeInDataState tz source
      else if character = 0 then emitAndReconsumeInDataState tz source
      else
        ADVANCE_TO CommentState
          (withToken (appendToComment character) (withToken (appendToComment chr_dash) tz)) source)"

definition do_CommentState :: handler where
  "do_CommentState tz source character =
     (if character = chr_dash then ADVANCE_PAST_NON_NEWLINE_TO CommentEndDashState tz source
      else if character = 0 then emitAndReconsumeInDataState tz source
      else ADVANCE_TO CommentState (withToken (appendToComment character) tz) source)"

definition do_CommentEndDashState :: handler where
  "do_CommentEndDashState tz source character =
     (if character = chr_dash then ADVANCE_PAST_NON_NEWLINE_TO CommentEndState tz source
      else if character = 0 then emitAndReconsumeInDataState tz source
      else
        ADVANCE_TO CommentState
          (withToken (appendToComment character) (withToken (appendToComment chr_dash) tz)) source)"

definition do_CommentEndState :: handler where
  "do_CommentEndState tz source character =
     (if character = chr_gt then emitAndResumeInDataState tz source
      else if character = chr_bang then ADVANCE_PAST_NON_NEWLINE_TO CommentEndBangState tz source
      else if character = chr_dash then
        ADVANCE_PAST_NON_NEWLINE_TO CommentEndState (withToken (appendToComment chr_dash) tz) source
      else if character = 0 then emitAndReconsumeInDataState tz source
      else
        ADVANCE_TO CommentState
          (withToken (appendToComment character) (withToken (appendToComment chr_dash) (withToken
            (appendToComment chr_dash) tz))) source)"

definition do_CommentEndBangState :: handler where
  "do_CommentEndBangState tz source character =
     (if character = chr_dash then
        ADVANCE_PAST_NON_NEWLINE_TO CommentEndDashState
          (withToken (appendToComment chr_bang) (withToken (appendToComment chr_dash) (withToken
            (appendToComment chr_dash) tz))) source
      else if character = chr_gt then emitAndResumeInDataState tz source
      else if character = 0 then emitAndReconsumeInDataState tz source
      else
        ADVANCE_TO CommentState
          (withToken (appendToComment character) (withToken (appendToComment chr_bang) (withToken
            (appendToComment chr_dash) (withToken (appendToComment chr_dash) tz)))) source)"

section \<open>DOCTYPE\<close>

definition do_DOCTYPEState :: handler where
  "do_DOCTYPEState tz source character =
     (if isTokenizerWhitespace character then ADVANCE_TO BeforeDOCTYPENameState tz source
      else if character = 0 then
        emitAndReconsumeInDataState (withToken setForceQuirks (withToken beginDOCTYPE tz)) source
      else RECONSUME_IN BeforeDOCTYPENameState tz source character)"

definition do_BeforeDOCTYPENameState :: handler where
  "do_BeforeDOCTYPENameState tz source character =
     (if isTokenizerWhitespace character then ADVANCE_TO BeforeDOCTYPENameState tz source
      else if character = chr_gt then
        emitAndResumeInDataState (withToken setForceQuirks (withToken beginDOCTYPE tz)) source
      else if character = 0 then
        emitAndReconsumeInDataState (withToken setForceQuirks (withToken beginDOCTYPE tz)) source
      else
        ADVANCE_PAST_NON_NEWLINE_TO DOCTYPENameState
          (withToken (beginDOCTYPE_char (toASCIILower character)) tz) source)"

definition do_DOCTYPENameState :: handler where
  "do_DOCTYPENameState tz source character =
     (if isTokenizerWhitespace character then ADVANCE_TO AfterDOCTYPENameState tz source
      else if character = chr_gt then emitAndResumeInDataState tz source
      else if character = 0 then emitAndReconsumeInDataState (withToken setForceQuirks tz) source
      else
        ADVANCE_PAST_NON_NEWLINE_TO DOCTYPENameState
          (withToken (appendToName (toASCIILower character)) tz) source)"

definition do_AfterDOCTYPENameState :: handler where
  "do_AfterDOCTYPENameState tz source character =
     (if isTokenizerWhitespace character then ADVANCE_TO AfterDOCTYPENameState tz source
      else if character = chr_gt then emitAndResumeInDataState tz source
      else if character = 0 then emitAndReconsumeInDataState (withToken setForceQuirks tz) source
      else if isASCIIAlphaCaselessEqual character 0x70 then
        case advancePastLettersIgnoringASCIICase ''public'' source of
          (DidMatch, source) \<Rightarrow> SWITCH_TO AfterDOCTYPEPublicKeywordState tz source
        | (NotEnoughCharacters, source) \<Rightarrow>
            RETURN_IN_CURRENT_STATE AfterDOCTYPENameState (haveBufferedCharacterToken tz) tz source
        | (DidNotMatch, source) \<Rightarrow>
            ADVANCE_PAST_NON_NEWLINE_TO BogusDOCTYPEState (withToken setForceQuirks tz) source
      else if isASCIIAlphaCaselessEqual character 0x73 then
        case advancePastLettersIgnoringASCIICase ''system'' source of
          (DidMatch, source) \<Rightarrow> SWITCH_TO AfterDOCTYPESystemKeywordState tz source
        | (NotEnoughCharacters, source) \<Rightarrow>
            RETURN_IN_CURRENT_STATE AfterDOCTYPENameState (haveBufferedCharacterToken tz) tz source
        | (DidNotMatch, source) \<Rightarrow>
            ADVANCE_PAST_NON_NEWLINE_TO BogusDOCTYPEState (withToken setForceQuirks tz) source
      else ADVANCE_PAST_NON_NEWLINE_TO BogusDOCTYPEState (withToken setForceQuirks tz) source)"

definition do_AfterDOCTYPEPublicKeywordState :: handler where
  "do_AfterDOCTYPEPublicKeywordState tz source character =
     (if isTokenizerWhitespace character then ADVANCE_TO BeforeDOCTYPEPublicIdentifierState tz source
      else if character = chr_quot then
        ADVANCE_PAST_NON_NEWLINE_TO DOCTYPEPublicIdentifierDoubleQuotedState
          (withToken setPublicIdentifierToEmptyString tz) source
      else if character = chr_apos then
        ADVANCE_PAST_NON_NEWLINE_TO DOCTYPEPublicIdentifierSingleQuotedState
          (withToken setPublicIdentifierToEmptyString tz) source
      else if character = chr_gt then emitAndResumeInDataState (withToken setForceQuirks tz) source
      else if character = 0 then emitAndReconsumeInDataState (withToken setForceQuirks tz) source
      else ADVANCE_PAST_NON_NEWLINE_TO BogusDOCTYPEState (withToken setForceQuirks tz) source)"

definition do_BeforeDOCTYPEPublicIdentifierState :: handler where
  "do_BeforeDOCTYPEPublicIdentifierState tz source character =
     (if isTokenizerWhitespace character then ADVANCE_TO BeforeDOCTYPEPublicIdentifierState tz source
      else if character = chr_quot then
        ADVANCE_PAST_NON_NEWLINE_TO DOCTYPEPublicIdentifierDoubleQuotedState
          (withToken setPublicIdentifierToEmptyString tz) source
      else if character = chr_apos then
        ADVANCE_PAST_NON_NEWLINE_TO DOCTYPEPublicIdentifierSingleQuotedState
          (withToken setPublicIdentifierToEmptyString tz) source
      else if character = chr_gt then emitAndResumeInDataState (withToken setForceQuirks tz) source
      else if character = 0 then emitAndReconsumeInDataState (withToken setForceQuirks tz) source
      else ADVANCE_PAST_NON_NEWLINE_TO BogusDOCTYPEState (withToken setForceQuirks tz) source)"

definition do_DOCTYPEPublicIdentifierDoubleQuotedState :: handler where
  "do_DOCTYPEPublicIdentifierDoubleQuotedState tz source character =
     (if character = chr_quot then
        ADVANCE_PAST_NON_NEWLINE_TO AfterDOCTYPEPublicIdentifierState tz source
      else if character = chr_gt then emitAndResumeInDataState (withToken setForceQuirks tz) source
      else if character = 0 then emitAndReconsumeInDataState (withToken setForceQuirks tz) source
      else
        ADVANCE_TO DOCTYPEPublicIdentifierDoubleQuotedState
          (withToken (appendToPublicIdentifier character) tz) source)"

definition do_DOCTYPEPublicIdentifierSingleQuotedState :: handler where
  "do_DOCTYPEPublicIdentifierSingleQuotedState tz source character =
     (if character = chr_apos then
        ADVANCE_PAST_NON_NEWLINE_TO AfterDOCTYPEPublicIdentifierState tz source
      else if character = chr_gt then emitAndResumeInDataState (withToken setForceQuirks tz) source
      else if character = 0 then emitAndReconsumeInDataState (withToken setForceQuirks tz) source
      else
        ADVANCE_TO DOCTYPEPublicIdentifierSingleQuotedState
          (withToken (appendToPublicIdentifier character) tz) source)"

definition do_AfterDOCTYPEPublicIdentifierState :: handler where
  "do_AfterDOCTYPEPublicIdentifierState tz source character =
     (if isTokenizerWhitespace character then
        ADVANCE_TO BetweenDOCTYPEPublicAndSystemIdentifiersState tz source
      else if character = chr_gt then emitAndResumeInDataState tz source
      else if character = chr_quot then
        ADVANCE_PAST_NON_NEWLINE_TO DOCTYPESystemIdentifierDoubleQuotedState
          (withToken setSystemIdentifierToEmptyString tz) source
      else if character = chr_apos then
        ADVANCE_PAST_NON_NEWLINE_TO DOCTYPESystemIdentifierSingleQuotedState
          (withToken setSystemIdentifierToEmptyString tz) source
      else if character = 0 then emitAndReconsumeInDataState (withToken setForceQuirks tz) source
      else ADVANCE_PAST_NON_NEWLINE_TO BogusDOCTYPEState (withToken setForceQuirks tz) source)"

definition do_BetweenDOCTYPEPublicAndSystemIdentifiersState :: handler where
  "do_BetweenDOCTYPEPublicAndSystemIdentifiersState tz source character =
     (if isTokenizerWhitespace character then
        ADVANCE_TO BetweenDOCTYPEPublicAndSystemIdentifiersState tz source
      else if character = chr_gt then emitAndResumeInDataState tz source
      else if character = chr_quot then
        ADVANCE_PAST_NON_NEWLINE_TO DOCTYPESystemIdentifierDoubleQuotedState
          (withToken setSystemIdentifierToEmptyString tz) source
      else if character = chr_apos then
        ADVANCE_PAST_NON_NEWLINE_TO DOCTYPESystemIdentifierSingleQuotedState
          (withToken setSystemIdentifierToEmptyString tz) source
      else if character = 0 then emitAndReconsumeInDataState (withToken setForceQuirks tz) source
      else ADVANCE_PAST_NON_NEWLINE_TO BogusDOCTYPEState (withToken setForceQuirks tz) source)"

definition do_AfterDOCTYPESystemKeywordState :: handler where
  "do_AfterDOCTYPESystemKeywordState tz source character =
     (if isTokenizerWhitespace character then ADVANCE_TO BeforeDOCTYPESystemIdentifierState tz source
      else if character = chr_quot then
        ADVANCE_PAST_NON_NEWLINE_TO DOCTYPESystemIdentifierDoubleQuotedState
          (withToken setSystemIdentifierToEmptyString tz) source
      else if character = chr_apos then
        ADVANCE_PAST_NON_NEWLINE_TO DOCTYPESystemIdentifierSingleQuotedState
          (withToken setSystemIdentifierToEmptyString tz) source
      else if character = chr_gt then emitAndResumeInDataState (withToken setForceQuirks tz) source
      else if character = 0 then emitAndReconsumeInDataState (withToken setForceQuirks tz) source
      else ADVANCE_PAST_NON_NEWLINE_TO BogusDOCTYPEState (withToken setForceQuirks tz) source)"

definition do_BeforeDOCTYPESystemIdentifierState :: handler where
  "do_BeforeDOCTYPESystemIdentifierState tz source character =
     (if isTokenizerWhitespace character then ADVANCE_TO BeforeDOCTYPESystemIdentifierState tz source
      else if character = chr_quot then
        ADVANCE_PAST_NON_NEWLINE_TO DOCTYPESystemIdentifierDoubleQuotedState
          (withToken setSystemIdentifierToEmptyString tz) source
      else if character = chr_apos then
        ADVANCE_PAST_NON_NEWLINE_TO DOCTYPESystemIdentifierSingleQuotedState
          (withToken setSystemIdentifierToEmptyString tz) source
      else if character = chr_gt then emitAndResumeInDataState (withToken setForceQuirks tz) source
      else if character = 0 then emitAndReconsumeInDataState (withToken setForceQuirks tz) source
      else ADVANCE_PAST_NON_NEWLINE_TO BogusDOCTYPEState (withToken setForceQuirks tz) source)"

definition do_DOCTYPESystemIdentifierDoubleQuotedState :: handler where
  "do_DOCTYPESystemIdentifierDoubleQuotedState tz source character =
     (if character = chr_quot then
        ADVANCE_PAST_NON_NEWLINE_TO AfterDOCTYPESystemIdentifierState tz source
      else if character = chr_gt then emitAndResumeInDataState (withToken setForceQuirks tz) source
      else if character = 0 then emitAndReconsumeInDataState (withToken setForceQuirks tz) source
      else
        ADVANCE_TO DOCTYPESystemIdentifierDoubleQuotedState
          (withToken (appendToSystemIdentifier character) tz) source)"

definition do_DOCTYPESystemIdentifierSingleQuotedState :: handler where
  "do_DOCTYPESystemIdentifierSingleQuotedState tz source character =
     (if character = chr_apos then
        ADVANCE_PAST_NON_NEWLINE_TO AfterDOCTYPESystemIdentifierState tz source
      else if character = chr_gt then emitAndResumeInDataState (withToken setForceQuirks tz) source
      else if character = 0 then emitAndReconsumeInDataState (withToken setForceQuirks tz) source
      else
        ADVANCE_TO DOCTYPESystemIdentifierSingleQuotedState
          (withToken (appendToSystemIdentifier character) tz) source)"

definition do_AfterDOCTYPESystemIdentifierState :: handler where
  "do_AfterDOCTYPESystemIdentifierState tz source character =
     (if isTokenizerWhitespace character then ADVANCE_TO AfterDOCTYPESystemIdentifierState tz source
      else if character = chr_gt then emitAndResumeInDataState tz source
      else if character = 0 then emitAndReconsumeInDataState (withToken setForceQuirks tz) source
      else ADVANCE_PAST_NON_NEWLINE_TO BogusDOCTYPEState tz source)"

definition do_BogusDOCTYPEState :: handler where
  "do_BogusDOCTYPEState tz source character =
     (if character = chr_gt then emitAndResumeInDataState tz source
      else if character = 0 then emitAndReconsumeInDataState tz source
      else ADVANCE_TO BogusDOCTYPEState tz source)"

section \<open>CDATA sections\<close>

definition do_CDATASectionState :: handler where
  "do_CDATASectionState tz source character =
     (if character = chr_rbrack then
        ADVANCE_PAST_NON_NEWLINE_TO CDATASectionRightSquareBracketState tz source
      else if character = 0 then RECONSUME_IN DataState tz source character
      else ADVANCE_TO CDATASectionState (bufferCharacter character tz) source)"

definition do_CDATASectionRightSquareBracketState :: handler where
  "do_CDATASectionRightSquareBracketState tz source character =
     (if character = chr_rbrack then
        ADVANCE_PAST_NON_NEWLINE_TO CDATASectionDoubleRightSquareBracketState tz source
      else RECONSUME_IN CDATASectionState (bufferASCIICharacter chr_rbrack tz) source character)"

definition do_CDATASectionDoubleRightSquareBracketState :: handler where
  "do_CDATASectionDoubleRightSquareBracketState tz source character =
     (if character = chr_gt then ADVANCE_PAST_NON_NEWLINE_TO DataState tz source
      else
        RECONSUME_IN CDATASectionState
          (bufferASCIICharacter chr_rbrack (bufferASCIICharacter chr_rbrack tz)) source character)"

section \<open>The tokenizer\<close>

definition step :: "HTMLEntityTable \<Rightarrow> State \<Rightarrow> handler" where
  "step tbl state tz source character =
     (case state of
        DataState \<Rightarrow> do_DataState tz source character
      | CharacterReferenceInDataState \<Rightarrow> do_CharacterReferenceInDataState tbl tz source character
      | RCDATAState \<Rightarrow> do_RCDATAState tz source character
      | CharacterReferenceInRCDATAState \<Rightarrow> do_CharacterReferenceInRCDATAState tbl tz source character
      | RAWTEXTState \<Rightarrow> do_RAWTEXTState tz source character
      | ScriptDataState \<Rightarrow> do_ScriptDataState tz source character
      | PLAINTEXTState \<Rightarrow> do_PLAINTEXTState tz source character
      | TagOpenState \<Rightarrow> do_TagOpenState tz source character
      | EndTagOpenState \<Rightarrow> do_EndTagOpenState tz source character
      | TagNameState \<Rightarrow> do_TagNameState tz source character
      | RCDATALessThanSignState \<Rightarrow> do_RCDATALessThanSignState tz source character
      | RCDATAEndTagOpenState \<Rightarrow> do_RCDATAEndTagOpenState tz source character
      | RCDATAEndTagNameState \<Rightarrow> do_RCDATAEndTagNameState tz source character
      | RAWTEXTLessThanSignState \<Rightarrow> do_RAWTEXTLessThanSignState tz source character
      | RAWTEXTEndTagOpenState \<Rightarrow> do_RAWTEXTEndTagOpenState tz source character
      | RAWTEXTEndTagNameState \<Rightarrow> do_RAWTEXTEndTagNameState tz source character
      | ScriptDataLessThanSignState \<Rightarrow> do_ScriptDataLessThanSignState tz source character
      | ScriptDataEndTagOpenState \<Rightarrow> do_ScriptDataEndTagOpenState tz source character
      | ScriptDataEndTagNameState \<Rightarrow> do_ScriptDataEndTagNameState tz source character
      | ScriptDataEscapeStartState \<Rightarrow> do_ScriptDataEscapeStartState tz source character
      | ScriptDataEscapeStartDashState \<Rightarrow> do_ScriptDataEscapeStartDashState tz source character
      | ScriptDataEscapedState \<Rightarrow> do_ScriptDataEscapedState tz source character
      | ScriptDataEscapedDashState \<Rightarrow> do_ScriptDataEscapedDashState tz source character
      | ScriptDataEscapedDashDashState \<Rightarrow> do_ScriptDataEscapedDashDashState tz source character
      | ScriptDataEscapedLessThanSignState \<Rightarrow> do_ScriptDataEscapedLessThanSignState tz source character
      | ScriptDataEscapedEndTagOpenState \<Rightarrow> do_ScriptDataEscapedEndTagOpenState tz source character
      | ScriptDataEscapedEndTagNameState \<Rightarrow> do_ScriptDataEscapedEndTagNameState tz source character
      | ScriptDataDoubleEscapeStartState \<Rightarrow> do_ScriptDataDoubleEscapeStartState tz source character
      | ScriptDataDoubleEscapedState \<Rightarrow> do_ScriptDataDoubleEscapedState tz source character
      | ScriptDataDoubleEscapedDashState \<Rightarrow> do_ScriptDataDoubleEscapedDashState tz source character
      | ScriptDataDoubleEscapedDashDashState \<Rightarrow> do_ScriptDataDoubleEscapedDashDashState tz source character
      | ScriptDataDoubleEscapedLessThanSignState \<Rightarrow> do_ScriptDataDoubleEscapedLessThanSignState tz source character
      | ScriptDataDoubleEscapeEndState \<Rightarrow> do_ScriptDataDoubleEscapeEndState tz source character
      | BeforeAttributeNameState \<Rightarrow> do_BeforeAttributeNameState tz source character
      | AttributeNameState \<Rightarrow> do_AttributeNameState tz source character
      | AfterAttributeNameState \<Rightarrow> do_AfterAttributeNameState tz source character
      | BeforeAttributeValueState \<Rightarrow> do_BeforeAttributeValueState tz source character
      | AttributeValueDoubleQuotedState \<Rightarrow> do_AttributeValueDoubleQuotedState tz source character
      | AttributeValueSingleQuotedState \<Rightarrow> do_AttributeValueSingleQuotedState tz source character
      | AttributeValueUnquotedState \<Rightarrow> do_AttributeValueUnquotedState tz source character
      | CharacterReferenceInAttributeValueState \<Rightarrow> do_CharacterReferenceInAttributeValueState tbl tz source character
      | AfterAttributeValueQuotedState \<Rightarrow> do_AfterAttributeValueQuotedState tz source character
      | SelfClosingStartTagState \<Rightarrow> do_SelfClosingStartTagState tz source character
      | BogusCommentState \<Rightarrow> do_BogusCommentState tz source character
      | ContinueBogusCommentState \<Rightarrow> do_ContinueBogusCommentState tz source character
      | MarkupDeclarationOpenState \<Rightarrow> do_MarkupDeclarationOpenState tz source character
      | CommentStartState \<Rightarrow> do_CommentStartState tz source character
      | CommentStartDashState \<Rightarrow> do_CommentStartDashState tz source character
      | CommentState \<Rightarrow> do_CommentState tz source character
      | CommentEndDashState \<Rightarrow> do_CommentEndDashState tz source character
      | CommentEndState \<Rightarrow> do_CommentEndState tz source character
      | CommentEndBangState \<Rightarrow> do_CommentEndBangState tz source character
      | DOCTYPEState \<Rightarrow> do_DOCTYPEState tz source character
      | BeforeDOCTYPENameState \<Rightarrow> do_BeforeDOCTYPENameState tz source character
      | DOCTYPENameState \<Rightarrow> do_DOCTYPENameState tz source character
      | AfterDOCTYPENameState \<Rightarrow> do_AfterDOCTYPENameState tz source character
      | AfterDOCTYPEPublicKeywordState \<Rightarrow> do_AfterDOCTYPEPublicKeywordState tz source character
      | BeforeDOCTYPEPublicIdentifierState \<Rightarrow> do_BeforeDOCTYPEPublicIdentifierState tz source character
      | DOCTYPEPublicIdentifierDoubleQuotedState \<Rightarrow> do_DOCTYPEPublicIdentifierDoubleQuotedState tz source character
      | DOCTYPEPublicIdentifierSingleQuotedState \<Rightarrow> do_DOCTYPEPublicIdentifierSingleQuotedState tz source character
      | AfterDOCTYPEPublicIdentifierState \<Rightarrow> do_AfterDOCTYPEPublicIdentifierState tz source character
      | BetweenDOCTYPEPublicAndSystemIdentifiersState \<Rightarrow> do_BetweenDOCTYPEPublicAndSystemIdentifiersState tz source character
      | AfterDOCTYPESystemKeywordState \<Rightarrow> do_AfterDOCTYPESystemKeywordState tz source character
      | BeforeDOCTYPESystemIdentifierState \<Rightarrow> do_BeforeDOCTYPESystemIdentifierState tz source character
      | DOCTYPESystemIdentifierDoubleQuotedState \<Rightarrow> do_DOCTYPESystemIdentifierDoubleQuotedState tz source character
      | DOCTYPESystemIdentifierSingleQuotedState \<Rightarrow> do_DOCTYPESystemIdentifierSingleQuotedState tz source character
      | AfterDOCTYPESystemIdentifierState \<Rightarrow> do_AfterDOCTYPESystemIdentifierState tz source character
      | BogusDOCTYPEState \<Rightarrow> do_BogusDOCTYPEState tz source character
      | CDATASectionState \<Rightarrow> do_CDATASectionState tz source character
      | CDATASectionRightSquareBracketState \<Rightarrow> do_CDATASectionRightSquareBracketState tz source character
      | CDATASectionDoubleRightSquareBracketState \<Rightarrow> do_CDATASectionDoubleRightSquareBracketState tz source character)"

partial_function (option) run ::
    "HTMLEntityTable \<Rightarrow> State \<Rightarrow> HTMLTokenizer \<Rightarrow> SegmentedString \<Rightarrow> uchar \<Rightarrow>
     (bool \<times> HTMLTokenizer \<times> SegmentedString) option" where
  "run tbl state tz source character =
     (case step tbl state tz source character of
        None \<Rightarrow> None
      | Some (Return emitted tz1 source1) \<Rightarrow> Some (emitted, tz1, source1)
      | Some (Goto state1 tz1 source1 character1) \<Rightarrow> run tbl state1 tz1 source1 character1)"

declare run.simps [code]

definition processToken ::
    "HTMLEntityTable \<Rightarrow> HTMLTokenizer \<Rightarrow> SegmentedString \<Rightarrow>
     (bool \<times> HTMLTokenizer \<times> SegmentedString) option" where
  "processToken tbl tz0 source =
     (let flush = m_bufferedEndTagName tz0 \<noteq> [] \<and> \<not> inEndTagBufferingState tz0;
          tz = (if flush then flushBufferedEndTag tz0 else tz0)
      in if flush \<and> m_state tz = DataState then Some (True, tz, source)
         else
           case peek (m_forceNullCharacterReplacement tz) (isNullCharacterSkippingState (m_state tz))
                  (m_preprocessor tz) source of
             None \<Rightarrow> None
           | Some (found, preprocessor, source1) \<Rightarrow>
               let tz1 = tz\<lparr>m_preprocessor := preprocessor\<rparr> in
               if \<not> found then Some (haveBufferedCharacterToken tz1, tz1, source1)
               else run tbl (m_state tz1) tz1 source1 (m_nextInputCharacter preprocessor))"

text \<open>
  A \<open>TokenPtr\<close> is the emitted token, or nothing. Letting go of it clears the tokenizer's token.
\<close>

definition nextToken ::
    "HTMLEntityTable \<Rightarrow> HTMLTokenizer \<Rightarrow> SegmentedString \<Rightarrow>
     (HTMLToken option \<times> HTMLTokenizer \<times> SegmentedString) option" where
  "nextToken tbl tz source =
     (case processToken tbl tz source of
        None \<Rightarrow> None
      | Some (emitted, tz1, source1) \<Rightarrow>
          Some (if emitted then Some (m_token tz1) else None, tz1, source1))"

definition TokenPtr_clear :: "HTMLToken option \<Rightarrow> HTMLTokenizer \<Rightarrow> HTMLTokenizer" where
  "TokenPtr_clear token tz = (if token \<noteq> None then withToken HTMLToken_clear tz else tz)"

section \<open>What the parser calls between tokens\<close>

definition setTokenAttributeBaseOffset :: "unsigned \<Rightarrow> HTMLTokenizer \<Rightarrow> HTMLTokenizer" where
  "setTokenAttributeBaseOffset offset tz = withToken (setAttributeBaseOffset offset) tz"

definition numberOfBufferedCharacters :: "HTMLTokenizer \<Rightarrow> nat" where
  "numberOfBufferedCharacters tz =
     (if m_temporaryBuffer tz \<noteq> [] then length (m_temporaryBuffer tz) + 2 else 0)"

definition bufferedCharacters :: "HTMLTokenizer \<Rightarrow> uchar list" where
  "bufferedCharacters tz = [chr_lt, chr_slash] @ map ucast (m_temporaryBuffer tz)"

definition updateStateFor :: "uchar list \<Rightarrow> HTMLTokenizer \<Rightarrow> HTMLTokenizer" where
  "updateStateFor tagName tz =
     (if tagName = lit ''textarea'' \<or> tagName = lit ''title'' then tz\<lparr>m_state := RCDATAState\<rparr>
      else if tagName = lit ''plaintext'' then tz\<lparr>m_state := PLAINTEXTState\<rparr>
      else if tagName = lit ''script'' then tz\<lparr>m_state := ScriptDataState\<rparr>
      else if tagName = lit ''style'' \<or> tagName = lit ''iframe'' \<or> tagName = lit ''xmp''
        \<or> (tagName = lit ''noembed'' \<and> pluginsEnabled (m_options tz))
        \<or> tagName = lit ''noframes'' \<or> (tagName = lit ''noscript'' \<and> scriptEnabled (m_options tz))
      then tz\<lparr>m_state := RAWTEXTState\<rparr>
      else tz)"

definition setForceNullCharacterReplacement :: "bool \<Rightarrow> HTMLTokenizer \<Rightarrow> HTMLTokenizer" where
  "setForceNullCharacterReplacement value tz = tz\<lparr>m_forceNullCharacterReplacement := value\<rparr>"

definition setShouldAllowCDATA :: "bool \<Rightarrow> HTMLTokenizer \<Rightarrow> HTMLTokenizer" where
  "setShouldAllowCDATA value tz = tz\<lparr>m_shouldAllowCDATA := value\<rparr>"

definition isInDataState :: "HTMLTokenizer \<Rightarrow> bool" where
  "isInDataState tz \<longleftrightarrow> m_state tz = DataState"

definition setDataState :: "HTMLTokenizer \<Rightarrow> HTMLTokenizer" where
  "setDataState tz = tz\<lparr>m_state := DataState\<rparr>"

definition setPLAINTEXTState :: "HTMLTokenizer \<Rightarrow> HTMLTokenizer" where
  "setPLAINTEXTState tz = tz\<lparr>m_state := PLAINTEXTState\<rparr>"

definition setRAWTEXTState :: "HTMLTokenizer \<Rightarrow> HTMLTokenizer" where
  "setRAWTEXTState tz = tz\<lparr>m_state := RAWTEXTState\<rparr>"

definition setRCDATAState :: "HTMLTokenizer \<Rightarrow> HTMLTokenizer" where
  "setRCDATAState tz = tz\<lparr>m_state := RCDATAState\<rparr>"

definition setScriptDataState :: "HTMLTokenizer \<Rightarrow> HTMLTokenizer" where
  "setScriptDataState tz = tz\<lparr>m_state := ScriptDataState\<rparr>"

lemmas [state_defs] = endTagNameBlock_def do_DataState_def do_CharacterReferenceInDataState_def
  do_RCDATAState_def do_CharacterReferenceInRCDATAState_def do_RAWTEXTState_def do_ScriptDataState_def
  do_PLAINTEXTState_def do_TagOpenState_def do_EndTagOpenState_def do_TagNameState_def
  do_RCDATALessThanSignState_def do_RCDATAEndTagOpenState_def do_RCDATAEndTagNameState_def
  do_RAWTEXTLessThanSignState_def do_RAWTEXTEndTagOpenState_def do_RAWTEXTEndTagNameState_def
  do_ScriptDataLessThanSignState_def do_ScriptDataEndTagOpenState_def do_ScriptDataEndTagNameState_def
  do_ScriptDataEscapeStartState_def do_ScriptDataEscapeStartDashState_def
  do_ScriptDataEscapedState_def do_ScriptDataEscapedDashState_def
  do_ScriptDataEscapedDashDashState_def do_ScriptDataEscapedLessThanSignState_def
  do_ScriptDataEscapedEndTagOpenState_def do_ScriptDataEscapedEndTagNameState_def
  do_ScriptDataDoubleEscapeStartState_def do_ScriptDataDoubleEscapedState_def
  do_ScriptDataDoubleEscapedDashState_def do_ScriptDataDoubleEscapedDashDashState_def
  do_ScriptDataDoubleEscapedLessThanSignState_def do_ScriptDataDoubleEscapeEndState_def
  do_BeforeAttributeNameState_def do_AttributeNameState_def do_AfterAttributeNameState_def
  do_BeforeAttributeValueState_def do_AttributeValueDoubleQuotedState_def
  do_AttributeValueSingleQuotedState_def do_AttributeValueUnquotedState_def
  do_CharacterReferenceInAttributeValueState_def do_AfterAttributeValueQuotedState_def
  do_SelfClosingStartTagState_def do_BogusCommentState_def do_ContinueBogusCommentState_def
  do_MarkupDeclarationOpenState_def do_CommentStartState_def do_CommentStartDashState_def
  do_CommentState_def do_CommentEndDashState_def do_CommentEndState_def do_CommentEndBangState_def
  do_DOCTYPEState_def do_BeforeDOCTYPENameState_def do_DOCTYPENameState_def
  do_AfterDOCTYPENameState_def do_AfterDOCTYPEPublicKeywordState_def
  do_BeforeDOCTYPEPublicIdentifierState_def do_DOCTYPEPublicIdentifierDoubleQuotedState_def
  do_DOCTYPEPublicIdentifierSingleQuotedState_def do_AfterDOCTYPEPublicIdentifierState_def
  do_BetweenDOCTYPEPublicAndSystemIdentifiersState_def do_AfterDOCTYPESystemKeywordState_def
  do_BeforeDOCTYPESystemIdentifierState_def do_DOCTYPESystemIdentifierDoubleQuotedState_def
  do_DOCTYPESystemIdentifierSingleQuotedState_def do_AfterDOCTYPESystemIdentifierState_def
  do_BogusDOCTYPEState_def do_CDATASectionState_def do_CDATASectionRightSquareBracketState_def
  do_CDATASectionDoubleRightSquareBracketState_def

end
