(* ===== verification/Html_Token_Invariant.thy ===== *)
theory Html_Token_Invariant
  imports Html_Token
begin

text \<open>
  What a well-formed token is, per type, and what the operations of \<open>HTMLToken\<close> keep of it.

  \<open>token_ok\<close> is the invariant of a token. \<open>token_fits\<close> is the stronger condition under which the
  tokenizer may call the operations of a kind: the stage of building that a group of tokenizer
  states is in. Every operation is shown to lead from one stage to another, without a failing
  \<open>ASSERT\<close> and without an access through a null pointer.
\<close>

section \<open>The 8-bit check\<close>

text \<open>Or-ing the characters together decides whether all of them are 8-bit.\<close>

lemma le_FF_drop_bit: "(c :: uchar) \<le> 0xFF \<longleftrightarrow> drop_bit 8 c = 0"
proof -
  have "unat (drop_bit 8 c) = unat c div 256" by (simp add: drop_bit_eq_div unat_div_distrib)
  then have "drop_bit 8 c = 0 \<longleftrightarrow> unat c div 256 = 0" by (metis unat_0 word_unat_eq_iff)
  also have "\<dots> \<longleftrightarrow> unat c < 256" by (simp add: div_eq_0_iff)
  finally show ?thesis by (simp add: word_le_nat_alt less_Suc_eq_le [symmetric])
qed

lemma or_le_FF: "(a :: uchar) OR b \<le> 0xFF \<longleftrightarrow> a \<le> 0xFF \<and> b \<le> 0xFF"
proof -
  have "x OR y = 0 \<longleftrightarrow> x = 0 \<and> y = 0" for x y :: uchar by (auto simp: bit_eq_iff bit_or_iff)
  then show ?thesis by (simp add: le_FF_drop_bit)
qed

lemma ucast_le_FF [simp]: "(ucast (c :: lchar) :: uchar) \<le> 0xFF"
proof -
  have "unat c < 256" using unsigned_less [of c] by simp
  then show ?thesis by (simp add: word_le_nat_alt unsigned_ucast_eq take_bit_nat_eq_self)
qed

definition latin1 :: "uchar list \<Rightarrow> bool" where
  "latin1 cs \<longleftrightarrow> list_all (\<lambda>c. c \<le> 0xFF) cs"

lemma latin1_simps [simp]: "latin1 []" "latin1 (xs @ ys) \<longleftrightarrow> latin1 xs \<and> latin1 ys"
  "latin1 [c] \<longleftrightarrow> c \<le> 0xFF" "latin1 (map ucast (ls :: lchar list))"
  by (auto simp: latin1_def list_all_iff)

section \<open>Well-formed tokens\<close>

text \<open>The characters that neither a tag name nor an attribute name has.\<close>

definition name_char :: "uchar \<Rightarrow> bool" where
  "name_char c \<longleftrightarrow> c \<noteq> 0 \<and> \<not> isASCIIUpper c \<and> c \<noteq> chr_space \<and> c \<noteq> chr_lf \<and> c \<noteq> chr_tab
     \<and> c \<noteq> chr_ff \<and> c \<noteq> chr_slash \<and> c \<noteq> chr_gt"

definition attribute_ok :: "Attribute \<Rightarrow> bool" where
  "attribute_ok a \<longleftrightarrow> attr_name a \<noteq> [] \<and> list_all name_char (attr_name a)
     \<and> chr_eq \<notin> set (tl (attr_name a)) \<and> 0 \<notin> set (attr_value a)"

definition tag_ok :: "HTMLToken \<Rightarrow> bool" where
  "tag_ok t \<longleftrightarrow> m_data t \<noteq> [] \<and> list_all name_char (m_data t) \<and> list_all attribute_ok (m_attributes t)"

definition doctype_ok :: "HTMLToken \<Rightarrow> bool" where
  "doctype_ok t \<longleftrightarrow> 0 \<notin> set (m_data t) \<and> list_all (\<lambda>c. \<not> isASCIIUpper c) (m_data t)
     \<and> (case m_doctypeData t of
          None \<Rightarrow> False
        | Some d \<Rightarrow> (m_data t = [] \<longrightarrow> forceQuirks d)
            \<and> 0 \<notin> set (publicIdentifier d) \<and> 0 \<notin> set (systemIdentifier d)
            \<and> (publicIdentifier d \<noteq> [] \<longrightarrow> hasPublicIdentifier d)
            \<and> (systemIdentifier d \<noteq> [] \<longrightarrow> hasSystemIdentifier d))"

definition token_ok :: "HTMLToken \<Rightarrow> bool" where
  "token_ok t \<longleftrightarrow> (m_data8BitCheck t \<le> 0xFF \<longleftrightarrow> latin1 (m_data t)) \<and>
     (case m_type t of
        Uninitialized \<Rightarrow> m_data t = [] \<and> m_data8BitCheck t = 0
      | EndOfFile \<Rightarrow> m_data t = []
      | Character \<Rightarrow> m_data t \<noteq> [] \<and> 0 \<notin> set (m_data t)
      | Comment \<Rightarrow> 0 \<notin> set (m_data t)
      | StartTag \<Rightarrow> tag_ok t
      | EndTag \<Rightarrow> tag_ok t
      | DOCTYPE \<Rightarrow> doctype_ok t)"

section \<open>Stages of building a token\<close>

datatype stage = Fresh | Text | Tag | InAttribute | InComment | Doctype | InPublicId | InSystemId

definition on_last :: "HTMLToken \<Rightarrow> bool" where
  "on_last t \<longleftrightarrow> m_attributes t \<noteq> [] \<and> m_currentAttribute t = Some (length (m_attributes t) - 1)"

fun stage_ok :: "stage \<Rightarrow> HTMLToken \<Rightarrow> bool" where
  "stage_ok Fresh t \<longleftrightarrow> m_type t = Uninitialized"
| "stage_ok Text t \<longleftrightarrow> m_type t = Uninitialized \<or> m_type t = Character"
| "stage_ok Tag t \<longleftrightarrow> isTag t"
| "stage_ok InAttribute t \<longleftrightarrow> isTag t \<and> on_last t"
| "stage_ok InComment t \<longleftrightarrow> m_type t = Comment"
| "stage_ok Doctype t \<longleftrightarrow> m_type t = DOCTYPE"
| "stage_ok InPublicId t \<longleftrightarrow> m_type t = DOCTYPE \<and> doctypeHas hasPublicIdentifier t"
| "stage_ok InSystemId t \<longleftrightarrow> m_type t = DOCTYPE \<and> doctypeHas hasSystemIdentifier t"

definition token_fits :: "stage \<Rightarrow> HTMLToken \<Rightarrow> bool" where
  "token_fits st t \<longleftrightarrow> token_ok t \<and> tok_asserts t \<and> stage_ok st t"

lemma token_fits_weaken:
  "token_fits Fresh t \<Longrightarrow> token_fits Text t"
  "token_fits InAttribute t \<Longrightarrow> token_fits Tag t"
  "token_fits InPublicId t \<Longrightarrow> token_fits Doctype t"
  "token_fits InSystemId t \<Longrightarrow> token_fits Doctype t"
  by (simp_all add: token_fits_def)

lemma token_fits_cases:
  "token_fits st t \<Longrightarrow> token_fits Fresh t \<or> m_type t = Character \<or> m_type t = Comment \<or> m_type t = StartTag
     \<or> m_type t = EndTag \<or> m_type t = DOCTYPE"
  by (cases st) (auto simp: token_fits_def isTag_def)

lemma HTMLToken_new_fits: "token_fits Fresh HTMLToken_new"
  by (simp add: token_fits_def token_ok_def HTMLToken_new_def)

lemma clear_fits: "tok_asserts t \<Longrightarrow> token_fits Fresh (HTMLToken_clear t)"
  by (simp add: token_fits_def token_ok_def HTMLToken_clear_def)

lemma eof_fits: "tok_asserts t \<Longrightarrow> token_ok (makeEndOfFile (HTMLToken_clear t)) \<and> tok_asserts (makeEndOfFile (HTMLToken_clear t))
   \<and> m_type (makeEndOfFile (HTMLToken_clear t)) = EndOfFile"
  by (simp add: token_ok_def token_defs)

lemma setAttributeBaseOffset_fits [simp]:
  "token_fits st (setAttributeBaseOffset n t) = token_fits st t"
  by (cases st) (simp_all add: token_fits_def token_ok_def setAttributeBaseOffset_def isTag_def on_last_def doctypeHas_def
      tag_ok_def doctype_ok_def split: TokenType.splits option.splits)

section \<open>Character and comment tokens\<close>

lemma appendToCharacter_fits:
  "token_fits Text t \<Longrightarrow> c \<noteq> 0 \<Longrightarrow> token_fits Text (appendToCharacter c t)"
  by (auto simp: token_fits_def token_ok_def token_defs or_le_FF)

lemma ucast_lchar_zero [simp]: "(ucast (c :: lchar) :: uchar) = 0 \<longleftrightarrow> c = 0"
  by (metis ucast_0 ucast_8_16)

lemma appendToCharacter_LChar_fits:
  "token_fits Text t \<Longrightarrow> c \<noteq> 0 \<Longrightarrow> token_fits Text (appendToCharacter_LChar c t)"
  by (auto simp: token_fits_def token_ok_def token_defs)

lemma appendToCharacter_vector_fits:
  "token_fits Text t \<Longrightarrow> m_type t = Character \<Longrightarrow> 0 \<notin> set cs \<Longrightarrow> token_fits Text (appendToCharacter_vector cs t)"
  by (auto simp: token_fits_def token_ok_def token_defs)

lemma beginComment_fits: "token_fits Fresh t \<Longrightarrow> token_fits InComment (beginComment t)"
  by (auto simp: token_fits_def token_ok_def token_defs)

lemma appendToComment_fits:
  "token_fits InComment t \<Longrightarrow> c \<noteq> 0 \<Longrightarrow> token_fits InComment (appendToComment c t)"
  by (auto simp: token_fits_def token_ok_def token_defs or_le_FF)

section \<open>DOCTYPE tokens\<close>

lemma beginDOCTYPE_char_fits:
  "token_fits Fresh t \<Longrightarrow> c \<noteq> 0 \<Longrightarrow> \<not> isASCIIUpper c \<Longrightarrow> token_fits Doctype (beginDOCTYPE_char c t)"
  by (auto simp: token_fits_def token_ok_def doctype_ok_def token_defs or_le_FF)

lemma beginDOCTYPE_quirks_fits:
  "token_fits Fresh t \<Longrightarrow> token_fits Doctype (setForceQuirks (beginDOCTYPE t))"
  by (auto simp: token_fits_def token_ok_def doctype_ok_def token_defs)

lemma appendToName_doctype_fits:
  "token_fits Doctype t \<Longrightarrow> c \<noteq> 0 \<Longrightarrow> \<not> isASCIIUpper c \<Longrightarrow> token_fits Doctype (appendToName c t)"
  by (auto simp: token_fits_def token_ok_def doctype_ok_def token_defs or_le_FF split: option.splits)

lemma setForceQuirks_fits: "token_fits Doctype t \<Longrightarrow> token_fits Doctype (setForceQuirks t)"
  by (auto simp: token_fits_def token_ok_def doctype_ok_def token_defs split: option.splits)

lemma setPublicIdentifier_fits:
  "token_fits Doctype t \<Longrightarrow> token_fits InPublicId (setPublicIdentifierToEmptyString t)"
  by (auto simp: token_fits_def token_ok_def doctype_ok_def token_defs split: option.splits)

lemma setSystemIdentifier_fits:
  "token_fits Doctype t \<Longrightarrow> token_fits InSystemId (setSystemIdentifierToEmptyString t)"
  by (auto simp: token_fits_def token_ok_def doctype_ok_def token_defs split: option.splits)

lemma appendToPublicIdentifier_fits:
  "token_fits InPublicId t \<Longrightarrow> c \<noteq> 0 \<Longrightarrow> token_fits InPublicId (appendToPublicIdentifier c t)"
  by (auto simp: token_fits_def token_ok_def doctype_ok_def token_defs split: option.splits)

lemma appendToSystemIdentifier_fits:
  "token_fits InSystemId t \<Longrightarrow> c \<noteq> 0 \<Longrightarrow> token_fits InSystemId (appendToSystemIdentifier c t)"
  by (auto simp: token_fits_def token_ok_def doctype_ok_def token_defs split: option.splits)

section \<open>Tags\<close>

lemma beginStartTag_fits:
  "token_fits Fresh t \<Longrightarrow> name_char c \<Longrightarrow> token_fits Tag (beginStartTag c t)"
  by (auto simp: token_fits_def token_ok_def tag_ok_def token_defs name_char_def)

lemma beginEndTag_fits:
  "token_fits Fresh t \<Longrightarrow> name_char (ucast c) \<Longrightarrow> token_fits Tag (beginEndTag c t)"
  by (auto simp: token_fits_def token_ok_def tag_ok_def token_defs)

lemma beginEndTag_vector_fits:
  "token_fits Fresh t \<Longrightarrow> cs \<noteq> [] \<Longrightarrow> list_all name_char (map ucast cs) \<Longrightarrow> token_fits Tag (beginEndTag_vector cs t)"
  by (auto simp: token_fits_def token_ok_def tag_ok_def token_defs list_all_iff)

lemma appendToName_tag_fits:
  "token_fits Tag t \<Longrightarrow> name_char c \<Longrightarrow> token_fits Tag (appendToName c t)"
  by (auto simp: token_fits_def token_ok_def tag_ok_def token_defs or_le_FF name_char_def)

lemma setSelfClosing_fits: "token_fits Tag t \<Longrightarrow> token_fits Tag (setSelfClosing t)"
  by (auto simp: token_fits_def token_ok_def tag_ok_def token_defs)

section \<open>Attributes\<close>

lemma update_last: "xs \<noteq> [] \<Longrightarrow> xs[length xs - 1 := f (xs ! (length xs - 1))] = butlast xs @ [f (last xs)]"
  by (cases xs rule: rev_cases) (simp_all add: nth_append list_update_append)

text \<open>An operation on the current attribute rewrites the last one.\<close>

lemma updateCurrentAttribute_last:
  "on_last t \<Longrightarrow> updateCurrentAttribute f t =
     t\<lparr>m_attributes := butlast (m_attributes t) @ [f (last (m_attributes t))]\<rparr>"
  using update_last [of "m_attributes t" f] by (simp add: on_last_def updateCurrentAttribute_def tok_assert_def)

lemma on_last_frame [simp]:
  "on_last (tok_assert b t) = on_last t" "on_last (tok_assertOffset n t) = on_last t"
  by (simp_all add: on_last_def tok_assert_def tok_assertOffset_def)

lemma updateCurrentAttribute_fits:
  assumes "token_fits InAttribute t" "attribute_ok (last (m_attributes t)) \<Longrightarrow> attribute_ok (f (last (m_attributes t)))"
  shows "token_fits InAttribute (updateCurrentAttribute f t)"
proof -
  have l: "on_last t" and ok: "token_ok t" "isTag t" "tok_asserts t" using assms(1) by (simp_all add: token_fits_def)
  then have "list_all attribute_ok (m_attributes t)" by (auto simp: token_ok_def tag_ok_def isTag_def)
  then have "list_all attribute_ok (butlast (m_attributes t))" "attribute_ok (last (m_attributes t))"
    using l by (auto simp: on_last_def list_all_iff dest: in_set_butlastD)
  then show ?thesis
    using l ok assms(2) unfolding updateCurrentAttribute_last [OF l]
    by (auto simp: token_fits_def token_ok_def tag_ok_def isTag_def on_last_def)
qed

lemma asserted_fits: "b \<Longrightarrow> tok_assert b t = t"
  by (simp add: tok_assert_def)

lemma offset_fits: "token_fits InAttribute (tok_assertOffset n t) = token_fits InAttribute t"
  by (simp add: token_fits_def token_ok_def tok_assertOffset_def isTag_def on_last_def tag_ok_def split: TokenType.splits)

lemma beginAttribute_fits:
  "token_fits Tag t \<Longrightarrow> name_char c \<Longrightarrow> token_fits InAttribute (appendToAttributeName c (beginAttribute n t))"
  by (auto simp: token_fits_def token_ok_def tag_ok_def token_defs on_last_def attribute_ok_def name_char_def
      Let_def nth_append)

lemma appendToAttributeName_fits:
  assumes "token_fits InAttribute t" "name_char c" "c \<noteq> chr_eq"
  shows "token_fits InAttribute (appendToAttributeName c t)"
proof -
  have "c \<noteq> 0 \<and> isTag t" using assms by (simp add: token_fits_def name_char_def)
  then show ?thesis
    using assms unfolding appendToAttributeName_def
    by (auto simp: asserted_fits attribute_ok_def tl_append split: list.splits intro!: updateCurrentAttribute_fits)
qed

lemma appendToAttributeValue_fits:
  assumes "token_fits InAttribute t" "c \<noteq> 0"
  shows "token_fits InAttribute (appendToAttributeValue c t)"
proof -
  have "c \<noteq> 0 \<and> isTag t" using assms by (simp add: token_fits_def)
  then show ?thesis
    using assms unfolding appendToAttributeValue_def
    by (auto simp: asserted_fits attribute_ok_def intro!: updateCurrentAttribute_fits)
qed

lemma appendToAttributeValue_fold_fits:
  "token_fits InAttribute t \<Longrightarrow> 0 \<notin> set cs \<Longrightarrow> token_fits InAttribute (fold appendToAttributeValue cs t)"
  by (induction cs arbitrary: t) (auto intro: appendToAttributeValue_fits)

lemma endAttribute_fits:
  assumes "token_fits InAttribute t"
  shows "token_fits Tag (endAttribute n t)"
proof -
  let ?f = "\<lambda>a. a\<lparr>endOffset := n - m_attributeBaseOffset (tok_assertOffset n t)\<rparr>"
  have "token_fits InAttribute (updateCurrentAttribute ?f (tok_assertOffset n t))"
    using assms by (intro updateCurrentAttribute_fits) (simp_all add: offset_fits attribute_ok_def)
  then show ?thesis
    unfolding endAttribute_def Let_def
    by (auto simp: token_fits_def token_ok_def tag_ok_def isTag_def)
qed

lemmas token_fits_intros = appendToCharacter_fits appendToCharacter_LChar_fits appendToCharacter_vector_fits
  beginComment_fits appendToComment_fits beginDOCTYPE_char_fits beginDOCTYPE_quirks_fits
  appendToName_doctype_fits setForceQuirks_fits setPublicIdentifier_fits setSystemIdentifier_fits
  appendToPublicIdentifier_fits appendToSystemIdentifier_fits beginStartTag_fits beginEndTag_fits
  beginEndTag_vector_fits appendToName_tag_fits setSelfClosing_fits beginAttribute_fits
  appendToAttributeName_fits appendToAttributeValue_fits appendToAttributeValue_fold_fits endAttribute_fits

end
