(* ===== verification/Html_Tokenizer_Invariant.thy ===== *)
theory Html_Tokenizer_Invariant
  imports Html_Tokenizer_States Html_Token_Invariant
begin

text \<open>
  The invariant of the tokenizer, and that every block of \<open>processToken\<close> keeps it.

  Every state has a stage of building the token (\<open>stage_of\<close>), and a rank that orders the jumps that
  do not consume a character. \<open>tz_fits\<close> is the invariant of the tokenizer in a state, \<open>src_ok\<close> the
  one of the source, \<open>reading\<close> relates the character a block looks at to the source, and \<open>good\<close> is
  what a block has to achieve: it ends, keeps the invariant, and either returns or makes progress.

  Two flags specialise the invariant. With \<open>nocr\<close> the text has no carriage return, and then the
  assertion of \<open>commitToPartialEndTag\<close> holds as well. With \<open>eof\<close> the source is closed and ends with
  the end-of-file marker, and then a block returns without a token only when it is stuck.
\<close>

section \<open>States\<close>

definition stage_of :: "State \<Rightarrow> stage" where
  "stage_of st = (case st of
     TagOpenState \<Rightarrow> Fresh | EndTagOpenState \<Rightarrow> Fresh | MarkupDeclarationOpenState \<Rightarrow> Fresh
   | BogusCommentState \<Rightarrow> Fresh | DOCTYPEState \<Rightarrow> Fresh | BeforeDOCTYPENameState \<Rightarrow> Fresh
   | TagNameState \<Rightarrow> Tag | BeforeAttributeNameState \<Rightarrow> Tag | AfterAttributeValueQuotedState \<Rightarrow> Tag
   | SelfClosingStartTagState \<Rightarrow> Tag
   | AttributeNameState \<Rightarrow> InAttribute | AfterAttributeNameState \<Rightarrow> InAttribute
   | BeforeAttributeValueState \<Rightarrow> InAttribute | AttributeValueDoubleQuotedState \<Rightarrow> InAttribute
   | AttributeValueSingleQuotedState \<Rightarrow> InAttribute | AttributeValueUnquotedState \<Rightarrow> InAttribute
   | CharacterReferenceInAttributeValueState \<Rightarrow> InAttribute
   | ContinueBogusCommentState \<Rightarrow> InComment | CommentStartState \<Rightarrow> InComment
   | CommentStartDashState \<Rightarrow> InComment | CommentState \<Rightarrow> InComment | CommentEndDashState \<Rightarrow> InComment
   | CommentEndState \<Rightarrow> InComment | CommentEndBangState \<Rightarrow> InComment
   | DOCTYPENameState \<Rightarrow> Doctype | AfterDOCTYPENameState \<Rightarrow> Doctype
   | AfterDOCTYPEPublicKeywordState \<Rightarrow> Doctype | BeforeDOCTYPEPublicIdentifierState \<Rightarrow> Doctype
   | DOCTYPEPublicIdentifierDoubleQuotedState \<Rightarrow> InPublicId
   | DOCTYPEPublicIdentifierSingleQuotedState \<Rightarrow> InPublicId
   | AfterDOCTYPEPublicIdentifierState \<Rightarrow> Doctype
   | BetweenDOCTYPEPublicAndSystemIdentifiersState \<Rightarrow> Doctype
   | AfterDOCTYPESystemKeywordState \<Rightarrow> Doctype | BeforeDOCTYPESystemIdentifierState \<Rightarrow> Doctype
   | DOCTYPESystemIdentifierDoubleQuotedState \<Rightarrow> InSystemId
   | DOCTYPESystemIdentifierSingleQuotedState \<Rightarrow> InSystemId
   | AfterDOCTYPESystemIdentifierState \<Rightarrow> Doctype | BogusDOCTYPEState \<Rightarrow> Doctype
   | _ \<Rightarrow> Text)"

definition rank :: "State \<Rightarrow> nat" where
  "rank st = (case st of
     DataState \<Rightarrow> 0
   | TagOpenState \<Rightarrow> 3 | EndTagOpenState \<Rightarrow> 3 | MarkupDeclarationOpenState \<Rightarrow> 3
   | CharacterReferenceInDataState \<Rightarrow> 2 | CharacterReferenceInRCDATAState \<Rightarrow> 2
   | CharacterReferenceInAttributeValueState \<Rightarrow> 2
   | RCDATALessThanSignState \<Rightarrow> 2 | RCDATAEndTagOpenState \<Rightarrow> 2 | RCDATAEndTagNameState \<Rightarrow> 2
   | RAWTEXTLessThanSignState \<Rightarrow> 2 | RAWTEXTEndTagOpenState \<Rightarrow> 2 | RAWTEXTEndTagNameState \<Rightarrow> 2
   | ScriptDataLessThanSignState \<Rightarrow> 2 | ScriptDataEndTagOpenState \<Rightarrow> 2 | ScriptDataEndTagNameState \<Rightarrow> 2
   | ScriptDataEscapeStartState \<Rightarrow> 2 | ScriptDataEscapeStartDashState \<Rightarrow> 2
   | ScriptDataEscapedLessThanSignState \<Rightarrow> 2 | ScriptDataEscapedEndTagOpenState \<Rightarrow> 2
   | ScriptDataEscapedEndTagNameState \<Rightarrow> 2 | ScriptDataDoubleEscapeStartState \<Rightarrow> 2
   | ScriptDataDoubleEscapedLessThanSignState \<Rightarrow> 2 | ScriptDataDoubleEscapeEndState \<Rightarrow> 2
   | BeforeAttributeValueState \<Rightarrow> 2 | AfterAttributeValueQuotedState \<Rightarrow> 2 | SelfClosingStartTagState \<Rightarrow> 2
   | BogusCommentState \<Rightarrow> 2 | DOCTYPEState \<Rightarrow> 2
   | CDATASectionRightSquareBracketState \<Rightarrow> 2 | CDATASectionDoubleRightSquareBracketState \<Rightarrow> 2
   | _ \<Rightarrow> 1)"

text \<open>The states that read the name of a possible end tag inside text, and those just before.\<close>

definition name_state :: "State \<Rightarrow> bool" where
  "name_state st = (case st of
     RCDATAEndTagNameState \<Rightarrow> True | RAWTEXTEndTagNameState \<Rightarrow> True
   | ScriptDataEndTagNameState \<Rightarrow> True | ScriptDataEscapedEndTagNameState \<Rightarrow> True | _ \<Rightarrow> False)"

definition open_state :: "State \<Rightarrow> bool" where
  "open_state st = (case st of
     RCDATAEndTagOpenState \<Rightarrow> True | RAWTEXTEndTagOpenState \<Rightarrow> True
   | ScriptDataEndTagOpenState \<Rightarrow> True | ScriptDataEscapedEndTagOpenState \<Rightarrow> True | _ \<Rightarrow> False)"

lemma inEndTagBufferingState_iff: "inEndTagBufferingState tz \<longleftrightarrow> name_state (m_state tz) \<or> open_state (m_state tz)"
  by (cases "m_state tz") (simp_all add: inEndTagBufferingState_def name_state_def open_state_def)

text \<open>The states a block gives up in when the source ends before a keyword can be decided.\<close>

definition lookahead_state :: "State \<Rightarrow> bool" where
  "lookahead_state st \<longleftrightarrow> st = MarkupDeclarationOpenState \<or> st = AfterDOCTYPENameState"

section \<open>The invariant\<close>

definition lower :: "lchar \<Rightarrow> lchar" where
  "lower c = convertASCIIAlphaToLower (ucast c)"

definition alphabetic :: "lchar list \<Rightarrow> bool" where
  "alphabetic cs \<longleftrightarrow> list_all (\<lambda>c. isASCIIAlpha (ucast c)) cs"

definition buffer_fits :: "State \<Rightarrow> HTMLTokenizer \<Rightarrow> bool" where
  "buffer_fits st tz \<longleftrightarrow>
     (if name_state st then m_temporaryBuffer tz \<noteq> [] \<and> alphabetic (m_temporaryBuffer tz)
        \<and> m_bufferedEndTagName tz = map lower (m_temporaryBuffer tz)
      else m_bufferedEndTagName tz = [] \<and> (open_state st \<longrightarrow> m_temporaryBuffer tz = []))"

definition tz_base :: "bool \<Rightarrow> HTMLTokenizer \<Rightarrow> bool" where
  "tz_base nocr tz \<longleftrightarrow> tz_asserts tz \<and> (nocr \<longrightarrow> tz_rawAsserts tz)"

definition reference_fits :: "State \<Rightarrow> HTMLTokenizer \<Rightarrow> bool" where
  "reference_fits st tz \<longleftrightarrow> (st = CharacterReferenceInAttributeValueState \<longrightarrow>
     m_additionalAllowedCharacter tz \<in> {chr_quot, chr_apos, chr_gt})"

definition tz_fits :: "bool \<Rightarrow> State \<Rightarrow> HTMLTokenizer \<Rightarrow> bool" where
  "tz_fits nocr st tz \<longleftrightarrow> tz_base nocr tz \<and> token_fits (stage_of st) (m_token tz)
     \<and> buffer_fits st tz \<and> reference_fits st tz"

text \<open>A token in any stage is consistent and has failed no \<open>ASSERT\<close>.\<close>

definition token_safe :: "HTMLToken \<Rightarrow> bool" where
  "token_safe t \<longleftrightarrow> token_ok t \<and> tok_asserts t"

lemma token_fits_safe: "token_fits g t \<Longrightarrow> token_safe t"
  by (simp add: token_fits_def token_safe_def)

text \<open>
  At the end of the file any unfinished token may reach the data state, which drops it.
\<close>

definition tz_ends :: "bool \<Rightarrow> State \<Rightarrow> uchar \<Rightarrow> HTMLTokenizer \<Rightarrow> bool" where
  "tz_ends nocr st character tz \<longleftrightarrow> st = DataState \<and> character = 0 \<and> tz_base nocr tz
     \<and> token_safe (m_token tz) \<and> m_bufferedEndTagName tz = []"

text \<open>The tokenizer between two calls of \<open>processToken\<close>: an end tag may be pending.\<close>

definition pending :: "HTMLTokenizer \<Rightarrow> bool" where
  "pending tz \<longleftrightarrow> m_bufferedEndTagName tz \<noteq> [] \<and> \<not> inEndTagBufferingState tz"

definition resting :: "bool \<Rightarrow> HTMLTokenizer \<Rightarrow> bool" where
  "resting nocr tz \<longleftrightarrow>
     (if pending tz then tz_base nocr tz \<and> token_fits Fresh (m_token tz)
        \<and> m_state tz \<in> {DataState, BeforeAttributeNameState, SelfClosingStartTagState}
        \<and> list_all name_char (map ucast (m_bufferedEndTagName tz))
      else tz_fits nocr (m_state tz) tz)"

definition src_ok :: "bool \<Rightarrow> bool \<Rightarrow> SegmentedString \<Rightarrow> bool" where
  "src_ok nocr eof s \<longleftrightarrow> ss_inv s \<and> ss_asserts s \<and> (nocr \<longrightarrow> chr_cr \<notin> set (ss_chars s))
     \<and> (eof \<longrightarrow> m_isClosed s \<and> ss_chars s \<noteq> [] \<and> last (ss_chars s) = 0)"

definition shown :: "bool \<Rightarrow> uchar \<Rightarrow> uchar list \<Rightarrow> bool" where
  "shown closed c cs \<longleftrightarrow> cs \<noteq> [] \<and>
     c = (if hd cs = chr_cr then chr_lf
          else if hd cs = 0 \<and> \<not> (closed \<and> tl cs = []) then replacementCharacter else hd cs)"

definition reading :: "bool \<Rightarrow> bool \<Rightarrow> SegmentedString \<Rightarrow> uchar \<Rightarrow> bool" where
  "reading nocr eof s c \<longleftrightarrow> src_ok nocr eof s \<and> shown (m_isClosed s) c (ss_chars s)"

text \<open>What is left of the text never grows, and a jump that keeps it goes down in rank.\<close>

definition progress :: "State \<Rightarrow> SegmentedString \<Rightarrow> State \<Rightarrow> SegmentedString \<Rightarrow> bool" where
  "progress st s st' s' \<longleftrightarrow>
     length (ss_chars s') < length (ss_chars s) \<or> (length (ss_chars s') = length (ss_chars s) \<and> rank st' < rank st)"

definition returned :: "bool \<Rightarrow> bool \<Rightarrow> SegmentedString \<Rightarrow> bool \<Rightarrow> HTMLTokenizer \<Rightarrow> SegmentedString \<Rightarrow> bool" where
  "returned nocr eof s b tz' s' \<longleftrightarrow>
     m_isClosed s' = m_isClosed s \<and> length (ss_chars s') \<le> length (ss_chars s)
     \<and> src_ok nocr (eof \<and> m_type (m_token tz') \<noteq> EndOfFile) s'
     \<and> token_ok (m_token tz') \<and> tok_asserts (m_token tz')
     \<and> (b \<longrightarrow> m_type (m_token tz') \<noteq> Uninitialized \<and> resting nocr (withToken HTMLToken_clear tz'))
     \<and> (b \<and> m_type (m_token tz') \<noteq> Character \<longrightarrow> m_state tz' = DataState \<and> m_bufferedEndTagName tz' = [])
     \<and> (\<not> b \<longrightarrow> resting nocr tz' \<and> m_type (m_token tz') \<noteq> Character \<and> m_type (m_token tz') \<noteq> EndOfFile)
     \<and> (m_type (m_token tz') = EndOfFile \<longrightarrow> ss_chars s' = [])
     \<and> (eof \<longrightarrow> (if b then length (ss_chars s') < length (ss_chars s)
                     \<or> (m_state tz' = DataState \<and> m_bufferedEndTagName tz' = [])
                  else lookahead_state (m_state tz')))"

fun outcome_ok :: "bool \<Rightarrow> bool \<Rightarrow> State \<Rightarrow> SegmentedString \<Rightarrow> outcome \<Rightarrow> bool" where
  "outcome_ok nocr eof st s (Goto st' tz' s' c') \<longleftrightarrow>
     m_isClosed s' = m_isClosed s \<and> reading nocr eof s' c'
     \<and> (tz_fits nocr st' tz' \<or> tz_ends nocr st' c' tz') \<and> progress st s st' s'"
| "outcome_ok nocr eof st s (Return b tz' s') \<longleftrightarrow> returned nocr eof s b tz' s'"

definition good :: "bool \<Rightarrow> bool \<Rightarrow> State \<Rightarrow> SegmentedString \<Rightarrow> outcome option \<Rightarrow> bool" where
  "good nocr eof st s x \<longleftrightarrow> (\<exists>o'. x = Some o' \<and> outcome_ok nocr eof st s o')"

section \<open>The source\<close>

lemma peek_spec_shown:
  "peek_spec closed sk nl cs = (r, nl', cs') \<Longrightarrow>
     (case r of None \<Rightarrow> cs' = [] | Some c \<Rightarrow> shown closed c cs') \<and> suffix cs' cs"
  by (induction closed sk nl cs arbitrary: r nl' cs' rule: peek_spec.induct)
    (auto simp: shown_def suffix_Cons split: if_splits)


lemma peek_spec_eof:
  "cs \<noteq> [] \<Longrightarrow> last cs = 0 \<Longrightarrow> \<exists>c nl' cs'. peek_spec True sk nl cs = (Some c, nl', cs')"
  by (induction True sk nl cs rule: peek_spec.induct) (auto split: if_splits)

lemma suffix_last: "suffix xs ys \<Longrightarrow> xs \<noteq> [] \<Longrightarrow> last xs = last ys"
  by (auto simp: suffix_def)

lemma suffix_set: "suffix xs ys \<Longrightarrow> x \<notin> set ys \<Longrightarrow> x \<notin> set xs"
  by (auto simp: suffix_def)

text \<open>One look at the source: a character with the source in front of it, or the end of the source.\<close>

lemma peek_reading:
  assumes "src_ok nocr eof s"
  obtains b p' s' where "peek neverSkip sk p s = Some (b, p', s')" "m_isClosed s' = m_isClosed s"
    "suffix (ss_chars s') (ss_chars s)"
    "if b then reading nocr eof s' (m_nextInputCharacter p') else src_ok nocr eof s' \<and> ss_chars s' = [] \<and> \<not> eof"
proof -
  have s: "ss_inv s" "ss_asserts s" using assms by (simp_all add: src_ok_def)
  from peek_view [OF s(1)] obtain r where r: "peek neverSkip sk p s = Some r" "peeked (sk \<and> \<not> neverSkip) p s r"
    by blast
  obtain b p' s' where rr: "r = (b, p', s')" by (cases r)
  obtain x nl cs' where spec: "peek_spec (m_isClosed s) (sk \<and> \<not> neverSkip) (m_skipNextNewLine p) (ss_chars s) = (x, nl, cs')"
    by (metis prod_cases3)
  note sh = peek_spec_shown [OF spec]
  have v: "ss_inv s'" "m_isClosed s' = m_isClosed s" "ss_asserts s'" "ss_chars s' = cs'" "b \<longleftrightarrow> x \<noteq> None"
    "b \<longrightarrow> x = Some (m_nextInputCharacter p')"
    using r(2) s spec rr by (auto simp: peeked_def split: option.splits)
  have eb: "eof \<Longrightarrow> b"
    using peek_spec_eof [of "ss_chars s" "sk \<and> \<not> neverSkip" "m_skipNextNewLine p"] assms spec v(5) by (auto simp: src_ok_def)
  have "cs' \<noteq> []" if b using that v sh by (auto simp: shown_def)
  then have "src_ok nocr eof s'"
    using assms v sh eb suffix_last [of cs' "ss_chars s"] suffix_set [of cs' "ss_chars s" chr_cr]
    by (auto simp: src_ok_def)
  moreover have "if b then shown (m_isClosed s) (m_nextInputCharacter p') cs' else cs' = []"
    using v sh by (cases x) auto
  ultimately have "if b then reading nocr eof s' (m_nextInputCharacter p') else src_ok nocr eof s' \<and> ss_chars s' = [] \<and> \<not> eof"
    using v eb by (auto simp: reading_def)
  then show ?thesis using that r(1) rr v sh by blast
qed

text \<open>Stepping over the character that is shown.\<close>

lemma reading_step:
  assumes "reading nocr eof s c" "c \<noteq> 0" "advanced s s'"
  shows "src_ok nocr eof s'" "m_isClosed s' = m_isClosed s" "length (ss_chars s') < length (ss_chars s)"
proof -
  obtain r rs where rs: "ss_chars s = r # rs" using assms(1) by (cases "ss_chars s") (auto simp: reading_def shown_def)
  have v: "ss_inv s'" "ss_chars s' = rs" "m_isClosed s' = m_isClosed s" "ss_asserts s' = ss_asserts s"
    using advanced_view [OF assms(3) rs] .
  have "eof \<Longrightarrow> rs \<noteq> []" using assms(1,2) rs by (auto simp: reading_def shown_def src_ok_def split: if_splits)
  then show "src_ok nocr eof s'" using v assms(1) rs by (auto simp: reading_def src_ok_def)
  show "m_isClosed s' = m_isClosed s" "length (ss_chars s') < length (ss_chars s)" using v rs by simp_all
qed

lemma reading_newline:
  assumes "reading nocr eof s c" "c \<noteq> chr_lf"
  shows "m_currentCharacter s \<noteq> chr_lf"
proof -
  have "ss_inv s" "shown (m_isClosed s) c (ss_chars s)" using assms(1) by (simp_all add: reading_def src_ok_def)
  then show ?thesis using assms(2) by (cases "ss_chars s") (auto simp: shown_def currentCharacter_view)
qed

lemma reading_src: "reading nocr eof s c \<Longrightarrow> src_ok nocr eof s"
  by (simp add: reading_def)

lemma reading_inv: "reading nocr eof s c \<Longrightarrow> ss_inv s"
  by (simp add: reading_def src_ok_def)

lemma reading_nonempty: "reading nocr eof s c \<Longrightarrow> ss_chars s \<noteq> []"
  by (simp add: reading_def shown_def)

section \<open>Frame rules\<close>

lemma tz_base_simps [simp]:
  "tz_base nocr (tz_assert b tz) \<longleftrightarrow> tz_base nocr tz \<and> b"
  "tz_base nocr (tz_assertRaw b tz) \<longleftrightarrow> tz_base nocr tz \<and> (nocr \<longrightarrow> b)"
  "tz_base nocr (withToken f tz) = tz_base nocr tz"
  "tz_base nocr (tz\<lparr>m_state := st\<rparr>) = tz_base nocr tz"
  "tz_base nocr (tz\<lparr>m_preprocessor := p\<rparr>) = tz_base nocr tz"
  "tz_base nocr (tz\<lparr>m_temporaryBuffer := xs\<rparr>) = tz_base nocr tz"
  "tz_base nocr (tz\<lparr>m_bufferedEndTagName := xs\<rparr>) = tz_base nocr tz"
  "tz_base nocr (tz\<lparr>m_appropriateEndTagName := ys\<rparr>) = tz_base nocr tz"
  "tz_base nocr (tz\<lparr>m_additionalAllowedCharacter := c\<rparr>) = tz_base nocr tz"
  by (auto simp: tz_base_def tz_assert_def tz_assertRaw_def withToken_def)

lemma tz_assert_fields [simp]:
  "m_token (tz_assert b tz) = m_token tz" "m_temporaryBuffer (tz_assert b tz) = m_temporaryBuffer tz"
  "m_bufferedEndTagName (tz_assert b tz) = m_bufferedEndTagName tz" "m_state (tz_assert b tz) = m_state tz"
  "m_additionalAllowedCharacter (tz_assert b tz) = m_additionalAllowedCharacter tz"
  "m_appropriateEndTagName (tz_assert b tz) = m_appropriateEndTagName tz"
  "m_token (tz_assertRaw b tz) = m_token tz" "m_temporaryBuffer (tz_assertRaw b tz) = m_temporaryBuffer tz"
  "m_bufferedEndTagName (tz_assertRaw b tz) = m_bufferedEndTagName tz" "m_state (tz_assertRaw b tz) = m_state tz"
  "m_additionalAllowedCharacter (tz_assertRaw b tz) = m_additionalAllowedCharacter tz"
  "m_appropriateEndTagName (tz_assertRaw b tz) = m_appropriateEndTagName tz"
  by (simp_all add: tz_assert_def tz_assertRaw_def)

lemma withToken_fields [simp]:
  "m_token (withToken f tz) = f (m_token tz)" "m_temporaryBuffer (withToken f tz) = m_temporaryBuffer tz"
  "m_bufferedEndTagName (withToken f tz) = m_bufferedEndTagName tz" "m_state (withToken f tz) = m_state tz"
  "m_additionalAllowedCharacter (withToken f tz) = m_additionalAllowedCharacter tz"
  "m_appropriateEndTagName (withToken f tz) = m_appropriateEndTagName tz"
  by (simp_all add: withToken_def)

lemma buffer_frame [simp]:
  "buffer_fits st (withToken f tz) = buffer_fits st tz"
  "buffer_fits st (tz_assert b tz) = buffer_fits st tz"
  "buffer_fits st (tz\<lparr>m_state := st1\<rparr>) = buffer_fits st tz"
  "buffer_fits st (tz\<lparr>m_preprocessor := p\<rparr>) = buffer_fits st tz"
  "reference_fits st (withToken f tz) = reference_fits st tz"
  "reference_fits st (tz_assert b tz) = reference_fits st tz"
  "reference_fits st (tz\<lparr>m_state := st1\<rparr>) = reference_fits st tz"
  "reference_fits st (tz\<lparr>m_preprocessor := p\<rparr>) = reference_fits st tz"
  by (simp_all add: buffer_fits_def reference_fits_def)

lemma tz_fits_frame [simp]:
  "tz_fits nocr st (tz\<lparr>m_state := st1\<rparr>) = tz_fits nocr st tz"
  "tz_fits nocr st (tz\<lparr>m_preprocessor := p\<rparr>) = tz_fits nocr st tz"
  by (simp_all add: tz_fits_def)

lemma haveBuffered_frame [simp]:
  "haveBufferedCharacterToken (tz\<lparr>m_state := st\<rparr>) = haveBufferedCharacterToken tz"
  "haveBufferedCharacterToken (tz\<lparr>m_preprocessor := p\<rparr>) = haveBufferedCharacterToken tz"
  by (simp_all add: haveBufferedCharacterToken_def)

lemma withToken_state [simp]: "withToken f (tz\<lparr>m_state := st\<rparr>) = (withToken f tz)\<lparr>m_state := st\<rparr>"
  by (simp add: withToken_def)

section \<open>Resting\<close>

lemma resting_state: "tz_fits nocr st tz \<Longrightarrow> resting nocr (tz\<lparr>m_state := st\<rparr>)"
  by (auto simp: resting_def pending_def inEndTagBufferingState_iff tz_fits_def buffer_fits_def split: if_splits)

lemma fits_clear:
  assumes "tz_fits nocr st tz" "m_type (m_token tz) = Character"
  shows "tz_fits nocr st (withToken HTMLToken_clear tz)"
proof -
  have "token_fits (stage_of st) (m_token tz)" using assms(1) by (simp add: tz_fits_def)
  then have "stage_of st = Text" "tok_asserts (m_token tz)"
    using assms(2) by (cases "stage_of st"; simp add: token_fits_def isTag_def)+
  then show ?thesis using assms clear_fits [of "m_token tz"] by (auto simp: tz_fits_def intro: token_fits_weaken)
qed

lemma fits_not_eof: "tz_fits nocr st tz \<Longrightarrow> m_type (m_token tz) \<noteq> EndOfFile"
  by (cases "stage_of st") (auto simp: tz_fits_def token_fits_def isTag_def)

text \<open>Returning in a state the tokenizer fits, with the buffered characters if there are any.\<close>

lemma returned_in_state:
  assumes "tz_fits nocr st tz" "src_ok nocr eof s'" "m_isClosed s' = m_isClosed s"
    "length (ss_chars s') \<le> length (ss_chars s)"
    "eof \<longrightarrow> (if haveBufferedCharacterToken tz then st = DataState else lookahead_state st)"
  shows "returned nocr eof s (haveBufferedCharacterToken tz) (tz\<lparr>m_state := st\<rparr>) s'"
proof -
  have ok: "token_ok (m_token tz)" "tok_asserts (m_token tz)" using assms(1) by (simp_all add: tz_fits_def token_fits_def)
  have "m_type (m_token tz) = Character \<Longrightarrow> resting nocr (withToken HTMLToken_clear (tz\<lparr>m_state := st\<rparr>))"
    using resting_state [OF fits_clear [OF assms(1)]] by simp
  then show ?thesis
    using assms resting_state [OF assms(1)] fits_not_eof [OF assms(1)] ok
    by (auto simp: returned_def haveBufferedCharacterToken_def tz_fits_def buffer_fits_def name_state_def)
qed

section \<open>The macros\<close>

lemma good_afterPeek:
  assumes "src_ok nocr eof s0" "tz_fits nocr st' tz" "m_isClosed s0 = m_isClosed s" "progress st s st' s0"
  shows "good nocr eof st s (afterPeek st' tz (peek ns sk p s0))"
proof -
  from peek_reading [OF assms(1)] obtain b p' s' where
    pk: "peek ns sk p s0 = Some (b, p', s')" "m_isClosed s' = m_isClosed s0" "suffix (ss_chars s') (ss_chars s0)"
    "if b then reading nocr eof s' (m_nextInputCharacter p') else src_ok nocr eof s' \<and> ss_chars s' = [] \<and> \<not> eof"
    by blast
  have len: "length (ss_chars s') \<le> length (ss_chars s0)" "length (ss_chars s0) \<le> length (ss_chars s)"
    using pk(3) suffix_length_le assms(4) by (auto simp: progress_def)
  show ?thesis
  proof (cases b)
    case True
    then show ?thesis using pk assms len by (auto simp: good_def afterPeek_def Let_def progress_def)
  next
    case False
    have "returned nocr eof s (haveBufferedCharacterToken (tz\<lparr>m_preprocessor := p'\<rparr>)) (tz\<lparr>m_preprocessor := p', m_state := st'\<rparr>) s'"
      using returned_in_state [of nocr st' "tz\<lparr>m_preprocessor := p'\<rparr>" eof s' s] pk False assms len by (auto)
    then show ?thesis using pk False by (simp add: good_def afterPeek_def Let_def)
  qed
qed

lemma good_SWITCH:
  "src_ok nocr eof s0 \<Longrightarrow> m_isClosed s0 = m_isClosed s \<Longrightarrow> progress st s st' s0 \<Longrightarrow> tz_fits nocr st' tz
     \<Longrightarrow> good nocr eof st s (SWITCH_TO st' tz s0)"
  unfolding SWITCH_TO_def by (rule good_afterPeek)

lemma good_ADVANCE:
  "reading nocr eof s c \<Longrightarrow> c \<noteq> 0 \<Longrightarrow> tz_fits nocr st' tz \<Longrightarrow> good nocr eof st s (ADVANCE_TO st' tz s)"
  unfolding ADVANCE_TO_def preprocessor_advance_def
  using reading_step [OF _ _ SegmentedString_advance_advanced [OF reading_inv]]
  by (intro good_afterPeek) (auto simp: progress_def)

lemma good_ADVANCE_NN:
  "reading nocr eof s c \<Longrightarrow> c \<noteq> 0 \<Longrightarrow> c \<noteq> chr_lf \<Longrightarrow> tz_fits nocr st' tz
     \<Longrightarrow> good nocr eof st s (ADVANCE_PAST_NON_NEWLINE_TO st' tz s)"
  unfolding ADVANCE_PAST_NON_NEWLINE_TO_def preprocessor_advancePastNonNewline_def
  using reading_step [OF _ _ advancePastNonNewline_advanced [OF reading_inv reading_newline]]
  by (intro good_afterPeek) (auto simp: progress_def)

lemma good_RECONSUME:
  "reading nocr eof s c \<Longrightarrow> rank st' < rank st \<Longrightarrow>
     (if st' = DataState \<and> c = 0 then tz_ends nocr DataState 0 tz else tz_fits nocr st' tz)
     \<Longrightarrow> good nocr eof st s (RECONSUME_IN st' tz s c)"
  by (auto simp: good_def RECONSUME_IN_def progress_def split: if_splits)

lemma good_RETURN:
  "tz_fits nocr st tz \<Longrightarrow> src_ok nocr eof s' \<Longrightarrow> m_isClosed s' = m_isClosed s
     \<Longrightarrow> length (ss_chars s') \<le> length (ss_chars s)
     \<Longrightarrow> eof \<longrightarrow> (if haveBufferedCharacterToken tz then st = DataState else lookahead_state st)
     \<Longrightarrow> good nocr eof st s (RETURN_IN_CURRENT_STATE st (haveBufferedCharacterToken tz) tz s')"
  unfolding good_def RETURN_IN_CURRENT_STATE_def using returned_in_state by fastforce

text \<open>Emitting a finished token. \<open>g\<close> is its stage.\<close>

lemma saveEndTagName_fields [simp]:
  "m_token (saveEndTagNameIfNeeded tz) = m_token tz"
  "m_bufferedEndTagName (saveEndTagNameIfNeeded tz) = m_bufferedEndTagName tz"
  "tz_base nocr (saveEndTagNameIfNeeded tz) \<longleftrightarrow> tz_base nocr tz \<and> m_type (m_token tz) \<noteq> Uninitialized"
  by (auto simp: saveEndTagNameIfNeeded_def Let_def)

lemma data_rests:
  assumes "tz_base nocr tz" "m_bufferedEndTagName tz = []" "tok_asserts (m_token tz)"
  shows "resting nocr (withToken HTMLToken_clear (tz\<lparr>m_state := DataState\<rparr>))"
proof -
  have "tz_fits nocr DataState (withToken HTMLToken_clear tz)"
    using assms clear_fits [OF assms(3)]
    by (auto simp: tz_fits_def stage_of_def buffer_fits_def name_state_def open_state_def reference_fits_def
        intro: token_fits_weaken)
  from resting_state [OF this] show ?thesis by simp
qed

lemma returned_emit:
  assumes "src_ok nocr eof s'" "m_isClosed s' = m_isClosed s" "length (ss_chars s') \<le> length (ss_chars s)"
    "tz_base nocr tz" "m_bufferedEndTagName tz = []" "token_fits g (m_token tz)" "g \<noteq> Fresh" "g \<noteq> Text"
  shows "returned nocr eof s True ((saveEndTagNameIfNeeded tz)\<lparr>m_state := DataState\<rparr>) s'"
proof -
  have ok: "token_ok (m_token tz)" "tok_asserts (m_token tz)" using assms(6) by (simp_all add: token_fits_def)
  have ty: "m_type (m_token tz) \<noteq> Uninitialized \<and> m_type (m_token tz) \<noteq> EndOfFile"
    using assms(6-8) by (cases g) (auto simp: token_fits_def isTag_def)
  have "resting nocr (withToken HTMLToken_clear ((saveEndTagNameIfNeeded tz)\<lparr>m_state := DataState\<rparr>))"
    using data_rests [of nocr "saveEndTagNameIfNeeded tz"] assms ok ty by simp
  then show ?thesis using assms ok ty by (auto simp: returned_def)
qed

lemma good_emitResume:
  assumes "reading nocr eof s c" "c \<noteq> 0" "c \<noteq> chr_lf"
    "tz_base nocr tz" "m_bufferedEndTagName tz = []" "token_fits g (m_token tz)" "g \<noteq> Fresh" "g \<noteq> Text"
  shows "good nocr eof st s (emitAndResumeInDataState tz s)"
  unfolding good_def emitAndResumeInDataState_def
  using reading_step [OF assms(1,2) advancePastNonNewline_advanced [OF reading_inv [OF assms(1)] reading_newline [OF assms(1,3)]]]
    returned_emit [of nocr eof _ s tz g] assms by simp

lemma good_emitReconsume:
  assumes "reading nocr eof s c"
    "tz_base nocr tz" "m_bufferedEndTagName tz = []" "token_fits g (m_token tz)" "g \<noteq> Fresh" "g \<noteq> Text"
  shows "good nocr eof st s (emitAndReconsumeInDataState tz s)"
  unfolding good_def emitAndReconsumeInDataState_def
  using returned_emit [of nocr eof s s tz g] assms by (simp add: reading_def)

lemma good_emitEndOfFile:
  assumes "reading nocr eof s 0" "tz_fits nocr DataState tz \<or> tz_ends nocr DataState 0 tz"
  shows "good nocr eof st s (emitEndOfFile tz s)"
proof -
  have b: "tz_base nocr tz" "m_bufferedEndTagName tz = []" "tok_asserts (m_token tz)" "token_ok (m_token tz)"
    using assms(2) by (auto simp: tz_fits_def tz_ends_def token_safe_def buffer_fits_def name_state_def token_fits_def)
  note rests = data_rests [OF b(1-3)]
  show ?thesis
  proof (cases "haveBufferedCharacterToken tz")
    case True
    then have "returned nocr eof s True (tz\<lparr>m_state := DataState\<rparr>) s"
      using assms(1) b rests by (auto simp: returned_def reading_def haveBufferedCharacterToken_def)
    then show ?thesis using True by (simp add: good_def emitEndOfFile_def)
  next
    case False
    let ?tz = "withToken (\<lambda>t. makeEndOfFile (HTMLToken_clear t)) (tz\<lparr>m_state := DataState\<rparr>)"
    let ?s = "SegmentedString_advance s"
    have v: "ss_inv ?s" "ss_chars ?s = tl (ss_chars s)" "m_isClosed ?s = m_isClosed s" "ss_asserts ?s = ss_asserts s"
      using SegmentedString_advance_advanced [OF reading_inv [OF assms(1)]] by (simp_all add: advanced_def)
    have "tl (ss_chars s) = []" using assms(1) by (auto simp: reading_def shown_def split: if_splits)
    moreover have "src_ok nocr False ?s"
      using v assms(1) by (cases "ss_chars s") (auto simp: src_ok_def reading_def)
    moreover have "resting nocr (withToken HTMLToken_clear ?tz)"
      using data_rests [of nocr "withToken (\<lambda>t. makeEndOfFile (HTMLToken_clear t)) tz"] b eof_fits [OF b(3)] by simp
    ultimately have "returned nocr eof s True ?tz ?s"
      using eof_fits [OF b(3)] v b(2) by (auto simp: returned_def)
    then show ?thesis using False by (simp add: good_def emitEndOfFile_def)
  qed
qed

section \<open>The helper functions\<close>

lemma whitespace_cases:
  "isTokenizerWhitespace c \<Longrightarrow> c = chr_space \<or> c = chr_lf \<or> c = chr_tab \<or> c = chr_ff"
  by (auto simp: isTokenizerWhitespace_def)

lemma whitespace_nonzero [simp]: "\<not> isTokenizerWhitespace 0"
  by (simp add: isTokenizerWhitespace_def)

lemma not_whitespace_lf: "\<not> isTokenizerWhitespace c \<Longrightarrow> c \<noteq> chr_lf"
  by (auto simp: isTokenizerWhitespace_def)

lemma alpha_not: "isASCIIAlpha c \<Longrightarrow> c \<noteq> 0 \<and> c \<noteq> chr_lf \<and> isASCII c"
  by (auto simp: isASCIIAlpha_iff isASCII_iff word_le_nat_alt word_less_nat_alt)

lemma toASCIILower_punctuation:
  "toASCIILower c = d \<Longrightarrow> d < 0x41 \<Longrightarrow> c = d"
  unfolding toASCIILower_eq isASCIIUpper_def word_le_nat_alt word_less_nat_alt word_unat_eq_iff
  by (auto simp: unat_word_ariths split: if_splits)

lemma name_char_lower:
  "\<not> isTokenizerWhitespace c \<Longrightarrow> c \<noteq> chr_slash \<Longrightarrow> c \<noteq> chr_gt \<Longrightarrow> c \<noteq> 0 \<Longrightarrow> name_char (toASCIILower c)"
  by (auto simp: name_char_def isTokenizerWhitespace_def dest: toASCIILower_punctuation)

lemma lower_not_eq: "c \<noteq> chr_eq \<Longrightarrow> toASCIILower c \<noteq> chr_eq"
  by (auto dest: toASCIILower_punctuation)

lemma alpha_lower:
  assumes "isASCIIAlpha c"
  shows "isASCIILower (ucast (convertASCIIAlphaToLower c))" "convertASCIIAlphaToLower c \<noteq> 0"
    "ucast (convertASCIIAlphaToLower c) = toASCIILowerUnchecked c"
proof -
  have l: "isASCIILower (toASCIILowerUnchecked c)" using assms by (simp add: isASCIIAlpha_def)
  then have "unat (toASCIILowerUnchecked c) < 256" "0 < unat (toASCIILowerUnchecked c)"
    by (auto simp: isASCIILower_def word_le_nat_alt)
  then show e: "ucast (convertASCIIAlphaToLower c) = toASCIILowerUnchecked c"
    by (simp add: convertASCIIAlphaToLower_def word_unat_eq_iff unsigned_ucast_eq take_bit_nat_eq_self take_bit_eq_mod
        unat_mod_distrib)
  show "isASCIILower (ucast (convertASCIIAlphaToLower c))" using l e by simp
  then show "convertASCIIAlphaToLower c \<noteq> 0" by (auto simp: isASCIILower_def)
qed

lemma lower_name_char: "isASCIILower c \<Longrightarrow> name_char c"
  by (auto simp: name_char_def isASCIILower_def isASCIIUpper_def word_le_nat_alt word_unat_eq_iff)

lemma alpha_name_char: "isASCIIAlpha c \<Longrightarrow> name_char (ucast (convertASCIIAlphaToLower c))"
  by (rule lower_name_char [OF alpha_lower(1)])

lemma isASCII_lower: "isASCIILower c \<Longrightarrow> isASCII c"
  by (auto simp: isASCIILower_def isASCII_iff word_le_nat_alt word_less_nat_alt)

lemma alpha_lower_ASCII: "isASCIIAlpha c \<Longrightarrow> isASCII (ucast (convertASCIIAlphaToLower c))"
  by (rule isASCII_lower [OF alpha_lower(1)])

lemma ascii_ucast: "isASCII c \<Longrightarrow> ucast (ucast c :: lchar) = c"
  by (simp add: isASCII_iff word_unat_eq_iff unsigned_ucast_eq take_bit_nat_eq_self take_bit_eq_mod
      unat_mod_distrib word_less_nat_alt)

lemma ascii_ucast_nonzero: "isASCII c \<Longrightarrow> c \<noteq> 0 \<Longrightarrow> (ucast c :: lchar) \<noteq> 0"
  using ascii_ucast [of c] by (metis ucast_0)

text \<open>Buffering characters, as field equations and as a step of the token.\<close>

lemma buffer_fields [simp]:
  "m_temporaryBuffer (bufferASCIICharacter c tz) = m_temporaryBuffer tz"
  "m_bufferedEndTagName (bufferASCIICharacter c tz) = m_bufferedEndTagName tz"
  "m_token (bufferASCIICharacter c tz) = appendToCharacter_LChar (ucast c) (m_token tz)"
  "tz_base nocr (bufferASCIICharacter c tz) \<longleftrightarrow> tz_base nocr tz \<and> c \<noteq> 0 \<and> isASCII c"
  "m_temporaryBuffer (bufferCharacter c tz) = m_temporaryBuffer tz"
  "m_bufferedEndTagName (bufferCharacter c tz) = m_bufferedEndTagName tz"
  "m_token (bufferCharacter c tz) = appendToCharacter c (m_token tz)"
  "tz_base nocr (bufferCharacter c tz) \<longleftrightarrow> tz_base nocr tz \<and> c \<noteq> 0"
  "m_additionalAllowedCharacter (bufferCharacter c tz) = m_additionalAllowedCharacter tz"
  by (auto simp: bufferASCIICharacter_def bufferCharacter_def)

lemma temporary_fields [simp]:
  "m_temporaryBuffer (appendToTemporaryBuffer c tz) = m_temporaryBuffer tz @ [ucast c]"
  "m_bufferedEndTagName (appendToTemporaryBuffer c tz) = m_bufferedEndTagName tz"
  "m_token (appendToTemporaryBuffer c tz) = m_token tz"
  "tz_base nocr (appendToTemporaryBuffer c tz) \<longleftrightarrow> tz_base nocr tz \<and> isASCII c"
  "m_temporaryBuffer (appendToPossibleEndTag c tz) = m_temporaryBuffer tz"
  "m_bufferedEndTagName (appendToPossibleEndTag c tz) = m_bufferedEndTagName tz @ [ucast c]"
  "m_token (appendToPossibleEndTag c tz) = m_token tz"
  "tz_base nocr (appendToPossibleEndTag c tz) \<longleftrightarrow> tz_base nocr tz \<and> isASCII c"
  "m_temporaryBuffer (clearTemporaryBuffer tz) = []"
  "m_bufferedEndTagName (clearTemporaryBuffer tz) = m_bufferedEndTagName tz"
  "m_token (clearTemporaryBuffer tz) = m_token tz"
  "tz_base nocr (clearTemporaryBuffer tz) = tz_base nocr tz"
  "m_temporaryBuffer (clearAppropriateEndTagName tz) = m_temporaryBuffer tz"
  "m_bufferedEndTagName (clearAppropriateEndTagName tz) = m_bufferedEndTagName tz"
  "m_token (clearAppropriateEndTagName tz) = m_token tz"
  "tz_base nocr (clearAppropriateEndTagName tz) = tz_base nocr tz"
  "m_temporaryBuffer (setAdditionalAllowedCharacter c tz) = m_temporaryBuffer tz"
  "m_bufferedEndTagName (setAdditionalAllowedCharacter c tz) = m_bufferedEndTagName tz"
  "m_token (setAdditionalAllowedCharacter c tz) = m_token tz"
  "tz_base nocr (setAdditionalAllowedCharacter c tz) = tz_base nocr tz"
  "m_additionalAllowedCharacter (setAdditionalAllowedCharacter c tz) = c"
  by (auto simp: appendToTemporaryBuffer_def appendToPossibleEndTag_def clearTemporaryBuffer_def
      clearAppropriateEndTagName_def setAdditionalAllowedCharacter_def)

lemma isASCII_punctuation [simp]:
  "isASCII chr_lt" "isASCII chr_slash" "isASCII chr_gt" "isASCII chr_dash" "isASCII chr_bang" "isASCII chr_amp" "isASCII chr_rbrack"
  by (simp_all add: isASCII_iff)

lemma alphabetic_snoc:
  "isASCIIAlpha c \<Longrightarrow> alphabetic xs \<Longrightarrow> alphabetic (xs @ [ucast c])"
  using alpha_not ascii_ucast [of c] by (simp add: alphabetic_def)

lemma lower_snoc: "isASCIIAlpha c \<Longrightarrow> lower (ucast c) = convertASCIIAlphaToLower c"
  using alpha_not ascii_ucast [of c] by (simp add: lower_def)

section \<open>The blocks\<close>

lemmas fits_simps = tz_fits_def stage_of_def buffer_fits_def reference_fits_def name_state_def open_state_def

lemmas good_intros = good_ADVANCE good_ADVANCE_NN good_RECONSUME token_fits_intros name_char_lower
  alpha_name_char lower_not_eq

lemmas good_text = token_fits_safe [where g = Text]

lemmas good_tag = good_emitResume [where g = Tag] good_emitReconsume [where g = Tag]
  token_fits_safe [where g = Tag]

lemmas good_comment = good_emitResume [where g = InComment] good_emitReconsume [where g = InComment]

lemmas good_doctype = good_emitResume [where g = Doctype] good_emitReconsume [where g = Doctype]

lemma alpha_simps:
  "\<not> isASCIIAlpha 0" "isASCIIAlpha c \<Longrightarrow> isASCII c" "isASCIIAlpha c \<Longrightarrow> alphabetic [ucast c]"
  "isASCIIAlpha c \<Longrightarrow> (ucast c :: lchar) \<noteq> 0"
  using alpha_not [of c] alpha_not [of 0] alphabetic_snoc [of c "[]"] ascii_ucast_nonzero [of c]
  by (auto simp: alphabetic_def)

lemmas block_simps = fits_simps rank_def tz_ends_def token_fits_weaken beginDOCTYPE_quirks_fits
  alpha_simps alpha_lower_ASCII lower_snoc

lemmas block_dests = not_whitespace_lf alpha_not

lemma do_RCDATAState_good:
  "reading nocr eof s c \<Longrightarrow> tz_fits nocr RCDATAState tz \<Longrightarrow>
     good nocr eof RCDATAState s (do_RCDATAState tz s c)"
  unfolding do_RCDATAState_def
  by (auto simp: block_simps intro!: good_intros good_text dest: block_dests)

lemma do_RAWTEXTState_good:
  "reading nocr eof s c \<Longrightarrow> tz_fits nocr RAWTEXTState tz \<Longrightarrow>
     good nocr eof RAWTEXTState s (do_RAWTEXTState tz s c)"
  unfolding do_RAWTEXTState_def
  by (auto simp: block_simps intro!: good_intros good_text dest: block_dests)

lemma do_ScriptDataState_good:
  "reading nocr eof s c \<Longrightarrow> tz_fits nocr ScriptDataState tz \<Longrightarrow>
     good nocr eof ScriptDataState s (do_ScriptDataState tz s c)"
  unfolding do_ScriptDataState_def
  by (auto simp: block_simps intro!: good_intros good_text dest: block_dests)

lemma do_PLAINTEXTState_good:
  "reading nocr eof s c \<Longrightarrow> tz_fits nocr PLAINTEXTState tz \<Longrightarrow>
     good nocr eof PLAINTEXTState s (do_PLAINTEXTState tz s c)"
  unfolding do_PLAINTEXTState_def
  by (auto simp: block_simps intro!: good_intros good_text dest: block_dests)

lemma do_TagOpenState_good:
  "reading nocr eof s c \<Longrightarrow> tz_fits nocr TagOpenState tz \<Longrightarrow>
     good nocr eof TagOpenState s (do_TagOpenState tz s c)"
  unfolding do_TagOpenState_def
  by (auto simp: block_simps intro!: good_intros good_text good_doctype dest: block_dests)

lemma do_EndTagOpenState_good:
  "reading nocr eof s c \<Longrightarrow> tz_fits nocr EndTagOpenState tz \<Longrightarrow>
     good nocr eof EndTagOpenState s (do_EndTagOpenState tz s c)"
  unfolding do_EndTagOpenState_def
  by (auto simp: block_simps intro!: good_intros good_text good_doctype dest: block_dests)

lemma do_TagNameState_good:
  "reading nocr eof s c \<Longrightarrow> tz_fits nocr TagNameState tz \<Longrightarrow>
     good nocr eof TagNameState s (do_TagNameState tz s c)"
  unfolding do_TagNameState_def
  by (auto simp: block_simps intro!: good_intros good_tag dest: block_dests)

lemma do_RCDATALessThanSignState_good:
  "reading nocr eof s c \<Longrightarrow> tz_fits nocr RCDATALessThanSignState tz \<Longrightarrow>
     good nocr eof RCDATALessThanSignState s (do_RCDATALessThanSignState tz s c)"
  unfolding do_RCDATALessThanSignState_def
  by (auto simp: block_simps intro!: good_intros good_text dest: block_dests)

lemma do_RCDATAEndTagOpenState_good:
  "reading nocr eof s c \<Longrightarrow> tz_fits nocr RCDATAEndTagOpenState tz \<Longrightarrow>
     good nocr eof RCDATAEndTagOpenState s (do_RCDATAEndTagOpenState tz s c)"
  unfolding do_RCDATAEndTagOpenState_def
  by (auto simp: block_simps intro!: good_intros good_text dest: block_dests)

lemma do_RAWTEXTLessThanSignState_good:
  "reading nocr eof s c \<Longrightarrow> tz_fits nocr RAWTEXTLessThanSignState tz \<Longrightarrow>
     good nocr eof RAWTEXTLessThanSignState s (do_RAWTEXTLessThanSignState tz s c)"
  unfolding do_RAWTEXTLessThanSignState_def
  by (auto simp: block_simps intro!: good_intros good_text dest: block_dests)

lemma do_RAWTEXTEndTagOpenState_good:
  "reading nocr eof s c \<Longrightarrow> tz_fits nocr RAWTEXTEndTagOpenState tz \<Longrightarrow>
     good nocr eof RAWTEXTEndTagOpenState s (do_RAWTEXTEndTagOpenState tz s c)"
  unfolding do_RAWTEXTEndTagOpenState_def
  by (auto simp: block_simps intro!: good_intros good_text dest: block_dests)

lemma do_ScriptDataLessThanSignState_good:
  "reading nocr eof s c \<Longrightarrow> tz_fits nocr ScriptDataLessThanSignState tz \<Longrightarrow>
     good nocr eof ScriptDataLessThanSignState s (do_ScriptDataLessThanSignState tz s c)"
  unfolding do_ScriptDataLessThanSignState_def
  by (auto simp: block_simps intro!: good_intros good_text dest: block_dests)

lemma do_ScriptDataEndTagOpenState_good:
  "reading nocr eof s c \<Longrightarrow> tz_fits nocr ScriptDataEndTagOpenState tz \<Longrightarrow>
     good nocr eof ScriptDataEndTagOpenState s (do_ScriptDataEndTagOpenState tz s c)"
  unfolding do_ScriptDataEndTagOpenState_def
  by (auto simp: block_simps intro!: good_intros good_text dest: block_dests)

lemma do_ScriptDataEscapeStartState_good:
  "reading nocr eof s c \<Longrightarrow> tz_fits nocr ScriptDataEscapeStartState tz \<Longrightarrow>
     good nocr eof ScriptDataEscapeStartState s (do_ScriptDataEscapeStartState tz s c)"
  unfolding do_ScriptDataEscapeStartState_def
  by (auto simp: block_simps intro!: good_intros good_text dest: block_dests)

lemma do_ScriptDataEscapeStartDashState_good:
  "reading nocr eof s c \<Longrightarrow> tz_fits nocr ScriptDataEscapeStartDashState tz \<Longrightarrow>
     good nocr eof ScriptDataEscapeStartDashState s (do_ScriptDataEscapeStartDashState tz s c)"
  unfolding do_ScriptDataEscapeStartDashState_def
  by (auto simp: block_simps intro!: good_intros good_text dest: block_dests)

lemma do_ScriptDataEscapedState_good:
  "reading nocr eof s c \<Longrightarrow> tz_fits nocr ScriptDataEscapedState tz \<Longrightarrow>
     good nocr eof ScriptDataEscapedState s (do_ScriptDataEscapedState tz s c)"
  unfolding do_ScriptDataEscapedState_def
  by (auto simp: block_simps intro!: good_intros good_text dest: block_dests)

lemma do_ScriptDataEscapedDashState_good:
  "reading nocr eof s c \<Longrightarrow> tz_fits nocr ScriptDataEscapedDashState tz \<Longrightarrow>
     good nocr eof ScriptDataEscapedDashState s (do_ScriptDataEscapedDashState tz s c)"
  unfolding do_ScriptDataEscapedDashState_def
  by (auto simp: block_simps intro!: good_intros good_text dest: block_dests)

lemma do_ScriptDataEscapedDashDashState_good:
  "reading nocr eof s c \<Longrightarrow> tz_fits nocr ScriptDataEscapedDashDashState tz \<Longrightarrow>
     good nocr eof ScriptDataEscapedDashDashState s (do_ScriptDataEscapedDashDashState tz s c)"
  unfolding do_ScriptDataEscapedDashDashState_def
  by (auto simp: block_simps intro!: good_intros good_text dest: block_dests)

lemma do_ScriptDataEscapedLessThanSignState_good:
  "reading nocr eof s c \<Longrightarrow> tz_fits nocr ScriptDataEscapedLessThanSignState tz \<Longrightarrow>
     good nocr eof ScriptDataEscapedLessThanSignState s (do_ScriptDataEscapedLessThanSignState tz s c)"
  unfolding do_ScriptDataEscapedLessThanSignState_def
  by (auto simp: block_simps intro!: good_intros good_text dest: block_dests)

lemma do_ScriptDataEscapedEndTagOpenState_good:
  "reading nocr eof s c \<Longrightarrow> tz_fits nocr ScriptDataEscapedEndTagOpenState tz \<Longrightarrow>
     good nocr eof ScriptDataEscapedEndTagOpenState s (do_ScriptDataEscapedEndTagOpenState tz s c)"
  unfolding do_ScriptDataEscapedEndTagOpenState_def
  by (auto simp: block_simps intro!: good_intros good_text dest: block_dests)

lemma do_ScriptDataDoubleEscapedState_good:
  "reading nocr eof s c \<Longrightarrow> tz_fits nocr ScriptDataDoubleEscapedState tz \<Longrightarrow>
     good nocr eof ScriptDataDoubleEscapedState s (do_ScriptDataDoubleEscapedState tz s c)"
  unfolding do_ScriptDataDoubleEscapedState_def
  by (auto simp: block_simps intro!: good_intros good_text dest: block_dests)

lemma do_ScriptDataDoubleEscapedDashState_good:
  "reading nocr eof s c \<Longrightarrow> tz_fits nocr ScriptDataDoubleEscapedDashState tz \<Longrightarrow>
     good nocr eof ScriptDataDoubleEscapedDashState s (do_ScriptDataDoubleEscapedDashState tz s c)"
  unfolding do_ScriptDataDoubleEscapedDashState_def
  by (auto simp: block_simps intro!: good_intros good_text dest: block_dests)

lemma do_ScriptDataDoubleEscapedDashDashState_good:
  "reading nocr eof s c \<Longrightarrow> tz_fits nocr ScriptDataDoubleEscapedDashDashState tz \<Longrightarrow>
     good nocr eof ScriptDataDoubleEscapedDashDashState s (do_ScriptDataDoubleEscapedDashDashState tz s c)"
  unfolding do_ScriptDataDoubleEscapedDashDashState_def
  by (auto simp: block_simps intro!: good_intros good_text dest: block_dests)

lemma do_ScriptDataDoubleEscapedLessThanSignState_good:
  "reading nocr eof s c \<Longrightarrow> tz_fits nocr ScriptDataDoubleEscapedLessThanSignState tz \<Longrightarrow>
     good nocr eof ScriptDataDoubleEscapedLessThanSignState s (do_ScriptDataDoubleEscapedLessThanSignState tz s c)"
  unfolding do_ScriptDataDoubleEscapedLessThanSignState_def
  by (auto simp: block_simps intro!: good_intros good_text dest: block_dests)

lemma do_BeforeAttributeNameState_good:
  "reading nocr eof s c \<Longrightarrow> tz_fits nocr BeforeAttributeNameState tz \<Longrightarrow>
     good nocr eof BeforeAttributeNameState s (do_BeforeAttributeNameState tz s c)"
  unfolding do_BeforeAttributeNameState_def
  by (auto simp: block_simps intro!: good_intros good_tag dest: block_dests)

lemma do_AttributeNameState_good:
  "reading nocr eof s c \<Longrightarrow> tz_fits nocr AttributeNameState tz \<Longrightarrow>
     good nocr eof AttributeNameState s (do_AttributeNameState tz s c)"
  unfolding do_AttributeNameState_def
  by (auto simp: block_simps intro!: good_intros good_tag dest: block_dests)

lemma do_AfterAttributeNameState_good:
  "reading nocr eof s c \<Longrightarrow> tz_fits nocr AfterAttributeNameState tz \<Longrightarrow>
     good nocr eof AfterAttributeNameState s (do_AfterAttributeNameState tz s c)"
  unfolding do_AfterAttributeNameState_def
  by (auto simp: block_simps intro!: good_intros good_tag dest: block_dests)

lemma do_BeforeAttributeValueState_good:
  "reading nocr eof s c \<Longrightarrow> tz_fits nocr BeforeAttributeValueState tz \<Longrightarrow>
     good nocr eof BeforeAttributeValueState s (do_BeforeAttributeValueState tz s c)"
  unfolding do_BeforeAttributeValueState_def
  by (auto simp: block_simps intro!: good_intros good_tag dest: block_dests)

lemma do_AttributeValueDoubleQuotedState_good:
  "reading nocr eof s c \<Longrightarrow> tz_fits nocr AttributeValueDoubleQuotedState tz \<Longrightarrow>
     good nocr eof AttributeValueDoubleQuotedState s (do_AttributeValueDoubleQuotedState tz s c)"
  unfolding do_AttributeValueDoubleQuotedState_def
  by (auto simp: block_simps intro!: good_intros good_tag dest: block_dests)

lemma do_AttributeValueSingleQuotedState_good:
  "reading nocr eof s c \<Longrightarrow> tz_fits nocr AttributeValueSingleQuotedState tz \<Longrightarrow>
     good nocr eof AttributeValueSingleQuotedState s (do_AttributeValueSingleQuotedState tz s c)"
  unfolding do_AttributeValueSingleQuotedState_def
  by (auto simp: block_simps intro!: good_intros good_tag dest: block_dests)

lemma do_AttributeValueUnquotedState_good:
  "reading nocr eof s c \<Longrightarrow> tz_fits nocr AttributeValueUnquotedState tz \<Longrightarrow>
     good nocr eof AttributeValueUnquotedState s (do_AttributeValueUnquotedState tz s c)"
  unfolding do_AttributeValueUnquotedState_def
  by (auto simp: block_simps intro!: good_intros good_tag dest: block_dests)

lemma do_AfterAttributeValueQuotedState_good:
  "reading nocr eof s c \<Longrightarrow> tz_fits nocr AfterAttributeValueQuotedState tz \<Longrightarrow>
     good nocr eof AfterAttributeValueQuotedState s (do_AfterAttributeValueQuotedState tz s c)"
  unfolding do_AfterAttributeValueQuotedState_def
  by (auto simp: block_simps intro!: good_intros good_tag dest: block_dests)

lemma do_SelfClosingStartTagState_good:
  "reading nocr eof s c \<Longrightarrow> tz_fits nocr SelfClosingStartTagState tz \<Longrightarrow>
     good nocr eof SelfClosingStartTagState s (do_SelfClosingStartTagState tz s c)"
  unfolding do_SelfClosingStartTagState_def
  by (auto simp: block_simps intro!: good_intros good_tag dest: block_dests)

lemma do_BogusCommentState_good:
  "reading nocr eof s c \<Longrightarrow> tz_fits nocr BogusCommentState tz \<Longrightarrow>
     good nocr eof BogusCommentState s (do_BogusCommentState tz s c)"
  unfolding do_BogusCommentState_def
  by (auto simp: block_simps intro!: good_intros good_text good_doctype dest: block_dests)

lemma do_ContinueBogusCommentState_good:
  "reading nocr eof s c \<Longrightarrow> tz_fits nocr ContinueBogusCommentState tz \<Longrightarrow>
     good nocr eof ContinueBogusCommentState s (do_ContinueBogusCommentState tz s c)"
  unfolding do_ContinueBogusCommentState_def
  by (auto simp: block_simps intro!: good_intros good_comment dest: block_dests)

lemma do_CommentStartState_good:
  "reading nocr eof s c \<Longrightarrow> tz_fits nocr CommentStartState tz \<Longrightarrow>
     good nocr eof CommentStartState s (do_CommentStartState tz s c)"
  unfolding do_CommentStartState_def
  by (auto simp: block_simps intro!: good_intros good_comment dest: block_dests)

lemma do_CommentStartDashState_good:
  "reading nocr eof s c \<Longrightarrow> tz_fits nocr CommentStartDashState tz \<Longrightarrow>
     good nocr eof CommentStartDashState s (do_CommentStartDashState tz s c)"
  unfolding do_CommentStartDashState_def
  by (auto simp: block_simps intro!: good_intros good_comment dest: block_dests)

lemma do_CommentState_good:
  "reading nocr eof s c \<Longrightarrow> tz_fits nocr CommentState tz \<Longrightarrow>
     good nocr eof CommentState s (do_CommentState tz s c)"
  unfolding do_CommentState_def
  by (auto simp: block_simps intro!: good_intros good_comment dest: block_dests)

lemma do_CommentEndDashState_good:
  "reading nocr eof s c \<Longrightarrow> tz_fits nocr CommentEndDashState tz \<Longrightarrow>
     good nocr eof CommentEndDashState s (do_CommentEndDashState tz s c)"
  unfolding do_CommentEndDashState_def
  by (auto simp: block_simps intro!: good_intros good_comment dest: block_dests)

lemma do_CommentEndState_good:
  "reading nocr eof s c \<Longrightarrow> tz_fits nocr CommentEndState tz \<Longrightarrow>
     good nocr eof CommentEndState s (do_CommentEndState tz s c)"
  unfolding do_CommentEndState_def
  by (auto simp: block_simps intro!: good_intros good_comment dest: block_dests)

lemma do_CommentEndBangState_good:
  "reading nocr eof s c \<Longrightarrow> tz_fits nocr CommentEndBangState tz \<Longrightarrow>
     good nocr eof CommentEndBangState s (do_CommentEndBangState tz s c)"
  unfolding do_CommentEndBangState_def
  by (auto simp: block_simps intro!: good_intros good_comment dest: block_dests)

lemma do_DOCTYPEState_good:
  "reading nocr eof s c \<Longrightarrow> tz_fits nocr DOCTYPEState tz \<Longrightarrow>
     good nocr eof DOCTYPEState s (do_DOCTYPEState tz s c)"
  unfolding do_DOCTYPEState_def
  by (auto simp: block_simps intro!: good_intros good_text good_doctype dest: block_dests)

lemma do_BeforeDOCTYPENameState_good:
  "reading nocr eof s c \<Longrightarrow> tz_fits nocr BeforeDOCTYPENameState tz \<Longrightarrow>
     good nocr eof BeforeDOCTYPENameState s (do_BeforeDOCTYPENameState tz s c)"
  unfolding do_BeforeDOCTYPENameState_def
  by (auto simp: block_simps intro!: good_intros good_text good_doctype dest: block_dests)

lemma do_DOCTYPENameState_good:
  "reading nocr eof s c \<Longrightarrow> tz_fits nocr DOCTYPENameState tz \<Longrightarrow>
     good nocr eof DOCTYPENameState s (do_DOCTYPENameState tz s c)"
  unfolding do_DOCTYPENameState_def
  by (auto simp: block_simps intro!: good_intros good_doctype dest: block_dests)

lemma do_AfterDOCTYPEPublicKeywordState_good:
  "reading nocr eof s c \<Longrightarrow> tz_fits nocr AfterDOCTYPEPublicKeywordState tz \<Longrightarrow>
     good nocr eof AfterDOCTYPEPublicKeywordState s (do_AfterDOCTYPEPublicKeywordState tz s c)"
  unfolding do_AfterDOCTYPEPublicKeywordState_def
  by (auto simp: block_simps intro!: good_intros good_doctype dest: block_dests)

lemma do_BeforeDOCTYPEPublicIdentifierState_good:
  "reading nocr eof s c \<Longrightarrow> tz_fits nocr BeforeDOCTYPEPublicIdentifierState tz \<Longrightarrow>
     good nocr eof BeforeDOCTYPEPublicIdentifierState s (do_BeforeDOCTYPEPublicIdentifierState tz s c)"
  unfolding do_BeforeDOCTYPEPublicIdentifierState_def
  by (auto simp: block_simps intro!: good_intros good_doctype dest: block_dests)

lemma do_DOCTYPEPublicIdentifierDoubleQuotedState_good:
  "reading nocr eof s c \<Longrightarrow> tz_fits nocr DOCTYPEPublicIdentifierDoubleQuotedState tz \<Longrightarrow>
     good nocr eof DOCTYPEPublicIdentifierDoubleQuotedState s (do_DOCTYPEPublicIdentifierDoubleQuotedState tz s c)"
  unfolding do_DOCTYPEPublicIdentifierDoubleQuotedState_def
  by (auto simp: block_simps intro!: good_intros good_doctype dest: block_dests)

lemma do_DOCTYPEPublicIdentifierSingleQuotedState_good:
  "reading nocr eof s c \<Longrightarrow> tz_fits nocr DOCTYPEPublicIdentifierSingleQuotedState tz \<Longrightarrow>
     good nocr eof DOCTYPEPublicIdentifierSingleQuotedState s (do_DOCTYPEPublicIdentifierSingleQuotedState tz s c)"
  unfolding do_DOCTYPEPublicIdentifierSingleQuotedState_def
  by (auto simp: block_simps intro!: good_intros good_doctype dest: block_dests)

lemma do_AfterDOCTYPEPublicIdentifierState_good:
  "reading nocr eof s c \<Longrightarrow> tz_fits nocr AfterDOCTYPEPublicIdentifierState tz \<Longrightarrow>
     good nocr eof AfterDOCTYPEPublicIdentifierState s (do_AfterDOCTYPEPublicIdentifierState tz s c)"
  unfolding do_AfterDOCTYPEPublicIdentifierState_def
  by (auto simp: block_simps intro!: good_intros good_doctype dest: block_dests)

lemma do_BetweenDOCTYPEPublicAndSystemIdentifiersState_good:
  "reading nocr eof s c \<Longrightarrow> tz_fits nocr BetweenDOCTYPEPublicAndSystemIdentifiersState tz \<Longrightarrow>
     good nocr eof BetweenDOCTYPEPublicAndSystemIdentifiersState s (do_BetweenDOCTYPEPublicAndSystemIdentifiersState tz s c)"
  unfolding do_BetweenDOCTYPEPublicAndSystemIdentifiersState_def
  by (auto simp: block_simps intro!: good_intros good_doctype dest: block_dests)

lemma do_AfterDOCTYPESystemKeywordState_good:
  "reading nocr eof s c \<Longrightarrow> tz_fits nocr AfterDOCTYPESystemKeywordState tz \<Longrightarrow>
     good nocr eof AfterDOCTYPESystemKeywordState s (do_AfterDOCTYPESystemKeywordState tz s c)"
  unfolding do_AfterDOCTYPESystemKeywordState_def
  by (auto simp: block_simps intro!: good_intros good_doctype dest: block_dests)

lemma do_BeforeDOCTYPESystemIdentifierState_good:
  "reading nocr eof s c \<Longrightarrow> tz_fits nocr BeforeDOCTYPESystemIdentifierState tz \<Longrightarrow>
     good nocr eof BeforeDOCTYPESystemIdentifierState s (do_BeforeDOCTYPESystemIdentifierState tz s c)"
  unfolding do_BeforeDOCTYPESystemIdentifierState_def
  by (auto simp: block_simps intro!: good_intros good_doctype dest: block_dests)

lemma do_DOCTYPESystemIdentifierDoubleQuotedState_good:
  "reading nocr eof s c \<Longrightarrow> tz_fits nocr DOCTYPESystemIdentifierDoubleQuotedState tz \<Longrightarrow>
     good nocr eof DOCTYPESystemIdentifierDoubleQuotedState s (do_DOCTYPESystemIdentifierDoubleQuotedState tz s c)"
  unfolding do_DOCTYPESystemIdentifierDoubleQuotedState_def
  by (auto simp: block_simps intro!: good_intros good_doctype dest: block_dests)

lemma do_DOCTYPESystemIdentifierSingleQuotedState_good:
  "reading nocr eof s c \<Longrightarrow> tz_fits nocr DOCTYPESystemIdentifierSingleQuotedState tz \<Longrightarrow>
     good nocr eof DOCTYPESystemIdentifierSingleQuotedState s (do_DOCTYPESystemIdentifierSingleQuotedState tz s c)"
  unfolding do_DOCTYPESystemIdentifierSingleQuotedState_def
  by (auto simp: block_simps intro!: good_intros good_doctype dest: block_dests)

lemma do_AfterDOCTYPESystemIdentifierState_good:
  "reading nocr eof s c \<Longrightarrow> tz_fits nocr AfterDOCTYPESystemIdentifierState tz \<Longrightarrow>
     good nocr eof AfterDOCTYPESystemIdentifierState s (do_AfterDOCTYPESystemIdentifierState tz s c)"
  unfolding do_AfterDOCTYPESystemIdentifierState_def
  by (auto simp: block_simps intro!: good_intros good_doctype dest: block_dests)

lemma do_BogusDOCTYPEState_good:
  "reading nocr eof s c \<Longrightarrow> tz_fits nocr BogusDOCTYPEState tz \<Longrightarrow>
     good nocr eof BogusDOCTYPEState s (do_BogusDOCTYPEState tz s c)"
  unfolding do_BogusDOCTYPEState_def
  by (auto simp: block_simps intro!: good_intros good_doctype dest: block_dests)

lemma do_CDATASectionState_good:
  "reading nocr eof s c \<Longrightarrow> tz_fits nocr CDATASectionState tz \<Longrightarrow>
     good nocr eof CDATASectionState s (do_CDATASectionState tz s c)"
  unfolding do_CDATASectionState_def
  by (auto simp: block_simps intro!: good_intros good_text dest: block_dests)

lemma do_CDATASectionRightSquareBracketState_good:
  "reading nocr eof s c \<Longrightarrow> tz_fits nocr CDATASectionRightSquareBracketState tz \<Longrightarrow>
     good nocr eof CDATASectionRightSquareBracketState s (do_CDATASectionRightSquareBracketState tz s c)"
  unfolding do_CDATASectionRightSquareBracketState_def
  by (auto simp: block_simps intro!: good_intros good_text dest: block_dests)

lemma do_CDATASectionDoubleRightSquareBracketState_good:
  "reading nocr eof s c \<Longrightarrow> tz_fits nocr CDATASectionDoubleRightSquareBracketState tz \<Longrightarrow>
     good nocr eof CDATASectionDoubleRightSquareBracketState s (do_CDATASectionDoubleRightSquareBracketState tz s c)"
  unfolding do_CDATASectionDoubleRightSquareBracketState_def
  by (auto simp: block_simps intro!: good_intros good_text dest: block_dests)


lemma whitespace_ASCII: "isTokenizerWhitespace c \<Longrightarrow> isASCII c \<and> c \<noteq> 0 \<and> (ucast c :: lchar) \<noteq> 0"
  by (auto simp: isTokenizerWhitespace_def isASCII_iff)

lemma do_ScriptDataDoubleEscapeStartState_good:
  "reading nocr eof s c \<Longrightarrow> tz_fits nocr ScriptDataDoubleEscapeStartState tz \<Longrightarrow>
     good nocr eof ScriptDataDoubleEscapeStartState s (do_ScriptDataDoubleEscapeStartState tz s c)"
  unfolding do_ScriptDataDoubleEscapeStartState_def
  by (auto simp: block_simps Let_def whitespace_ASCII intro!: good_intros good_text dest: block_dests)

lemma do_ScriptDataDoubleEscapeEndState_good:
  "reading nocr eof s c \<Longrightarrow> tz_fits nocr ScriptDataDoubleEscapeEndState tz \<Longrightarrow>
     good nocr eof ScriptDataDoubleEscapeEndState s (do_ScriptDataDoubleEscapeEndState tz s c)"
  unfolding do_ScriptDataDoubleEscapeEndState_def
  by (auto simp: block_simps Let_def whitespace_ASCII intro!: good_intros good_text dest: block_dests)

lemma do_DataState_good:
  assumes "reading nocr eof s c" "tz_fits nocr DataState tz \<or> tz_ends nocr DataState c tz"
  shows "good nocr eof DataState s (do_DataState tz s c)"
proof (cases "c = 0")
  case True
  then show ?thesis using good_emitEndOfFile [of nocr eof s tz] assms by (simp add: do_DataState_def)
next
  case False
  then have tz: "tz_fits nocr DataState tz" using assms(2) by (simp add: tz_ends_def)
  have fresh: "token_fits Fresh (m_token tz)" if "\<not> haveBufferedCharacterToken tz"
    using tz that by (auto simp: tz_fits_def token_fits_def stage_of_def haveBufferedCharacterToken_def)
  have ret: "good nocr eof DataState s (RETURN_IN_CURRENT_STATE DataState True tz s)" if "haveBufferedCharacterToken tz"
    using good_RETURN [OF tz, of eof s s] that assms(1) by (simp add: reading_def)
  show ?thesis
    using assms(1) tz False fresh ret unfolding do_DataState_def
    by (auto simp: block_simps intro!: good_intros)
qed

section \<open>End tags inside text\<close>

lemma alphabetic_names:
  assumes "alphabetic cs"
  shows "list_all name_char (map ucast (map lower cs))" "0 \<notin> set cs"
proof -
  have "name_char (ucast (lower c))" if "isASCIIAlpha (ucast c)" for c :: lchar
    using alpha_name_char [OF that] by (simp add: lower_def)
  then show "list_all name_char (map ucast (map lower cs))" using assms by (simp add: alphabetic_def list_all_iff)
  show "0 \<notin> set cs" using assms alpha_simps(1) by (auto simp: alphabetic_def list_all_iff)
qed

text \<open>What holds of the tokenizer while it reads the name of a possible end tag.\<close>

lemma name_state_fits:
  assumes "tz_fits nocr ns tz" "name_state ns"
  shows "tz_base nocr tz" "token_fits Text (m_token tz)" "alphabetic (m_temporaryBuffer tz)"
    "m_bufferedEndTagName tz = map lower (m_temporaryBuffer tz)" "m_temporaryBuffer tz \<noteq> []"
    "list_all name_char (map ucast (m_bufferedEndTagName tz))" "stage_of ns = Text"
proof -
  show "stage_of ns = Text" using assms(2) by (cases ns) (simp_all add: name_state_def stage_of_def)
  then show "tz_base nocr tz" "token_fits Text (m_token tz)" "alphabetic (m_temporaryBuffer tz)"
    "m_bufferedEndTagName tz = map lower (m_temporaryBuffer tz)" "m_temporaryBuffer tz \<noteq> []"
    using assms by (simp_all add: tz_fits_def buffer_fits_def)
  then show "list_all name_char (map ucast (m_bufferedEndTagName tz))" using alphabetic_names(1) by simp
qed

lemma flush_fits:
  assumes "tz_base nocr tz" "token_fits Fresh (m_token tz)" "m_bufferedEndTagName tz \<noteq> []"
    "list_all name_char (map ucast (m_bufferedEndTagName tz))" "stage_of st = Tag" "\<not> name_state st" "\<not> open_state st"
    "st \<noteq> CharacterReferenceInAttributeValueState"
  shows "tz_fits nocr st (flushBufferedEndTag tz)"
  using assms beginEndTag_vector_fits [OF assms(2-4)]
  by (simp add: flushBufferedEndTag_def tz_fits_def buffer_fits_def reference_fits_def)

lemma text_fresh: "token_fits Text (m_token tz) \<Longrightarrow> \<not> haveBufferedCharacterToken tz \<Longrightarrow> token_fits Fresh (m_token tz)"
  by (auto simp: token_fits_def haveBufferedCharacterToken_def)

text \<open>An end tag is kept for the next call: what remains after the buffered characters are emitted.\<close>

lemma pending_rests:
  assumes "tz_base nocr tz" "tok_asserts (m_token tz)" "m_bufferedEndTagName tz \<noteq> []"
    "list_all name_char (map ucast (m_bufferedEndTagName tz))"
    "st \<in> {DataState, BeforeAttributeNameState, SelfClosingStartTagState}"
  shows "resting nocr (withToken HTMLToken_clear (tz\<lparr>m_state := st\<rparr>))"
  using assms clear_fits [OF assms(2)]
  by (auto simp: resting_def pending_def inEndTagBufferingState_iff name_state_def open_state_def)

lemma returned_pending:
  assumes "src_ok nocr eof s'" "m_isClosed s' = m_isClosed s" "length (ss_chars s') < length (ss_chars s)"
    "tz_base nocr tz" "token_fits Text (m_token tz)" "haveBufferedCharacterToken tz" "m_bufferedEndTagName tz \<noteq> []"
    "list_all name_char (map ucast (m_bufferedEndTagName tz))"
    "st \<in> {DataState, BeforeAttributeNameState, SelfClosingStartTagState}"
  shows "returned nocr eof s True (tz\<lparr>m_state := st\<rparr>) s'"
  using assms pending_rests [of nocr tz st] by (auto simp: returned_def token_fits_def haveBufferedCharacterToken_def)

lemma reading_current:
  assumes "reading nocr eof s c" "isASCII c" "c \<noteq> 0" "nocr \<or> c \<noteq> chr_lf"
  shows "m_currentCharacter s = c"
proof -
  have i: "ss_inv s" using assms(1) by (rule reading_inv)
  obtain r rs where rs: "ss_chars s = r # rs" using assms(1) by (cases "ss_chars s") (auto simp: reading_def shown_def)
  have "c \<noteq> replacementCharacter" using assms(2) by (auto simp: isASCII_iff)
  then have "c = r" using assms rs by (auto simp: reading_def shown_def src_ok_def split: if_splits)
  then show ?thesis using i rs by (simp add: currentCharacter_view)
qed

lemma good_commitPartial:
  assumes "reading nocr eof s c" "c \<noteq> 0" "isASCII c" "tz_fits nocr ns tz" "name_state ns"
    "st' = BeforeAttributeNameState \<or> st' = SelfClosingStartTagState"
  shows "good nocr eof st s (commitPartial c st' tz s)"
proof -
  note n = name_state_fits [OF assms(4,5)]
  let ?s = "SegmentedString_advance s"
  let ?tz = "appendToTemporaryBuffer c (tz_assertRaw (m_currentCharacter s = c) tz)"
  note st = reading_step [OF assms(1,2) SegmentedString_advance_advanced [OF reading_inv [OF assms(1)]]]
  have "nocr \<Longrightarrow> m_currentCharacter s = c" using reading_current [OF assms(1,3,2)] by simp
  then have b: "tz_base nocr ?tz" using n(1) assms(3) by auto
  have hb: "haveBufferedCharacterToken ?tz = haveBufferedCharacterToken tz" by (simp add: haveBufferedCharacterToken_def)
  show ?thesis
  proof (cases "haveBufferedCharacterToken tz")
    case True
    then have "returned nocr eof s True (?tz\<lparr>m_state := st'\<rparr>) ?s"
      using st b n hb assms(6) by (intro returned_pending) auto
    then show ?thesis using True hb by (simp add: good_def commitPartial_def commitToPartialEndTag_def Let_def)
  next
    case False
    have "tz_fits nocr st' (flushBufferedEndTag ?tz)"
      using b n text_fresh [of tz] False assms(6)
      by (intro flush_fits) (auto simp: stage_of_def name_state_def open_state_def)
    then have "good nocr eof st s (SWITCH_TO st' (flushBufferedEndTag ?tz) ?s)"
      using st by (intro good_SWITCH) (auto simp: progress_def)
    then show ?thesis using False hb by (simp add: commitPartial_def commitToPartialEndTag_def Let_def)
  qed
qed

lemma good_commitComplete:
  assumes "reading nocr eof s chr_gt" "tz_fits nocr ns tz" "name_state ns"
  shows "good nocr eof st s (commitToCompleteEndTag tz s)"
proof -
  note n = name_state_fits [OF assms(2,3)]
  let ?s = "advancePastNonNewline s"
  let ?tz = "appendToTemporaryBuffer chr_gt (tz_assert (m_currentCharacter s = chr_gt) tz)"
  have cur: "m_currentCharacter s = chr_gt" using reading_current [OF assms(1)] by simp
  have adv: "advanced s ?s" using advancePastNonNewline_advanced [OF reading_inv [OF assms(1)]] cur by simp
  note st = reading_step [OF assms(1) _ adv]
  have b: "tz_base nocr ?tz" using n(1) cur by auto
  have hb: "haveBufferedCharacterToken ?tz = haveBufferedCharacterToken tz" by (simp add: haveBufferedCharacterToken_def)
  show ?thesis
  proof (cases "haveBufferedCharacterToken tz")
    case True
    then have "returned nocr eof s True (?tz\<lparr>m_state := DataState\<rparr>) ?s"
      using st b n hb by (intro returned_pending) auto
    then show ?thesis using True hb by (simp add: good_def commitToCompleteEndTag_def Let_def)
  next
    case False
    let ?tz1 = "flushBufferedEndTag (?tz\<lparr>m_state := DataState\<rparr>)"
    have f: "tz_fits nocr TagNameState ?tz1"
      using b n text_fresh [of tz] False
      by (intro flush_fits) (auto simp: stage_of_def name_state_def open_state_def)
    have fl: "flushBufferedEndTag (?tz\<lparr>m_state := DataState\<rparr>) = ?tz1\<lparr>m_state := DataState\<rparr>"
      by (simp add: flushBufferedEndTag_def)
    have g: "token_fits Tag (m_token ?tz1)" "tz_base nocr ?tz1" "m_bufferedEndTagName ?tz1 = []"
      using f by (simp_all add: tz_fits_def stage_of_def buffer_fits_def name_state_def)
    have ty: "m_type (m_token ?tz1) \<noteq> Uninitialized \<and> m_type (m_token ?tz1) \<noteq> EndOfFile"
      using g(1) by (auto simp: token_fits_def isTag_def)
    have "resting nocr (withToken HTMLToken_clear ?tz1)"
      using data_rests [OF g(2,3)] g(1) fl by (simp add: token_fits_def)
    moreover have "m_state ?tz1 = DataState" by (simp add: flushBufferedEndTag_def)
    ultimately have "returned nocr eof s True ?tz1 ?s" using st g ty by (auto simp: returned_def token_fits_def)
    then show ?thesis using False hb by (simp add: good_def commitToCompleteEndTag_def Let_def)
  qed
qed

lemma rejectEndTag_fits:
  assumes "tz_fits nocr ns tz" "name_state ns" "stage_of st = Text" "\<not> name_state st" "\<not> open_state st"
  shows "tz_fits nocr st (rejectEndTag tz)" "c = 0 \<Longrightarrow> tz_ends nocr DataState c (rejectEndTag tz)"
proof -
  note n = name_state_fits [OF assms(1,2)]
  let ?t = "appendToCharacter_LChar 0x2F (appendToCharacter_LChar 0x3C (m_token tz))"
  have "token_fits Text ?t" using n(2) by (intro token_fits_intros) auto
  moreover have "m_type ?t = Character" by (simp add: appendToCharacter_LChar_def)
  ultimately have t: "token_fits Text (appendToCharacter_vector (m_temporaryBuffer tz) ?t)"
    using alphabetic_names(2) [OF n(3)] by (intro appendToCharacter_vector_fits)
  have "st \<noteq> CharacterReferenceInAttributeValueState" using assms(3) by (auto simp: stage_of_def)
  then show "tz_fits nocr st (rejectEndTag tz)"
    using t n assms by (simp add: rejectEndTag_def tz_fits_def buffer_fits_def reference_fits_def)
  show "c = 0 \<Longrightarrow> tz_ends nocr DataState c (rejectEndTag tz)"
    using t n token_fits_safe by (simp add: rejectEndTag_def tz_ends_def)
qed

lemma endTagNameBlock_good:
  assumes "reading nocr eof s c" "tz_fits nocr ns tz" "name_state ns" "rank st' < rank ns"
    "stage_of st' = Text" "\<not> name_state st'" "\<not> open_state st'" "st' \<noteq> DataState"
  shows "good nocr eof ns s (endTagNameBlock ns st' tz s c)"
proof -
  note n = name_state_fits [OF assms(2,3)]
  have app: "tz_fits nocr ns (appendToPossibleEndTag (ucast (convertASCIIAlphaToLower c)) (appendToTemporaryBuffer c tz))"
    if "isASCIIAlpha c"
    using n assms(3) that alphabetic_snoc [OF that n(3)] by (auto simp: tz_fits_def buffer_fits_def reference_fits_def
        alpha_simps alpha_lower_ASCII lower_snoc name_state_def)
  show ?thesis
    unfolding endTagNameBlock_def
    using assms app rejectEndTag_fits [OF assms(2,3)] good_commitPartial [OF assms(1) _ _ assms(2,3)]
    by (auto simp: whitespace_ASCII alpha_simps intro!: good_ADVANCE_NN good_RECONSUME good_commitComplete dest: alpha_not)
qed

section \<open>Character references\<close>

lemma decoder_source:
  assumes "src_ok nocr eof s" "decoder_ok s (success, dec, notEnough, s')"
  shows "src_ok nocr eof s'" "m_isClosed s' = m_isClosed s" "length (ss_chars s') \<le> length (ss_chars s)"
    "eof \<Longrightarrow> \<not> notEnough" "0 \<notin> set dec" "\<not> success \<Longrightarrow> dec = []"
proof -
  have v: "ss_inv s'" "ss_asserts s'" "m_isClosed s' = m_isClosed s"
    using assms by (auto simp: decoder_ok_def src_ok_def)
  have "\<exists>p. ss_chars s = p @ ss_chars s' \<and> 0 \<notin> set p"
    using assms(2) reference_list_not by (cases success) (force simp: decoder_ok_def)+
  then obtain p where p: "ss_chars s = p @ ss_chars s'" "0 \<notin> set p" by blast
  have z: "0 \<in> set (ss_chars s)" if eof
    using assms(1) last_in_set [of "ss_chars s"] that by (auto simp: src_ok_def)
  then have "eof \<Longrightarrow> ss_chars s' \<noteq> []" using p by auto
  then show "src_ok nocr eof s'" using assms(1) v p by (auto simp: src_ok_def)
  show "m_isClosed s' = m_isClosed s" "length (ss_chars s') \<le> length (ss_chars s)" using v p by simp_all
  have "list_all reference_char (ss_chars s) \<Longrightarrow> 0 \<notin> set (ss_chars s)" using reference_list_not by blast
  then show "eof \<Longrightarrow> \<not> notEnough"
    using assms(2) z by (auto simp: decoder_ok_def split: if_splits)
  show "0 \<notin> set dec" "\<not> success \<Longrightarrow> dec = []" using assms(2) by (auto simp: decoder_ok_def split: if_splits)
qed

lemma bufferCharacters_fits:
  "0 \<notin> set cs \<Longrightarrow> token_fits Text (m_token tz) \<Longrightarrow> tz_base nocr tz \<Longrightarrow>
     token_fits Text (m_token (fold bufferCharacter cs tz)) \<and> tz_base nocr (fold bufferCharacter cs tz)
     \<and> m_bufferedEndTagName (fold bufferCharacter cs tz) = m_bufferedEndTagName tz"
  by (induction cs arbitrary: tz) (simp_all add: appendToCharacter_fits)

lemma good_reference_RETURN:
  assumes "tz_fits nocr st tz" "src_ok nocr eof s'" "m_isClosed s' = m_isClosed s"
    "length (ss_chars s') \<le> length (ss_chars s)" "\<not> eof"
  shows "good nocr eof st s (RETURN_IN_CURRENT_STATE st (haveBufferedCharacterToken tz) tz s')"
  using good_RETURN [OF assms(1-4)] assms(5) by simp

text \<open>A reference in text, for the state \<open>st\<close> that decodes it and the state \<open>st'\<close> that goes on.\<close>

definition entity_block :: "HTMLEntityTable \<Rightarrow> State \<Rightarrow> State \<Rightarrow> HTMLTokenizer \<Rightarrow> SegmentedString \<Rightarrow> outcome option" where
  "entity_block tbl st st' tz s =
     (case processEntity tbl tz s of
        None \<Rightarrow> None
      | Some (False, tz, s) \<Rightarrow> RETURN_IN_CURRENT_STATE st (haveBufferedCharacterToken tz) tz s
      | Some (True, tz, s) \<Rightarrow> SWITCH_TO st' tz s)"

lemma entity_block_good:
  assumes tbl: "entity_table_ok tbl" "letters_covered tbl" and r: "reading nocr eof s c" "tz_fits nocr st tz"
    and st: "stage_of st = Text" "\<not> name_state st" "stage_of st' = Text" "\<not> name_state st'" "\<not> open_state st'" "rank st' < rank st"
  shows "good nocr eof st s (entity_block tbl st st' tz s)"
proof -
  have src: "src_ok nocr eof s" "ss_inv s" "ss_chars s \<noteq> []"
    using r(1) by (simp_all add: reading_def src_ok_def shown_def)
  obtain success dec notEnough s' where
    e: "consumeHTMLEntity tbl s 0 = Some (success, dec, notEnough, s')" "decoder_ok s (success, dec, notEnough, s')"
    using consumeHTMLEntity_view [OF tbl src(2,3), of 0] by (metis insertCI prod_cases4)
  note d = decoder_source [OF src(1) e(2)]
  have t: "tz_base nocr tz" "token_fits Text (m_token tz)" "m_bufferedEndTagName tz = []"
    using r(2) st by (simp_all add: tz_fits_def buffer_fits_def)
  have st'': "st' \<noteq> CharacterReferenceInAttributeValueState" using st(3) by (auto simp: stage_of_def)
  show ?thesis
  proof (cases notEnough)
    case True
    then have "\<not> eof" using d(4) by blast
    then show ?thesis
      using good_reference_RETURN [OF r(2) d(1-3)] True e(1) by (simp add: entity_block_def processEntity_def)
  next
    case False
    let ?tz = "if success then fold bufferCharacter dec tz else bufferASCIICharacter chr_amp (tz_assert (dec = []) tz)"
    have "tz_fits nocr st' ?tz"
      using t d(5,6) st st'' bufferCharacters_fits [OF d(5) t(2,1)]
      by (auto simp: tz_fits_def buffer_fits_def reference_fits_def intro!: token_fits_intros)
    then have "good nocr eof st s (SWITCH_TO st' ?tz s')"
      using d(1-3) st(6) by (intro good_SWITCH) (auto simp: progress_def)
    then show ?thesis using e(1) False by (auto simp: entity_block_def processEntity_def)
  qed
qed

lemma do_CharacterReferenceInDataState_good:
  assumes "entity_table_ok tbl" "letters_covered tbl" "reading nocr eof s c" "tz_fits nocr CharacterReferenceInDataState tz"
  shows "good nocr eof CharacterReferenceInDataState s (do_CharacterReferenceInDataState tbl tz s c)"
  using entity_block_good [OF assms, of DataState]
  by (simp add: do_CharacterReferenceInDataState_def entity_block_def stage_of_def name_state_def open_state_def rank_def)

lemma do_CharacterReferenceInRCDATAState_good:
  assumes "entity_table_ok tbl" "letters_covered tbl" "reading nocr eof s c" "tz_fits nocr CharacterReferenceInRCDATAState tz"
  shows "good nocr eof CharacterReferenceInRCDATAState s (do_CharacterReferenceInRCDATAState tbl tz s c)"
  using entity_block_good [OF assms, of RCDATAState]
  by (simp add: do_CharacterReferenceInRCDATAState_def entity_block_def stage_of_def name_state_def open_state_def rank_def)

lemma do_CharacterReferenceInAttributeValueState_good:
  assumes tbl: "entity_table_ok tbl" "letters_covered tbl" and r: "reading nocr eof s c"
    and tz: "tz_fits nocr CharacterReferenceInAttributeValueState tz"
  shows "good nocr eof CharacterReferenceInAttributeValueState s (do_CharacterReferenceInAttributeValueState tbl tz s c)"
proof -
  let ?a = "m_additionalAllowedCharacter tz"
  have src: "src_ok nocr eof s" "ss_inv s" "ss_chars s \<noteq> []"
    using r by (simp_all add: reading_def src_ok_def shown_def)
  have t: "tz_base nocr tz" "token_fits InAttribute (m_token tz)" "m_bufferedEndTagName tz = []"
    "?a \<in> {chr_quot, chr_apos, chr_gt}"
    using tz by (simp_all add: fits_simps)
  then have "?a \<in> {0, chr_quot, chr_apos, chr_gt}" by simp
  from consumeHTMLEntity_view [OF tbl src(2,3) this] obtain success dec notEnough s' where
    e: "consumeHTMLEntity tbl s ?a = Some (success, dec, notEnough, s')" "decoder_ok s (success, dec, notEnough, s')"
    by (metis prod_cases4)
  note d = decoder_source [OF src(1) e(2)]
  show ?thesis
  proof (cases notEnough)
    case True
    then have "\<not> eof" using d(4) by blast
    then show ?thesis
      using good_reference_RETURN [OF tz d(1-3)] True e(1) by (simp add: do_CharacterReferenceInAttributeValueState_def)
  next
    case False
    define tz1 where "tz1 = (if \<not> success then withToken (appendToAttributeValue chr_amp) (tz_assert (dec = []) tz)
      else withToken (fold appendToAttributeValue dec) tz)"
    have f: "tz_base nocr tz1" "token_fits InAttribute (m_token tz1)" "m_bufferedEndTagName tz1 = []"
      "m_additionalAllowedCharacter tz1 = ?a"
      using t d(5,6) by (auto simp: tz1_def intro!: token_fits_intros)
    have sw: "good nocr eof CharacterReferenceInAttributeValueState s (SWITCH_TO st' tz2 s')"
      if "st' \<in> {AttributeValueDoubleQuotedState, AttributeValueSingleQuotedState, AttributeValueUnquotedState}"
        "tz2 = tz1 \<or> tz2 = tz_assert True tz1" for st' tz2
      using d(1-3) f that by (intro good_SWITCH) (auto simp: progress_def rank_def fits_simps)
    have "do_CharacterReferenceInAttributeValueState tbl tz s c =
      (if ?a = chr_quot then SWITCH_TO AttributeValueDoubleQuotedState tz1 s'
       else if ?a = chr_apos then SWITCH_TO AttributeValueSingleQuotedState tz1 s'
       else SWITCH_TO AttributeValueUnquotedState (tz_assert (?a = chr_gt) tz1) s')"
      using e(1) False f(4) unfolding tz1_def by (simp add: do_CharacterReferenceInAttributeValueState_def Let_def)
    then show ?thesis using sw t(4) by auto
  qed
qed

end
