(* ===== verification/Html_Tokenizer_Safety.thy ===== *)
theory Html_Tokenizer_Safety
  imports Html_Tokenizer_Invariant
begin

text \<open>
  The tokenizer as a whole: following the jumps between the blocks always ends, and \<open>processToken\<close>
  leads from one resting state to another. The last part is about sessions, the sequences of calls
  by which a parser feeds text to a tokenizer and takes tokens from it.
\<close>

section \<open>Keywords\<close>

text \<open>
  A keyword is matched and consumed, or the text is as it was; it is undecided only when less text
  than the keyword is left. A keyword has no null character, so the end-of-file marker is kept.
\<close>

lemma keyword_source:
  assumes "src_ok nocr eof s" "literal_ok ic literal" "length literal \<le> 10" "literal \<noteq> []" "0 \<notin> set literal"
    "SegmentedString_advancePast ic literal s = (r, s')"
  shows "src_ok nocr eof s'" "m_isClosed s' = m_isClosed s"
    "r = DidMatch \<Longrightarrow> length (ss_chars s') < length (ss_chars s)"
    "r \<noteq> DidMatch \<Longrightarrow> ss_chars s' = ss_chars s"
proof -
  have inv: "ss_inv s" "ss_asserts s" using assms(1) by (simp_all add: src_ok_def)
  note v = advancePast_view [OF inv(1) assms(2,3,6)]
  have m: "if r = DidMatch then starts_with ic (ss_chars s) literal \<and> moved (length literal) s s' else moved 0 s s'"
    using v by (auto split: if_splits)
  show "m_isClosed s' = m_isClosed s" using m by (auto simp: moved_def split: if_splits)
  show l: "r = DidMatch \<Longrightarrow> length (ss_chars s') < length (ss_chars s)"
    using m assms(4) by (cases literal) (auto simp: moved_def starts_with_def split: if_splits)
  show same: "r \<noteq> DidMatch \<Longrightarrow> ss_chars s' = ss_chars s" using m by (auto simp: moved_def)
  have z: "\<not> (starts_with ic (ss_chars s) literal \<and> length literal = length (ss_chars s))"
    if eof
  proof
    assume st: "starts_with ic (ss_chars s) literal \<and> length literal = length (ss_chars s)"
    have ne: "ss_chars s \<noteq> []" "last (ss_chars s) = 0" using assms(1) that by (auto simp: src_ok_def)
    let ?i = "length (ss_chars s) - 1"
    have i: "?i < length literal" using st ne by (cases "ss_chars s") auto
    have "\<not> characterMismatch (ss_chars s ! ?i) (literal ! ?i) ic" using st i by (simp add: starts_with_def)
    then have "\<not> characterMismatch 0 (literal ! ?i) ic" using ne by (simp add: last_conv_nth)
    moreover have "literal ! ?i \<in> set literal" using i by (rule nth_mem)
    ultimately show False
      using assms(2,5) by (auto simp: characterMismatch_def literal_ok_def isASCIIAlphaCaselessEqual_iff
          isASCIILower_def split: if_splits)
  qed
  have e: "ss_chars s' \<noteq> []" "last (ss_chars s') = last (ss_chars s)" if eof
  proof -
    have "r = DidMatch \<Longrightarrow> length literal < length (ss_chars s)"
      using z [OF that] m by (auto simp: starts_with_def split: if_splits)
    then show "ss_chars s' \<noteq> []" "last (ss_chars s') = last (ss_chars s)"
      using m that assms(1) by (auto simp: moved_def src_ok_def split: if_splits)
  qed
  show "src_ok nocr eof s'"
    using m inv assms(1) e by (auto simp: src_ok_def moved_def split: if_splits dest: in_set_dropD)
qed

lemma reading_same:
  "reading nocr eof s c \<Longrightarrow> src_ok nocr eof s' \<Longrightarrow> m_isClosed s' = m_isClosed s \<Longrightarrow> ss_chars s' = ss_chars s
     \<Longrightarrow> reading nocr eof s' c"
  by (simp add: reading_def)

lemma good_same: "ss_chars s' = ss_chars s \<Longrightarrow> m_isClosed s' = m_isClosed s \<Longrightarrow> good nocr eof st s' x = good nocr eof st s x"
proof -
  assume a: "ss_chars s' = ss_chars s" "m_isClosed s' = m_isClosed s"
  have "outcome_ok nocr eof st s' y = outcome_ok nocr eof st s y" for y
    using a by (cases y) (simp_all add: progress_def returned_def)
  then show ?thesis by (simp add: good_def)
qed

lemma keyword_good:
  assumes r: "reading nocr eof s c"
    and lit: "literal_ok ic literal" "length literal \<le> 10" "literal \<noteq> []" "0 \<notin> set literal"
    and res: "SegmentedString_advancePast ic literal s = (r, s')"
    and tz: "tz_fits nocr st tz" "lookahead_state st"
    and matched: "tz_fits nocr st' tz1"
    and failed: "\<And>s'. reading nocr eof s' c \<Longrightarrow> good nocr eof st s' (k s')"
  shows "good nocr eof st s (case r of
      DidMatch \<Rightarrow> SWITCH_TO st' tz1 s'
    | NotEnoughCharacters \<Rightarrow> RETURN_IN_CURRENT_STATE st (haveBufferedCharacterToken tz) tz s'
    | DidNotMatch \<Rightarrow> k s')"
proof -
  note v = keyword_source [OF reading_src [OF r] lit res]
  show ?thesis
  proof (cases r)
    case DidMatch
    then show ?thesis using v matched by (auto intro!: good_SWITCH simp: progress_def)
  next
    case NotEnoughCharacters
    moreover have "\<not> haveBufferedCharacterToken tz"
      using tz by (auto simp: lookahead_state_def tz_fits_def stage_of_def token_fits_def haveBufferedCharacterToken_def)
    ultimately show ?thesis using good_RETURN [OF tz(1) v(1,2)] v(4) tz(2) by simp
  next
    case DidNotMatch
    then have "ss_chars s' = ss_chars s" using v(4) by simp
    moreover from this have "good nocr eof st s' (k s')" using reading_same [OF r v(1,2)] failed by blast
    ultimately show ?thesis using DidNotMatch v(2) by (simp add: good_same [of s' s])
  qed
qed

text \<open>The keywords of the syntax.\<close>

lemma keyword_literals:
  "literal_ok False (lit ''--'')" "literal_ok True (lit ''doctype'')" "literal_ok False (lit ''[CDATA['')"
  "literal_ok True (lit ''public'')" "literal_ok True (lit ''system'')"
  by (simp_all add: literal_ok_def isASCIILower_def)

lemma case_result: "(case x of (DidMatch, s') \<Rightarrow> f s' | (NotEnoughCharacters, s') \<Rightarrow> g s' | (DidNotMatch, s') \<Rightarrow> k s') =
    (case fst x of DidMatch \<Rightarrow> f (snd x) | NotEnoughCharacters \<Rightarrow> g (snd x) | DidNotMatch \<Rightarrow> k (snd x))"
  by (cases x; cases "fst x") auto

lemma do_MarkupDeclarationOpenState_good:
  assumes r: "reading nocr eof s c" and tz: "tz_fits nocr MarkupDeclarationOpenState tz"
  shows "good nocr eof MarkupDeclarationOpenState s (do_MarkupDeclarationOpenState tz s c)"
proof -
  have fresh: "tz_base nocr tz" "token_fits Fresh (m_token tz)" "m_bufferedEndTagName tz = []"
    using tz by (simp_all add: fits_simps)
  have bogus: "good nocr eof MarkupDeclarationOpenState s' (RECONSUME_IN BogusCommentState tz s' c)"
    if "reading nocr eof s' c" for s'
    using that fresh by (intro good_RECONSUME) (simp_all add: rank_def fits_simps)
  have to: "tz_fits nocr CommentStartState (withToken beginComment tz)" "tz_fits nocr DOCTYPEState tz"
    "tz_fits nocr CDATASectionState tz"
    using fresh by (auto simp: fits_simps token_fits_weaken intro: beginComment_fits)
  note kw = keyword_good [OF r _ _ _ _ prod.collapse [symmetric] tz _ _ bogus]
  show ?thesis
    unfolding do_MarkupDeclarationOpenState_def case_result advancePast_def advancePastLettersIgnoringASCIICase_def
    using r bogus kw [OF keyword_literals(1) _ _ _ _ to(1)] kw [OF keyword_literals(2) _ _ _ _ to(2)] kw [OF keyword_literals(3) _ _ _ _ to(3)]
    by (simp add: lookahead_state_def)
qed

lemma do_AfterDOCTYPENameState_good:
  assumes r: "reading nocr eof s c" and tz: "tz_fits nocr AfterDOCTYPENameState tz"
  shows "good nocr eof AfterDOCTYPENameState s (do_AfterDOCTYPENameState tz s c)"
proof -
  have d: "tz_base nocr tz" "token_fits Doctype (m_token tz)" "m_bufferedEndTagName tz = []"
    using tz by (simp_all add: fits_simps)
  have to: "tz_fits nocr AfterDOCTYPEPublicKeywordState tz" "tz_fits nocr AfterDOCTYPESystemKeywordState tz"
    "tz_fits nocr BogusDOCTYPEState (withToken setForceQuirks tz)"
    using d by (auto simp: fits_simps intro: setForceQuirks_fits)
  have bogus: "good nocr eof AfterDOCTYPENameState s' (ADVANCE_PAST_NON_NEWLINE_TO BogusDOCTYPEState (withToken setForceQuirks tz) s')"
    if "reading nocr eof s' c" "c \<noteq> 0 \<and> \<not> isTokenizerWhitespace c" for s'
    using that to(3) by (auto intro!: good_ADVANCE_NN dest: not_whitespace_lf)
  have rest: "good nocr eof AfterDOCTYPENameState s (do_AfterDOCTYPENameState tz s c)"
    if "isTokenizerWhitespace c \<or> c = chr_gt \<or> c = 0"
    using that r tz d unfolding do_AfterDOCTYPENameState_def
    by (auto simp: block_simps intro!: good_intros good_doctype)
  note kw = keyword_good [OF r _ _ _ _ prod.collapse [symmetric] tz _ _ bogus]
  show ?thesis
  proof (cases "isTokenizerWhitespace c \<or> c = chr_gt \<or> c = 0")
    case True
    then show ?thesis by (rule rest)
  next
    case False
    then show ?thesis
      unfolding do_AfterDOCTYPENameState_def case_result advancePastLettersIgnoringASCIICase_def
      using r bogus kw [OF keyword_literals(4) _ _ _ _ to(1)] kw [OF keyword_literals(5) _ _ _ _ to(2)]
      by (simp add: lookahead_state_def)
  qed
qed

lemma do_EndTagNameState_good:
  "reading nocr eof s c \<Longrightarrow> tz_fits nocr RCDATAEndTagNameState tz \<Longrightarrow>
     good nocr eof RCDATAEndTagNameState s (do_RCDATAEndTagNameState tz s c)"
  "reading nocr eof s c \<Longrightarrow> tz_fits nocr RAWTEXTEndTagNameState tz \<Longrightarrow>
     good nocr eof RAWTEXTEndTagNameState s (do_RAWTEXTEndTagNameState tz s c)"
  "reading nocr eof s c \<Longrightarrow> tz_fits nocr ScriptDataEndTagNameState tz \<Longrightarrow>
     good nocr eof ScriptDataEndTagNameState s (do_ScriptDataEndTagNameState tz s c)"
  "reading nocr eof s c \<Longrightarrow> tz_fits nocr ScriptDataEscapedEndTagNameState tz \<Longrightarrow>
     good nocr eof ScriptDataEscapedEndTagNameState s (do_ScriptDataEscapedEndTagNameState tz s c)"
  unfolding do_RCDATAEndTagNameState_def do_RAWTEXTEndTagNameState_def do_ScriptDataEndTagNameState_def
    do_ScriptDataEscapedEndTagNameState_def
  by (simp_all add: endTagNameBlock_good name_state_def open_state_def stage_of_def rank_def)

section \<open>Following the jumps\<close>

lemmas blocks_good = do_RCDATAState_good do_RAWTEXTState_good do_ScriptDataState_good
  do_PLAINTEXTState_good do_TagOpenState_good do_EndTagOpenState_good do_TagNameState_good
  do_RCDATALessThanSignState_good do_RCDATAEndTagOpenState_good do_EndTagNameState_good
  do_RAWTEXTLessThanSignState_good do_RAWTEXTEndTagOpenState_good
  do_ScriptDataLessThanSignState_good do_ScriptDataEndTagOpenState_good
  do_ScriptDataEscapeStartState_good
  do_ScriptDataEscapeStartDashState_good do_ScriptDataEscapedState_good
  do_ScriptDataEscapedDashState_good do_ScriptDataEscapedDashDashState_good
  do_ScriptDataEscapedLessThanSignState_good do_ScriptDataEscapedEndTagOpenState_good
  do_ScriptDataDoubleEscapeStartState_good
  do_ScriptDataDoubleEscapedState_good do_ScriptDataDoubleEscapedDashState_good
  do_ScriptDataDoubleEscapedDashDashState_good do_ScriptDataDoubleEscapedLessThanSignState_good
  do_ScriptDataDoubleEscapeEndState_good do_BeforeAttributeNameState_good do_AttributeNameState_good
  do_AfterAttributeNameState_good do_BeforeAttributeValueState_good
  do_AttributeValueDoubleQuotedState_good do_AttributeValueSingleQuotedState_good
  do_AttributeValueUnquotedState_good do_AfterAttributeValueQuotedState_good
  do_SelfClosingStartTagState_good do_BogusCommentState_good do_ContinueBogusCommentState_good
  do_MarkupDeclarationOpenState_good do_CommentStartState_good do_CommentStartDashState_good
  do_CommentState_good do_CommentEndDashState_good do_CommentEndState_good do_CommentEndBangState_good
  do_DOCTYPEState_good do_BeforeDOCTYPENameState_good do_DOCTYPENameState_good
  do_AfterDOCTYPENameState_good do_AfterDOCTYPEPublicKeywordState_good
  do_BeforeDOCTYPEPublicIdentifierState_good do_DOCTYPEPublicIdentifierDoubleQuotedState_good
  do_DOCTYPEPublicIdentifierSingleQuotedState_good do_AfterDOCTYPEPublicIdentifierState_good
  do_BetweenDOCTYPEPublicAndSystemIdentifiersState_good do_AfterDOCTYPESystemKeywordState_good
  do_BeforeDOCTYPESystemIdentifierState_good do_DOCTYPESystemIdentifierDoubleQuotedState_good
  do_DOCTYPESystemIdentifierSingleQuotedState_good do_AfterDOCTYPESystemIdentifierState_good
  do_BogusDOCTYPEState_good do_CDATASectionState_good do_CDATASectionRightSquareBracketState_good
  do_CDATASectionDoubleRightSquareBracketState_good
  do_CharacterReferenceInDataState_good do_CharacterReferenceInRCDATAState_good
  do_CharacterReferenceInAttributeValueState_good do_DataState_good

lemma step_good:
  assumes "entity_table_ok tbl" "letters_covered tbl" "reading nocr eof s c"
    "tz_fits nocr st tz \<or> tz_ends nocr st c tz"
  shows "good nocr eof st s (step tbl st tz s c)"
proof (cases "st = DataState")
  case True
  then show ?thesis using do_DataState_good assms by (simp add: step_def)
next
  case False
  then have "tz_fits nocr st tz" using assms(4) by (simp add: tz_ends_def)
  then show ?thesis using assms(1-3) by (cases st) (simp_all add: step_def blocks_good)
qed

text \<open>The run of the blocks ends and returns with the invariant.\<close>

lemma run_returned:
  assumes tbl: "entity_table_ok tbl" "letters_covered tbl"
    and "reading nocr eof s c" "tz_fits nocr st tz \<or> tz_ends nocr st c tz"
  shows "\<exists>b tz' s'. run tbl st tz s c = Some (b, tz', s') \<and> returned nocr eof s b tz' s'"
  using assms(3-)
proof (induction "(length (ss_chars s), rank st)" arbitrary: s st tz c
    rule: wf_induct_rule [OF wf_lex_prod [OF wf_less_than wf_less_than]])
  case (1 s st tz c)
  from step_good [OF tbl 1(2,3)] obtain o' where
    o: "step tbl st tz s c = Some o'" "outcome_ok nocr eof st s o'" by (auto simp: good_def)
  show ?case
  proof (cases o')
    case (Return b tz' s')
    then show ?thesis using o by (subst run.simps) simp
  next
    case (Goto st' tz' s' c')
    then have g: "reading nocr eof s' c'" "tz_fits nocr st' tz' \<or> tz_ends nocr st' c' tz'" "progress st s st' s'"
      "m_isClosed s' = m_isClosed s" using o(2) by simp_all
    have "((length (ss_chars s'), rank st'), (length (ss_chars s), rank st)) \<in> less_than <*lex*> less_than"
      using g(3) by (auto simp: progress_def)
    from 1(1) [OF this g(1,2)] obtain b tz'' s'' where
      r: "run tbl st' tz' s' c' = Some (b, tz'', s'')" "returned nocr eof s' b tz'' s''" by blast
    have "returned nocr eof s b tz'' s''" using r(2) g(3,4) by (auto simp: returned_def progress_def split: if_splits)
    then show ?thesis using o(1) Goto r(1) by (subst run.simps) simp
  qed
qed

section \<open>One call of the tokenizer\<close>

lemma flush_rests:
  assumes "resting nocr tz" "pending tz"
  shows "tz_base nocr (flushBufferedEndTag tz)" "token_fits Tag (m_token (flushBufferedEndTag tz))"
    "m_bufferedEndTagName (flushBufferedEndTag tz) = []" "m_state (flushBufferedEndTag tz) = m_state tz"
    "m_state tz \<noteq> DataState \<Longrightarrow> tz_fits nocr (m_state tz) (flushBufferedEndTag tz)"
proof -
  have a: "tz_base nocr tz" "token_fits Fresh (m_token tz)" "m_bufferedEndTagName tz \<noteq> []"
    "list_all name_char (map ucast (m_bufferedEndTagName tz))"
    "m_state tz \<in> {DataState, BeforeAttributeNameState, SelfClosingStartTagState}"
    using assms by (simp_all add: resting_def pending_def)
  then show "tz_base nocr (flushBufferedEndTag tz)" "token_fits Tag (m_token (flushBufferedEndTag tz))"
    "m_bufferedEndTagName (flushBufferedEndTag tz) = []" "m_state (flushBufferedEndTag tz) = m_state tz"
    using beginEndTag_vector_fits [OF a(2-4)] by (simp_all add: flushBufferedEndTag_def)
  show "tz_fits nocr (m_state tz) (flushBufferedEndTag tz)" if "m_state tz \<noteq> DataState"
    using a(5) that by (intro flush_fits [OF a(1-4)]) (auto simp: stage_of_def name_state_def open_state_def)
qed

text \<open>\<open>processToken\<close> after the pending end tag has been dealt with.\<close>

definition resume ::
    "HTMLEntityTable \<Rightarrow> HTMLTokenizer \<Rightarrow> SegmentedString \<Rightarrow> (bool \<times> HTMLTokenizer \<times> SegmentedString) option" where
  "resume tbl tz source =
     (case peek (m_forceNullCharacterReplacement tz) (isNullCharacterSkippingState (m_state tz))
             (m_preprocessor tz) source of
        None \<Rightarrow> None
      | Some (found, preprocessor, source1) \<Rightarrow>
          let tz1 = tz\<lparr>m_preprocessor := preprocessor\<rparr> in
          if \<not> found then Some (haveBufferedCharacterToken tz1, tz1, source1)
          else run tbl (m_state tz1) tz1 source1 (m_nextInputCharacter preprocessor))"

lemma processToken_eq:
  "processToken tbl tz source =
     (if pending tz then
        if m_state (flushBufferedEndTag tz) = DataState then Some (True, flushBufferedEndTag tz, source)
        else resume tbl (flushBufferedEndTag tz) source
      else resume tbl tz source)"
  by (simp add: processToken_def resume_def pending_def Let_def)

lemma resume_returned:
  assumes tbl: "entity_table_ok tbl" "letters_covered tbl" and tz: "tz_fits nocr (m_state tz) tz" and s: "src_ok nocr eof s"
  shows "\<exists>b tz' s'. resume tbl tz s = Some (b, tz', s') \<and> returned nocr eof s b tz' s'"
proof -
  from peek_reading [OF s] obtain b p' s' where
    pk: "peek (m_forceNullCharacterReplacement tz) (isNullCharacterSkippingState (m_state tz))
      (m_preprocessor tz) s = Some (b, p', s')" "m_isClosed s' = m_isClosed s" "suffix (ss_chars s') (ss_chars s)"
    "if b then reading nocr eof s' (m_nextInputCharacter p') else src_ok nocr eof s' \<and> ss_chars s' = [] \<and> \<not> eof"
    by blast
  let ?tz = "tz\<lparr>m_preprocessor := p'\<rparr>"
  have len: "length (ss_chars s') \<le> length (ss_chars s)" using pk(3) by (rule suffix_length_le)
  have tz': "tz_fits nocr (m_state tz) ?tz" using tz by simp
  show ?thesis
  proof (cases b)
    case True
    then obtain b2 tz2 s2 where r: "run tbl (m_state tz) ?tz s' (m_nextInputCharacter p') = Some (b2, tz2, s2)"
      "returned nocr eof s' b2 tz2 s2"
      using run_returned [OF tbl, of nocr eof s' "m_nextInputCharacter p'" "m_state tz" ?tz] pk(4) tz' by auto
    then have "returned nocr eof s b2 tz2 s2" using pk(2) len by (auto simp: returned_def split: if_splits)
    then show ?thesis using pk(1) True r(1) by (simp add: resume_def Let_def)
  next
    case False
    have "returned nocr eof s (haveBufferedCharacterToken ?tz) (?tz\<lparr>m_state := m_state tz\<rparr>) s'"
      using returned_in_state [OF tz', of eof s' s] pk False len by auto
    then show ?thesis using pk(1) False by (simp add: resume_def Let_def)
  qed
qed

lemma processToken_returned:
  assumes tbl: "entity_table_ok tbl" "letters_covered tbl" and tz: "resting nocr tz" and s: "src_ok nocr eof s"
  shows "\<exists>b tz' s'. processToken tbl tz s = Some (b, tz', s') \<and> returned nocr eof s b tz' s'"
proof (cases "pending tz")
  case False
  then have "tz_fits nocr (m_state tz) tz" using tz by (simp add: resting_def)
  then show ?thesis
    using resume_returned [OF tbl _ s] False by (simp add: processToken_eq)
next
  case True
  let ?tz = "flushBufferedEndTag tz"
  note f = flush_rests [OF tz True]
  show ?thesis
  proof (cases "m_state tz = DataState")
    case False
    then have "tz_fits nocr (m_state ?tz) ?tz" using f by simp
    then show ?thesis
      using resume_returned [OF tbl _ s, of ?tz] True False f(4) by (simp add: processToken_eq)
  next
    case t: True
    have "m_type (m_token ?tz) \<noteq> Uninitialized \<and> m_type (m_token ?tz) \<noteq> EndOfFile"
      using f(2) by (auto simp: token_fits_def isTag_def)
    moreover have "resting nocr (withToken HTMLToken_clear ?tz)"
    proof -
      have "?tz\<lparr>m_state := DataState\<rparr> = ?tz" using t f(4) by simp
      then show ?thesis using data_rests [OF f(1,3)] f(2) by (simp add: token_fits_def)
    qed
    ultimately have "returned nocr eof s True ?tz s"
      using s f t by (auto simp: returned_def token_fits_def)
    then show ?thesis using True t f(4) by (intro exI [of _ True]) (simp add: processToken_eq)
  qed
qed

text \<open>
  In front of the end-of-file marker a call from the data state consumes something, so that the
  number of calls until the end of the file is bounded by the length of the text.
\<close>

lemma peek_eof:
  assumes "src_ok nocr True s"
  obtains p' s' where "peek ns sk p s = Some (True, p', s')" "suffix (ss_chars s') (ss_chars s)"
    "reading nocr True s' (m_nextInputCharacter p')"
proof -
  from peek_reading [OF assms] obtain b p' s' where
    "peek ns sk p s = Some (b, p', s')" "suffix (ss_chars s') (ss_chars s)"
    "if b then reading nocr True s' (m_nextInputCharacter p') else src_ok nocr True s' \<and> ss_chars s' = [] \<and> \<not> True"
    by blast
  then show ?thesis using that by (cases b) auto
qed

definition jumps :: "outcome option \<Rightarrow> bool" where
  "jumps x \<longleftrightarrow> (\<exists>st tz s c. x = Some (Goto st tz s c))"

lemma afterPeek_jumps: "src_ok nocr True s \<Longrightarrow> jumps (afterPeek st tz (peek ns sk p s))"
  by (rule peek_eof [of nocr s ns sk p]) (auto simp: jumps_def afterPeek_def Let_def)

lemma data_step_eof:
  assumes r: "reading nocr True s c" and "c \<noteq> 0" "\<not> haveBufferedCharacterToken tz"
  shows "jumps (do_DataState tz s c)"
proof -
  have a: "jumps (ADVANCE_TO st tz s)" for st tz
    unfolding ADVANCE_TO_def preprocessor_advance_def
    by (rule afterPeek_jumps [OF reading_step(1) [OF r assms(2) SegmentedString_advance_advanced [OF reading_inv [OF r]]]])
  have n: "jumps (ADVANCE_PAST_NON_NEWLINE_TO st tz s)" if "c \<noteq> chr_lf" for st tz
    unfolding ADVANCE_PAST_NON_NEWLINE_TO_def preprocessor_advancePastNonNewline_def
    by (rule afterPeek_jumps [OF reading_step(1) [OF r assms(2)
            advancePastNonNewline_advanced [OF reading_inv [OF r] reading_newline [OF r that]]]])
  show ?thesis using assms(2,3) a n by (simp add: do_DataState_def)
qed

lemma data_call_consumes:
  assumes tbl: "entity_table_ok tbl" "letters_covered tbl" and tz: "tz_fits nocr DataState tz" "m_state tz = DataState"
    "\<not> haveBufferedCharacterToken tz" and s: "src_ok nocr True s" and call: "resume tbl tz s = Some (b, tz', s')"
  shows "length (ss_chars s') < length (ss_chars s)"
proof -
  from peek_eof [OF s] obtain p1 s1 where
    pk: "peek (m_forceNullCharacterReplacement tz) (isNullCharacterSkippingState (m_state tz))
      (m_preprocessor tz) s = Some (True, p1, s1)" "suffix (ss_chars s1) (ss_chars s)"
    "reading nocr True s1 (m_nextInputCharacter p1)"
    by blast
  define tz1 c where "tz1 = tz\<lparr>m_preprocessor := p1\<rparr>" and "c = m_nextInputCharacter p1"
  have run: "run tbl DataState tz1 s1 c = Some (b, tz', s')"
    using call pk(1) tz(2) by (simp add: resume_def Let_def tz1_def c_def)
  have fits: "tz_fits nocr DataState tz1" "\<not> haveBufferedCharacterToken tz1" using tz by (simp_all add: tz1_def)
  have len: "length (ss_chars s1) \<le> length (ss_chars s)" using pk(2) by (rule suffix_length_le)
  have r: "reading nocr True s1 c" using pk(3) by (simp add: c_def)
  show ?thesis
  proof (cases "c = 0")
    case True
    then have "run tbl DataState tz1 s1 c = Some (True,
        withToken (\<lambda>t. makeEndOfFile (HTMLToken_clear t)) (tz1\<lparr>m_state := DataState\<rparr>), SegmentedString_advance s1)"
      using fits(2) by (subst run.simps) (simp add: step_def do_DataState_def emitEndOfFile_def)
    then have "s' = SegmentedString_advance s1" using run by simp
    then have "ss_chars s' = tl (ss_chars s1)"
      using SegmentedString_advance_advanced [OF reading_inv [OF r]] by (simp add: advanced_def)
    then show ?thesis using len reading_nonempty [OF r] by (cases "ss_chars s1") auto
  next
    case False
    then obtain st2 tz2 s2 c2 where g: "step tbl DataState tz1 s1 c = Some (Goto st2 tz2 s2 c2)"
      using data_step_eof [OF r _ fits(2)] by (auto simp: step_def jumps_def)
    from step_good [OF tbl r, of DataState tz1] fits g
    have ok: "reading nocr True s2 c2" "tz_fits nocr st2 tz2 \<or> tz_ends nocr st2 c2 tz2" "progress DataState s1 st2 s2"
      by (auto simp: good_def)
    have "run tbl st2 tz2 s2 c2 = Some (b, tz', s')" using run g by (subst (asm) run.simps) simp
    then have "returned nocr True s2 b tz' s'" using run_returned [OF tbl ok(1,2)] by auto
    then have "length (ss_chars s') \<le> length (ss_chars s2)" by (simp add: returned_def)
    moreover have "length (ss_chars s2) < length (ss_chars s1)" using ok(3) by (simp add: progress_def rank_def)
    ultimately show ?thesis using len by linarith
  qed
qed

end
