(* ===== verification/Html_Input_Stream.thy ===== *)
theory Html_Input_Stream
  imports Segmented_String_View
begin

text \<open>
  The input stream of the document parser, \<open>Source/WebCore/html/parser/HTMLInputStream.h\<close>: the
  source the tokenizer reads, and behind it one source per nested insertion point. Text from the
  network goes to the end, text written by a script to the current insertion point.

  The insertion point records live on the stack of the running scripts. The model keeps them as a
  list, the outermost first, in the record of the stream; the pointer \<open>m_last\<close> is a value of the
  datatype \<open>stream_pointer\<close>.
\<close>

section \<open>Definitions\<close>

datatype stream_pointer = PointFirst | PointNext nat

record InsertionPointRecord =
  ipr_next :: SegmentedString
  ipr_line :: int
  ipr_column :: int

record HTMLInputStream =
  is_first :: SegmentedString
  is_last :: stream_pointer
  is_records :: "InsertionPointRecord list"

definition HTMLInputStream_new :: HTMLInputStream where
  "HTMLInputStream_new = \<lparr>is_first = SegmentedString_default, is_last = PointFirst, is_records = []\<rparr>"

text \<open>Access through the pointer \<open>m_last\<close>.\<close>

definition lastString :: "HTMLInputStream \<Rightarrow> SegmentedString" where
  "lastString st = (case is_last st of PointFirst \<Rightarrow> is_first st | PointNext i \<Rightarrow> ipr_next (is_records st ! i))"

definition updateLast :: "(SegmentedString \<Rightarrow> SegmentedString) \<Rightarrow> HTMLInputStream \<Rightarrow> HTMLInputStream" where
  "updateLast f st =
     (case is_last st of
        PointFirst \<Rightarrow> st\<lparr>is_first := f (is_first st)\<rparr>
      | PointNext i \<Rightarrow>
          st\<lparr>is_records := (is_records st)
               [i := (is_records st ! i)\<lparr>ipr_next := f (ipr_next (is_records st ! i))\<rparr>]\<rparr>)"

definition appendToEnd :: "SegmentedString \<Rightarrow> HTMLInputStream \<Rightarrow> HTMLInputStream" where
  "appendToEnd string = updateLast (SegmentedString_append string)"

definition insertAtCurrentInsertionPoint :: "SegmentedString \<Rightarrow> HTMLInputStream \<Rightarrow> HTMLInputStream" where
  "insertAtCurrentInsertionPoint string st = st\<lparr>is_first := SegmentedString_append string (is_first st)\<rparr>"

definition hasInsertionPoint :: "HTMLInputStream \<Rightarrow> bool" where
  "hasInsertionPoint st \<longleftrightarrow> is_last st \<noteq> PointFirst"

definition markEndOfFile :: "HTMLInputStream \<Rightarrow> HTMLInputStream" where
  "markEndOfFile =
     updateLast (\<lambda>s. SegmentedString_close
       (SegmentedString_appendString \<lparr>str_is8Bit = True, str_chars = [0]\<rparr> s))"

definition closeWithoutMarkingEndOfFile :: "HTMLInputStream \<Rightarrow> HTMLInputStream" where
  "closeWithoutMarkingEndOfFile = updateLast SegmentedString_close"

definition haveSeenEndOfFile :: "HTMLInputStream \<Rightarrow> bool" where
  "haveSeenEndOfFile st \<longleftrightarrow> m_isClosed (lastString st)"

text \<open>\<open>splitInto\<close> the string of a record that is about to become the innermost one.\<close>

definition splitInto :: "int \<Rightarrow> int \<Rightarrow> HTMLInputStream \<Rightarrow> HTMLInputStream" where
  "splitInto line column st =
     (let (next, first) = SegmentedString_moveAssign (is_first st) in
      st\<lparr>is_first := first,
         is_last := (if is_last st = PointFirst then PointNext (length (is_records st)) else is_last st),
         is_records := is_records st @ [\<lparr>ipr_next = next, ipr_line = line, ipr_column = column\<rparr>]\<rparr>)"

text \<open>\<open>mergeFrom\<close> the string of the innermost record, which is then destroyed.\<close>

definition mergeFrom :: "HTMLInputStream \<Rightarrow> HTMLInputStream" where
  "mergeFrom st =
     (let i = length (is_records st) - 1;
          next = ipr_next (is_records st ! i);
          first = SegmentedString_append next (is_first st)
      in st\<lparr>is_first := (if m_isClosed next then SegmentedString_close first else first),
            is_last := (if is_last st = PointNext i then PointFirst else is_last st),
            is_records := butlast (is_records st)\<rparr>)"

definition InsertionPointRecord_new :: "HTMLInputStream \<Rightarrow> HTMLInputStream" where
  "InsertionPointRecord_new st =
     (let line = currentLine (is_first st);
          column = sint (currentColumn (is_first st));
          st1 = splitInto line column st
      in st1\<lparr>is_first := setCurrentPosition line column 0 (is_first st1)\<rparr>)"

definition InsertionPointRecord_destroy :: "HTMLInputStream \<Rightarrow> HTMLInputStream" where
  "InsertionPointRecord_destroy st =
     (let r = last (is_records st);
          unparsedRemainderLength = SegmentedString_length (is_first st);
          st1 = mergeFrom st
      in st1\<lparr>is_first := setCurrentPosition (ipr_line r) (ipr_column r) (int unparsedRemainderLength)
               (is_first st1)\<rparr>)"

section \<open>Invariant and view\<close>

text \<open>
  The text of the stream: what the tokenizer reads next, then the rest of each insertion point, the
  innermost first. Only the last string may be closed.
\<close>

definition pieces :: "HTMLInputStream \<Rightarrow> SegmentedString list" where
  "pieces st = is_first st # rev (map ipr_next (is_records st))"

definition stream_chars :: "HTMLInputStream \<Rightarrow> uchar list" where
  "stream_chars st = concat (map ss_chars (pieces st))"

definition stream_inv :: "HTMLInputStream \<Rightarrow> bool" where
  "stream_inv st \<longleftrightarrow> list_all (\<lambda>s. ss_inv s \<and> ss_asserts s) (pieces st)
     \<and> list_all (\<lambda>s. \<not> m_isClosed s) (butlast (pieces st))
     \<and> is_last st = (if is_records st = [] then PointFirst else PointNext 0)"

lemma setCurrentPosition_frame [simp]:
  "ss_inv (setCurrentPosition l c n s) = ss_inv s" "ss_chars (setCurrentPosition l c n s) = ss_chars s"
  "m_isClosed (setCurrentPosition l c n s) = m_isClosed s" "ss_asserts (setCurrentPosition l c n s) = ss_asserts s"
  by (simp_all add: setCurrentPosition_def ss_inv_def ss_chars_def dispatch_ok_def Let_def)

lemma new_view: "stream_inv HTMLInputStream_new" "stream_chars HTMLInputStream_new = []"
  "\<not> haveSeenEndOfFile HTMLInputStream_new"
proof -
  have "ss_asserts SegmentedString_default" "\<not> m_isClosed SegmentedString_default"
    by (simp_all add: SegmentedString_default_def)
  then show "stream_inv HTMLInputStream_new" "stream_chars HTMLInputStream_new = []"
    "\<not> haveSeenEndOfFile HTMLInputStream_new"
    using default_view by (simp_all add: HTMLInputStream_new_def stream_inv_def stream_chars_def pieces_def
        haveSeenEndOfFile_def lastString_def)
qed

lemma lastString_eq: "stream_inv st \<Longrightarrow> lastString st = last (pieces st)"
  by (cases "is_records st") (auto simp: stream_inv_def lastString_def pieces_def)

lemma updateLast_pieces:
  assumes "stream_inv st"
  shows "pieces (updateLast f st) = butlast (pieces st) @ [f (last (pieces st))]"
    "is_last (updateLast f st) = is_last st" "is_records (updateLast f st) = [] \<longleftrightarrow> is_records st = []"
  using assms by (cases "is_records st"; auto simp: stream_inv_def updateLast_def pieces_def butlast_append)+

text \<open>Replacing the last string by an open or a closed one keeps the invariant.\<close>

lemma updateLast_view:
  assumes "stream_inv st" "ss_inv (f (lastString st))" "ss_asserts (f (lastString st))"
  shows "stream_inv (updateLast f st)" "lastString (updateLast f st) = f (lastString st)"
    "ss_chars (f (lastString st)) = ss_chars (lastString st) @ cs \<Longrightarrow> stream_chars (updateLast f st) = stream_chars st @ cs"
proof -
  note p = updateLast_pieces [OF assms(1), of f]
  have ne: "pieces st \<noteq> []" by (simp add: pieces_def)
  have old: "list_all (\<lambda>s. ss_inv s \<and> ss_asserts s) (butlast (pieces st))"
    using assms(1) by (auto simp: stream_inv_def list_all_iff dest: in_set_butlastD)
  show i: "stream_inv (updateLast f st)"
    using p assms old lastString_eq [OF assms(1)] unfolding stream_inv_def [of "updateLast f st"]
    by (simp add: stream_inv_def)
  show "lastString (updateLast f st) = f (lastString st)"
    using lastString_eq [OF i] lastString_eq [OF assms(1)] p by simp
  define bs where "bs = butlast (pieces st)"
  have "pieces st = bs @ [lastString st]" "pieces (updateLast f st) = bs @ [f (lastString st)]"
    using ne p(1) lastString_eq [OF assms(1)] by (simp_all add: bs_def)
  then show "ss_chars (f (lastString st)) = ss_chars (lastString st) @ cs \<Longrightarrow> stream_chars (updateLast f st) = stream_chars st @ cs"
    by (simp add: stream_chars_def)
qed

lemma lastString_inv: "stream_inv st \<Longrightarrow> ss_inv (lastString st) \<and> ss_asserts (lastString st)"
  using last_in_set [of "pieces st"] by (auto simp: lastString_eq stream_inv_def list_all_iff pieces_def)

lemma appendToEnd_view:
  assumes "stream_inv st" "\<not> haveSeenEndOfFile st" "ss_inv string"
  shows "stream_inv (appendToEnd string st)" "stream_chars (appendToEnd string st) = stream_chars st @ ss_chars string"
    "\<not> haveSeenEndOfFile (appendToEnd string st)"
proof -
  note a = append_view [of "lastString st" string] lastString_inv [OF assms(1)]
  note u = updateLast_view [OF assms(1), of "SegmentedString_append string"]
  show "stream_inv (appendToEnd string st)" "stream_chars (appendToEnd string st) = stream_chars st @ ss_chars string"
    "\<not> haveSeenEndOfFile (appendToEnd string st)"
    using a u assms(2,3) by (simp_all add: appendToEnd_def haveSeenEndOfFile_def)
qed

lemma markEndOfFile_view:
  assumes "stream_inv st" "\<not> haveSeenEndOfFile st"
  shows "stream_inv (markEndOfFile st)" "stream_chars (markEndOfFile st) = stream_chars st @ [0]"
    "haveSeenEndOfFile (markEndOfFile st)"
proof -
  let ?sub = "Substring_of_String \<lparr>str_is8Bit = True, str_chars = [0]\<rparr>"
  note a = appendSubstring_view [of "lastString st" ?sub] lastString_inv [OF assms(1)]
  note u = updateLast_view [OF assms(1), of "\<lambda>s. SegmentedString_close (appendSubstring ?sub s)"]
  show "stream_inv (markEndOfFile st)" "stream_chars (markEndOfFile st) = stream_chars st @ [0]"
    "haveSeenEndOfFile (markEndOfFile st)"
    using a u assms(2) by (simp_all add: markEndOfFile_def haveSeenEndOfFile_def SegmentedString_appendString_def close_view)
qed

lemma insert_view:
  assumes "stream_inv st" "\<not> m_isClosed (is_first st)" "ss_inv string"
  shows "stream_inv (insertAtCurrentInsertionPoint string st)"
    "stream_chars (insertAtCurrentInsertionPoint string st) =
       ss_chars (is_first st) @ ss_chars string @ drop (length (ss_chars (is_first st))) (stream_chars st)"
    "haveSeenEndOfFile (insertAtCurrentInsertionPoint string st) = haveSeenEndOfFile st"
proof -
  have f: "ss_inv (is_first st)" "ss_asserts (is_first st)" using assms(1) by (simp_all add: stream_inv_def pieces_def)
  note a = append_view [OF f(1) assms(3)]
  show i: "stream_inv (insertAtCurrentInsertionPoint string st)"
    using assms a f by (auto simp: stream_inv_def insertAtCurrentInsertionPoint_def pieces_def split: if_splits)
  show "stream_chars (insertAtCurrentInsertionPoint string st) =
       ss_chars (is_first st) @ ss_chars string @ drop (length (ss_chars (is_first st))) (stream_chars st)"
    using a by (simp add: stream_chars_def pieces_def insertAtCurrentInsertionPoint_def)
  show "haveSeenEndOfFile (insertAtCurrentInsertionPoint string st) = haveSeenEndOfFile st"
    using a assms(2) by (auto simp: haveSeenEndOfFile_def lastString_def insertAtCurrentInsertionPoint_def
        split: stream_pointer.splits)
qed

lemma moveAssign_view:
  "fst (SegmentedString_moveAssign s) = s" "ss_inv (snd (SegmentedString_moveAssign s))"
  "ss_chars (snd (SegmentedString_moveAssign s)) = []" "\<not> m_isClosed (snd (SegmentedString_moveAssign s))"
  "ss_asserts s \<Longrightarrow> ss_asserts (snd (SegmentedString_moveAssign s))"
  by (simp_all add: SegmentedString_moveAssign_def clear_view)
    (simp_all add: SegmentedString_clear_def updateAdvanceFunctionPointersForEmptyString_def ss_assert_def)

lemma open_view:
  assumes "stream_inv st"
  shows "stream_inv (InsertionPointRecord_new st)" "stream_chars (InsertionPointRecord_new st) = stream_chars st"
    "ss_chars (is_first (InsertionPointRecord_new st)) = []" "hasInsertionPoint (InsertionPointRecord_new st)"
    "haveSeenEndOfFile (InsertionPointRecord_new st) = haveSeenEndOfFile st"
proof -
  let ?first = "snd (SegmentedString_moveAssign (is_first st))"
  note m = moveAssign_view [of "is_first st"]
  have f: "ss_asserts (is_first st)" using assms by (simp add: stream_inv_def pieces_def)
  define l c where "l = currentLine (is_first st)" and "c = sint (currentColumn (is_first st))"
  have n: "InsertionPointRecord_new st =
    st\<lparr>is_first := setCurrentPosition l c 0 ?first,
       is_last := (if is_last st = PointFirst then PointNext (length (is_records st)) else is_last st),
       is_records := is_records st @ [\<lparr>ipr_next = is_first st, ipr_line = l, ipr_column = c\<rparr>]\<rparr>"
    using m(1) by (cases st) (simp add: InsertionPointRecord_new_def splitInto_def Let_def split_beta l_def c_def)
  have p: "pieces (InsertionPointRecord_new st) = setCurrentPosition l c 0 ?first # pieces st"
    unfolding n by (simp add: pieces_def)
  show i: "stream_inv (InsertionPointRecord_new st)"
    using assms m(2,4) m(5) [OF f] unfolding stream_inv_def p by (auto simp: n pieces_def)
  show "stream_chars (InsertionPointRecord_new st) = stream_chars st"
    using m(3) unfolding stream_chars_def p by simp
  show "ss_chars (is_first (InsertionPointRecord_new st)) = []" "hasInsertionPoint (InsertionPointRecord_new st)"
    using m(3) by (simp_all add: n hasInsertionPoint_def)
  show "haveSeenEndOfFile (InsertionPointRecord_new st) = haveSeenEndOfFile st"
    unfolding haveSeenEndOfFile_def lastString_eq [OF i] lastString_eq [OF assms] p by (simp add: pieces_def)
qed

lemma stream_records:
  assumes "stream_inv st" "hasInsertionPoint st"
  shows "\<exists>rs r. is_records st = rs @ [r] \<and> pieces st = is_first st # ipr_next r # rev (map ipr_next rs)
    \<and> \<not> m_isClosed (is_first st)"
proof -
  have ne: "is_records st \<noteq> []" using assms by (auto simp: stream_inv_def hasInsertionPoint_def)
  then obtain rs r where rs: "is_records st = rs @ [r]" by (metis rev_exhaust)
  then show ?thesis using assms(1) by (auto simp: stream_inv_def pieces_def)
qed

lemma close_point_view:
  assumes "stream_inv st" "hasInsertionPoint st"
  shows "stream_inv (InsertionPointRecord_destroy st)" "stream_chars (InsertionPointRecord_destroy st) = stream_chars st"
    "haveSeenEndOfFile (InsertionPointRecord_destroy st) = haveSeenEndOfFile st"
proof -
  obtain rs r where rs: "is_records st = rs @ [r]" and p: "pieces st = is_first st # ipr_next r # rev (map ipr_next rs)"
    and op: "\<not> m_isClosed (is_first st)" using stream_records [OF assms] by blast
  have inv: "ss_inv (is_first st)" "ss_asserts (is_first st)" "ss_inv (ipr_next r)" "ss_asserts (ipr_next r)"
    using assms(1) p by (simp_all add: stream_inv_def)
  note a = append_view [OF inv(1,3)]
  define first where "first = (if m_isClosed (ipr_next r) then SegmentedString_close (SegmentedString_append (ipr_next r) (is_first st))
    else SegmentedString_append (ipr_next r) (is_first st))"
  have first: "ss_inv first" "ss_asserts first" "ss_chars first = ss_chars (is_first st) @ ss_chars (ipr_next r)"
    "m_isClosed first = m_isClosed (ipr_next r)"
    using a inv op by (simp_all add: first_def close_view)
  define l c k where "l = ipr_line r" and "c = ipr_column r" and "k = int (SegmentedString_length (is_first st))"
  have n: "InsertionPointRecord_destroy st =
    st\<lparr>is_first := setCurrentPosition l c k first,
       is_last := (if is_last st = PointNext (length rs) then PointFirst else is_last st), is_records := rs\<rparr>"
    using rs by (cases st) (simp add: InsertionPointRecord_destroy_def mergeFrom_def Let_def l_def c_def k_def first_def)
  have q: "pieces (InsertionPointRecord_destroy st) = setCurrentPosition l c k first # rev (map ipr_next rs)"
    unfolding n by (simp add: pieces_def)
  show i: "stream_inv (InsertionPointRecord_destroy st)"
    using assms(1) first rs unfolding stream_inv_def q p by (auto simp: n)
  show "stream_chars (InsertionPointRecord_destroy st) = stream_chars st"
    using first unfolding stream_chars_def q p by simp
  show "haveSeenEndOfFile (InsertionPointRecord_destroy st) = haveSeenEndOfFile st"
    using first(4) unfolding haveSeenEndOfFile_def lastString_eq [OF i] lastString_eq [OF assms(1)] q p by simp
qed

lemma insert_keeps_point:
  "hasInsertionPoint (insertAtCurrentInsertionPoint string st) = hasInsertionPoint st"
  "\<not> m_isClosed (is_first st) \<Longrightarrow> ss_inv (is_first st) \<Longrightarrow> ss_inv string \<Longrightarrow>
     ss_chars (is_first (insertAtCurrentInsertionPoint string st)) = ss_chars (is_first st) @ ss_chars string"
  using append_view [of "is_first st" string] by (simp_all add: insertAtCurrentInsertionPoint_def hasInsertionPoint_def)

section \<open>The interface to the script runner\<close>

text \<open>
  What the runner of scripts relies on: opening an insertion point and closing it again leave the
  text alone, and what is written in between lands in front of what was there.
\<close>

locale insertion_stream =
  fixes inv :: "'s \<Rightarrow> bool" and remaining ahead :: "'s \<Rightarrow> uchar list" and pointed :: "'s \<Rightarrow> bool"
    and openPoint closePoint :: "'s \<Rightarrow> 's" and put :: "'w \<Rightarrow> 's \<Rightarrow> 's"
    and written :: "'w \<Rightarrow> bool" and content :: "'w \<Rightarrow> uchar list"
  assumes open_law: "inv s \<Longrightarrow> inv (openPoint s) \<and> pointed (openPoint s) \<and> remaining (openPoint s) = remaining s \<and> ahead (openPoint s) = []"
    and write_law: "inv s \<Longrightarrow> pointed s \<Longrightarrow> written w \<Longrightarrow> inv (put w s) \<and> pointed (put w s)
      \<and> remaining (put w s) = ahead s @ content w @ drop (length (ahead s)) (remaining s) \<and> ahead (put w s) = ahead s @ content w"
    and close_law: "inv s \<Longrightarrow> pointed s \<Longrightarrow> inv (closePoint s) \<and> remaining (closePoint s) = remaining s"
    and ahead_law: "inv s \<Longrightarrow> \<exists>rest. remaining s = ahead s @ rest"
begin

lemma writes:
  "inv s \<Longrightarrow> pointed s \<Longrightarrow> list_all written ws \<Longrightarrow>
     inv (fold put ws s) \<and> pointed (fold put ws s)
     \<and> remaining (fold put ws s) = ahead s @ concat (map content ws) @ drop (length (ahead s)) (remaining s)
     \<and> ahead (fold put ws s) = ahead s @ concat (map content ws)"
proof (induction ws arbitrary: s)
  case Nil
  then show ?case using ahead_law by fastforce
next
  case (Cons w ws)
  have l: "inv (put w s)" "pointed (put w s)" "ahead (put w s) = ahead s @ content w"
    "remaining (put w s) = ahead s @ content w @ drop (length (ahead s)) (remaining s)"
    using write_law Cons.prems by simp_all
  then show ?case using Cons.IH [OF l(1,2)] Cons.prems(3) by simp
qed

lemma script_writes:
  assumes "inv s" "list_all written ws"
  shows "inv (closePoint (fold put ws (openPoint s))) \<and>
    remaining (closePoint (fold put ws (openPoint s))) = concat (map content ws) @ remaining s"
proof -
  have o: "inv (openPoint s)" "pointed (openPoint s)" "remaining (openPoint s) = remaining s" "ahead (openPoint s) = []"
    using open_law [OF assms(1)] by simp_all
  with writes [OF o(1,2) assms(2)] close_law show ?thesis by simp
qed

end

interpretation input_stream: insertion_stream stream_inv stream_chars "\<lambda>st. ss_chars (is_first st)" hasInsertionPoint
  InsertionPointRecord_new InsertionPointRecord_destroy insertAtCurrentInsertionPoint ss_inv ss_chars
proof unfold_locales
  fix s assume inv: "stream_inv s"
  then show "stream_inv (InsertionPointRecord_new s) \<and> hasInsertionPoint (InsertionPointRecord_new s)
      \<and> stream_chars (InsertionPointRecord_new s) = stream_chars s
      \<and> ss_chars (is_first (InsertionPointRecord_new s)) = []"
    using open_view by simp
  show "\<exists>rest. stream_chars s = ss_chars (is_first s) @ rest" by (simp add: stream_chars_def pieces_def)
  assume pt: "hasInsertionPoint s"
  then have op: "\<not> m_isClosed (is_first s)" using stream_records [OF inv] by blast
  have f: "ss_inv (is_first s)" using inv by (simp add: stream_inv_def pieces_def)
  show "stream_inv (InsertionPointRecord_destroy s) \<and> stream_chars (InsertionPointRecord_destroy s) = stream_chars s"
    using close_point_view [OF inv pt] by simp
  fix w assume w: "ss_inv w"
  show "stream_inv (insertAtCurrentInsertionPoint w s) \<and> hasInsertionPoint (insertAtCurrentInsertionPoint w s)
      \<and> stream_chars (insertAtCurrentInsertionPoint w s) = ss_chars (is_first s) @ ss_chars w @
          drop (length (ss_chars (is_first s))) (stream_chars s)
      \<and> ss_chars (is_first (insertAtCurrentInsertionPoint w s)) = ss_chars (is_first s) @ ss_chars w"
    using insert_view [OF inv op w] insert_keeps_point(1) [of w s] insert_keeps_point(2) [of s w] op f w pt by simp
qed

section \<open>Properties\<close>

text \<open>
  C15. What a script writes while it runs is read before anything that was left to read when the
  script started, in the order it was written, and nothing else changes: neither the rest of the
  text, nor whether the end of the file has been seen, nor any \<open>ASSERT\<close>. This holds for nested
  scripts as well, whatever insertion points are open already.
\<close>

theorem script_output_first:
  assumes "stream_inv st" "list_all ss_inv writes"
    and "st' = InsertionPointRecord_destroy (fold insertAtCurrentInsertionPoint writes (InsertionPointRecord_new st))"
  shows "stream_inv st' \<and> stream_chars st' = concat (map ss_chars writes) @ stream_chars st
    \<and> haveSeenEndOfFile st' = haveSeenEndOfFile st"
proof -
  let ?o = "InsertionPointRecord_new st" and ?w = "fold insertAtCurrentInsertionPoint writes (InsertionPointRecord_new st)"
  have o: "stream_inv ?o" "hasInsertionPoint ?o" "haveSeenEndOfFile ?o = haveSeenEndOfFile st"
    using open_view [OF assms(1)] by simp_all
  have "haveSeenEndOfFile (fold insertAtCurrentInsertionPoint ws s) = haveSeenEndOfFile s"
    if "stream_inv s" "hasInsertionPoint s" "list_all ss_inv ws" for ws s
    using that
  proof (induction ws arbitrary: s)
    case (Cons w ws)
    then have "\<not> m_isClosed (is_first s)" using stream_records by blast
    then show ?case
      using Cons insert_view [of s w] insert_keeps_point(1) [of w s] by simp
  qed simp
  then have "haveSeenEndOfFile ?w = haveSeenEndOfFile st" using o assms(2) by simp
  moreover have "stream_inv ?w" "hasInsertionPoint ?w" using input_stream.writes [OF o(1,2) assms(2)] by simp_all
  ultimately have "haveSeenEndOfFile st' = haveSeenEndOfFile st" using close_point_view(3) assms(3) by simp
  then show ?thesis using input_stream.script_writes [OF assms(1,2)] assms(3) by simp
qed

theorem script_output_first_witness:
  "stream_chars (InsertionPointRecord_destroy (insertAtCurrentInsertionPoint
      (SegmentedString_of_String \<lparr>str_is8Bit = True, str_chars = [0x62]\<rparr>)
      (insertAtCurrentInsertionPoint (SegmentedString_of_String \<lparr>str_is8Bit = True, str_chars = [0x61]\<rparr>)
        (InsertionPointRecord_new (appendToEnd (SegmentedString_of_String \<lparr>str_is8Bit = True, str_chars = [0x63]\<rparr>)
          HTMLInputStream_new))))) = [0x61, 0x62, 0x63]"
proof -
  let ?s = "\<lambda>c. SegmentedString_of_String \<lparr>str_is8Bit = True, str_chars = [c]\<rparr>"
  have s: "stream_inv (appendToEnd (?s 0x63) HTMLInputStream_new)"
    "stream_chars (appendToEnd (?s 0x63) HTMLInputStream_new) = [0x63]"
    using appendToEnd_view [OF new_view(1,3), of "?s 0x63"] new_view(2) by (simp_all add: of_String_view)
  show ?thesis
    using script_output_first [OF s(1) _ refl, of "[?s 0x61, ?s 0x62]"] s(2) by (simp add: of_String_view)
qed

end
