(* ===== verification/Html_Token_Session.thy ===== *)
theory Html_Token_Session
  imports Html_Tokenizer_Safety Html_Input_Stream
begin

text \<open>
  Sessions: what a document parser may do with a tokenizer and an input stream. Text arrives from
  the network or is written by scripts, the end of the file is marked, tokens are taken and let go,
  and after a start tag the tree builder may switch the tokenizer to another state. The properties
  of the tokenizer are stated for every state a session can reach.
\<close>

section \<open>Sessions\<close>

definition state_setters :: "(HTMLTokenizer \<Rightarrow> HTMLTokenizer) set" where
  "state_setters =
     {setDataState, setPLAINTEXTState, setRAWTEXTState, setRCDATAState, setScriptDataState} \<union> range updateStateFor"

definition option_setters :: "(HTMLTokenizer \<Rightarrow> HTMLTokenizer) set" where
  "option_setters =
     range setForceNullCharacterReplacement \<union> range setShouldAllowCDATA \<union> range setTokenAttributeBaseOffset"

inductive session :: "HTMLEntityTable \<Rightarrow> bool \<Rightarrow> HTMLTokenizer \<Rightarrow> HTMLInputStream \<Rightarrow> bool"
  for tbl nocr where
  start: "session tbl nocr (HTMLTokenizer_new options) HTMLInputStream_new"
| network: "session tbl nocr tz st \<Longrightarrow> \<not> haveSeenEndOfFile st \<Longrightarrow> ss_inv string \<Longrightarrow>
    nocr \<longrightarrow> chr_cr \<notin> set (ss_chars string) \<Longrightarrow> session tbl nocr tz (appendToEnd string st)"
| finish: "session tbl nocr tz st \<Longrightarrow> \<not> haveSeenEndOfFile st \<Longrightarrow> session tbl nocr tz (markEndOfFile st)"
| script: "session tbl nocr tz st \<Longrightarrow> session tbl nocr tz (InsertionPointRecord_new st)"
| written: "session tbl nocr tz st \<Longrightarrow> \<not> m_isClosed (is_first st) \<Longrightarrow> ss_inv string \<Longrightarrow>
    nocr \<longrightarrow> chr_cr \<notin> set (ss_chars string) \<Longrightarrow> session tbl nocr tz (insertAtCurrentInsertionPoint string st)"
| script_end: "session tbl nocr tz st \<Longrightarrow> hasInsertionPoint st \<Longrightarrow>
    session tbl nocr tz (InsertionPointRecord_destroy st)"
| taken: "session tbl nocr tz st \<Longrightarrow> nextToken tbl tz (is_first st) = Some (token, tz', s') \<Longrightarrow>
    session tbl nocr (TokenPtr_clear token tz') (st\<lparr>is_first := s'\<rparr>)"
| switched: "session tbl nocr tz st \<Longrightarrow> nextToken tbl tz (is_first st) = Some (Some token, tz', s') \<Longrightarrow>
    m_type token = StartTag \<Longrightarrow> f \<in> state_setters \<Longrightarrow>
    session tbl nocr (f (TokenPtr_clear (Some token) tz')) (st\<lparr>is_first := s'\<rparr>)"
| option_set: "session tbl nocr tz st \<Longrightarrow> f \<in> option_setters \<Longrightarrow> session tbl nocr (f tz) st"

section \<open>The invariant of a session\<close>

definition session_inv :: "bool \<Rightarrow> HTMLTokenizer \<Rightarrow> HTMLInputStream \<Rightarrow> bool" where
  "session_inv nocr tz st \<longleftrightarrow> resting nocr tz \<and> m_type (m_token tz) \<noteq> Character
     \<and> stream_inv st \<and> (nocr \<longrightarrow> chr_cr \<notin> set (stream_chars st))"

lemma tz_fits_data:
  "tz_base nocr tz \<Longrightarrow> token_fits Fresh (m_token tz) \<Longrightarrow> m_bufferedEndTagName tz = [] \<Longrightarrow>
     st \<in> {DataState, PLAINTEXTState, RAWTEXTState, RCDATAState, ScriptDataState} \<Longrightarrow> tz_fits nocr st tz"
  by (auto simp: fits_simps token_fits_weaken)

text \<open>Switching the state is harmless where a start tag has just been emitted.\<close>

lemma setter_rests:
  assumes "f \<in> state_setters" "tz_base nocr tz" "token_fits Fresh (m_token tz)" "m_bufferedEndTagName tz = []"
    "m_state tz = DataState"
  shows "resting nocr (f tz)" "m_token (f tz) = m_token tz"
proof -
  consider "f \<in> {setDataState, setPLAINTEXTState, setRAWTEXTState, setRCDATAState, setScriptDataState}"
    | name where "f = updateStateFor name" using assms(1) by (auto simp: state_setters_def)
  then have "\<exists>st \<in> {DataState, PLAINTEXTState, RAWTEXTState, RCDATAState, ScriptDataState}. f tz = tz\<lparr>m_state := st\<rparr>"
  proof cases
    case 1
    then show ?thesis
      by (auto simp: setDataState_def setPLAINTEXTState_def setRAWTEXTState_def setRCDATAState_def setScriptDataState_def)
  next
    case 2
    have "(if a then x1 else if b then x2 else if c then x3 else if d then x4 else x5) \<in> {x1, x2, x3, x4, x5}"
      for a b c d and x1 x2 x3 x4 x5 :: HTMLTokenizer by simp
    then have "f tz \<in> {tz\<lparr>m_state := RCDATAState\<rparr>, tz\<lparr>m_state := PLAINTEXTState\<rparr>,
        tz\<lparr>m_state := ScriptDataState\<rparr>, tz\<lparr>m_state := RAWTEXTState\<rparr>, tz}"
      unfolding 2 updateStateFor_def .
    moreover have "f tz = tz \<Longrightarrow> f tz = tz\<lparr>m_state := DataState\<rparr>" using assms(5) by simp
    ultimately show ?thesis by auto
  qed
  then obtain st where st: "st \<in> {DataState, PLAINTEXTState, RAWTEXTState, RCDATAState, ScriptDataState}"
    "f tz = tz\<lparr>m_state := st\<rparr>" by blast
  show "resting nocr (f tz)" unfolding st(2) by (rule resting_state [OF tz_fits_data [OF assms(2-4) st(1)]])
  show "m_token (f tz) = m_token tz" unfolding st(2) by simp
qed

lemma option_fields:
  assumes "f \<in> option_setters"
  shows "m_state (f tz) = m_state tz" "m_bufferedEndTagName (f tz) = m_bufferedEndTagName tz"
    "m_temporaryBuffer (f tz) = m_temporaryBuffer tz" "m_additionalAllowedCharacter (f tz) = m_additionalAllowedCharacter tz"
    "tz_asserts (f tz) = tz_asserts tz" "tz_rawAsserts (f tz) = tz_rawAsserts tz"
    "token_fits g (m_token (f tz)) = token_fits g (m_token tz)" "m_type (m_token (f tz)) = m_type (m_token tz)"
  using assms
  by (auto simp: option_setters_def setForceNullCharacterReplacement_def setShouldAllowCDATA_def
      setTokenAttributeBaseOffset_def withToken_def) (auto simp: setAttributeBaseOffset_def)

lemma option_rests:
  assumes "f \<in> option_setters"
  shows "resting nocr (f tz) = resting nocr tz"
  by (simp add: resting_def pending_def inEndTagBufferingState_iff tz_fits_def tz_base_def
      buffer_fits_def reference_fits_def option_fields [OF assms])

lemma new_rests: "resting nocr (HTMLTokenizer_new options)"
  using HTMLToken_new_fits token_fits_weaken(1)
  by (simp add: resting_def pending_def HTMLTokenizer_new_def fits_simps tz_base_def)

section \<open>One call in a session\<close>

lemma stream_source:
  assumes "stream_inv st" "nocr \<longrightarrow> chr_cr \<notin> set (stream_chars st)"
  shows "src_ok nocr False (is_first st)"
  using assms by (auto simp: src_ok_def stream_inv_def stream_chars_def pieces_def)

lemma stream_update:
  assumes "stream_inv st" "nocr \<longrightarrow> chr_cr \<notin> set (stream_chars st)" "src_ok nocr False s'" "m_isClosed s' = m_isClosed (is_first st)"
  shows "stream_inv (st\<lparr>is_first := s'\<rparr>)" "nocr \<longrightarrow> chr_cr \<notin> set (stream_chars (st\<lparr>is_first := s'\<rparr>))"
  using assms by (auto simp: src_ok_def stream_inv_def stream_chars_def pieces_def split: if_splits)

lemma call_keeps:
  assumes tbl: "entity_table_ok tbl" "letters_covered tbl" and inv: "session_inv nocr tz st"
  shows "\<exists>token tz' s'. nextToken tbl tz (is_first st) = Some (token, tz', s')
    \<and> session_inv nocr (TokenPtr_clear token tz') (st\<lparr>is_first := s'\<rparr>)
    \<and> (case token of None \<Rightarrow> True
       | Some t \<Rightarrow> token_ok t \<and> tok_asserts t \<and> m_type t \<noteq> Uninitialized \<and> t = m_token tz'
           \<and> (m_type t \<noteq> Character \<longrightarrow> m_state tz' = DataState \<and> m_bufferedEndTagName tz' = []))"
proof -
  have i: "resting nocr tz" "stream_inv st" "nocr \<longrightarrow> chr_cr \<notin> set (stream_chars st)"
    using inv by (simp_all add: session_inv_def)
  from processToken_returned [OF tbl i(1) stream_source [OF i(2,3)]] obtain b tz' s' where
    p: "processToken tbl tz (is_first st) = Some (b, tz', s')" "returned nocr False (is_first st) b tz' s'" by blast
  have s': "src_ok nocr False s'" "m_isClosed s' = m_isClosed (is_first st)" using p(2) by (simp_all add: returned_def)
  note u = stream_update [OF i(2,3) s']
  let ?tok = "if b then Some (m_token tz') else None"
  have "session_inv nocr (TokenPtr_clear ?tok tz') (st\<lparr>is_first := s'\<rparr>)"
    using p(2) u by (auto simp: session_inv_def returned_def TokenPtr_clear_def HTMLToken_clear_def)
  then show ?thesis using p by (auto simp: nextToken_def returned_def)
qed

lemma session_invariant:
  assumes "entity_table_ok tbl" "letters_covered tbl" "session tbl nocr tz st"
  shows "session_inv nocr tz st"
  using assms(3)
proof (induction rule: session.induct)
  case (start options)
  then show ?case
    using new_rests new_view by (simp add: session_inv_def HTMLTokenizer_new_def HTMLToken_new_def)
next
  case (network tz st string)
  then show ?case using appendToEnd_view [of st string] by (simp add: session_inv_def)
next
  case (finish tz st)
  then show ?case using markEndOfFile_view [of st] by (simp add: session_inv_def)
next
  case (script tz st)
  then show ?case using open_view [of st] by (simp add: session_inv_def)
next
  case (written tz st string)
  have "set (ss_chars (is_first st)) \<subseteq> set (stream_chars st)" by (auto simp: stream_chars_def pieces_def)
  then show ?case
    using written insert_view [of st string] by (auto simp: session_inv_def dest: in_set_dropD)
next
  case (script_end tz st)
  then show ?case using close_point_view [of st] by (simp add: session_inv_def)
next
  case (taken tz st token tz' s')
  then show ?case using call_keeps [OF assms(1,2) taken.IH] by auto
next
  case (switched tz st token tz' s' f)
  let ?tz = "TokenPtr_clear (Some token) tz'"
  have k: "session_inv nocr ?tz (st\<lparr>is_first := s'\<rparr>)" "m_state tz' = DataState" "m_bufferedEndTagName tz' = []"
    using call_keeps [OF assms(1,2) switched.IH] switched by auto
  then have "\<not> pending ?tz" "m_state ?tz = DataState" "m_bufferedEndTagName ?tz = []" "m_type (m_token ?tz) = Uninitialized"
    by (simp_all add: TokenPtr_clear_def pending_def HTMLToken_clear_def)
  moreover from this have "tz_base nocr ?tz" "token_fits Fresh (m_token ?tz)"
    using k(1) by (auto simp: session_inv_def resting_def tz_fits_def token_fits_def)
  ultimately show ?case
    using setter_rests [OF switched.hyps(4), of nocr ?tz] k(1) by (simp add: session_inv_def)
next
  case (option_set tz st f)
  then show ?case using option_rests [of f nocr tz] option_fields(8) [of f tz] by (simp add: session_inv_def)
qed

section \<open>Until the end of the file\<close>

text \<open>
  Taking tokens until there is none, or until the one that marks the end of the file, with at most
  the given number of calls.
\<close>

fun drain ::
    "HTMLEntityTable \<Rightarrow> nat \<Rightarrow> HTMLTokenizer \<Rightarrow> SegmentedString \<Rightarrow>
     (HTMLToken list \<times> HTMLTokenizer \<times> SegmentedString) option" where
  "drain tbl 0 tz s = Some ([], tz, s)"
| "drain tbl (Suc n) tz s =
     (case nextToken tbl tz s of
        None \<Rightarrow> None
      | Some (None, tz', s') \<Rightarrow> Some ([], tz', s')
      | Some (Some t, tz', s') \<Rightarrow>
          if m_type t = EndOfFile then Some ([t], TokenPtr_clear (Some t) tz', s')
          else map_option (\<lambda>(ts, r). (t # ts, r)) (drain tbl n (TokenPtr_clear (Some t) tz') s'))"

definition todo :: "HTMLTokenizer \<Rightarrow> SegmentedString \<Rightarrow> nat" where
  "todo tz s = 2 * length (ss_chars s) + (if m_state tz \<noteq> DataState \<or> m_bufferedEndTagName tz \<noteq> [] then 1 else 0)"

text \<open>A call in front of the end-of-file marker that emits another token leaves less to do.\<close>

lemma call_decreases:
  assumes tbl: "entity_table_ok tbl" "letters_covered tbl" and tz: "resting nocr tz" "m_type (m_token tz) \<noteq> Character"
    and s: "src_ok nocr True s" and call: "processToken tbl tz s = Some (True, tz', s')" "m_type (m_token tz') \<noteq> EndOfFile"
  shows "todo (TokenPtr_clear (Some t) tz') s' < todo tz s"
proof -
  have r: "returned nocr True s True tz' s'" using processToken_returned [OF tbl tz(1) s] call(1) by auto
  have f: "m_state (TokenPtr_clear (Some t) tz') = m_state tz'" "m_bufferedEndTagName (TokenPtr_clear (Some t) tz') = m_bufferedEndTagName tz'"
    by (simp_all add: TokenPtr_clear_def)
  have c: "length (ss_chars s') < length (ss_chars s) \<or> (m_state tz' = DataState \<and> m_bufferedEndTagName tz' = [])"
    "length (ss_chars s') \<le> length (ss_chars s)" using r by (simp_all add: returned_def)
  show ?thesis
  proof (cases "m_state tz = DataState \<and> m_bufferedEndTagName tz = []")
    case True
    then have np: "\<not> pending tz" by (simp add: pending_def)
    then have fits: "tz_fits nocr DataState tz" using tz(1) True by (simp add: resting_def)
    have "resume tbl tz s = Some (True, tz', s')" using call(1) np by (simp add: processToken_eq)
    from data_call_consumes [OF tbl fits _ _ s this] True tz(2)
    have "length (ss_chars s') < length (ss_chars s)" by (simp add: haveBufferedCharacterToken_def)
    then show ?thesis by (simp add: todo_def f)
  next
    case False
    then show ?thesis using c by (auto simp: todo_def f)
  qed
qed

lemma drain_ends:
  assumes tbl: "entity_table_ok tbl" "letters_covered tbl"
    and "resting nocr tz" "m_type (m_token tz) \<noteq> Character" "src_ok nocr True s" "todo tz s < n"
  shows "\<exists>ts tz' s'. drain tbl n tz s = Some (ts, tz', s') \<and> list_all (\<lambda>t. token_ok t \<and> m_type t \<noteq> Uninitialized) ts
    \<and> length ts \<le> n \<and> resting nocr tz' \<and> ss_inv s'
    \<and> ((ts \<noteq> [] \<and> m_type (last ts) = EndOfFile \<and> ss_chars s' = []) \<or> (lookahead_state (m_state tz') \<and> ss_chars s' \<noteq> []))"
  using assms(3-)
proof (induction n arbitrary: tz s)
  case (Suc n)
  from processToken_returned [OF tbl Suc.prems(1,3)] obtain b tz' s' where
    p: "processToken tbl tz s = Some (b, tz', s')" "returned nocr True s b tz' s'" by blast
  show ?case
  proof (cases b)
    case False
    then have "nextToken tbl tz s = Some (None, tz', s')" using p(1) by (simp add: nextToken_def)
    then show ?thesis using p(2) False by (auto simp: returned_def src_ok_def)
  next
    case True
    let ?t = "m_token tz'" and ?tz = "TokenPtr_clear (Some (m_token tz')) tz'"
    have nt: "nextToken tbl tz s = Some (Some ?t, tz', s')" using p(1) True by (simp add: nextToken_def)
    have ok: "token_ok ?t" "m_type ?t \<noteq> Uninitialized" "resting nocr ?tz" "m_type (m_token ?tz) \<noteq> Character"
      using p(2) True by (simp_all add: returned_def TokenPtr_clear_def HTMLToken_clear_def)
    show ?thesis
    proof (cases "m_type ?t = EndOfFile")
      case eof: True
      then show ?thesis using nt ok p(2) True by (simp add: returned_def src_ok_def)
    next
      case ne: False
      have "src_ok nocr True s'" using p(2) True ne by (simp add: returned_def)
      moreover have "todo ?tz s' < n"
        using call_decreases [OF tbl Suc.prems(1-3), of tz' s' ?t] p(1) True ne Suc.prems(4) by simp
      ultimately obtain ts tz2 s2 where d: "drain tbl n ?tz s' = Some (ts, tz2, s2)"
        "list_all (\<lambda>t. token_ok t \<and> m_type t \<noteq> Uninitialized) ts" "length ts \<le> n" "resting nocr tz2" "ss_inv s2"
        "(ts \<noteq> [] \<and> m_type (last ts) = EndOfFile \<and> ss_chars s2 = []) \<or> (lookahead_state (m_state tz2) \<and> ss_chars s2 \<noteq> [])"
        using Suc.IH [OF ok(3,4)] by blast
      have "drain tbl (Suc n) tz s = Some (?t # ts, tz2, s2)" using nt ne d(1) by simp
      then show ?thesis using d ok by auto
    qed
  qed
qed simp

section \<open>Properties\<close>



text \<open>
  C2. Every token the tokenizer emits is well-formed: it has a type; a character token is not empty;
  no text, name or value in it has a null character; the names of tags and attributes are not
  empty, have no upper-case ASCII letter, no white space, slash or greater-than sign; a DOCTYPE
  without a name forces quirks mode; and the 8-bit check is exact, so that the tree builder may
  narrow the text. After every token that is not text the tokenizer is in the data state.
\<close>

theorem emitted_token_wellformed:
  assumes "entity_table_ok tbl" "letters_covered tbl" "session tbl nocr tz st"
    and "nextToken tbl tz (is_first st) = Some (Some token, tz', s')"
  shows "token_ok token \<and> m_type token \<noteq> Uninitialized
    \<and> (charactersIsAll8BitData token \<longleftrightarrow> latin1 (m_data token))
    \<and> (m_type token \<noteq> Character \<longrightarrow> isInDataState tz')"
  using call_keeps [OF assms(1,2) session_invariant [OF assms(1-3)]] assms(4)
  by (auto simp: token_ok_def charactersIsAll8BitData_def isInDataState_def)



theorem emitted_token_wellformed_witness:
  "case nextToken small_table (HTMLTokenizer_new HTMLParserOptions_new)
     (is_first (appendToEnd (SegmentedString_of_String \<lparr>str_is8Bit = True, str_chars = [0x61]\<rparr>) HTMLInputStream_new)) of
     Some (Some t, tz', s') \<Rightarrow> token_ok t \<and> m_data t = [0x61]
   | _ \<Rightarrow> False"
proof -
  let ?st = "appendToEnd (SegmentedString_of_String \<lparr>str_is8Bit = True, str_chars = [0x61]\<rparr>) HTMLInputStream_new"
  have s: "session small_table True (HTMLTokenizer_new HTMLParserOptions_new) ?st"
    by (rule session.network [OF session.start]) (simp_all add: new_view of_String_view)
  have "case nextToken small_table (HTMLTokenizer_new HTMLParserOptions_new) (is_first ?st) of
     Some (Some t, tz', s') \<Rightarrow> m_data t = [0x61] | _ \<Rightarrow> False" by code_simp
  then show ?thesis
    using emitted_token_wellformed [OF small_table_ok small_table_letters s] by (auto split: option.splits)
qed

text \<open>
  C4. The end of the file is not enough to decide an unfinished keyword. In front of fewer
  characters than \<open>doctype\<close> that start with a \<open>d\<close>, or than \<open>public\<close> or \<open>system\<close> with a \<open>p\<close> or
  \<open>s\<close>, a call returns no token and leaves the state, the token and the text as they are, even if the
  source is closed: the rest of the document, its end included, is never emitted.
\<close>

theorem unfinished_keyword_stuck:
  assumes "ss_inv source" "m_bufferedEndTagName tz = []" "m_type (m_token tz) \<noteq> Character"
    and "ss_chars source = c # cs"
    and "(m_state tz = MarkupDeclarationOpenState \<and> isASCIIAlphaCaselessEqual c 0x64 \<and> length cs < 6)
      \<or> (m_state tz = AfterDOCTYPENameState \<and> (isASCIIAlphaCaselessEqual c 0x70 \<or> isASCIIAlphaCaselessEqual c 0x73)
          \<and> length cs < 5)"
  shows "\<exists>tz' source'. nextToken tbl tz source = Some (None, tz', source')
    \<and> m_state tz' = m_state tz \<and> m_token tz' = m_token tz \<and> m_bufferedEndTagName tz' = []
    \<and> ss_inv source' \<and> ss_chars source' = ss_chars source \<and> m_isClosed source' = m_isClosed source"
proof -
  have c: "c \<noteq> 0 \<and> c \<noteq> chr_lf \<and> c \<noteq> chr_cr \<and> c \<noteq> chr_dash \<and> c \<noteq> chr_gt \<and> \<not> isTokenizerWhitespace c"
    using assms(5) by (auto simp: isASCIIAlphaCaselessEqual_iff isTokenizerWhitespace_def)
  let ?sk = "isNullCharacterSkippingState (m_state tz)" and ?ns = "m_forceNullCharacterReplacement tz"
  from peek_view [OF assms(1)] obtain r where
    r: "peek ?ns ?sk (m_preprocessor tz) source = Some r" "peeked (?sk \<and> \<not> ?ns) (m_preprocessor tz) source r" by blast
  obtain b p s1 where rr: "r = (b, p, s1)" by (cases r)
  have pk: "b" "m_nextInputCharacter p = c" "ss_chars s1 = c # cs" "ss_inv s1" "m_isClosed s1 = m_isClosed source"
    using r(2) c assms(4) by (auto simp: peeked_def rr)
  let ?tz = "tz\<lparr>m_preprocessor := p\<rparr>"
  have keyword: "\<exists>s2. SegmentedString_advancePast True literal s1 = (NotEnoughCharacters, s2) \<and> moved 0 s1 s2"
    if "literal \<in> {lit ''doctype'', lit ''public'', lit ''system''}" "length cs + 1 < length literal" for literal
  proof -
    obtain q s2 where q: "SegmentedString_advancePast True literal s1 = (q, s2)" by (metis surj_pair)
    have "literal_ok True literal" "length literal \<le> 10" using that(1) keyword_literals by auto
    from advancePast_view [OF pk(4) this q] show ?thesis using q that(2) pk(3) by simp
  qed
  have not_have: "\<not> haveBufferedCharacterToken ?tz" using assms(3) by (simp add: haveBufferedCharacterToken_def)
  have "\<exists>s2. step tbl (m_state tz) ?tz s1 c = Some (Return False (?tz\<lparr>m_state := m_state tz\<rparr>) s2) \<and> moved 0 s1 s2"
    using assms(5)
  proof (elim disjE conjE)
    assume st: "m_state tz = MarkupDeclarationOpenState" "isASCIIAlphaCaselessEqual c 0x64" "length cs < 6"
    then obtain s2 where "SegmentedString_advancePast True (lit ''doctype'') s1 = (NotEnoughCharacters, s2)" "moved 0 s1 s2"
      using keyword [of "lit ''doctype''"] by auto
    then show ?thesis
      using st c not_have by (simp add: step_def do_MarkupDeclarationOpenState_def
          advancePastLettersIgnoringASCIICase_def RETURN_IN_CURRENT_STATE_def)
  next
    assume st: "m_state tz = AfterDOCTYPENameState" "length cs < 5" "isASCIIAlphaCaselessEqual c 0x70"
    then obtain s2 where "SegmentedString_advancePast True (lit ''public'') s1 = (NotEnoughCharacters, s2)" "moved 0 s1 s2"
      using keyword [of "lit ''public''"] by auto
    then show ?thesis
      using st c not_have by (simp add: step_def do_AfterDOCTYPENameState_def
          advancePastLettersIgnoringASCIICase_def RETURN_IN_CURRENT_STATE_def)
  next
    assume st: "m_state tz = AfterDOCTYPENameState" "length cs < 5" "isASCIIAlphaCaselessEqual c 0x73"
    then have "\<not> isASCIIAlphaCaselessEqual c 0x70" by (auto simp: isASCIIAlphaCaselessEqual_iff)
    moreover from st obtain s2 where "SegmentedString_advancePast True (lit ''system'') s1 = (NotEnoughCharacters, s2)" "moved 0 s1 s2"
      using keyword [of "lit ''system''"] by auto
    ultimately show ?thesis
      using st c not_have by (simp add: step_def do_AfterDOCTYPENameState_def
          advancePastLettersIgnoringASCIICase_def RETURN_IN_CURRENT_STATE_def)
  qed
  then obtain s2 where s2: "step tbl (m_state tz) ?tz s1 c = Some (Return False ?tz s2)" "moved 0 s1 s2" by auto
  have "run tbl (m_state tz) ?tz s1 c = Some (False, ?tz, s2)" using s2(1) by (subst run.simps) simp
  then have "nextToken tbl tz source = Some (None, ?tz, s2)"
    using r(1) rr pk assms(2) by (simp add: nextToken_def processToken_eq pending_def resume_def Let_def)
  then show ?thesis using s2(2) pk assms(2,4) by (auto simp: moved_def)
qed

theorem unfinished_keyword_stuck_witness:
  "\<exists>tz' source'. nextToken small_table ((HTMLTokenizer_new HTMLParserOptions_new)\<lparr>m_state := MarkupDeclarationOpenState\<rparr>)
     (SegmentedString_close (SegmentedString_of_String \<lparr>str_is8Bit = True, str_chars = [0x64, 0]\<rparr>)) = Some (None, tz', source')
   \<and> ss_chars source' = [0x64, 0] \<and> m_isClosed source'"
proof -
  let ?tz = "(HTMLTokenizer_new HTMLParserOptions_new)\<lparr>m_state := MarkupDeclarationOpenState\<rparr>"
  let ?s = "SegmentedString_close (SegmentedString_of_String \<lparr>str_is8Bit = True, str_chars = [0x64, 0]\<rparr>)"
  have "m_bufferedEndTagName ?tz = []" "m_type (m_token ?tz) \<noteq> Character"
    by (simp_all add: HTMLTokenizer_new_def HTMLToken_new_def)
  moreover have "isASCIIAlphaCaselessEqual 0x64 0x64" by (simp add: isASCIIAlphaCaselessEqual_iff)
  ultimately show ?thesis
    using unfinished_keyword_stuck [of ?s ?tz "0x64" "[0]" small_table] by (auto simp: close_view of_String_view)
qed


end
