(* ===== verification/Atomic_Html_Token.thy ===== *)
theory Atomic_Html_Token
  imports Html_Token_Invariant
begin

text \<open>
  What the tree builder gets of a token, \<open>Source/WebCore/html/parser/AtomicHTMLToken.h\<close>.

  An atomic string is the list of its code units and the null string is \<open>None\<close> where null is told
  apart. A qualified name is a local name with a namespace; prefixes take no part in what is modelled.
  The pointer to the characters of the token is the list it points at. Members the constructor leaves
  uninitialised have an arbitrary value, here a fixed one, and \<open>at_asserts\<close> records the assertions.
\<close>

section \<open>Names and attributes\<close>

type_synonym AtomicString = "uchar list"

record QualifiedName =
  qn_localName :: AtomicString
  qn_namespaceURI :: "AtomicString option"

record DomAttribute =
  da_name :: QualifiedName
  da_value :: AtomicString

fun findDomAttribute :: "DomAttribute list \<Rightarrow> QualifiedName \<Rightarrow> DomAttribute option" where
  "findDomAttribute [] name = None"
| "findDomAttribute (attribute # attributes) name =
     (if da_name attribute = name then Some attribute else findDomAttribute attributes name)"

fun hasAttribute :: "DomAttribute list \<Rightarrow> AtomicString \<Rightarrow> bool" where
  "hasAttribute [] localName = False"
| "hasAttribute (attribute # attributes) localName =
     (if qn_localName (da_name attribute) = localName then True else hasAttribute attributes localName)"

section \<open>The token\<close>

record AtomicHTMLToken =
  at_type :: TokenType
  at_name :: AtomicString
  at_data :: "uchar list"
  at_externalCharacters :: "uchar list"
  at_externalCharactersIsAll8BitData :: bool
  at_doctypeData :: "DoctypeData option"
  at_selfClosing :: bool
  at_attributes :: "DomAttribute list"
  at_asserts :: bool

definition htmlAttributeName :: "AtomicString \<Rightarrow> QualifiedName" where
  "htmlAttributeName localName = \<lparr>qn_localName = localName, qn_namespaceURI = None\<rparr>"

fun initializeAttributes :: "DomAttribute list \<Rightarrow> Attribute list \<Rightarrow> DomAttribute list" where
  "initializeAttributes atts [] = atts"
| "initializeAttributes atts (attribute # attributes) =
     (if attr_name attribute = [] then initializeAttributes atts attributes
      else if \<not> hasAttribute atts (attr_name attribute) then
        initializeAttributes
          (atts @ [\<lparr>da_name = htmlAttributeName (attr_name attribute), da_value = attr_value attribute\<rparr>])
          attributes
      else initializeAttributes atts attributes)"

definition make8BitFrom16BitSource :: "uchar list \<Rightarrow> lchar list" where
  "make8BitFrom16BitSource source = map ucast source"

definition AtomicHTMLToken_empty :: "TokenType \<Rightarrow> AtomicHTMLToken" where
  "AtomicHTMLToken_empty ty =
     \<lparr>at_type = ty, at_name = [], at_data = [], at_externalCharacters = [],
      at_externalCharactersIsAll8BitData = False, at_doctypeData = None, at_selfClosing = False,
      at_attributes = [], at_asserts = True\<rparr>"

definition AtomicHTMLToken_new :: "HTMLToken \<Rightarrow> AtomicHTMLToken \<times> HTMLToken" where
  "AtomicHTMLToken_new token =
     (let t = AtomicHTMLToken_empty (m_type token) in
      case m_type token of
        Uninitialized \<Rightarrow> (t\<lparr>at_asserts := False\<rparr>, token)
      | DOCTYPE \<Rightarrow>
          (case releaseDoctypeData token of (data, token') \<Rightarrow>
             (t\<lparr>at_name := m_data token, at_doctypeData := data\<rparr>, token'))
      | EndOfFile \<Rightarrow> (t, token)
      | StartTag \<Rightarrow>
          (t\<lparr>at_selfClosing := m_selfClosing token, at_name := m_data token,
             at_attributes := initializeAttributes [] (m_attributes token)\<rparr>, token)
      | EndTag \<Rightarrow>
          (t\<lparr>at_selfClosing := m_selfClosing token, at_name := m_data token,
             at_attributes := initializeAttributes [] (m_attributes token)\<rparr>, token)
      | Comment \<Rightarrow>
          (if commentIsAll8BitData token
           then (t\<lparr>at_data := map ucast (make8BitFrom16BitSource (m_data token))\<rparr>, token)
           else (t\<lparr>at_data := m_data token\<rparr>, token))
      | Character \<Rightarrow>
          (t\<lparr>at_externalCharacters := m_data token,
             at_externalCharactersIsAll8BitData := charactersIsAll8BitData token\<rparr>, token))"

definition AtomicHTMLToken_tag :: "TokenType \<Rightarrow> AtomicString \<Rightarrow> DomAttribute list \<Rightarrow> AtomicHTMLToken" where
  "AtomicHTMLToken_tag ty name attributes =
     (AtomicHTMLToken_empty ty)\<lparr>at_name := name, at_selfClosing := False, at_attributes := attributes,
        at_asserts := ty = StartTag \<or> ty = EndTag\<rparr>"

definition setName :: "AtomicString \<Rightarrow> AtomicHTMLToken \<Rightarrow> AtomicHTMLToken" where
  "setName name t =
     t\<lparr>at_name := name,
       at_asserts := at_asserts t \<and> (at_type t = StartTag \<or> at_type t = EndTag \<or> at_type t = DOCTYPE)\<rparr>"

text \<open>
  The accessors of a DOCTYPE; \<open>None\<close> is a null \<open>m_doctypeData\<close>, and inside it \<open>None\<close> is the null
  string.
\<close>

definition AtomicHTMLToken_forceQuirks :: "AtomicHTMLToken \<Rightarrow> bool option" where
  "AtomicHTMLToken_forceQuirks t = map_option forceQuirks (at_doctypeData t)"

definition AtomicHTMLToken_publicIdentifier :: "AtomicHTMLToken \<Rightarrow> uchar list option option" where
  "AtomicHTMLToken_publicIdentifier t =
     map_option (\<lambda>d. if \<not> hasPublicIdentifier d then None else Some (publicIdentifier d)) (at_doctypeData t)"

definition AtomicHTMLToken_systemIdentifier :: "AtomicHTMLToken \<Rightarrow> uchar list option option" where
  "AtomicHTMLToken_systemIdentifier t =
     map_option (\<lambda>d. if \<not> hasSystemIdentifier d then None else Some (systemIdentifier d)) (at_doctypeData t)"

section \<open>Attributes\<close>

definition attribute_names :: "DomAttribute list \<Rightarrow> AtomicString list" where
  "attribute_names atts = map (\<lambda>a. qn_localName (da_name a)) atts"

lemma attribute_names_simps [simp]:
  "attribute_names [] = []"
  "attribute_names (a # as) = qn_localName (da_name a) # attribute_names as"
  "attribute_names (as @ bs) = attribute_names as @ attribute_names bs"
  by (simp_all add: attribute_names_def)

lemma hasAttribute_iff [simp]: "hasAttribute atts n \<longleftrightarrow> n \<in> set (attribute_names atts)"
  by (induction atts) auto

text \<open>The lists the constructor makes: distinct, not empty names without a namespace.\<close>

definition html_attributes :: "DomAttribute list \<Rightarrow> bool" where
  "html_attributes atts \<longleftrightarrow> distinct (attribute_names atts) \<and> [] \<notin> set (attribute_names atts)
     \<and> list_all (\<lambda>a. qn_namespaceURI (da_name a) = None) atts"

lemma html_attributes_Nil [simp]: "html_attributes []"
  by (simp add: html_attributes_def)

lemma initializeAttributes_html:
  "html_attributes atts \<Longrightarrow> html_attributes (initializeAttributes atts as)"
  by (induction atts as rule: initializeAttributes.induct) (auto simp: html_attributes_def htmlAttributeName_def)

lemma findDomAttribute_append:
  "findDomAttribute (xs @ ys) n = (case findDomAttribute xs n of None \<Rightarrow> findDomAttribute ys n | Some a \<Rightarrow> Some a)"
  by (induction xs) auto

lemma findDomAttribute_None:
  "findDomAttribute xs n = None \<longleftrightarrow> n \<notin> set (map da_name xs)"
  by (induction xs) auto

lemma html_attributes_names:
  assumes "html_attributes atts" shows "htmlAttributeName n \<in> set (map da_name atts) \<longleftrightarrow> n \<in> set (attribute_names atts)"
proof -
  have "da_name a = htmlAttributeName n \<longleftrightarrow> qn_localName (da_name a) = n" if "a \<in> set atts" for a
    using that assms by (cases "da_name a") (auto simp: html_attributes_def list_all_iff htmlAttributeName_def dest!: bspec)
  then show ?thesis unfolding attribute_names_def by force
qed

lemma nameMatches_iff: "nameMatches a n \<longleftrightarrow> attr_name a = n"
  by (auto simp: nameMatches_def list_eq_iff_nth_eq)

text \<open>The first of several attributes with one name is the one that counts.\<close>

lemma initializeAttributes_find:
  assumes "html_attributes atts" "n \<noteq> []"
  shows "map_option da_value (findDomAttribute (initializeAttributes atts as) (htmlAttributeName n)) =
    (case findDomAttribute atts (htmlAttributeName n) of
       Some a \<Rightarrow> Some (da_value a)
     | None \<Rightarrow> map_option attr_value (findAttribute as n))"
  using assms(1)
proof (induction atts as rule: initializeAttributes.induct)
  case (1 atts)
  then show ?case by (simp split: option.split)
next
  case (2 atts a as)
  show ?case
  proof (cases "attr_name a = [] \<or> hasAttribute atts (attr_name a)")
    case True
    have rec: "initializeAttributes atts (a # as) = initializeAttributes atts as" using True by auto
    have ih: "map_option da_value (findDomAttribute (initializeAttributes atts as) (htmlAttributeName n)) =
      (case findDomAttribute atts (htmlAttributeName n) of
         Some a \<Rightarrow> Some (da_value a) | None \<Rightarrow> map_option attr_value (findAttribute as n))"
      using True 2 by auto
    have skip: "findDomAttribute atts (htmlAttributeName n) \<noteq> None" if "attr_name a = n"
      using True that assms(2) html_attributes_names [OF "2.prems", of n] by (auto simp: findDomAttribute_None)
    show ?thesis unfolding rec ih using skip by (auto simp: nameMatches_iff split: option.splits)
  next
    case False
    let ?a = "\<lparr>da_name = htmlAttributeName (attr_name a), da_value = attr_value a\<rparr>"
    have new: "html_attributes (atts @ [?a])"
      using False "2.prems" by (auto simp: html_attributes_def htmlAttributeName_def)
    have same: "htmlAttributeName (attr_name a) = htmlAttributeName n \<longleftrightarrow> attr_name a = n"
      by (simp add: htmlAttributeName_def)
    have rec: "initializeAttributes atts (a # as) = initializeAttributes (atts @ [?a]) as" using False by simp
    show ?thesis unfolding rec using False 2(2) [OF _ _ new]
      by (auto simp: findDomAttribute_append nameMatches_iff same split: option.splits)
  qed
qed

lemma narrow_latin1:
  assumes "latin1 cs" shows "map ucast (make8BitFrom16BitSource cs) = cs"
proof -
  have "ucast (ucast c :: lchar) = c" if "c \<le> 0xFF" for c :: uchar
    using that by (simp add: word_unat_eq_iff unsigned_ucast_eq take_bit_eq_mod word_le_nat_alt unat_mod_distrib)
  then show ?thesis using assms
    by (simp add: make8BitFrom16BitSource_def latin1_def list_all_iff comp_def map_idI)
qed

lemma empty_name_absent:
  assumes "list_all attribute_ok as" "html_attributes atts"
  shows "findAttribute as [] = None" "findDomAttribute atts (htmlAttributeName []) = None"
proof -
  show "findAttribute as [] = None"
    using assms(1) by (induction as) (auto simp: nameMatches_iff attribute_ok_def)
  show "findDomAttribute atts (htmlAttributeName []) = None"
    using html_attributes_names [OF assms(2), of "[]"] assms(2)
    by (auto simp: findDomAttribute_None html_attributes_def)
qed

lemma initializeAttributes_lookup:
  assumes "list_all attribute_ok as"
  shows "map_option da_value (findDomAttribute (initializeAttributes [] as) (htmlAttributeName n)) =
    map_option attr_value (findAttribute as n)"
proof (cases "n = []")
  case True
  then show ?thesis
    using empty_name_absent [OF assms initializeAttributes_html [OF html_attributes_Nil]] by simp
qed (simp add: initializeAttributes_find)

section \<open>Properties\<close>

text \<open>
  C13. The atomic token keeps what the tokenizer emitted. A comment that is narrowed to 8 bits loses
  no character; text keeps its characters and its 8-bit check is exact; a tag keeps its name, its
  attributes have distinct, non-empty names without a namespace and looking one up gives the value of
  the first attribute with that name in the token; a DOCTYPE has its data, and the token gives them up.
\<close>

theorem atomic_token_faithful:
  assumes "token_ok token" "m_type token \<noteq> Uninitialized" "AtomicHTMLToken_new token = (t, token')"
  shows "at_asserts t \<and> at_type t = m_type token
    \<and> (m_type token = Comment \<longrightarrow> at_data t = m_data token)
    \<and> (m_type token = Character \<longrightarrow> at_externalCharacters t = m_data token
         \<and> (at_externalCharactersIsAll8BitData t \<longleftrightarrow> latin1 (m_data token)))
    \<and> (isTag token \<longrightarrow> at_name t = m_data token \<and> at_selfClosing t = m_selfClosing token
         \<and> html_attributes (at_attributes t)
         \<and> (\<forall>n. map_option da_value (findDomAttribute (at_attributes t) (htmlAttributeName n)) =
               map_option attr_value (findAttribute (m_attributes token) n)))
    \<and> (m_type token = DOCTYPE \<longrightarrow> at_name t = m_data token \<and> at_doctypeData t = m_doctypeData token
         \<and> at_doctypeData t \<noteq> None \<and> m_doctypeData token' = None)"
  using assms
  by (cases "m_type token")
    (auto simp: AtomicHTMLToken_new_def AtomicHTMLToken_empty_def token_ok_def tag_ok_def isTag_def
      doctype_ok_def releaseDoctypeData_def commentIsAll8BitData_def charactersIsAll8BitData_def
      narrow_latin1 initializeAttributes_html initializeAttributes_lookup split: if_splits option.splits)

theorem atomic_token_faithful_witness:
  "html_attributes (at_attributes (fst (AtomicHTMLToken_new
     (appendToAttributeName 0x62 (beginAttribute 3 (beginStartTag 0x61 HTMLToken_new))))))"
proof -
  let ?token = "appendToAttributeName 0x62 (beginAttribute 3 (beginStartTag 0x61 HTMLToken_new))"
  have "token_ok ?token" "m_type ?token \<noteq> Uninitialized" "isTag ?token" by code_simp+
  then show ?thesis using atomic_token_faithful [of ?token] by (metis prod.collapse)
qed

end
