(* ===== verification/Html_Stack_Item.thy ===== *)
theory Html_Stack_Item
  imports Atomic_Html_Token
begin

text \<open>
  The items of the tree builder's stack and list, \<open>Source/WebCore/html/parser/HTMLStackItem.h\<close>.

  Of a DOM node the code uses its identity and, where it asks for the class of
  an element, its tag name; a node is the record of these.
\<close>

section \<open>Names and nodes\<close>

definition xhtmlNamespaceURI :: AtomicString where
  "xhtmlNamespaceURI = lit ''http://www.w3.org/1999/xhtml''"

definition mathmlNamespaceURI :: AtomicString where
  "mathmlNamespaceURI = lit ''http://www.w3.org/1998/Math/MathML''"

definition svgNamespaceURI :: AtomicString where
  "svgNamespaceURI = lit ''http://www.w3.org/2000/svg''"

definition htmlName :: "AtomicString \<Rightarrow> QualifiedName" where
  "htmlName name = \<lparr>qn_localName = name, qn_namespaceURI = Some xhtmlNamespaceURI\<rparr>"

definition mathmlName :: "AtomicString \<Rightarrow> QualifiedName" where
  "mathmlName name = \<lparr>qn_localName = name, qn_namespaceURI = Some mathmlNamespaceURI\<rparr>"

definition svgName :: "AtomicString \<Rightarrow> QualifiedName" where
  "svgName name = \<lparr>qn_localName = name, qn_namespaceURI = Some svgNamespaceURI\<rparr>"

text \<open>The tag of a node is \<open>None\<close> for a document fragment.\<close>

record ContainerNode =
  node_id :: nat
  node_tag :: "QualifiedName option"

section \<open>Stack items\<close>

text \<open>
  The local name of an item is null exactly for a document fragment, and \<open>attributes()\<close> asserts an
  element.
\<close>

record HTMLStackItem =
  si_node :: ContainerNode
  si_namespaceURI :: "AtomicString option"
  si_localName :: "AtomicString option"
  si_attributes :: "DomAttribute list"

definition HTMLStackItem_forToken ::
    "ContainerNode \<Rightarrow> AtomicHTMLToken \<Rightarrow> AtomicString \<Rightarrow> HTMLStackItem" where
  "HTMLStackItem_forToken element token namespaceURI =
     \<lparr>si_node = element, si_namespaceURI = Some namespaceURI, si_localName = Some (at_name token),
      si_attributes = at_attributes token\<rparr>"

definition HTMLStackItem_forName ::
    "ContainerNode \<Rightarrow> AtomicString \<Rightarrow> DomAttribute list \<Rightarrow> HTMLStackItem" where
  "HTMLStackItem_forName element localName attributes =
     \<lparr>si_node = element, si_namespaceURI = Option.bind (node_tag element) qn_namespaceURI,
      si_localName = Some localName, si_attributes = attributes\<rparr>"

definition HTMLStackItem_forElement :: "ContainerNode \<Rightarrow> HTMLStackItem" where
  "HTMLStackItem_forElement element =
     \<lparr>si_node = element, si_namespaceURI = Option.bind (node_tag element) qn_namespaceURI,
      si_localName = map_option qn_localName (node_tag element), si_attributes = []\<rparr>"

definition HTMLStackItem_forFragment :: "ContainerNode \<Rightarrow> HTMLStackItem" where
  "HTMLStackItem_forFragment fragment =
     \<lparr>si_node = fragment, si_namespaceURI = None, si_localName = None, si_attributes = []\<rparr>"

definition isDocumentFragment :: "HTMLStackItem \<Rightarrow> bool" where
  "isDocumentFragment item \<longleftrightarrow> si_localName item = None"

definition isElement :: "HTMLStackItem \<Rightarrow> bool" where
  "isElement item \<longleftrightarrow> \<not> isDocumentFragment item"

definition HTMLStackItem_findAttribute :: "QualifiedName \<Rightarrow> HTMLStackItem \<Rightarrow> DomAttribute option" where
  "HTMLStackItem_findAttribute attributeName item = findDomAttribute (si_attributes item) attributeName"

definition hasTagName :: "QualifiedName \<Rightarrow> HTMLStackItem \<Rightarrow> bool" where
  "hasTagName name item \<longleftrightarrow>
     si_localName item = Some (qn_localName name) \<and> si_namespaceURI item = qn_namespaceURI name"

definition matchesHTMLTag :: "AtomicString \<Rightarrow> HTMLStackItem \<Rightarrow> bool" where
  "matchesHTMLTag name item \<longleftrightarrow>
     si_localName item = Some name \<and> si_namespaceURI item = Some xhtmlNamespaceURI"

definition isInHTMLNamespace :: "HTMLStackItem \<Rightarrow> bool" where
  "isInHTMLNamespace item \<longleftrightarrow> si_namespaceURI item = Some xhtmlNamespaceURI \<or> isDocumentFragment item"

definition localNameIn :: "HTMLStackItem \<Rightarrow> AtomicString list \<Rightarrow> bool" where
  "localNameIn item names \<longleftrightarrow> (case si_localName item of None \<Rightarrow> False | Some name \<Rightarrow> name \<in> set names)"

definition isNumberedHeaderElement :: "HTMLStackItem \<Rightarrow> bool" where
  "isNumberedHeaderElement item \<longleftrightarrow> si_namespaceURI item = Some xhtmlNamespaceURI
     \<and> localNameIn item (map lit [''h1'', ''h2'', ''h3'', ''h4'', ''h5'', ''h6''])"

definition specialHTMLNames :: "AtomicString list" where
  "specialHTMLNames = map lit
     [''address'', ''applet'', ''area'', ''article'', ''aside'', ''base'', ''basefont'', ''bgsound'',
      ''blockquote'', ''body'', ''br'', ''button'', ''caption'', ''center'', ''col'', ''colgroup'',
      ''command'', ''dd'', ''details'', ''dir'', ''div'', ''dl'', ''dt'', ''embed'', ''fieldset'',
      ''figcaption'', ''figure'', ''footer'', ''form'', ''frame'', ''frameset'', ''h1'', ''h2'', ''h3'',
      ''h4'', ''h5'', ''h6'', ''head'', ''header'', ''hgroup'', ''hr'', ''html'', ''iframe'', ''img'',
      ''input'', ''li'', ''link'', ''listing'', ''main'', ''marquee'', ''menu'', ''meta'', ''nav'',
      ''noembed'', ''noframes'', ''noscript'', ''object'', ''ol'', ''p'', ''param'', ''plaintext'',
      ''pre'', ''script'', ''section'', ''select'', ''style'', ''summary'', ''table'', ''tbody'', ''td'',
      ''template'', ''textarea'', ''tfoot'', ''th'', ''thead'', ''title'', ''tr'', ''ul'', ''wbr'', ''xmp'']"

definition isSpecialNode :: "HTMLStackItem \<Rightarrow> bool" where
  "isSpecialNode item \<longleftrightarrow>
     (if isDocumentFragment item then True
      else if si_namespaceURI item = Some xhtmlNamespaceURI then localNameIn item specialHTMLNames
      else if si_namespaceURI item = Some mathmlNamespaceURI then
        localNameIn item (map lit [''annotation-xml'', ''mi'', ''mo'', ''mn'', ''ms'', ''mtext''])
      else if si_namespaceURI item = Some svgNamespaceURI then
        localNameIn item (map lit [''desc'', ''foreignObject'', ''title''])
      else False)"

lemma namespaces_distinct [simp]:
  "xhtmlNamespaceURI \<noteq> mathmlNamespaceURI" "xhtmlNamespaceURI \<noteq> svgNamespaceURI"
  "mathmlNamespaceURI \<noteq> svgNamespaceURI" "mathmlNamespaceURI \<noteq> xhtmlNamespaceURI"
  "svgNamespaceURI \<noteq> xhtmlNamespaceURI" "svgNamespaceURI \<noteq> mathmlNamespaceURI"
  by (simp_all add: xhtmlNamespaceURI_def mathmlNamespaceURI_def svgNamespaceURI_def)

lemma hasTagName_html: "hasTagName (htmlName name) item \<longleftrightarrow> matchesHTMLTag name item"
  by (simp add: hasTagName_def matchesHTMLTag_def htmlName_def)

section \<open>Well-formed items\<close>

text \<open>
  The item of an element has the name the element was created with, and the item of a fragment has
  none. This is what the constructors give when the element is created for the token.
\<close>

definition item_ok :: "HTMLStackItem \<Rightarrow> bool" where
  "item_ok item \<longleftrightarrow>
     (case node_tag (si_node item) of
        None \<Rightarrow> si_localName item = None \<and> si_namespaceURI item = None
      | Some name \<Rightarrow> si_localName item = Some (qn_localName name) \<and> si_namespaceURI item = qn_namespaceURI name)"

lemma created_items_ok:
  "item_ok (HTMLStackItem_forElement node)"
  "node_tag node = None \<Longrightarrow> item_ok (HTMLStackItem_forFragment node)"
  "node_tag node = Some \<lparr>qn_localName = at_name token, qn_namespaceURI = Some ns\<rparr> \<Longrightarrow>
     item_ok (HTMLStackItem_forToken node token ns)"
  by (auto simp: item_ok_def HTMLStackItem_forElement_def HTMLStackItem_forFragment_def
    HTMLStackItem_forToken_def split: option.split)

abbreviation item_id :: "HTMLStackItem \<Rightarrow> nat" where
  "item_id item \<equiv> node_id (si_node item)"

text \<open>\<open>is<T>(node)\<close> for an HTML element class, and the downcast to \<open>Element\<close> that asserts.\<close>

definition nodeHasTag :: "QualifiedName \<Rightarrow> HTMLStackItem \<Rightarrow> bool" where
  "nodeHasTag name item \<longleftrightarrow> node_tag (si_node item) = Some name"

definition isElementNode :: "HTMLStackItem \<Rightarrow> bool" where
  "isElementNode item \<longleftrightarrow> node_tag (si_node item) \<noteq> None"

lemma nodeHasTag_iff: "item_ok item \<Longrightarrow> nodeHasTag name item \<longleftrightarrow> hasTagName name item"
  by (cases name) (auto simp: item_ok_def nodeHasTag_def hasTagName_def split: option.splits)

lemma isElementNode_iff: "item_ok item \<Longrightarrow> isElementNode item \<longleftrightarrow> isElement item"
  by (auto simp: item_ok_def isElementNode_def isElement_def isDocumentFragment_def split: option.splits)

lemma hasTagName_element: "hasTagName name item \<Longrightarrow> isElement item"
  by (auto simp: hasTagName_def isElement_def isDocumentFragment_def)

lemma hasTagName_unique: "hasTagName name item \<Longrightarrow> hasTagName name' item \<longleftrightarrow> name' = name"
  by (cases name; cases name') (auto simp: hasTagName_def)

end
