(* ===== verification/Wtf_Strings.thy ===== *)
theory Wtf_Strings
  imports Wtf_Ascii
begin

text \<open>
  The string comparisons of \<open>Source/WTF/wtf/text/StringCommon.h\<close> the parser uses. A string of either
  width is the list of its code units, and the letters are a C string literal.
\<close>

fun equalLettersIgnoringASCIICase_loop :: "uchar list \<Rightarrow> uchar list \<Rightarrow> bool" where
  "equalLettersIgnoringASCIICase_loop (c # cs) (l # ls) =
     (if \<not> isASCIIAlphaCaselessEqual c l then False else equalLettersIgnoringASCIICase_loop cs ls)"
| "equalLettersIgnoringASCIICase_loop cs ls = True"

definition equalLettersIgnoringASCIICase :: "uchar list \<Rightarrow> uchar list \<Rightarrow> bool" where
  "equalLettersIgnoringASCIICase cs letters \<longleftrightarrow>
     length cs = length letters \<and> equalLettersIgnoringASCIICase_loop cs letters"

lemma equal_loop_iff:
  "length cs = length ls \<Longrightarrow> equalLettersIgnoringASCIICase_loop cs ls \<longleftrightarrow> list_all2 isASCIIAlphaCaselessEqual cs ls"
  by (induction cs ls rule: equalLettersIgnoringASCIICase_loop.induct) auto

text \<open>
  Comparing with bit 5 set accepts two characters for each letter of the literal, the letter and the
  one 32 below it. For a lower-case letter that is the upper-case letter; for a digit, a space or a
  punctuation mark it is a control character.
\<close>

lemma caseless_iff: "isASCIIAlphaCaselessEqual c l \<longleftrightarrow> bit l 5 \<and> (c = l \<or> c = l - 0x20)"
proof -
  have or: "c OR 0x20 = (if bit c 5 then c else c + 0x20)" by (rule or_0x20)
  have b: "bit (c OR 0x20) 5"
  proof (cases "bit c 5")
    case False
    then have "\<not> bit c 5" "bit (c OR 2 ^ 5) 5" by (simp_all add: bit_or_iff bit_exp_iff)
    then show ?thesis by simp
  qed (simp add: or)
  have clear: "\<not> bit (l - 0x20) 5" if "bit l 5"
  proof -
    have "odd (unat l div 32)" using that by (simp add: bit5_unat)
    then have "32 \<le> unat l" by (cases "unat l < 32") auto
    then have "unat (l - 0x20) = unat l - 32" by (subst unat_sub) (simp_all add: word_le_nat_alt)
    moreover have "(unat l - 32) div 32 = unat l div 32 - 1" by (simp add: le_div_geq)
    ultimately show ?thesis using \<open>odd (unat l div 32)\<close> by (simp add: bit5_unat)
  qed
  show ?thesis unfolding isASCIIAlphaCaselessEqual_def toASCIILowerUnchecked_def
  proof
    assume eq: "c OR 0x20 = l"
    then have "bit l 5" using b by simp
    moreover have "c = l \<or> c = l - 0x20"
    proof (cases "bit c 5")
      case False
      then have "l = c + 0x20" using eq or by simp
      then show ?thesis by simp
    qed (use eq or in simp)
    ultimately show "bit l 5 \<and> (c = l \<or> c = l - 0x20)" ..
  next
    assume "bit l 5 \<and> (c = l \<or> c = l - 0x20)"
    then show "c OR 0x20 = l" using or clear by auto
  qed
qed

text \<open>
  C40. What the comparison with lower-case letters accepts, exactly: strings of the length of the literal in
  which every character is that of the literal or the one 32 below it. So next to the upper-case
  letters it accepts control characters for digits, spaces and punctuation: \<open>text/html\<close> is also matched
  with a U+000F in the place of the slash.
\<close>

theorem caseless_comparison_exact:
  assumes "list_all (\<lambda>l. bit l 5) letters"
  shows "(equalLettersIgnoringASCIICase cs letters \<longleftrightarrow> list_all2 (\<lambda>c l. c = l \<or> c = l - 0x20) cs letters)
    \<and> equalLettersIgnoringASCIICase (lit ''text'' @ [0x0F] @ lit ''html'') (lit ''text/html'')"
proof
  have "list_all2 isASCIIAlphaCaselessEqual cs letters \<longleftrightarrow> list_all2 (\<lambda>c l. c = l \<or> c = l - 0x20) cs letters"
    using assms by (auto simp: list_all2_conv_all_nth list_all_length caseless_iff)
  then show "equalLettersIgnoringASCIICase cs letters \<longleftrightarrow> list_all2 (\<lambda>c l. c = l \<or> c = l - 0x20) cs letters"
    unfolding equalLettersIgnoringASCIICase_def using equal_loop_iff [of cs letters] list_all2_lengthD by blast
  show "equalLettersIgnoringASCIICase (lit ''text'' @ [0x0F] @ lit ''html'') (lit ''text/html'')"
    by (simp add: equalLettersIgnoringASCIICase_def isASCIIAlphaCaselessEqual_def toASCIILowerUnchecked_def)
qed

theorem caseless_comparison_exact_witness:
  "equalLettersIgnoringASCIICase (lit ''TEXT'') (lit ''text'')
     \<longleftrightarrow> list_all2 (\<lambda>c l. c = l \<or> c = l - 0x20) (lit ''TEXT'') (lit ''text'')"
proof -
  have "list_all (\<lambda>l. bit l 5) (lit ''text'')" by (simp add: bit5_unat)
  then show ?thesis using caseless_comparison_exact by blast
qed

end
