(* ===== verification/Html_Element_Stack.thy ===== *)
theory Html_Element_Stack
  imports Html_Stack_Item Wtf_Strings
begin

text \<open>
  The stack of open elements, \<open>Source/WebCore/html/parser/HTMLElementStack.{h,cpp}\<close>.

  The chain of records from \<open>m_top\<close> down is the list of their items, so a pointer to a record is its
  position below the top. The pointers to the root, head and body nodes are node identities. An
  operation that follows a null pointer has the value \<open>None\<close>; the assertions are recorded in
  \<open>stack_asserts\<close>, and the calls into the nodes in \<open>stack_events\<close>.
\<close>

section \<open>Scope markers\<close>

definition htmlTag :: QualifiedName where "htmlTag = htmlName (lit ''html'')"
definition headTag :: QualifiedName where "headTag = htmlName (lit ''head'')"
definition bodyTag :: QualifiedName where "bodyTag = htmlName (lit ''body'')"

definition isRootNode :: "HTMLStackItem \<Rightarrow> bool" where
  "isRootNode item \<longleftrightarrow> isDocumentFragment item \<or> hasTagName htmlTag item"

definition isScopeMarker :: "HTMLStackItem \<Rightarrow> bool" where
  "isScopeMarker item \<longleftrightarrow>
     hasTagName (htmlName (lit ''applet'')) item
     \<or> hasTagName (htmlName (lit ''caption'')) item
     \<or> hasTagName (htmlName (lit ''marquee'')) item
     \<or> hasTagName (htmlName (lit ''object'')) item
     \<or> nodeHasTag (htmlName (lit ''table'')) item
     \<or> hasTagName (htmlName (lit ''td'')) item
     \<or> hasTagName (htmlName (lit ''th'')) item
     \<or> hasTagName (mathmlName (lit ''mi'')) item
     \<or> hasTagName (mathmlName (lit ''mo'')) item
     \<or> hasTagName (mathmlName (lit ''mn'')) item
     \<or> hasTagName (mathmlName (lit ''ms'')) item
     \<or> hasTagName (mathmlName (lit ''mtext'')) item
     \<or> hasTagName (mathmlName (lit ''annotation-xml'')) item
     \<or> hasTagName (svgName (lit ''foreignObject'')) item
     \<or> hasTagName (svgName (lit ''desc'')) item
     \<or> hasTagName (svgName (lit ''title'')) item
     \<or> hasTagName (htmlName (lit ''template'')) item
     \<or> isRootNode item"

definition isListItemScopeMarker :: "HTMLStackItem \<Rightarrow> bool" where
  "isListItemScopeMarker item \<longleftrightarrow>
     isScopeMarker item \<or> hasTagName (htmlName (lit ''ol'')) item \<or> hasTagName (htmlName (lit ''ul'')) item"

definition isTableScopeMarker :: "HTMLStackItem \<Rightarrow> bool" where
  "isTableScopeMarker item \<longleftrightarrow>
     nodeHasTag (htmlName (lit ''table'')) item \<or> hasTagName (htmlName (lit ''template'')) item \<or> isRootNode item"

definition isTableBodyScopeMarker :: "HTMLStackItem \<Rightarrow> bool" where
  "isTableBodyScopeMarker item \<longleftrightarrow>
     hasTagName (htmlName (lit ''tbody'')) item \<or> hasTagName (htmlName (lit ''tfoot'')) item
     \<or> hasTagName (htmlName (lit ''thead'')) item \<or> hasTagName (htmlName (lit ''template'')) item
     \<or> isRootNode item"

definition isTableRowScopeMarker :: "HTMLStackItem \<Rightarrow> bool" where
  "isTableRowScopeMarker item \<longleftrightarrow>
     hasTagName (htmlName (lit ''tr'')) item \<or> hasTagName (htmlName (lit ''template'')) item \<or> isRootNode item"

definition isMathMLTextIntegrationPoint :: "HTMLStackItem \<Rightarrow> bool" where
  "isMathMLTextIntegrationPoint item \<longleftrightarrow>
     hasTagName (mathmlName (lit ''mi'')) item \<or> hasTagName (mathmlName (lit ''mo'')) item
     \<or> hasTagName (mathmlName (lit ''mn'')) item \<or> hasTagName (mathmlName (lit ''ms'')) item
     \<or> hasTagName (mathmlName (lit ''mtext'')) item"

definition isHTMLIntegrationPoint :: "HTMLStackItem \<Rightarrow> bool" where
  "isHTMLIntegrationPoint item \<longleftrightarrow>
     (if hasTagName (mathmlName (lit ''annotation-xml'')) item then
        (case HTMLStackItem_findAttribute (htmlAttributeName (lit ''encoding'')) item of
           Some encodingAttr \<Rightarrow>
             equalLettersIgnoringASCIICase (da_value encodingAttr) (lit ''text/html'')
             \<or> equalLettersIgnoringASCIICase (da_value encodingAttr) (lit ''application/xhtml+xml'')
         | None \<Rightarrow> False)
      else hasTagName (svgName (lit ''foreignObject'')) item
        \<or> hasTagName (svgName (lit ''desc'')) item
        \<or> hasTagName (svgName (lit ''title'')) item)"

definition isForeignContentScopeMarker :: "HTMLStackItem \<Rightarrow> bool" where
  "isForeignContentScopeMarker item \<longleftrightarrow>
     isMathMLTextIntegrationPoint item \<or> isHTMLIntegrationPoint item \<or> isInHTMLNamespace item"

definition isButtonScopeMarker :: "HTMLStackItem \<Rightarrow> bool" where
  "isButtonScopeMarker item \<longleftrightarrow> isScopeMarker item \<or> hasTagName (htmlName (lit ''button'')) item"

definition isSelectScopeMarker :: "HTMLStackItem \<Rightarrow> bool" where
  "isSelectScopeMarker item \<longleftrightarrow>
     \<not> nodeHasTag (htmlName (lit ''optgroup'')) item \<and> \<not> nodeHasTag (htmlName (lit ''option'')) item"

section \<open>The stack\<close>

datatype node_event = BeginParsingChildren nat | FinishParsingChildren nat

record HTMLElementStack =
  m_top :: "HTMLStackItem list"
  m_rootNode :: "nat option"
  m_headElement :: "nat option"
  m_bodyElement :: "nat option"
  m_stackDepth :: unsigned
  stack_asserts :: bool
  stack_events :: "node_event list"

definition HTMLElementStack_new :: HTMLElementStack where
  "HTMLElementStack_new = \<lparr>m_top = [], m_rootNode = None, m_headElement = None, m_bodyElement = None,
     m_stackDepth = 0, stack_asserts = True, stack_events = []\<rparr>"

definition stack_assert :: "bool \<Rightarrow> HTMLElementStack \<Rightarrow> HTMLElementStack" where
  "stack_assert b s = s\<lparr>stack_asserts := stack_asserts s \<and> b\<rparr>"

definition node_call :: "node_event \<Rightarrow> HTMLElementStack \<Rightarrow> HTMLElementStack" where
  "node_call e s = s\<lparr>stack_events := stack_events s @ [e]\<rparr>"

subsection \<open>Pushing\<close>

definition pushCommon :: "HTMLStackItem \<Rightarrow> HTMLElementStack \<Rightarrow> HTMLElementStack" where
  "pushCommon item s =
     (stack_assert (m_rootNode s \<noteq> None) s)\<lparr>m_stackDepth := m_stackDepth s + 1, m_top := item # m_top s\<rparr>"

definition pushRootNodeCommon :: "HTMLStackItem \<Rightarrow> HTMLElementStack \<Rightarrow> HTMLElementStack" where
  "pushRootNodeCommon rootItem s =
     pushCommon rootItem
       ((stack_assert (m_top s = [] \<and> m_rootNode s = None) s)\<lparr>m_rootNode := Some (item_id rootItem)\<rparr>)"

definition pushRootNode :: "HTMLStackItem \<Rightarrow> HTMLElementStack \<Rightarrow> HTMLElementStack" where
  "pushRootNode rootItem s = pushRootNodeCommon rootItem (stack_assert (isDocumentFragment rootItem) s)"

definition pushHTMLHtmlElement :: "HTMLStackItem \<Rightarrow> HTMLElementStack \<Rightarrow> HTMLElementStack" where
  "pushHTMLHtmlElement item s = pushRootNodeCommon item (stack_assert (hasTagName htmlTag item) s)"

definition pushHTMLHeadElement :: "HTMLStackItem \<Rightarrow> HTMLElementStack \<Rightarrow> HTMLElementStack" where
  "pushHTMLHeadElement item s =
     pushCommon item
       ((stack_assert (hasTagName headTag item \<and> m_headElement s = None \<and> isElementNode item) s)
          \<lparr>m_headElement := Some (item_id item)\<rparr>)"

definition pushHTMLBodyElement :: "HTMLStackItem \<Rightarrow> HTMLElementStack \<Rightarrow> HTMLElementStack" where
  "pushHTMLBodyElement item s =
     pushCommon item
       ((stack_assert (hasTagName bodyTag item \<and> m_bodyElement s = None \<and> isElementNode item) s)
          \<lparr>m_bodyElement := Some (item_id item)\<rparr>)"

definition push :: "HTMLStackItem \<Rightarrow> HTMLElementStack \<Rightarrow> HTMLElementStack" where
  "push item s =
     pushCommon item
       (stack_assert (\<not> hasTagName htmlTag item \<and> \<not> hasTagName headTag item \<and> \<not> hasTagName bodyTag item
          \<and> m_rootNode s \<noteq> None) s)"

text \<open>The loop of \<open>insertAbove\<close>; \<open>None\<close> is its end, where it asserts.\<close>

fun insertAbove_loop :: "HTMLStackItem \<Rightarrow> nat \<Rightarrow> HTMLStackItem list \<Rightarrow> HTMLStackItem list option" where
  "insertAbove_loop item recordBelow [] = None"
| "insertAbove_loop item recordBelow (recordAbove # next) =
     (if recordBelow \<noteq> 1 \<or> next = []
      then map_option ((#) recordAbove) (insertAbove_loop item (recordBelow - 1) next)
      else Some (recordAbove # item # next))"

definition insertAbove :: "HTMLStackItem \<Rightarrow> nat \<Rightarrow> HTMLElementStack \<Rightarrow> HTMLElementStack" where
  "insertAbove item recordBelow s0 =
     (let s = stack_assert (m_top s0 \<noteq> [] \<and> \<not> hasTagName htmlTag item \<and> \<not> hasTagName headTag item
                \<and> \<not> hasTagName bodyTag item \<and> m_rootNode s0 \<noteq> None) s0 in
      if recordBelow = 0 then push item s
      else case insertAbove_loop item recordBelow (m_top s) of
             Some records \<Rightarrow>
               node_call (BeginParsingChildren (item_id item))
                 (stack_assert (isElementNode item) (s\<lparr>m_stackDepth := m_stackDepth s + 1, m_top := records\<rparr>))
           | None \<Rightarrow> stack_assert False s)"

subsection \<open>Popping\<close>

definition popCommon :: "HTMLElementStack \<Rightarrow> HTMLElementStack option" where
  "popCommon s =
     (case m_top s of
        [] \<Rightarrow> None
      | item # next \<Rightarrow>
          Some ((node_call (FinishParsingChildren (item_id item))
            (stack_assert (\<not> hasTagName htmlTag item
               \<and> (\<not> hasTagName headTag item \<or> m_headElement s = None)
               \<and> (\<not> hasTagName bodyTag item \<or> m_bodyElement s = None)
               \<and> isElementNode item) s))
              \<lparr>m_top := next, m_stackDepth := m_stackDepth s - 1\<rparr>))"

definition pop :: "HTMLElementStack \<Rightarrow> HTMLElementStack option" where
  "pop s =
     (case m_top s of
        [] \<Rightarrow> None
      | item # _ \<Rightarrow> popCommon (stack_assert (\<not> hasTagName headTag item) s))"

definition popHTMLHeadElement :: "HTMLElementStack \<Rightarrow> HTMLElementStack option" where
  "popHTMLHeadElement s =
     (case m_top s of
        [] \<Rightarrow> None
      | item # _ \<Rightarrow>
          popCommon ((stack_assert (isElementNode item \<and> m_headElement s = Some (item_id item)) s)
            \<lparr>m_headElement := None\<rparr>))"

definition popHTMLBodyElement :: "HTMLElementStack \<Rightarrow> HTMLElementStack option" where
  "popHTMLBodyElement s =
     (case m_top s of
        [] \<Rightarrow> None
      | item # _ \<Rightarrow>
          popCommon ((stack_assert (isElementNode item \<and> m_bodyElement s = Some (item_id item)) s)
            \<lparr>m_bodyElement := None\<rparr>))"

lemma popCommon_shorter: "popCommon s = Some s' \<Longrightarrow> length (m_top s') < length (m_top s)"
  by (auto simp: popCommon_def node_call_def split: list.splits)

lemma pop_shorter: "pop s = Some s' \<Longrightarrow> length (m_top s') < length (m_top s)"
  by (auto simp: pop_def stack_assert_def dest!: popCommon_shorter split: list.splits)

function popAll_loop :: "HTMLElementStack \<Rightarrow> HTMLElementStack" where
  "popAll_loop s =
     (case m_top s of
        [] \<Rightarrow> s
      | item # next \<Rightarrow> popAll_loop ((node_call (FinishParsingChildren (item_id item)) s)\<lparr>m_top := next\<rparr>))"
  by pat_completeness auto
termination
  by (relation "measure (\<lambda>s. length (m_top s))") auto

declare popAll_loop.simps [simp del]

definition popAll :: "HTMLElementStack \<Rightarrow> HTMLElementStack" where
  "popAll s =
     popAll_loop (s\<lparr>m_rootNode := None, m_headElement := None, m_bodyElement := None, m_stackDepth := 0\<rparr>)"

text \<open>
  The loop the next operations share: \<open>while (!stop(topStackItem())) pop();\<close>. Reading the top through
  \<open>top()\<close> asserts an element, which \<open>reads\<close> says.
\<close>

function popWhileNot :: "(HTMLStackItem \<Rightarrow> bool) \<Rightarrow> (HTMLStackItem \<Rightarrow> bool) \<Rightarrow> HTMLElementStack \<Rightarrow> HTMLElementStack option" where
  "popWhileNot reads stop s =
     (case m_top s of
        [] \<Rightarrow> None
      | item # _ \<Rightarrow>
          let s1 = stack_assert (reads item) s in
          if stop item then Some s1
          else case pop s1 of
                 None \<Rightarrow> None
               | Some s2 \<Rightarrow> popWhileNot reads stop s2)"
  by pat_completeness auto
termination
  by (relation "measure (\<lambda>(_, _, s). length (m_top s))")
    (auto simp: stack_assert_def dest!: pop_shorter)

declare popWhileNot.simps [simp del]

definition popUntil :: "AtomicString \<Rightarrow> HTMLElementStack \<Rightarrow> HTMLElementStack option" where
  "popUntil tagName s = popWhileNot (\<lambda>_. True) (matchesHTMLTag tagName) s"

definition popUntilPopped :: "AtomicString \<Rightarrow> HTMLElementStack \<Rightarrow> HTMLElementStack option" where
  "popUntilPopped tagName s = Option.bind (popUntil tagName s) pop"

definition popUntilNumberedHeaderElementPopped :: "HTMLElementStack \<Rightarrow> HTMLElementStack option" where
  "popUntilNumberedHeaderElementPopped s =
     Option.bind (popWhileNot (\<lambda>_. True) isNumberedHeaderElement s) pop"

definition popUntil_element :: "nat \<Rightarrow> HTMLElementStack \<Rightarrow> HTMLElementStack option" where
  "popUntil_element element s = popWhileNot isElementNode (\<lambda>item. item_id item = element) s"

definition popUntilPopped_element :: "nat \<Rightarrow> HTMLElementStack \<Rightarrow> HTMLElementStack option" where
  "popUntilPopped_element element s = Option.bind (popUntil_element element s) pop"

definition popUntilTableScopeMarker :: "HTMLElementStack \<Rightarrow> HTMLElementStack option" where
  "popUntilTableScopeMarker s = popWhileNot (\<lambda>_. True) isTableScopeMarker s"

definition popUntilTableBodyScopeMarker :: "HTMLElementStack \<Rightarrow> HTMLElementStack option" where
  "popUntilTableBodyScopeMarker s = popWhileNot (\<lambda>_. True) isTableBodyScopeMarker s"

definition popUntilTableRowScopeMarker :: "HTMLElementStack \<Rightarrow> HTMLElementStack option" where
  "popUntilTableRowScopeMarker s = popWhileNot (\<lambda>_. True) isTableRowScopeMarker s"

definition popUntilForeignContentScopeMarker :: "HTMLElementStack \<Rightarrow> HTMLElementStack option" where
  "popUntilForeignContentScopeMarker s = popWhileNot (\<lambda>_. True) isForeignContentScopeMarker s"

subsection \<open>Removing and replacing\<close>

text \<open>
  The loop of \<open>removeNonTopCommon\<close>: it reads the element of the record below each record, so at the
  last record, which has none below it, it follows a null pointer, the value \<open>None\<close>. The boolean is
  what the loop asserts; the assertion at its end is reached on an empty chain only.
\<close>

fun removeNonTopCommon_loop :: "nat \<Rightarrow> HTMLStackItem list \<Rightarrow> (HTMLStackItem list \<times> bool \<times> bool) option" where
  "removeNonTopCommon_loop element [] = Some ([], False, False)"
| "removeNonTopCommon_loop element [record] = None"
| "removeNonTopCommon_loop element (record # below # rest) =
     (if item_id below = element then Some (record # rest, True, isElementNode below)
      else case removeNonTopCommon_loop element (below # rest) of
             None \<Rightarrow> None
           | Some (records, removed, ok) \<Rightarrow> Some (record # records, removed, ok \<and> isElementNode below))"

definition removeNonTopCommon :: "ContainerNode \<Rightarrow> HTMLElementStack \<Rightarrow> HTMLElementStack option" where
  "removeNonTopCommon element s =
     (case m_top s of
        [] \<Rightarrow> None
      | item # _ \<Rightarrow>
          let s1 = stack_assert (node_tag element \<noteq> Some htmlTag \<and> node_tag element \<noteq> Some bodyTag
                     \<and> isElementNode item \<and> item_id item \<noteq> node_id element) s in
          case removeNonTopCommon_loop (node_id element) (m_top s1) of
            None \<Rightarrow> None
          | Some (records, removed, ok) \<Rightarrow>
              if removed
              then Some (node_call (FinishParsingChildren (node_id element))
                     (stack_assert ok (s1\<lparr>m_top := records, m_stackDepth := m_stackDepth s1 - 1\<rparr>)))
              else Some (stack_assert ok s1))"

definition removeHTMLHeadElement :: "ContainerNode \<Rightarrow> HTMLElementStack \<Rightarrow> HTMLElementStack option" where
  "removeHTMLHeadElement element s =
     (case m_top s of
        [] \<Rightarrow> None
      | item # _ \<Rightarrow>
          let s1 = stack_assert (m_headElement s = Some (node_id element) \<and> isElementNode item) s in
          if item_id item = node_id element then popHTMLHeadElement s1
          else removeNonTopCommon element (s1\<lparr>m_headElement := None\<rparr>))"

definition remove_element :: "ContainerNode \<Rightarrow> HTMLElementStack \<Rightarrow> HTMLElementStack option" where
  "remove_element element s =
     (case m_top s of
        [] \<Rightarrow> None
      | item # _ \<Rightarrow>
          let s1 = stack_assert (node_tag element \<noteq> Some headTag \<and> isElementNode item) s in
          if item_id item = node_id element then pop s1
          else removeNonTopCommon element s1)"

definition replaceElement :: "nat \<Rightarrow> HTMLStackItem \<Rightarrow> HTMLElementStack \<Rightarrow> HTMLElementStack" where
  "replaceElement record item s =
     (stack_assert (record < length (m_top s) \<and> isElement (m_top s ! record)) s)
       \<lparr>m_top := (m_top s)[record := item]\<rparr>"

subsection \<open>Queries\<close>

definition isAbove :: "nat \<Rightarrow> nat \<Rightarrow> HTMLElementStack \<Rightarrow> bool" where
  "isAbove record other s \<longleftrightarrow> other \<in> set [record + 1 ..< length (m_top s)]"

definition hasOnlyOneElement :: "HTMLElementStack \<Rightarrow> bool option" where
  "hasOnlyOneElement s = (case m_top s of [] \<Rightarrow> None | _ # next \<Rightarrow> Some (next = []))"

definition secondElementIsHTMLBodyElement :: "HTMLElementStack \<Rightarrow> bool" where
  "secondElementIsHTMLBodyElement s \<longleftrightarrow> m_bodyElement s \<noteq> None"

text \<open>The outer option is a null pointer that is followed, the inner one the null pointer returned.\<close>

definition oneBelowTop :: "HTMLElementStack \<Rightarrow> HTMLStackItem option option" where
  "oneBelowTop s =
     (case m_top s of
        _ # below # _ \<Rightarrow> Some (if isElement below then Some below else None)
      | _ \<Rightarrow> None)"

fun find_record :: "(HTMLStackItem \<Rightarrow> bool) \<Rightarrow> HTMLStackItem list \<Rightarrow> nat option" where
  "find_record P [] = None"
| "find_record P (record # next) = (if P record then Some 0 else map_option Suc (find_record P next))"

definition find_element :: "nat \<Rightarrow> HTMLElementStack \<Rightarrow> nat option" where
  "find_element element s = find_record (\<lambda>item. item_id item = element) (m_top s)"

definition topmost :: "AtomicString \<Rightarrow> HTMLElementStack \<Rightarrow> nat option" where
  "topmost tagName s = find_record (matchesHTMLTag tagName) (m_top s)"

definition contains_element :: "nat \<Rightarrow> HTMLElementStack \<Rightarrow> bool" where
  "contains_element element s \<longleftrightarrow> find_element element s \<noteq> None"

definition contains_tag :: "AtomicString \<Rightarrow> HTMLElementStack \<Rightarrow> bool" where
  "contains_tag tagName s \<longleftrightarrow> topmost tagName s \<noteq> None"

text \<open>
  The search all scope queries share; \<open>None\<close> is the end of the chain, where they assert and return
  false.
\<close>

fun inScope_loop :: "(HTMLStackItem \<Rightarrow> bool) \<Rightarrow> (HTMLStackItem \<Rightarrow> bool) \<Rightarrow> HTMLStackItem list \<Rightarrow> bool option" where
  "inScope_loop isMarker isTarget [] = None"
| "inScope_loop isMarker isTarget (item # next) =
     (if isTarget item then Some True
      else if isMarker item then Some False
      else inScope_loop isMarker isTarget next)"

definition inScopeCommon :: "(HTMLStackItem \<Rightarrow> bool) \<Rightarrow> AtomicString \<Rightarrow> HTMLElementStack \<Rightarrow> bool option" where
  "inScopeCommon isMarker targetTag s = inScope_loop isMarker (matchesHTMLTag targetTag) (m_top s)"

definition hasNumberedHeaderElementInScope :: "HTMLElementStack \<Rightarrow> bool option" where
  "hasNumberedHeaderElementInScope s = inScope_loop isScopeMarker isNumberedHeaderElement (m_top s)"

definition inScope_element :: "nat \<Rightarrow> HTMLElementStack \<Rightarrow> bool option" where
  "inScope_element targetElement s =
     inScope_loop isScopeMarker (\<lambda>item. item_id item = targetElement) (m_top s)"

definition inScope :: "AtomicString \<Rightarrow> HTMLElementStack \<Rightarrow> bool option" where
  "inScope targetTag s = inScopeCommon isScopeMarker targetTag s"

definition inListItemScope :: "AtomicString \<Rightarrow> HTMLElementStack \<Rightarrow> bool option" where
  "inListItemScope targetTag s = inScopeCommon isListItemScopeMarker targetTag s"

definition inTableScope :: "AtomicString \<Rightarrow> HTMLElementStack \<Rightarrow> bool option" where
  "inTableScope targetTag s = inScopeCommon isTableScopeMarker targetTag s"

definition inButtonScope :: "AtomicString \<Rightarrow> HTMLElementStack \<Rightarrow> bool option" where
  "inButtonScope targetTag s = inScopeCommon isButtonScopeMarker targetTag s"

definition inSelectScope :: "AtomicString \<Rightarrow> HTMLElementStack \<Rightarrow> bool option" where
  "inSelectScope targetTag s = inScopeCommon isSelectScopeMarker targetTag s"

definition hasTemplateInHTMLScope :: "HTMLElementStack \<Rightarrow> bool option" where
  "hasTemplateInHTMLScope s = inScopeCommon isRootNode (lit ''template'') s"

text \<open>
  The loop of \<open>furthestBlockForFormattingElement\<close> with the position it has reached; \<open>None\<close> is its
  end, where it asserts and returns null.
\<close>

fun furthestBlock_loop :: "nat \<Rightarrow> nat option \<Rightarrow> nat \<Rightarrow> HTMLStackItem list \<Rightarrow> nat option option" where
  "furthestBlock_loop formattingElement furthestBlock record [] = None"
| "furthestBlock_loop formattingElement furthestBlock record (item # next) =
     (if item_id item = formattingElement then Some furthestBlock
      else furthestBlock_loop formattingElement
        (if isSpecialNode item then Some record else furthestBlock) (record + 1) next)"

definition furthestBlockForFormattingElement :: "nat \<Rightarrow> HTMLElementStack \<Rightarrow> nat option option" where
  "furthestBlockForFormattingElement formattingElement s =
     furthestBlock_loop formattingElement None 0 (m_top s)"

end
