(* ===== verification/Html_Element_Stack_Invariant.thy ===== *)
theory Html_Element_Stack_Invariant
  imports Html_Element_Stack
begin

text \<open>
  The invariant of the stack of open elements, what each operation does to the list of items, and the
  scope queries as an interface: a locale for the scope markers, of which the root is always one.
\<close>

section \<open>The invariant\<close>

text \<open>
  The bottom of a stack is its root, a fragment or an \<open>html\<close> element, and no other item is one. A head
  or a body element is right above the root, and the pointers say which of the two is there.
\<close>

definition secondHas :: "QualifiedName \<Rightarrow> HTMLStackItem list \<Rightarrow> nat option" where
  "secondHas name items =
     (if 2 \<le> length items \<and> hasTagName name (last (butlast items))
      then Some (item_id (last (butlast items))) else None)"

definition plain_item :: "HTMLStackItem \<Rightarrow> bool" where
  "plain_item item \<longleftrightarrow> \<not> isRootNode item \<and> \<not> hasTagName headTag item \<and> \<not> hasTagName bodyTag item"

definition items_ok :: "HTMLStackItem list \<Rightarrow> bool" where
  "items_ok items \<longleftrightarrow> list_all item_ok items \<and> distinct (map item_id items)
     \<and> (items \<noteq> [] \<longrightarrow> isRootNode (last items))
     \<and> list_all (\<lambda>item. \<not> isRootNode item) (butlast items)
     \<and> list_all plain_item (butlast (butlast items))"

definition stack_inv :: "HTMLElementStack \<Rightarrow> bool" where
  "stack_inv s \<longleftrightarrow> items_ok (m_top s)
     \<and> m_stackDepth s = of_nat (length (m_top s))
     \<and> m_rootNode s = (if m_top s = [] then None else Some (item_id (last (m_top s))))
     \<and> m_headElement s = secondHas headTag (m_top s)
     \<and> m_bodyElement s = secondHas bodyTag (m_top s)"

definition stack_ok :: "HTMLElementStack \<Rightarrow> bool" where
  "stack_ok s \<longleftrightarrow> stack_inv s \<and> stack_asserts s"

lemma new_stack_ok: "stack_ok HTMLElementStack_new"
  by (simp add: stack_ok_def stack_inv_def items_ok_def secondHas_def HTMLElementStack_new_def)

lemma tag_names_distinct [simp]: "htmlTag \<noteq> headTag" "htmlTag \<noteq> bodyTag" "headTag \<noteq> bodyTag"
  "headTag \<noteq> htmlTag" "bodyTag \<noteq> htmlTag" "bodyTag \<noteq> headTag"
  by (simp_all add: htmlName_def htmlTag_def headTag_def bodyTag_def)

lemma hasTagName_exclusive [simp]:
  "hasTagName headTag item \<Longrightarrow> \<not> hasTagName bodyTag item"
  "hasTagName headTag item \<Longrightarrow> \<not> hasTagName htmlTag item"
  "hasTagName bodyTag item \<Longrightarrow> \<not> hasTagName htmlTag item"
  using hasTagName_unique by (metis tag_names_distinct)+

lemma named_not_root:
  "hasTagName headTag item \<Longrightarrow> \<not> isRootNode item" "hasTagName bodyTag item \<Longrightarrow> \<not> isRootNode item"
  by (auto simp: isRootNode_def dest: hasTagName_element simp: isElement_def)

lemma not_root_element: "item_ok item \<Longrightarrow> \<not> isRootNode item \<Longrightarrow> isElementNode item"
  by (simp add: isElementNode_iff isRootNode_def isElement_def)

lemma not_root_html: "\<not> isRootNode item \<Longrightarrow> \<not> hasTagName htmlTag item"
  by (simp add: isRootNode_def)

lemma quiet: "stack_asserts s \<Longrightarrow> b \<Longrightarrow> stack_assert b s = s"
  by (simp add: stack_assert_def)

section \<open>Pushing\<close>

lemma secondHas_Cons:
  "2 \<le> length items \<Longrightarrow> secondHas name (item # items) = secondHas name items"
  "secondHas name [item, root] = (if hasTagName name item then Some (item_id item) else None)"
  "secondHas name [root] = None" "secondHas name [] = None"
  by (cases items; auto simp: secondHas_def)+

lemma one_or_more: "items \<noteq> [] \<Longrightarrow> (\<exists>root. items = [root]) \<or> 2 \<le> length items"
  by (cases items; cases "tl items") auto

lemma items_ok_Cons:
  "2 \<le> length items \<Longrightarrow> items_ok (item # items) \<longleftrightarrow>
     items_ok items \<and> item_ok item \<and> item_id item \<notin> item_id ` set items \<and> plain_item item"
  "items_ok [item, root] \<longleftrightarrow>
     items_ok [root] \<and> item_ok item \<and> item_id item \<noteq> item_id root \<and> \<not> isRootNode item"
  "items_ok [root] \<longleftrightarrow> item_ok root \<and> isRootNode root"
  by (cases items; cases "tl items"; auto simp: items_ok_def plain_item_def)+

lemma items_ok_ConsD:
  assumes "items_ok (item # items)" "items \<noteq> []"
  shows "items_ok items" "item_ok item" "\<not> isRootNode item"
  using one_or_more [OF assms(2)] assms(1) by (auto simp: items_ok_Cons plain_item_def)

lemmas push_defs = stack_ok_def stack_inv_def stack_assert_def node_call_def pushCommon_def

lemma pushRoot_ok:
  assumes "stack_ok s" "m_top s = []" "item_ok item"
  shows "isDocumentFragment item \<Longrightarrow> stack_ok (pushRootNode item s) \<and> m_top (pushRootNode item s) = [item]"
    and "hasTagName htmlTag item \<Longrightarrow> stack_ok (pushHTMLHtmlElement item s) \<and> m_top (pushHTMLHtmlElement item s) = [item]"
  using assms by (auto simp: push_defs pushRootNode_def pushHTMLHtmlElement_def pushRootNodeCommon_def
      items_ok_Cons secondHas_Cons isRootNode_def)

lemma pushHead_ok:
  assumes "stack_ok s" "m_top s = [root]" "item_ok item" "item_id item \<noteq> item_id root" "hasTagName headTag item"
  shows "stack_ok (pushHTMLHeadElement item s) \<and> m_top (pushHTMLHeadElement item s) = [item, root]"
  using assms by (auto simp: push_defs pushHTMLHeadElement_def items_ok_Cons secondHas_Cons named_not_root not_root_element)

lemma pushBody_ok:
  assumes "stack_ok s" "m_top s = [root]" "item_ok item" "item_id item \<noteq> item_id root" "hasTagName bodyTag item"
  shows "stack_ok (pushHTMLBodyElement item s) \<and> m_top (pushHTMLBodyElement item s) = [item, root]"
  using assms by (auto simp: push_defs pushHTMLBodyElement_def items_ok_Cons secondHas_Cons named_not_root not_root_element
      dest: hasTagName_exclusive)

lemma push_list_ok:
  assumes "items_ok items" "items \<noteq> []" "item_ok item" "item_id item \<notin> item_id ` set items" "plain_item item"
  shows "items_ok (item # items)" "secondHas headTag (item # items) = secondHas headTag items"
    "secondHas bodyTag (item # items) = secondHas bodyTag items"
proof -
  consider root where "items = [root]" | "2 \<le> length items" using one_or_more [OF assms(2)] by blast
  then show "items_ok (item # items)" "secondHas headTag (item # items) = secondHas headTag items"
    "secondHas bodyTag (item # items) = secondHas bodyTag items"
    by (cases; use assms in \<open>auto simp: items_ok_Cons secondHas_Cons plain_item_def\<close>)+
qed

lemma push_ok:
  assumes "stack_ok s" "m_top s \<noteq> []" "item_ok item" "item_id item \<notin> item_id ` set (m_top s)" "plain_item item"
  shows "stack_ok (push item s) \<and> m_top (push item s) = item # m_top s"
  using assms push_list_ok [OF _ assms(2-5)]
  by (simp add: push_defs push_def plain_item_def not_root_html)

section \<open>Popping\<close>

lemma pop_list_ok:
  assumes "items_ok (item # items)" "plain_item item"
  shows "items \<noteq> []" "items_ok items" "secondHas headTag (item # items) = secondHas headTag items"
    "secondHas bodyTag (item # items) = secondHas bodyTag items"
proof -
  show ne: "items \<noteq> []" using assms by (auto simp: items_ok_Cons plain_item_def)
  show "items_ok items" using items_ok_ConsD [OF assms(1) ne] by blast
  consider root where "items = [root]" | "2 \<le> length items" using one_or_more [OF ne] by blast
  then show "secondHas headTag (item # items) = secondHas headTag items"
    "secondHas bodyTag (item # items) = secondHas bodyTag items"
    by (cases; use assms in \<open>auto simp: secondHas_Cons plain_item_def\<close>)+
qed

text \<open>The stack after the records above some place have been popped.\<close>

definition popped :: "HTMLStackItem list \<Rightarrow> HTMLElementStack \<Rightarrow> HTMLElementStack" where
  "popped gone s = s\<lparr>m_top := drop (length gone) (m_top s), m_stackDepth := m_stackDepth s - of_nat (length gone),
     stack_events := stack_events s @ map (FinishParsingChildren \<circ> item_id) gone\<rparr>"

lemma popped_Nil [simp]: "popped [] s = s"
  by (simp add: popped_def)

lemma popped_popped: "popped ys (popped xs s) = popped (xs @ ys) s"
  by (simp add: popped_def add.commute)

lemma popped_fields [simp]:
  "m_top (popped gone s) = drop (length gone) (m_top s)"
  "stack_asserts (popped gone s) = stack_asserts s"
  "stack_events (popped gone s) = stack_events s @ map (FinishParsingChildren \<circ> item_id) gone"
  "m_headElement (popped gone s) = m_headElement s" "m_bodyElement (popped gone s) = m_bodyElement s"
  "m_rootNode (popped gone s) = m_rootNode s"
  by (simp_all add: popped_def)

lemma pop_ok:
  assumes "stack_ok s" "m_top s = item # items" "plain_item item"
  shows "pop s = Some (popped [item] s)" "stack_ok (popped [item] s)"
proof -
  have ok: "items_ok (item # items)" using assms by (simp add: stack_ok_def stack_inv_def)
  note list = pop_list_ok [OF ok assms(3)]
  have el: "isElementNode item" using items_ok_ConsD [OF ok list(1)] not_root_element by blast
  have "\<not> hasTagName htmlTag item" "\<not> hasTagName headTag item" "\<not> hasTagName bodyTag item"
    using assms(3) by (auto simp: plain_item_def isRootNode_def)
  then show "pop s = Some (popped [item] s)"
    using assms el by (simp add: pop_def popCommon_def popped_def stack_assert_def node_call_def stack_ok_def)
  show "stack_ok (popped [item] s)"
    using assms list by (simp add: stack_ok_def stack_inv_def popped_def)
qed

lemma popWhileNot_ok:
  assumes "stack_ok s" "m_top s = over @ target # rest" "stop target" "reads target"
    and "list_all (\<lambda>item. plain_item item \<and> \<not> stop item \<and> reads item) over"
  shows "popWhileNot reads stop s = Some (popped over s) \<and> stack_ok (popped over s)"
  using assms
proof (induction over arbitrary: s)
  case Nil
  then show ?case by (subst popWhileNot.simps) (simp add: stack_assert_def stack_ok_def)
next
  case (Cons item over)
  have top: "m_top s = item # (over @ target # rest)" and item: "plain_item item" "\<not> stop item" "reads item"
    using Cons.prems by simp_all
  note p = pop_ok [OF Cons.prems(1) top item(1)]
  have s: "stack_assert True s = s" using Cons.prems(1) by (simp add: quiet stack_ok_def)
  have "popWhileNot reads stop s = popWhileNot reads stop (popped [item] s)"
    by (subst popWhileNot.simps) (simp add: top item s p)
  moreover have "popWhileNot reads stop (popped [item] s) = Some (popped over (popped [item] s))
      \<and> stack_ok (popped over (popped [item] s))"
    by (rule Cons.IH) (use p top Cons.prems in simp_all)
  ultimately show ?case by (simp add: popped_popped)
qed

lemma popPast_ok:
  assumes "stack_ok s" "m_top s = over @ target # rest" "stop target" "reads target" "plain_item target"
    and "list_all (\<lambda>item. plain_item item \<and> \<not> stop item \<and> reads item) over"
  shows "Option.bind (popWhileNot reads stop s) pop = Some (popped (over @ [target]) s)"
    "stack_ok (popped (over @ [target]) s)"
proof -
  have w: "popWhileNot reads stop s = Some (popped over s)" "stack_ok (popped over s)"
    using popWhileNot_ok [where reads = reads and stop = stop, OF assms(1-4,6)] by simp_all
  have "m_top (popped over s) = target # rest" using assms(2) by simp
  from pop_ok [OF w(2) this assms(5)]
  show "Option.bind (popWhileNot reads stop s) pop = Some (popped (over @ [target]) s)"
    "stack_ok (popped (over @ [target]) s)" using w by (simp_all add: popped_popped)
qed

lemma popAll_loop_eq:
  "popAll_loop s = s\<lparr>m_top := [], stack_events := stack_events s @ map (FinishParsingChildren \<circ> item_id) (m_top s)\<rparr>"
proof (induction s rule: popAll_loop.induct)
  case (1 s)
  show ?case
  proof (cases "m_top s")
    case Nil
    then show ?thesis by (subst popAll_loop.simps) simp
  next
    case (Cons item items)
    then show ?thesis using 1 [OF Cons] by (subst popAll_loop.simps) (simp add: node_call_def)
  qed
qed

lemma popAll_ok: "stack_ok s \<Longrightarrow> stack_ok (popAll s) \<and> m_top (popAll s) = []
  \<and> stack_events (popAll s) = stack_events s @ map (FinishParsingChildren \<circ> item_id) (m_top s)"
  by (simp add: popAll_def popAll_loop_eq stack_ok_def stack_inv_def items_ok_def secondHas_def)

end
