(* ===== verification/Html_Element_Stack_Calls.thy ===== *)
theory Html_Element_Stack_Calls
  imports Html_Element_Stack_Invariant
begin

text \<open>
  Inserting, removing and replacing below the top, the scope queries behind a locale, and the calls of
  the tree builder as a relation with its guards.
\<close>

section \<open>Changes below the top\<close>

lemma items_ok_distinct: "items_ok items \<Longrightarrow> distinct (map item_id items)"
  by (simp add: items_ok_def)

lemma items_ok_member: "items_ok items \<Longrightarrow> item \<in> set items \<Longrightarrow> item_ok item"
  by (auto simp: items_ok_def list_all_iff)

lemma items_ok_suffix: "items_ok (xs @ zs) \<Longrightarrow> zs \<noteq> [] \<Longrightarrow> items_ok zs"
  by (induction xs) (auto dest: items_ok_ConsD)

lemma over_plain: "items_ok (xs @ y # zs) \<Longrightarrow> zs \<noteq> [] \<Longrightarrow> list_all plain_item xs"
  by (auto simp: items_ok_def butlast_append)

lemma items_ok_plain_append:
  assumes "items_ok zs" "zs \<noteq> []" "list_all plain_item xs" "list_all item_ok xs" "distinct (map item_id (xs @ zs))"
  shows "items_ok (xs @ zs) \<and> secondHas headTag (xs @ zs) = secondHas headTag zs
    \<and> secondHas bodyTag (xs @ zs) = secondHas bodyTag zs"
  using assms(3-5)
proof (induction xs)
  case (Cons x xs)
  then have "items_ok (xs @ zs)" "xs @ zs \<noteq> []" "item_ok x" "item_id x \<notin> item_id ` set (xs @ zs)" "plain_item x"
    using assms(2) by auto
  from push_list_ok [OF this] show ?case using Cons by simp
qed (use assms in simp)

lemma swap_plain:
  assumes "items_ok (xs @ ys @ zs)" "list_all plain_item (xs @ ys)" "zs \<noteq> []"
    and "list_all plain_item ys'" "list_all item_ok ys'" "distinct (map item_id (xs @ ys' @ zs))"
  shows "items_ok (xs @ ys' @ zs)" "secondHas headTag (xs @ ys' @ zs) = secondHas headTag (xs @ ys @ zs)"
    "secondHas bodyTag (xs @ ys' @ zs) = secondHas bodyTag (xs @ ys @ zs)"
proof -
  have z: "items_ok zs" using items_ok_suffix [of "xs @ ys" zs] assms(1,3) by simp
  have ok: "list_all item_ok (xs @ ys)" using assms(1) by (simp add: items_ok_def)
  have "items_ok ((xs @ ys') @ zs) \<and> secondHas headTag ((xs @ ys') @ zs) = secondHas headTag zs
      \<and> secondHas bodyTag ((xs @ ys') @ zs) = secondHas bodyTag zs"
    using assms ok by (intro items_ok_plain_append z) auto
  moreover have "items_ok ((xs @ ys) @ zs) \<and> secondHas headTag ((xs @ ys) @ zs) = secondHas headTag zs
      \<and> secondHas bodyTag ((xs @ ys) @ zs) = secondHas bodyTag zs"
    using assms(2,3) ok items_ok_distinct [OF assms(1)] by (intro items_ok_plain_append z) auto
  ultimately show "items_ok (xs @ ys' @ zs)" "secondHas headTag (xs @ ys' @ zs) = secondHas headTag (xs @ ys @ zs)"
    "secondHas bodyTag (xs @ ys' @ zs) = secondHas bodyTag (xs @ ys @ zs)" by simp_all
qed

lemma insertAbove_loop_eq:
  "0 < k \<Longrightarrow> insertAbove_loop item k items =
     (if k < length items then Some (take k items @ item # drop k items) else None)"
proof (induction items arbitrary: k)
  case (Cons r items)
  then show ?case by (cases "k = 1"; cases items) (auto simp: take_Cons' drop_Cons')
qed simp

lemma insertAbove_ok:
  assumes "stack_ok s" "m_top s = over @ below # rest" "rest \<noteq> []"
    and "item_ok item" "plain_item item" "item_id item \<notin> item_id ` set (m_top s)"
  shows "stack_ok (insertAbove item (length over) s)"
    and "m_top (insertAbove item (length over) s) = over @ item # below # rest"
proof -
  let ?s = "insertAbove item (length over) s"
  have ok: "items_ok (over @ below # rest)" and asserts: "stack_asserts s" "m_rootNode s \<noteq> None"
    using assms(1,2) by (auto simp: stack_ok_def stack_inv_def)
  have names: "\<not> hasTagName htmlTag item" "\<not> hasTagName headTag item" "\<not> hasTagName bodyTag item" "isElementNode item"
    using assms(4,5) by (auto simp: plain_item_def isRootNode_def not_root_element)
  have silent: "stack_assert (m_top s \<noteq> [] \<and> \<not> hasTagName htmlTag item \<and> \<not> hasTagName headTag item
      \<and> \<not> hasTagName bodyTag item \<and> m_rootNode s \<noteq> None) s = s"
    using asserts names assms(2) by (simp add: stack_assert_def)
  show top: "m_top ?s = over @ item # below # rest"
  proof (cases "over = []")
    case True
    then show ?thesis using assms(2) silent by (simp add: insertAbove_def push_def pushCommon_def stack_assert_def)
  next
    case False
    then show ?thesis using assms(2) silent insertAbove_loop_eq [of "length over" item "m_top s"]
      by (simp add: insertAbove_def node_call_def stack_assert_def)
  qed
  have fields: "m_stackDepth ?s = m_stackDepth s + 1" "m_rootNode ?s = m_rootNode s"
    "m_headElement ?s = m_headElement s" "m_bodyElement ?s = m_bodyElement s" "stack_asserts ?s"
    using assms(2) silent asserts names insertAbove_loop_eq [of "length over" item "m_top s"]
    by (cases "over = []"; simp add: insertAbove_def node_call_def stack_assert_def push_def pushCommon_def)+
  have "items_ok (over @ [item] @ below # rest)"
    "secondHas headTag (over @ [item] @ below # rest) = secondHas headTag (over @ [] @ below # rest)"
    "secondHas bodyTag (over @ [item] @ below # rest) = secondHas bodyTag (over @ [] @ below # rest)"
    by (rule swap_plain [of over "[]" "below # rest" "[item]"];
      use over_plain [OF ok assms(3)] ok assms(2,4-6) items_ok_distinct [OF ok] in \<open>simp add: image_iff\<close>)+
  then show "stack_ok ?s" using assms(1) fields asserts top assms(2,3)
    by (auto simp: stack_ok_def stack_inv_def)
qed

lemma removeNonTopCommon_loop_present:
  assumes "distinct (map item_id (over @ target # rest))" "over \<noteq> []"
  shows "removeNonTopCommon_loop (item_id target) (over @ target # rest) =
    Some (over @ rest, True, list_all isElementNode (tl over @ [target]))"
  using assms
proof (induction over)
  case (Cons r over)
  then show ?case by (cases over) (auto simp: image_iff conj_commute)
qed simp

lemma removeNonTopCommon_loop_absent:
  "items \<noteq> [] \<Longrightarrow> element \<notin> item_id ` set (tl items) \<Longrightarrow> removeNonTopCommon_loop element items = None"
  by (induction element items rule: removeNonTopCommon_loop.induct) auto

lemma not_root_nodes: "items_ok (xs @ zs) \<Longrightarrow> zs \<noteq> [] \<Longrightarrow> list_all isElementNode xs"
  by (induction xs) (auto dest: items_ok_ConsD not_root_element)

definition removed :: "HTMLStackItem list \<Rightarrow> HTMLStackItem \<Rightarrow> HTMLStackItem list \<Rightarrow> HTMLElementStack \<Rightarrow> HTMLElementStack" where
  "removed over target rest s =
     s\<lparr>m_top := over @ rest, m_stackDepth := m_stackDepth s - 1,
       stack_events := stack_events s @ [FinishParsingChildren (item_id target)]\<rparr>"

lemma removed_top: "m_top s = target # rest \<Longrightarrow> popped [target] s = removed [] target rest s"
  by (simp add: popped_def removed_def)

lemma removeNonTopCommon_eq:
  assumes "items_ok (m_top s)" "stack_asserts s" "m_top s = over @ target # rest" "over \<noteq> []" "rest \<noteq> []"
    "\<not> hasTagName bodyTag target"
  shows "removeNonTopCommon (si_node target) s = Some (removed over target rest s)"
proof -
  obtain top over' where over: "over = top # over'" using assms(4) by (cases over) auto
  note dist = items_ok_distinct [OF assms(1)]
  have nodes: "list_all isElementNode (over @ [target])"
    using not_root_nodes [of "over @ [target]" rest] assms(1,3,5) by simp
  have target: "item_ok target" "\<not> isRootNode target"
    using assms(1,3,5) items_ok_suffix [of over "target # rest"] items_ok_ConsD [of target rest] by auto
  then have tags: "node_tag (si_node target) \<noteq> Some htmlTag" "node_tag (si_node target) \<noteq> Some bodyTag"
    using nodeHasTag_iff [OF target(1)] assms(6) by (auto simp: nodeHasTag_def isRootNode_def)
  have loop: "removeNonTopCommon_loop (item_id target) (m_top s) =
      Some (over @ rest, True, list_all isElementNode (tl over @ [target]))"
    using removeNonTopCommon_loop_present [of over target rest] dist assms(3,4) by simp
  have "item_id top \<noteq> item_id target" using dist assms(3) over by auto
  then show ?thesis using loop nodes tags assms(2,3) over
    by (simp add: removeNonTopCommon_def stack_assert_def node_call_def removed_def)
qed

lemma removed_ok:
  assumes "stack_ok s" "m_top s = over @ target # rest" "plain_item target"
  shows "stack_ok (removed over target rest s)"
proof -
  have ok: "items_ok (over @ [target] @ rest)" using assms(1,2) by (simp add: stack_ok_def stack_inv_def)
  have rest: "rest \<noteq> []"
    using items_ok_suffix [of over "target # rest"] pop_list_ok(1) [of target rest] ok assms(3) by simp
  have "items_ok (over @ [] @ rest)" "secondHas headTag (over @ [] @ rest) = secondHas headTag (over @ [target] @ rest)"
    "secondHas bodyTag (over @ [] @ rest) = secondHas bodyTag (over @ [target] @ rest)"
    by (rule swap_plain [of over "[target]" rest "[]"];
      use over_plain [of over target rest] ok rest assms(3) items_ok_distinct [OF ok] in simp)+
  then show ?thesis using assms rest by (simp add: stack_ok_def stack_inv_def removed_def)
qed

lemma remove_ok:
  assumes "stack_ok s" "m_top s = over @ target # rest" "plain_item target"
  shows "remove_element (si_node target) s = Some (removed over target rest s)"
    and "stack_ok (removed over target rest s)"
proof -
  have ok: "items_ok (over @ target # rest)" "stack_asserts s" using assms(1,2) by (simp_all add: stack_ok_def stack_inv_def)
  have suffix: "items_ok (target # rest)" using items_ok_suffix ok by blast
  have rest: "rest \<noteq> []" using pop_list_ok(1) [OF suffix assms(3)] .
  have target: "item_ok target" "\<not> hasTagName headTag target" "\<not> hasTagName bodyTag target" "isElementNode target"
    using items_ok_ConsD [OF suffix rest] assms(3) not_root_element by (auto simp: plain_item_def)
  have head: "node_tag (si_node target) \<noteq> Some headTag"
    using nodeHasTag_iff [OF target(1)] target(2) by (simp add: nodeHasTag_def)
  show "remove_element (si_node target) s = Some (removed over target rest s)"
  proof (cases over)
    case Nil
    then show ?thesis using assms ok head target pop_ok [OF assms(1) _ assms(3), of rest] removed_top [of s target rest]
      by (simp add: remove_element_def quiet)
  next
    case (Cons top over')
    have nodes: "isElementNode top" using not_root_nodes [of over "target # rest"] ok Cons by simp
    have "item_id top \<noteq> item_id target" using items_ok_distinct [OF ok(1)] Cons by auto
    then show ?thesis using removeNonTopCommon_eq [of s over target rest] assms(2) ok head target nodes rest Cons
      by (simp add: remove_element_def quiet)
  qed
  show "stack_ok (removed over target rest s)" by (rule removed_ok [OF assms])
qed

lemma replaceElement_ok:
  assumes "stack_ok s" "m_top s = over @ old # rest" "plain_item old"
    and "item_ok item" "plain_item item" "item_id item \<notin> item_id ` set (m_top s)"
  shows "stack_ok (replaceElement (length over) item s)"
    and "m_top (replaceElement (length over) item s) = over @ item # rest"
proof -
  have ok: "items_ok (over @ [old] @ rest)" using assms(1,2) by (simp add: stack_ok_def stack_inv_def)
  have suffix: "items_ok (old # rest)" using items_ok_suffix [of over "old # rest"] ok by simp
  have rest: "rest \<noteq> []" using pop_list_ok(1) [OF suffix assms(3)] .
  show top: "m_top (replaceElement (length over) item s) = over @ item # rest"
    using assms(2) by (simp add: replaceElement_def stack_assert_def)
  have "items_ok (over @ [item] @ rest)" "secondHas headTag (over @ [item] @ rest) = secondHas headTag (over @ [old] @ rest)"
    "secondHas bodyTag (over @ [item] @ rest) = secondHas bodyTag (over @ [old] @ rest)"
    by (rule swap_plain [of over "[old]" rest "[item]"];
      use over_plain [of over old rest] ok rest assms(2-6) items_ok_distinct [OF ok] in \<open>simp add: image_iff\<close>)+
  moreover have "isElement old" using items_ok_ConsD [OF suffix rest] by (simp add: isRootNode_def isElement_def)
  ultimately show "stack_ok (replaceElement (length over) item s)" using assms(1,2) rest
    by (simp add: stack_ok_def stack_inv_def replaceElement_def stack_assert_def nth_append)
qed

section \<open>Head and body\<close>

lemma second_place:
  assumes "items_ok items" "item \<in> set items" "hasTagName headTag item \<or> hasTagName bodyTag item"
  shows "\<exists>over root. items = over @ [item, root] \<and> list_all plain_item over \<and> \<not> isRootNode item"
proof -
  have np: "\<not> plain_item item" "\<not> isRootNode item" using assms(3) named_not_root by (auto simp: plain_item_def)
  obtain over rest where s: "items = over @ item # rest" using split_list [OF assms(2)] by blast
  have rest: "rest \<noteq> []" using assms(1) s np items_ok_suffix [of over "item # rest"] by (auto simp: items_ok_Cons)
  have "\<not> 2 \<le> length rest"
    using items_ok_suffix [of over "item # rest"] assms(1) s np by (auto simp: items_ok_Cons)
  then obtain root where "rest = [root]" using one_or_more [OF rest] by auto
  then show ?thesis using s over_plain [of over item rest] assms(1) rest np by auto
qed

lemma head_pointer:
  assumes "stack_ok s" "m_top s = over @ [item, root]"
  shows "m_headElement s = (if hasTagName headTag item then Some (item_id item) else None)"
    "m_bodyElement s = (if hasTagName bodyTag item then Some (item_id item) else None)"
proof -
  have "last (butlast (over @ [item, root])) = item" by (simp add: butlast_append)
  then show "m_headElement s = (if hasTagName headTag item then Some (item_id item) else None)"
    "m_bodyElement s = (if hasTagName bodyTag item then Some (item_id item) else None)"
    using assms by (simp_all add: stack_ok_def stack_inv_def secondHas_def)
qed

lemma popNamed_ok:
  assumes "stack_ok s" "m_top s = [item, root]"
  shows "hasTagName headTag item \<Longrightarrow>
      \<exists>s'. popHTMLHeadElement s = Some s' \<and> stack_ok s' \<and> m_top s' = [root]"
    "hasTagName bodyTag item \<Longrightarrow>
      \<exists>s'. popHTMLBodyElement s = Some s' \<and> stack_ok s' \<and> m_top s' = [root]"
proof -
  have ok: "items_ok [item, root]" "stack_asserts s" "m_stackDepth s = 2" "m_rootNode s = Some (item_id root)"
    using assms by (simp_all add: stack_ok_def stack_inv_def)
  have item: "items_ok [root]" "isElementNode item" "\<not> hasTagName htmlTag item"
    using items_ok_ConsD [OF ok(1)] not_root_element not_root_html by simp_all
  note ptr = head_pointer [of s "[]" item root, simplified, OF assms]
  show "\<exists>s'. popHTMLHeadElement s = Some s' \<and> stack_ok s' \<and> m_top s' = [root]" if "hasTagName headTag item"
    using that ptr item ok assms(2)
    by (simp add: popHTMLHeadElement_def popCommon_def stack_assert_def node_call_def stack_ok_def stack_inv_def
        secondHas_Cons)
  show "\<exists>s'. popHTMLBodyElement s = Some s' \<and> stack_ok s' \<and> m_top s' = [root]" if "hasTagName bodyTag item"
  proof -
    have "\<not> hasTagName headTag item" using that hasTagName_exclusive(1) by blast
    then show ?thesis using that ptr item ok assms(2)
      by (simp add: popHTMLBodyElement_def popCommon_def stack_assert_def node_call_def stack_ok_def stack_inv_def
        secondHas_Cons)
  qed
qed

lemma removeHead_ok:
  assumes "stack_ok s" "m_top s = over @ [item, root]" "hasTagName headTag item"
  shows "\<exists>s'. removeHTMLHeadElement (si_node item) s = Some s' \<and> stack_ok s' \<and> m_top s' = over @ [root]
    \<and> m_headElement s' = None"
proof -
  have ok: "items_ok (over @ [item] @ [root])" "stack_asserts s" using assms(1,2) by (simp_all add: stack_ok_def stack_inv_def)
  have suffix: "items_ok [item, root]" using items_ok_suffix [of over "[item, root]"] ok by simp
  note item = items_ok_ConsD [OF suffix]
  have head: "m_headElement s = Some (item_id item)" and body: "m_bodyElement s = None"
    using head_pointer [OF assms(1,2)] assms(3) by simp_all
  show ?thesis
  proof (cases over)
    case Nil
    have "isElementNode item" using item not_root_element by simp
    moreover have "m_headElement s' = None" if "stack_ok s'" "m_top s' = [root]" for s'
      using that by (simp add: stack_ok_def stack_inv_def secondHas_Cons)
    ultimately show ?thesis using popNamed_ok(1) [OF assms(1) _ assms(3), of root] assms(2) ok(2) Nil head
      by (auto simp: removeHTMLHeadElement_def quiet)
  next
    case (Cons top over')
    have nodes: "isElementNode top" using not_root_nodes [of over "[item, root]"] ok Cons by simp
    have ids: "item_id top \<noteq> item_id item" using items_ok_distinct [OF ok(1)] Cons by auto
    let ?s = "s\<lparr>m_headElement := None\<rparr>"
    have "removeHTMLHeadElement (si_node item) s = Some (removed over item [root] ?s)"
      using removeNonTopCommon_eq [of ?s over item "[root]"] assms ok nodes ids Cons head
      by (simp add: removeHTMLHeadElement_def quiet)
    moreover have "items_ok (over @ [root]) \<and> secondHas headTag (over @ [root]) = secondHas headTag [root]
        \<and> secondHas bodyTag (over @ [root]) = secondHas bodyTag [root]"
      by (rule items_ok_plain_append)
        (use item over_plain [of over item "[root]"] items_ok_distinct [OF ok(1)] ok(1) in \<open>auto simp: items_ok_def\<close>)
    ultimately show ?thesis using assms(1,2) body
      by (auto simp: stack_ok_def stack_inv_def removed_def secondHas_Cons)
  qed
qed

end
