(* ===== verification/Html_Element_Stack_Scope.thy ===== *)
theory Html_Element_Stack_Scope
  imports Html_Element_Stack_Calls
begin

text \<open>
  The scopes of the stack of open elements. Every scope query walks down to a marker, and relies on the
  root being one; the locale states that law, the queries and the loops that pop to a marker are
  treated in it once, and it is interpreted on each of the marker functions of the source.
\<close>

section \<open>Looking down the stack\<close>

definition in_scope :: "(HTMLStackItem \<Rightarrow> bool) \<Rightarrow> (HTMLStackItem \<Rightarrow> bool) \<Rightarrow> HTMLStackItem list \<Rightarrow> bool" where
  "in_scope isMarker isTarget items \<longleftrightarrow>
     (\<exists>i < length items. isTarget (items ! i) \<and> (\<forall>j < i. \<not> isMarker (items ! j)))"

lemma in_scope_Cons:
  "in_scope M T (item # items) \<longleftrightarrow> T item \<or> \<not> M item \<and> in_scope M T items"
proof
  assume "in_scope M T (item # items)"
  then obtain i where i: "i < Suc (length items)" "T ((item # items) ! i)" "\<forall>j < i. \<not> M ((item # items) ! j)"
    unfolding in_scope_def by auto
  show "T item \<or> \<not> M item \<and> in_scope M T items"
  proof (cases i)
    case (Suc k)
    then have "\<not> M item" "\<forall>j < k. \<not> M (items ! j)" using i(3) by fastforce+
    then show ?thesis using i Suc unfolding in_scope_def by auto
  qed (use i in simp)
next
  assume "T item \<or> \<not> M item \<and> in_scope M T items"
  then show "in_scope M T (item # items)"
  proof (elim disjE conjE)
    assume "\<not> M item" "in_scope M T items"
    then obtain i where i: "i < length items" "T (items ! i)" "\<forall>j < i. \<not> M (items ! j)"
      unfolding in_scope_def by auto
    have "\<not> M ((item # items) ! j)" if "j < Suc i" for j using that i(3) \<open>\<not> M item\<close> by (cases j) auto
    then show ?thesis using i unfolding in_scope_def by (intro exI [of _ "Suc i"]) auto
  qed (auto simp: in_scope_def)
qed

lemma inScope_loop_eq:
  "inScope_loop M T items =
     (if list_all (\<lambda>item. \<not> T item \<and> \<not> M item) items then None else Some (in_scope M T items))"
  by (induction items) (simp_all add: in_scope_Cons)

lemma first_split:
  assumes "\<exists>item \<in> set items. P item"
  obtains over target rest where "items = over @ target # rest" "P target" "list_all (\<lambda>i. \<not> P i) over"
  using split_list_first_prop [OF assms] unfolding list_all_iff by metis

lemma in_scope_split:
  assumes "in_scope M T items"
  obtains over target rest where "items = over @ target # rest" "T target"
    "list_all (\<lambda>i. \<not> T i \<and> \<not> M i) over"
proof -
  have "\<exists>over target rest. items = over @ target # rest \<and> T target \<and> list_all (\<lambda>i. \<not> T i \<and> \<not> M i) over"
    using assms
  proof (induction items)
    case (Cons item items)
    show ?case
    proof (cases "T item")
      case True
      then show ?thesis by (intro exI [of _ "[]"]) auto
    next
      case False
      then have M: "\<not> M item" "in_scope M T items" using Cons.prems by (auto simp: in_scope_Cons)
      obtain over target rest where o: "items = over @ target # rest" "T target" "list_all (\<lambda>i. \<not> T i \<and> \<not> M i) over"
        using Cons.IH [OF M(2)] by blast
      show ?thesis using o M False by (intro exI [of _ "item # over"] exI [of _ target] exI [of _ rest]) auto
    qed
  qed (simp add: in_scope_def)
  then show thesis using that by blast
qed

section \<open>The interface of a scope\<close>

lemma root_only_html: "isRootNode item \<Longrightarrow> matchesHTMLTag tag item \<Longrightarrow> tag = lit ''html''"
  by (auto simp: isRootNode_def matchesHTMLTag_def isDocumentFragment_def hasTagName_def htmlTag_def htmlName_def)

locale scope_marker =
  fixes isMarker :: "HTMLStackItem \<Rightarrow> bool"
  assumes root_marks: "item_ok item \<Longrightarrow> isRootNode item \<Longrightarrow> isMarker item"
begin

lemma root_in_stack:
  assumes "items_ok items" "items \<noteq> []"
  shows "isRootNode (last items)" "isMarker (last items)"
  using assms root_marks [of "last items"] items_ok_member [OF assms(1), of "last items"] by (auto simp: items_ok_def)

lemma query_decides:
  assumes "stack_ok s" "m_top s \<noteq> []"
  shows "inScope_loop isMarker T (m_top s) = Some (in_scope isMarker T (m_top s))"
proof -
  have "isMarker (last (m_top s))" using root_in_stack assms by (simp add: stack_ok_def stack_inv_def)
  then have "\<not> list_all (\<lambda>item. \<not> T item \<and> \<not> isMarker item) (m_top s)"
    using last_in_set [OF assms(2)] by (auto simp: list_all_iff)
  then show ?thesis by (simp add: inScope_loop_eq)
qed

text \<open>What is found in scope is above everything that must not be popped on the way.\<close>

lemma target_reachable:
  assumes "stack_ok s" "inScope_loop isMarker T (m_top s) = Some True"
    and "\<And>item. isRootNode item \<Longrightarrow> \<not> T item"
  obtains over target rest where "m_top s = over @ target # rest" "T target" "rest \<noteq> []"
    "list_all (\<lambda>i. plain_item i \<and> \<not> T i \<and> isElementNode i) over" "list_all (\<lambda>i. \<not> isMarker i) over"
proof -
  have items: "items_ok (m_top s)" using assms(1) by (simp add: stack_ok_def stack_inv_def)
  have "in_scope isMarker T (m_top s)" using assms(2) by (simp add: inScope_loop_eq split: if_splits)
  then obtain over target rest where split: "m_top s = over @ target # rest" "T target"
    "list_all (\<lambda>i. \<not> T i \<and> \<not> isMarker i) over" by (rule in_scope_split)
  have rest: "rest \<noteq> []"
  proof
    assume "rest = []"
    then have "isRootNode target" using root_in_stack(1) [OF items] split(1) by simp
    then show False using assms(3) split(2) by blast
  qed
  have "list_all plain_item over" "list_all isElementNode over"
    using over_plain [of over target rest] not_root_nodes [of over "target # rest"] items split(1) rest by simp_all
  then show thesis using that split rest by (auto simp: list_all_iff)
qed

lemma in_scope_pops:
  assumes "stack_ok s" "inScope_loop isMarker T (m_top s) = Some True"
    and "\<And>item. isRootNode item \<Longrightarrow> \<not> T item" "\<And>item. T item \<Longrightarrow> plain_item item"
    and "\<And>item. isElementNode item \<Longrightarrow> reads item"
  obtains over target rest where "m_top s = over @ target # rest" "T target" "list_all (\<lambda>i. \<not> T i) over"
    "Option.bind (popWhileNot reads T s) pop = Some (popped (over @ [target]) s)"
    "stack_ok (popped (over @ [target]) s)"
proof -
  obtain over target rest where split: "m_top s = over @ target # rest" "T target" "rest \<noteq> []"
    "list_all (\<lambda>i. plain_item i \<and> \<not> T i \<and> isElementNode i) over"
    using target_reachable [OF assms(1-3)] by metis
  have items: "items_ok (m_top s)" using assms(1) by (simp add: stack_ok_def stack_inv_def)
  have over: "list_all (\<lambda>i. plain_item i \<and> \<not> T i \<and> reads i) over"
    using split(4) assms(5) by (auto simp: list_all_iff)
  have "isElementNode target" using not_root_nodes [of "over @ [target]" rest] items split by simp
  then have "reads target" by (rule assms(5))
  note popPast_ok [where reads = reads and stop = T, OF assms(1) split(1,2) this assms(4) [OF split(2)] over]
  then show thesis using that split by (auto simp: list_all_iff)
qed

text \<open>Popping to the marker itself, when the head and the body are not in the way.\<close>

lemma pop_to_marker:
  assumes "stack_ok s" "m_top s \<noteq> []"
    and "(\<exists>item \<in> set (m_top s). isMarker item \<and> \<not> isRootNode item) \<or> m_headElement s = None \<and> m_bodyElement s = None"
  obtains over target rest where "m_top s = over @ target # rest" "isMarker target" "list_all (\<lambda>i. \<not> isMarker i) over"
    "popWhileNot (\<lambda>_. True) isMarker s = Some (popped over s)" "stack_ok (popped over s)"
proof -
  have items: "items_ok (m_top s)" using assms(1) by (simp add: stack_ok_def stack_inv_def)
  note root = root_in_stack [OF items assms(2)]
  obtain over target rest where split: "m_top s = over @ target # rest" "isMarker target" "list_all (\<lambda>i. \<not> isMarker i) over"
    by (rule first_split [of "m_top s" isMarker]) (use root last_in_set [OF assms(2)] in auto)
  have "list_all plain_item over"
  proof (cases "rest = []")
    case False
    then show ?thesis using over_plain [of over target rest] items split(1) by simp
  next
    case True
    then have "target = last (m_top s)" using split(1) by simp
    then have "\<not> (\<exists>item \<in> set (m_top s). isMarker item \<and> \<not> isRootNode item)"
      using split root True by (auto simp: list_all_iff)
    then have none: "m_headElement s = None" "m_bodyElement s = None" using assms(3) by blast+
    show ?thesis unfolding list_all_iff
    proof
      fix item assume item: "item \<in> set over"
      then have nr: "\<not> isRootNode item" using not_root_nodes items split root_marks items_ok_member [OF items]
        by (auto simp: list_all_iff)
      have "\<not> (hasTagName headTag item \<or> hasTagName bodyTag item)"
      proof
        assume named: "hasTagName headTag item \<or> hasTagName bodyTag item"
        obtain over' root where "m_top s = over' @ [item, root]"
          using second_place [OF items _ named] item split(1) by auto
        from head_pointer [OF assms(1) this] none named show False by auto
      qed
      then show "plain_item item" using nr by (simp add: plain_item_def)
    qed
  qed
  then have "list_all (\<lambda>i. plain_item i \<and> \<not> isMarker i \<and> True) over" using split(3) by (simp add: list_all_iff)
  from popWhileNot_ok [where reads = "\<lambda>_. True" and stop = isMarker, OF assms(1) split(1,2) TrueI this]
  show thesis using that split by blast
qed

end

section \<open>The scopes of the source\<close>

lemma root_not_named: "isRootNode item \<Longrightarrow> name \<noteq> htmlTag \<Longrightarrow> \<not> hasTagName name item"
  using hasTagName_unique [of htmlTag item name]
  by (auto simp: isRootNode_def isDocumentFragment_def hasTagName_def)

lemma option_names: "htmlName (lit ''optgroup'') \<noteq> htmlTag" "htmlName (lit ''option'') \<noteq> htmlTag"
  by (simp_all add: htmlTag_def htmlName_def)

interpretation default_scope: scope_marker isScopeMarker
  by unfold_locales (simp add: isScopeMarker_def)

interpretation list_item_scope: scope_marker isListItemScopeMarker
  by unfold_locales (simp add: isListItemScopeMarker_def isScopeMarker_def)

interpretation table_scope: scope_marker isTableScopeMarker
  by unfold_locales (simp add: isTableScopeMarker_def)

interpretation table_body_scope: scope_marker isTableBodyScopeMarker
  by unfold_locales (simp add: isTableBodyScopeMarker_def)

interpretation table_row_scope: scope_marker isTableRowScopeMarker
  by unfold_locales (simp add: isTableRowScopeMarker_def)

interpretation button_scope: scope_marker isButtonScopeMarker
  by unfold_locales (simp add: isButtonScopeMarker_def isScopeMarker_def)

interpretation select_scope: scope_marker isSelectScopeMarker
  by unfold_locales (use root_not_named option_names nodeHasTag_iff in \<open>metis isSelectScopeMarker_def\<close>)

interpretation html_scope: scope_marker isRootNode
  by unfold_locales

interpretation foreign_scope: scope_marker isForeignContentScopeMarker
  by unfold_locales
    (auto simp: isForeignContentScopeMarker_def isInHTMLNamespace_def isRootNode_def hasTagName_def htmlTag_def htmlName_def)

end
