(* ===== verification/Html_Element_Stack_Properties.thy ===== *)
theory Html_Element_Stack_Properties
  imports Html_Element_Stack_Scope
begin

text \<open>
  The calls the tree builder makes on the stack of open elements, with the conditions it makes them
  under, and the properties of the stack.
\<close>

section \<open>The calls of the tree builder\<close>

definition ordinary_tag :: "AtomicString \<Rightarrow> bool" where
  "ordinary_tag tag \<longleftrightarrow> tag \<noteq> lit ''html'' \<and> tag \<noteq> lit ''head'' \<and> tag \<noteq> lit ''body''"

definition fresh_item :: "HTMLStackItem \<Rightarrow> HTMLElementStack \<Rightarrow> bool" where
  "fresh_item item s \<longleftrightarrow> item_ok item \<and> item_id item \<notin> item_id ` set (m_top s)"

definition context_present :: "AtomicString list \<Rightarrow> HTMLElementStack \<Rightarrow> bool" where
  "context_present tags s \<longleftrightarrow>
     (\<exists>tag \<in> set tags. contains_tag tag s) \<or> m_headElement s = None \<and> m_bodyElement s = None"

text \<open>
  \<open>stack_call s r\<close>: on the stack \<open>s\<close> the tree builder makes a call with the result \<open>r\<close>, where \<open>None\<close> is a
  null pointer followed. It pops to a tag after a scope query found the tag, clears back to a table
  context when it is inside one, and handles the head and the body by the operations for them.
\<close>

inductive stack_call :: "HTMLElementStack \<Rightarrow> HTMLElementStack option \<Rightarrow> bool" where
  push_fragment: "m_top s = [] \<Longrightarrow> fresh_item item s \<Longrightarrow> isDocumentFragment item \<Longrightarrow>
    stack_call s (Some (pushRootNode item s))"
| push_html: "m_top s = [] \<Longrightarrow> fresh_item item s \<Longrightarrow> hasTagName htmlTag item \<Longrightarrow>
    stack_call s (Some (pushHTMLHtmlElement item s))"
| push_head: "hasOnlyOneElement s = Some True \<Longrightarrow> fresh_item item s \<Longrightarrow> hasTagName headTag item \<Longrightarrow>
    stack_call s (Some (pushHTMLHeadElement item s))"
| push_body: "hasOnlyOneElement s = Some True \<Longrightarrow> fresh_item item s \<Longrightarrow> hasTagName bodyTag item \<Longrightarrow>
    stack_call s (Some (pushHTMLBodyElement item s))"
| push: "m_top s \<noteq> [] \<Longrightarrow> fresh_item item s \<Longrightarrow> plain_item item \<Longrightarrow> stack_call s (Some (push item s))"
| insert_above: "record + 1 < length (m_top s) \<Longrightarrow> fresh_item item s \<Longrightarrow> plain_item item \<Longrightarrow>
    stack_call s (Some (insertAbove item record s))"
| pop: "m_top s = item # items \<Longrightarrow> plain_item item \<Longrightarrow> stack_call s (pop s)"
| pop_head: "m_top s = item # items \<Longrightarrow> hasTagName headTag item \<Longrightarrow> stack_call s (popHTMLHeadElement s)"
| pop_body: "m_top s = item # items \<Longrightarrow> hasTagName bodyTag item \<Longrightarrow> stack_call s (popHTMLBodyElement s)"
| pop_tag: "ordinary_tag tag \<Longrightarrow>
    inScope tag s = Some True \<or> inListItemScope tag s = Some True \<or> inTableScope tag s = Some True
    \<or> inButtonScope tag s = Some True \<or> inSelectScope tag s = Some True \<Longrightarrow>
    stack_call s (popUntilPopped tag s)"
| pop_template: "hasTemplateInHTMLScope s = Some True \<Longrightarrow> stack_call s (popUntilPopped (lit ''template'') s)"
| pop_header: "hasNumberedHeaderElementInScope s = Some True \<Longrightarrow> stack_call s (popUntilNumberedHeaderElementPopped s)"
| pop_element: "item \<in> set (m_top s) \<Longrightarrow> plain_item item \<Longrightarrow> inScope_element (item_id item) s = Some True \<Longrightarrow>
    stack_call s (popUntilPopped_element (item_id item) s)"
| clear_to_table: "m_top s \<noteq> [] \<Longrightarrow> context_present (map lit [''table'', ''template'']) s \<Longrightarrow>
    stack_call s (popUntilTableScopeMarker s)"
| clear_to_table_body: "m_top s \<noteq> [] \<Longrightarrow> context_present (map lit [''tbody'', ''tfoot'', ''thead'', ''template'']) s \<Longrightarrow>
    stack_call s (popUntilTableBodyScopeMarker s)"
| clear_to_table_row: "m_top s \<noteq> [] \<Longrightarrow> context_present (map lit [''tr'', ''template'']) s \<Longrightarrow>
    stack_call s (popUntilTableRowScopeMarker s)"
| leave_foreign: "m_top s \<noteq> [] \<Longrightarrow> stack_call s (popUntilForeignContentScopeMarker s)"
| remove: "item \<in> set (m_top s) \<Longrightarrow> plain_item item \<Longrightarrow> stack_call s (remove_element (si_node item) s)"
| remove_head: "item \<in> set (m_top s) \<Longrightarrow> hasTagName headTag item \<Longrightarrow> stack_call s (removeHTMLHeadElement (si_node item) s)"
| replace: "record < length (m_top s) \<Longrightarrow> plain_item (m_top s ! record) \<Longrightarrow> fresh_item item s \<Longrightarrow> plain_item item \<Longrightarrow>
    stack_call s (Some (replaceElement record item s))"
| pop_all: "stack_call s (Some (popAll s))"

inductive stack_reachable :: "HTMLElementStack \<Rightarrow> bool" where
  start: "stack_reachable HTMLElementStack_new"
| call: "stack_reachable s \<Longrightarrow> stack_call s (Some s') \<Longrightarrow> stack_reachable s'"

section \<open>Every call keeps the invariant\<close>

abbreviation safe_result :: "HTMLElementStack option \<Rightarrow> bool" where
  "safe_result r \<equiv> \<exists>s'. r = Some s' \<and> stack_ok s'"

lemma matches_plain: "ordinary_tag tag \<Longrightarrow> matchesHTMLTag tag item \<Longrightarrow> plain_item item"
  by (auto simp: ordinary_tag_def plain_item_def matchesHTMLTag_def isRootNode_def isDocumentFragment_def
      hasTagName_def htmlTag_def headTag_def bodyTag_def htmlName_def)

lemma ordinary_not_root: "ordinary_tag tag \<Longrightarrow> isRootNode item \<Longrightarrow> \<not> matchesHTMLTag tag item"
  using root_only_html by (auto simp: ordinary_tag_def)

lemma scope_pop_tag:
  assumes "stack_ok s" "ordinary_tag tag" "scope_marker M" "inScopeCommon M tag s = Some True"
  shows "\<exists>over target rest. m_top s = over @ target # rest \<and> matchesHTMLTag tag target
    \<and> list_all (\<lambda>i. \<not> matchesHTMLTag tag i) over
    \<and> popUntilPopped tag s = Some (popped (over @ [target]) s) \<and> stack_ok (popped (over @ [target]) s)"
proof -
  obtain over target rest where "m_top s = over @ target # rest" "matchesHTMLTag tag target"
    "list_all (\<lambda>i. \<not> matchesHTMLTag tag i) over"
    "Option.bind (popWhileNot (\<lambda>_. True) (matchesHTMLTag tag) s) pop = Some (popped (over @ [target]) s)"
    "stack_ok (popped (over @ [target]) s)"
    by (rule scope_marker.in_scope_pops [OF assms(3,1), of "matchesHTMLTag tag" "\<lambda>_. True"])
      (use assms ordinary_not_root matches_plain in \<open>auto simp: inScopeCommon_def\<close>)
  then show ?thesis unfolding popUntilPopped_def popUntil_def by blast
qed

lemmas scopes = default_scope.scope_marker_axioms list_item_scope.scope_marker_axioms
  table_scope.scope_marker_axioms button_scope.scope_marker_axioms select_scope.scope_marker_axioms

lemma scoped_pop_tag:
  assumes "stack_ok s" "ordinary_tag tag"
    and "inScope tag s = Some True \<or> inListItemScope tag s = Some True \<or> inTableScope tag s = Some True
      \<or> inButtonScope tag s = Some True \<or> inSelectScope tag s = Some True"
  shows "\<exists>over target rest. m_top s = over @ target # rest \<and> matchesHTMLTag tag target
    \<and> list_all (\<lambda>i. \<not> matchesHTMLTag tag i) over
    \<and> popUntilPopped tag s = Some (popped (over @ [target]) s) \<and> stack_ok (popped (over @ [target]) s)"
  using assms(3) scope_pop_tag [OF assms(1,2)] scopes
  unfolding inScope_def inListItemScope_def inTableScope_def inButtonScope_def inSelectScope_def by metis

lemma template_ordinary: "ordinary_tag (lit ''template'')"
  by (simp add: ordinary_tag_def)

lemma header_plain: "isNumberedHeaderElement item \<Longrightarrow> plain_item item"
  by (auto simp: isNumberedHeaderElement_def localNameIn_def plain_item_def isRootNode_def isDocumentFragment_def
      hasTagName_def htmlTag_def headTag_def bodyTag_def htmlName_def split: option.splits)

lemma pop_header_safe:
  assumes "stack_ok s" "hasNumberedHeaderElementInScope s = Some True"
  shows "safe_result (popUntilNumberedHeaderElementPopped s)"
  by (rule default_scope.in_scope_pops [OF assms(1), of isNumberedHeaderElement "\<lambda>_. True"])
    (use assms(2) header_plain in \<open>auto simp: hasNumberedHeaderElementInScope_def popUntilNumberedHeaderElementPopped_def
      plain_item_def\<close>)

lemma items_by_id: "items_ok items \<Longrightarrow> a \<in> set items \<Longrightarrow> b \<in> set items \<Longrightarrow> item_id a = item_id b \<Longrightarrow> a = b"
  using items_ok_distinct [of items] by (auto simp: distinct_map inj_on_def)

lemma pop_element_safe:
  assumes "stack_ok s" "item \<in> set (m_top s)" "plain_item item" "inScope_element (item_id item) s = Some True"
  shows "safe_result (popUntilPopped_element (item_id item) s)"
proof -
  have items: "items_ok (m_top s)" using assms(1) by (simp add: stack_ok_def stack_inv_def)
  let ?T = "\<lambda>i. item_id i = item_id item"
  obtain over rest where split: "m_top s = over @ item # rest" using split_list [OF assms(2)] by blast
  have rest: "rest \<noteq> []" using pop_list_ok(1) [of item rest] items_ok_suffix [of over "item # rest"] items split assms(3) by simp
  have nodes: "list_all isElementNode (over @ [item])" "list_all plain_item over"
    using not_root_nodes [of "over @ [item]" rest] over_plain [of over item rest] items split rest by simp_all
  have "list_all (\<lambda>i. plain_item i \<and> \<not> ?T i \<and> isElementNode i) over"
    using nodes items_ok_distinct [OF items] split by (fastforce simp: list_all_iff image_iff)
  note popPast_ok [where stop = ?T and reads = isElementNode, OF assms(1) split refl _ assms(3) this]
  then show ?thesis using nodes by (simp add: popUntilPopped_element_def popUntil_element_def)
qed

lemma contains_iff: "contains_tag tag s \<longleftrightarrow> (\<exists>item \<in> set (m_top s). matchesHTMLTag tag item)"
proof -
  have "find_record P items \<noteq> None \<longleftrightarrow> (\<exists>item \<in> set items. P item)" for P items
    by (induction items) auto
  then show ?thesis unfolding contains_tag_def topmost_def by blast
qed

lemma clear_safe:
  assumes "scope_marker M" "stack_ok s" "m_top s \<noteq> []" "context_present tags s"
    and "\<And>tag item. tag \<in> set tags \<Longrightarrow> item_ok item \<Longrightarrow> matchesHTMLTag tag item \<Longrightarrow> M item"
    and "list_all ordinary_tag tags"
  shows "safe_result (popWhileNot (\<lambda>_. True) M s)"
proof -
  have items: "items_ok (m_top s)" using assms(2) by (simp add: stack_ok_def stack_inv_def)
  have "(\<exists>item \<in> set (m_top s). M item \<and> \<not> isRootNode item) \<or> m_headElement s = None \<and> m_bodyElement s = None"
    using assms(4-6) ordinary_not_root items_ok_member [OF items]
    unfolding context_present_def contains_iff list_all_iff by metis
  then show ?thesis by (rule scope_marker.pop_to_marker [OF assms(1-3)]) blast
qed

lemma context_markers:
  "item_ok item \<Longrightarrow> tag \<in> set (map lit [''table'', ''template'']) \<Longrightarrow> matchesHTMLTag tag item \<Longrightarrow> isTableScopeMarker item"
  "tag \<in> set (map lit [''tbody'', ''tfoot'', ''thead'', ''template'']) \<Longrightarrow> matchesHTMLTag tag item \<Longrightarrow> isTableBodyScopeMarker item"
  "tag \<in> set (map lit [''tr'', ''template'']) \<Longrightarrow> matchesHTMLTag tag item \<Longrightarrow> isTableRowScopeMarker item"
  unfolding isTableScopeMarker_def isTableBodyScopeMarker_def isTableRowScopeMarker_def
  by (simp_all add: nodeHasTag_iff hasTagName_html) blast+

lemma context_ordinary:
  "list_all ordinary_tag (map lit [''table'', ''template''])"
  "list_all ordinary_tag (map lit [''tbody'', ''tfoot'', ''thead'', ''template''])"
  "list_all ordinary_tag (map lit [''tr'', ''template''])"
  by (simp_all add: ordinary_tag_def)

lemma named_in_html: "hasTagName headTag item \<or> hasTagName bodyTag item \<Longrightarrow> isForeignContentScopeMarker item"
  by (auto simp: isForeignContentScopeMarker_def isInHTMLNamespace_def hasTagName_def headTag_def bodyTag_def htmlName_def)

lemma leave_foreign_safe:
  assumes "stack_ok s" "m_top s \<noteq> []"
  shows "safe_result (popUntilForeignContentScopeMarker s)"
proof -
  have items: "items_ok (m_top s)" using assms(1) by (simp add: stack_ok_def stack_inv_def)
  have "(\<exists>item \<in> set (m_top s). isForeignContentScopeMarker item \<and> \<not> isRootNode item)
      \<or> m_headElement s = None \<and> m_bodyElement s = None"
  proof (cases "m_headElement s = None \<and> m_bodyElement s = None")
    case False
    then have "2 \<le> length (m_top s)" and named: "hasTagName headTag (last (butlast (m_top s))) \<or> hasTagName bodyTag (last (butlast (m_top s)))"
      using assms(1) by (auto simp: stack_ok_def stack_inv_def secondHas_def split: if_splits)
    then have "butlast (m_top s) \<noteq> []" by (cases "m_top s") auto
    then have "last (butlast (m_top s)) \<in> set (m_top s)" by (rule in_set_butlastD [OF last_in_set])
    moreover have "\<not> isRootNode (last (butlast (m_top s)))" using named named_not_root by auto
    ultimately show ?thesis using named_in_html [OF named] by auto
  qed simp
  then show ?thesis unfolding popUntilForeignContentScopeMarker_def
    by (rule foreign_scope.pop_to_marker [OF assms]) blast
qed

lemma one_item: "hasOnlyOneElement s = Some True \<Longrightarrow> \<exists>root. m_top s = [root]"
  by (auto simp: hasOnlyOneElement_def split: list.splits)

lemma split_at: "k < length xs \<Longrightarrow> xs = take k xs @ xs ! k # drop (Suc k) xs"
  by (simp add: id_take_nth_drop)

lemma insert_safe:
  assumes "stack_ok s" "record + 1 < length (m_top s)" "fresh_item item s" "plain_item item"
  shows "stack_ok (insertAbove item record s)"
proof -
  have "record < length (m_top s)" "drop (Suc record) (m_top s) \<noteq> []" using assms(2) by simp_all
  from insertAbove_ok(1) [OF assms(1) split_at [OF this(1)] this(2)] this(1) assms(3,4)
  show ?thesis by (simp add: fresh_item_def)
qed

lemma replace_safe:
  assumes "stack_ok s" "record < length (m_top s)" "plain_item (m_top s ! record)" "fresh_item item s" "plain_item item"
  shows "stack_ok (replaceElement record item s)"
  using replaceElement_ok(1) [OF assms(1) split_at [OF assms(2)] assms(3)] assms(2,4,5) by (simp add: fresh_item_def)

lemma named_top:
  assumes "stack_ok s" "m_top s = item # items" "hasTagName headTag item \<or> hasTagName bodyTag item"
  shows "\<exists>root. m_top s = [item, root]"
proof -
  have items: "items_ok (m_top s)" using assms(1) by (simp add: stack_ok_def stack_inv_def)
  obtain over root where split: "m_top s = over @ [item, root]"
    using second_place [OF items _ assms(3)] assms(2) by auto
  have "over = []" using items_ok_distinct [OF items] split assms(2) by (cases over) auto
  then show ?thesis using split by simp
qed

lemma stack_call_safe:
  assumes "stack_ok s" "stack_call s r"
  shows "safe_result r"
  using assms(2)
proof (cases rule: stack_call.cases)
  case (push_head item)
  then show ?thesis using one_item pushHead_ok [OF assms(1)] by (force simp: fresh_item_def)
next
  case (push_body item)
  then show ?thesis using one_item pushBody_ok [OF assms(1)] by (force simp: fresh_item_def)
next
  case (pop item items)
  then show ?thesis using pop_ok [OF assms(1)] by blast
next
  case (pop_head item items)
  then show ?thesis using popNamed_ok(1) [OF assms(1)] named_top [OF assms(1)] by blast
next
  case (pop_body item items)
  then show ?thesis using popNamed_ok(2) [OF assms(1)] named_top [OF assms(1)] by blast
next
  case (pop_tag tag)
  then show ?thesis using scoped_pop_tag [OF assms(1)] by blast
next
  case pop_template
  then show ?thesis
    using scope_pop_tag [OF assms(1) template_ordinary html_scope.scope_marker_axioms]
    unfolding hasTemplateInHTMLScope_def by blast
next
  case clear_to_table
  show ?thesis unfolding clear_to_table(1) popUntilTableScopeMarker_def
    by (rule clear_safe [OF table_scope.scope_marker_axioms assms(1) clear_to_table(2,3) _ context_ordinary(1)])
      (rule context_markers(1))
next
  case clear_to_table_body
  show ?thesis unfolding clear_to_table_body(1) popUntilTableBodyScopeMarker_def
    by (rule clear_safe [OF table_body_scope.scope_marker_axioms assms(1) clear_to_table_body(2,3) _ context_ordinary(2)])
      (rule context_markers(2))
next
  case clear_to_table_row
  show ?thesis unfolding clear_to_table_row(1) popUntilTableRowScopeMarker_def
    by (rule clear_safe [OF table_row_scope.scope_marker_axioms assms(1) clear_to_table_row(2,3) _ context_ordinary(3)])
      (rule context_markers(3))
next
  case (remove item)
  then show ?thesis using split_list [OF remove(2)] remove_ok [OF assms(1)] by blast
next
  case (remove_head item)
  have "items_ok (m_top s)" using assms(1) by (simp add: stack_ok_def stack_inv_def)
  then obtain over root where "m_top s = over @ [item, root]" using second_place remove_head by blast
  then show ?thesis using removeHead_ok [OF assms(1)] remove_head by blast
qed (use assms(1) pushRoot_ok push_ok insert_safe replace_safe popAll_ok pop_header_safe pop_element_safe
      leave_foreign_safe in \<open>auto simp: fresh_item_def\<close>)

lemma reachable_ok: "stack_reachable s \<Longrightarrow> stack_ok s"
  by (induction rule: stack_reachable.induct) (use new_stack_ok stack_call_safe in auto)

section \<open>The furthest block\<close>

lemma furthestBlock_loop_spec:
  assumes "list_all (\<lambda>item. item_id item \<noteq> e) over" "item_id target = e"
  shows "(list_all (\<lambda>item. \<not> isSpecialNode item) over
      \<and> furthestBlock_loop e block n (over @ target # rest) = Some block)
    \<or> (\<exists>i < length over. isSpecialNode (over ! i) \<and> (\<forall>j. i < j \<and> j < length over \<longrightarrow> \<not> isSpecialNode (over ! j))
      \<and> furthestBlock_loop e block n (over @ target # rest) = Some (Some (n + i)))"
  using assms(1)
proof (induction over arbitrary: block n)
  case Nil
  then show ?case using assms(2) by simp
next
  case (Cons item over)
  let ?block = "if isSpecialNode item then Some n else block"
  let ?loop = "furthestBlock_loop e ?block (n + 1) (over @ target # rest)"
  have step: "furthestBlock_loop e block n ((item # over) @ target # rest) = ?loop" using Cons.prems by simp
  have "list_all (\<lambda>item. item_id item \<noteq> e) over" using Cons.prems by simp
  from Cons.IH [OF this, of ?block "n + 1"]
  consider (none) "list_all (\<lambda>item. \<not> isSpecialNode item) over" "?loop = Some ?block"
    | (some) i where "i < length over" "isSpecialNode (over ! i)"
        "\<forall>j. i < j \<and> j < length over \<longrightarrow> \<not> isSpecialNode (over ! j)" "?loop = Some (Some (n + 1 + i))" by blast
  then show ?case
  proof cases
    case none
    show ?thesis
    proof (cases "isSpecialNode item")
      case True
      have "\<not> isSpecialNode ((item # over) ! j)" if "0 < j \<and> j < length (item # over)" for j
        using that none(1) by (cases j) (auto simp: list_all_length)
      then show ?thesis unfolding step using none True by (intro disjI2 exI [of _ 0]) simp
    qed (unfold step, use none in simp)
  next
    case (some i)
    have "\<not> isSpecialNode ((item # over) ! j)" if "Suc i < j \<and> j < length (item # over)" for j
      using that some(3) by (cases j) auto
    then show ?thesis unfolding step using some by (intro disjI2 exI [of _ "Suc i"]) simp
  qed
qed

section \<open>Properties\<close>


text \<open>An \<open>html\<close>, a \<open>body\<close> and a \<open>p\<close> element, and the stack of the three.\<close>

definition sample_item :: "nat \<Rightarrow> string \<Rightarrow> HTMLStackItem" where
  "sample_item n name = HTMLStackItem_forElement \<lparr>node_id = n, node_tag = Some (htmlName (lit name))\<rparr>"

definition sample_stack :: HTMLElementStack where
  "sample_stack = push (sample_item 2 ''p'')
     (pushHTMLBodyElement (sample_item 1 ''body'') (pushHTMLHtmlElement (sample_item 0 ''html'') HTMLElementStack_new))"

lemmas sample_eval = fresh_item_def plain_item_def sample_item_def HTMLStackItem_forElement_def item_ok_def
  isRootNode_def hasTagName_def htmlName_def htmlTag_def headTag_def bodyTag_def isDocumentFragment_def
  HTMLElementStack_new_def pushHTMLHtmlElement_def pushHTMLBodyElement_def push_def pushRootNodeCommon_def
  pushCommon_def stack_assert_def hasOnlyOneElement_def isElementNode_def ordinary_tag_def matchesHTMLTag_def
  isSpecialNode_def localNameIn_def specialHTMLNames_def

lemma sample_top:
  "m_top sample_stack = [sample_item 2 ''p'', sample_item 1 ''body'', sample_item 0 ''html'']"
  "m_stackDepth sample_stack = 3"
  by (simp_all add: sample_stack_def sample_eval)

lemma sample_reachable: "stack_reachable sample_stack"
proof -
  let ?a = "pushHTMLHtmlElement (sample_item 0 ''html'') HTMLElementStack_new"
  let ?b = "pushHTMLBodyElement (sample_item 1 ''body'') ?a"
  have a: "stack_reachable ?a"
    by (rule stack_reachable.call [OF stack_reachable.start stack_call.push_html]) (simp_all add: sample_eval)
  have b: "stack_reachable ?b"
    by (rule stack_reachable.call [OF a stack_call.push_body]) (simp_all add: sample_eval)
  show ?thesis unfolding sample_stack_def
    by (rule stack_reachable.call [OF b stack_call.push]) (simp_all add: sample_eval)
qed


text \<open>
  C7. A scope query and popping agree. If the tree builder has found an ordinary tag in any of the
  scopes, popping until that tag is popped ends, removes exactly the items down to and including the
  topmost one with that tag, finishes them from the top down, keeps the head, the body and the root, and
  no assertion fails.
\<close>

theorem scoped_pop_safe:
  assumes "stack_reachable s" "ordinary_tag tag"
    and "inScope tag s = Some True \<or> inListItemScope tag s = Some True \<or> inTableScope tag s = Some True
      \<or> inButtonScope tag s = Some True \<or> inSelectScope tag s = Some True"
  shows "\<exists>s' over target. popUntilPopped tag s = Some s' \<and> m_top s = over @ target # m_top s'
    \<and> matchesHTMLTag tag target \<and> (\<forall>item \<in> set over. \<not> matchesHTMLTag tag item)
    \<and> stack_events s' = stack_events s @ map (FinishParsingChildren \<circ> item_id) (over @ [target])
    \<and> m_headElement s' = m_headElement s \<and> m_bodyElement s' = m_bodyElement s \<and> m_rootNode s' = m_rootNode s
    \<and> m_top s' \<noteq> [] \<and> stack_asserts s'"
proof -
  obtain over target rest where pop: "m_top s = over @ target # rest" "matchesHTMLTag tag target"
    "list_all (\<lambda>i. \<not> matchesHTMLTag tag i) over"
    "popUntilPopped tag s = Some (popped (over @ [target]) s)" "stack_ok (popped (over @ [target]) s)"
    using scoped_pop_tag [OF reachable_ok [OF assms(1)] assms(2,3)] by blast
  have inv: "stack_inv s" "stack_inv (popped (over @ [target]) s)"
    using reachable_ok [OF assms(1)] pop(5) by (simp_all add: stack_ok_def)
  then have "rest \<noteq> []" using pop(1) by (auto simp: stack_inv_def split: if_splits)
  then show ?thesis using pop inv
    by (intro exI [of _ "popped (over @ [target]) s"] exI [of _ over] exI [of _ target])
      (auto simp: list_all_iff stack_ok_def)
qed

theorem scoped_pop_safe_witness:
  "\<exists>s'. popUntilPopped (lit ''p'') sample_stack = Some s' \<and> stack_asserts s' \<and> m_top s' \<noteq> []"
proof -
  have "ordinary_tag (lit ''p'')" "inScope (lit ''p'') sample_stack = Some True"
    by (simp_all add: inScope_def inScopeCommon_def sample_top sample_eval)
  from scoped_pop_safe [OF sample_reachable this(1) disjI1 [OF this(2)]] show ?thesis by blast
qed

text \<open>
  C32. On a stack that is not empty the scope queries always find a target or a marker, so the assertion
  at the end of their loop is not reached, and they answer whether there is an item with the tag that
  has no marker of the scope above it.
\<close>

theorem scope_queries_decide:
  assumes "stack_reachable s" "m_top s \<noteq> []"
  shows "inScope tag s = Some (in_scope isScopeMarker (matchesHTMLTag tag) (m_top s))
    \<and> inListItemScope tag s = Some (in_scope isListItemScopeMarker (matchesHTMLTag tag) (m_top s))
    \<and> inTableScope tag s = Some (in_scope isTableScopeMarker (matchesHTMLTag tag) (m_top s))
    \<and> inButtonScope tag s = Some (in_scope isButtonScopeMarker (matchesHTMLTag tag) (m_top s))
    \<and> inSelectScope tag s = Some (in_scope isSelectScopeMarker (matchesHTMLTag tag) (m_top s))
    \<and> hasTemplateInHTMLScope s = Some (in_scope isRootNode (matchesHTMLTag (lit ''template'')) (m_top s))
    \<and> hasNumberedHeaderElementInScope s = Some (in_scope isScopeMarker isNumberedHeaderElement (m_top s))
    \<and> inScope_element element s = Some (in_scope isScopeMarker (\<lambda>item. item_id item = element) (m_top s))"
  using reachable_ok [OF assms(1)] assms(2)
  by (simp add: inScope_def inListItemScope_def inTableScope_def inButtonScope_def inSelectScope_def
      hasTemplateInHTMLScope_def hasNumberedHeaderElementInScope_def inScope_element_def inScopeCommon_def
      default_scope.query_decides list_item_scope.query_decides table_scope.query_decides
      button_scope.query_decides select_scope.query_decides html_scope.query_decides)

theorem scope_queries_decide_witness:
  "inButtonScope (lit ''p'') sample_stack = Some (in_scope isButtonScopeMarker (matchesHTMLTag (lit ''p'')) (m_top sample_stack))"
proof -
  have "m_top sample_stack \<noteq> []" by (simp add: sample_top)
  from scope_queries_decide [OF sample_reachable this] show ?thesis by blast
qed

text \<open>
  C33. For a formatting element on the stack the search for the furthest block returns the special item
  above it that is closest to it, that is the furthest from the top, and null exactly if no item above
  it is special; the assertion at the end is not reached.
\<close>

theorem furthest_block_correct:
  assumes "stack_reachable s" "find_element e s = Some k"
  shows "(\<forall>j < k. \<not> isSpecialNode (m_top s ! j)) \<and> furthestBlockForFormattingElement e s = Some None
    \<or> (\<exists>i < k. isSpecialNode (m_top s ! i) \<and> (\<forall>j. i < j \<and> j < k \<longrightarrow> \<not> isSpecialNode (m_top s ! j))
         \<and> furthestBlockForFormattingElement e s = Some (Some i))"
proof -
  have find: "k < length items \<and> P (items ! k) \<and> list_all (\<lambda>i. \<not> P i) (take k items)" if "find_record P items = Some k" for P items k
    using that by (induction items arbitrary: k) (auto split: if_splits)
  let ?over = "take k (m_top s)"
  note f = find [OF assms(2) [unfolded find_element_def]]
  have split: "m_top s = ?over @ m_top s ! k # drop (Suc k) (m_top s)" using split_at f by blast
  have loop: "furthestBlockForFormattingElement e s = furthestBlock_loop e None 0 (?over @ m_top s ! k # drop (Suc k) (m_top s))"
    unfolding furthestBlockForFormattingElement_def using split by simp
  from f have "list_all (\<lambda>item. item_id item \<noteq> e) ?over" "item_id (m_top s ! k) = e" by simp_all
  from furthestBlock_loop_spec [OF this, of None 0 "drop (Suc k) (m_top s)"] f
  show ?thesis unfolding loop by (auto simp: list_all_length min_def)
qed

theorem furthest_block_correct_witness:
  "furthestBlockForFormattingElement 0 sample_stack = Some (Some 1)
   \<and> (\<exists>i < 2. isSpecialNode (m_top sample_stack ! i)
        \<and> furthestBlockForFormattingElement 0 sample_stack = Some (Some i))"
proof -
  have "find_element 0 sample_stack = Some 2" "furthestBlockForFormattingElement 0 sample_stack = Some (Some 1)"
    by (simp_all add: find_element_def furthestBlockForFormattingElement_def sample_top sample_eval)
  then show ?thesis using furthest_block_correct [OF sample_reachable, of 0 2] by auto
qed

text \<open>
  C34. Removing an element that is not on a stack does not end in the assertion after the loop of
  \<open>removeNonTopCommon\<close>: at the last record the loop reads the element of the record below it, which is
  null. The same holds for taking out the head element.
\<close>

theorem remove_absent_follows_null:
  assumes "node_id element \<notin> item_id ` set (m_top s)"
  shows "remove_element element s = None \<and> removeHTMLHeadElement element s = None"
proof (cases "m_top s")
  case (Cons item items)
  have "removeNonTopCommon_loop (node_id element) (m_top s) = None"
    by (rule removeNonTopCommon_loop_absent) (use assms Cons in auto)
  then have "removeNonTopCommon element s' = None" if "m_top s' = m_top s" for s'
    using that Cons by (simp add: removeNonTopCommon_def stack_assert_def)
  moreover have "item_id item \<noteq> node_id element" using assms Cons by auto
  ultimately show ?thesis using Cons by (simp add: remove_element_def removeHTMLHeadElement_def stack_assert_def)
qed (simp add: remove_element_def removeHTMLHeadElement_def)

theorem remove_absent_follows_null_witness:
  "remove_element \<lparr>node_id = 7, node_tag = Some (htmlName (lit ''a''))\<rparr> sample_stack = None"
proof -
  have "7 \<notin> item_id ` set (m_top sample_stack)" by (simp add: sample_top sample_eval)
  then show ?thesis
    using remove_absent_follows_null [of "\<lparr>node_id = 7, node_tag = Some (htmlName (lit ''a''))\<rparr>" sample_stack] by simp
qed

text \<open>
  Inserting an element above a record other than the root and removing it again gives the stack
  back: the same records, pointers and depth, and the element has begun and finished parsing its
  children, in this order unless it was put on top, where only the end is announced.
\<close>

theorem insert_remove_roundtrip:
  assumes "stack_reachable s" "k + 1 < length (m_top s)" "fresh_item item s" "plain_item item"
  shows "\<exists>s'. remove_element (si_node item) (insertAbove item k s) = Some s'
    \<and> s' = s\<lparr>stack_events := stack_events s'\<rparr>
    \<and> stack_events s' = stack_events s @ (if k = 0 then [] else [BeginParsingChildren (item_id item)])
         @ [FinishParsingChildren (item_id item)]"
proof -
  let ?i = "insertAbove item k s"
  have k: "k < length (m_top s)" using assms(2) by simp
  have rest: "drop (Suc k) (m_top s) \<noteq> []" using assms(2) by simp
  note ins = insertAbove_ok [OF reachable_ok [OF assms(1)] split_at [OF k] rest, of item]
  have ok: "stack_ok ?i" and top: "m_top ?i = take k (m_top s) @ item # drop k (m_top s)"
    using ins assms(3,4) k by (simp_all add: fresh_item_def Cons_nth_drop_Suc)
  note rem = remove_ok(1) [OF ok top assms(4)]
  have quiet_s: "stack_asserts s" using reachable_ok [OF assms(1)] by (simp add: stack_ok_def)
  have asserts: "stack_asserts ?i" using ok by (simp add: stack_ok_def)
  have "?i = s\<lparr>m_top := m_top ?i, m_stackDepth := m_stackDepth s + 1, stack_events :=
      stack_events s @ (if k = 0 then [] else [BeginParsingChildren (item_id item)]), stack_asserts := stack_asserts ?i\<rparr>"
    using insertAbove_loop_eq [of k item "m_top s"] k
    by (cases s) (auto simp: insertAbove_def push_def pushCommon_def stack_assert_def node_call_def)
  then have shape: "?i = s\<lparr>m_top := m_top ?i, m_stackDepth := m_stackDepth s + 1, stack_events :=
      stack_events s @ (if k = 0 then [] else [BeginParsingChildren (item_id item)])\<rparr>"
    using asserts quiet_s by (cases s) simp
  have "removed (take k (m_top s)) item (drop k (m_top s)) ?i = s\<lparr>stack_events := stack_events s
      @ (if k = 0 then [] else [BeginParsingChildren (item_id item)]) @ [FinishParsingChildren (item_id item)]\<rparr>"
    unfolding removed_def by (subst (1 2 3) shape) (cases s, simp)
  then show ?thesis using rem by simp
qed

theorem insert_remove_roundtrip_witness:
  "\<exists>s'. remove_element (si_node (sample_item 5 ''b'')) (insertAbove (sample_item 5 ''b'') 1 sample_stack) = Some s'
     \<and> m_top s' = m_top sample_stack"
proof -
  have "1 + 1 < length (m_top sample_stack)" "fresh_item (sample_item 5 ''b'') sample_stack" "plain_item (sample_item 5 ''b'')"
    by (simp_all add: sample_top sample_eval)
  from insert_remove_roundtrip [OF sample_reachable this]
  obtain s' where s: "remove_element (si_node (sample_item 5 ''b'')) (insertAbove (sample_item 5 ''b'') 1 sample_stack) = Some s'"
    "s' = sample_stack\<lparr>stack_events := stack_events s'\<rparr>" by blast
  have "m_top s' = m_top (sample_stack\<lparr>stack_events := stack_events s'\<rparr>)" using s(2) by simp
  then show ?thesis using s(1) by simp
qed

end
