(* ===== verification/Html_Formatting_List.thy ===== *)
theory Html_Formatting_List
  imports Html_Stack_Item
begin

text \<open>
  The list of active formatting elements, \<open>Source/WebCore/html/parser/HTMLFormattingElementList.{h,cpp}\<close>.

  The vector of entries is a list with the newest entry last, a marker is an entry without an item, and
  a pointer to an entry is its index. \<open>fl_asserts\<close> records the assertions.
\<close>

section \<open>The list\<close>

datatype Entry = MarkerEntry | ItemEntry HTMLStackItem

record Bookmark =
  m_hasBeenMoved :: bool
  m_mark :: nat

record HTMLFormattingElementList =
  m_entries :: "Entry list"
  fl_asserts :: bool

definition HTMLFormattingElementList_new :: HTMLFormattingElementList where
  "HTMLFormattingElementList_new = \<lparr>m_entries = [], fl_asserts = True\<rparr>"

definition fl_assert :: "bool \<Rightarrow> HTMLFormattingElementList \<Rightarrow> HTMLFormattingElementList" where
  "fl_assert b l = l\<lparr>fl_asserts := fl_asserts l \<and> b\<rparr>"

fun isMarker :: "Entry \<Rightarrow> bool" where
  "isMarker MarkerEntry = True"
| "isMarker (ItemEntry item) = False"

text \<open>An entry compared with the address of an element, which is not null.\<close>

fun entryIs :: "nat \<Rightarrow> Entry \<Rightarrow> bool" where
  "entryIs element MarkerEntry = False"
| "entryIs element (ItemEntry item) = (item_id item = element)"

definition moveToAfter :: "nat \<Rightarrow> Bookmark \<Rightarrow> Bookmark" where
  "moveToAfter before bookmark = bookmark\<lparr>m_hasBeenMoved := True, m_mark := before\<rparr>"

section \<open>Searching\<close>

fun closest_loop :: "AtomicString \<Rightarrow> Entry list \<Rightarrow> HTMLStackItem option" where
  "closest_loop targetName [] = None"
| "closest_loop targetName (MarkerEntry # entries) = None"
| "closest_loop targetName (ItemEntry item # entries) =
     (if matchesHTMLTag targetName item then Some item else closest_loop targetName entries)"

definition closestElementInScopeWithName :: "AtomicString \<Rightarrow> HTMLFormattingElementList \<Rightarrow> HTMLStackItem option" where
  "closestElementInScopeWithName targetName l = closest_loop targetName (rev (m_entries l))"

text \<open>\<open>Vector::reverseFind\<close>: the last index with the element, \<open>None\<close> for \<open>notFound\<close>.\<close>

fun reverseFind_loop :: "nat \<Rightarrow> Entry list \<Rightarrow> nat \<Rightarrow> nat option" where
  "reverseFind_loop element entries 0 = None"
| "reverseFind_loop element entries (Suc i) =
     (if entryIs element (entries ! i) then Some i else reverseFind_loop element entries i)"

definition reverseFind :: "nat \<Rightarrow> Entry list \<Rightarrow> nat option" where
  "reverseFind element entries = reverseFind_loop element entries (length entries)"

definition fl_find :: "nat \<Rightarrow> HTMLFormattingElementList \<Rightarrow> nat option" where
  "fl_find element l = reverseFind element (m_entries l)"

definition fl_contains :: "nat \<Rightarrow> HTMLFormattingElementList \<Rightarrow> bool" where
  "fl_contains element l \<longleftrightarrow> fl_find element l \<noteq> None"

definition bookmarkFor :: "nat \<Rightarrow> HTMLFormattingElementList \<Rightarrow> Bookmark option" where
  "bookmarkFor element l = map_option (\<lambda>index. \<lparr>m_hasBeenMoved = False, m_mark = index\<rparr>) (fl_find element l)"

section \<open>Changing the list\<close>

definition vector_remove :: "nat \<Rightarrow> 'a list \<Rightarrow> 'a list" where
  "vector_remove index xs = take index xs @ drop (Suc index) xs"

definition vector_insert :: "nat \<Rightarrow> 'a \<Rightarrow> 'a list \<Rightarrow> 'a list" where
  "vector_insert index x xs = take index xs @ x # drop index xs"

definition fl_remove :: "nat \<Rightarrow> HTMLFormattingElementList \<Rightarrow> HTMLFormattingElementList" where
  "fl_remove element l =
     (case reverseFind element (m_entries l) of
        Some index \<Rightarrow> l\<lparr>m_entries := vector_remove index (m_entries l)\<rparr>
      | None \<Rightarrow> l)"

definition swapTo :: "nat \<Rightarrow> HTMLStackItem \<Rightarrow> Bookmark \<Rightarrow> HTMLFormattingElementList \<Rightarrow> HTMLFormattingElementList" where
  "swapTo oldElement newItem bookmark l0 =
     (let l = fl_assert (fl_contains oldElement l0 \<and> \<not> fl_contains (item_id newItem) l0) l0 in
      if \<not> m_hasBeenMoved bookmark then
        (fl_assert (m_mark bookmark < length (m_entries l) \<and> entryIs oldElement (m_entries l ! m_mark bookmark)) l)
          \<lparr>m_entries := (m_entries l)[m_mark bookmark := ItemEntry newItem]\<rparr>
      else
        let index = m_mark bookmark in
        fl_remove oldElement
          ((fl_assert (index < length (m_entries l)) l)
            \<lparr>m_entries := vector_insert (index + 1) (ItemEntry newItem) (m_entries l)\<rparr>))"

definition fl_replaceElement :: "nat \<Rightarrow> HTMLStackItem \<Rightarrow> HTMLFormattingElementList \<Rightarrow> HTMLFormattingElementList" where
  "fl_replaceElement entry item l = l\<lparr>m_entries := (m_entries l)[entry := ItemEntry item]\<rparr>"

definition appendMarker :: "HTMLFormattingElementList \<Rightarrow> HTMLFormattingElementList" where
  "appendMarker l = l\<lparr>m_entries := m_entries l @ [MarkerEntry]\<rparr>"

fun clear_loop :: "Entry list \<Rightarrow> Entry list" where
  "clear_loop [] = []"
| "clear_loop (entry # entries) = (if isMarker entry then entries else clear_loop entries)"

definition clearToLastMarker :: "HTMLFormattingElementList \<Rightarrow> HTMLFormattingElementList" where
  "clearToLastMarker l = l\<lparr>m_entries := rev (clear_loop (rev (m_entries l)))\<rparr>"

subsection \<open>The Noah's Ark condition\<close>

definition kNoahsArkCapacity :: nat where
  "kNoahsArkCapacity = 3"

fun quick_loop :: "HTMLStackItem \<Rightarrow> Entry list \<Rightarrow> HTMLStackItem list" where
  "quick_loop newItem [] = []"
| "quick_loop newItem (MarkerEntry # entries) = []"
| "quick_loop newItem (ItemEntry candidate # entries) =
     (if si_localName newItem \<noteq> si_localName candidate \<or> si_namespaceURI newItem \<noteq> si_namespaceURI candidate
      then quick_loop newItem entries
      else if length (si_attributes candidate) \<noteq> length (si_attributes newItem)
      then quick_loop newItem entries
      else candidate # quick_loop newItem entries)"

definition tryToEnsureNoahsArkConditionQuickly :: "HTMLStackItem \<Rightarrow> HTMLFormattingElementList \<Rightarrow> HTMLStackItem list" where
  "tryToEnsureNoahsArkConditionQuickly newItem l =
     (if length (m_entries l) < kNoahsArkCapacity then []
      else let candidates = quick_loop newItem (rev (m_entries l)) in
           if length candidates < kNoahsArkCapacity then [] else candidates)"

definition hasSameAttribute :: "DomAttribute \<Rightarrow> HTMLStackItem \<Rightarrow> bool" where
  "hasSameAttribute attribute candidate \<longleftrightarrow>
     (case HTMLStackItem_findAttribute (da_name attribute) candidate of
        Some candidateAttribute \<Rightarrow> da_value candidateAttribute = da_value attribute
      | None \<Rightarrow> False)"

text \<open>The loop over the attributes; \<open>None\<close> is the early return.\<close>

fun attributes_loop :: "DomAttribute list \<Rightarrow> HTMLStackItem list \<Rightarrow> HTMLStackItem list option" where
  "attributes_loop [] candidates = Some candidates"
| "attributes_loop (attribute # attributes) candidates =
     (let remainingCandidates = filter (hasSameAttribute attribute) candidates in
      if length remainingCandidates < kNoahsArkCapacity then None
      else attributes_loop attributes remainingCandidates)"

fun remove_loop :: "HTMLStackItem list \<Rightarrow> HTMLFormattingElementList \<Rightarrow> HTMLFormattingElementList" where
  "remove_loop [] l = l"
| "remove_loop (candidate # candidates) l = remove_loop candidates (fl_remove (item_id candidate) l)"

text \<open>
  The assertions inside the loop over the attributes are about the candidates, of which there are fewer
  in every round: they are recorded for the first round.
\<close>

definition ensureNoahsArkCondition :: "HTMLStackItem \<Rightarrow> HTMLFormattingElementList \<Rightarrow> HTMLFormattingElementList" where
  "ensureNoahsArkCondition newItem l0 =
     (let l1 = fl_assert (length (m_entries l0) < kNoahsArkCapacity \<or> isElement newItem) l0;
          candidates = tryToEnsureNoahsArkConditionQuickly newItem l1 in
      if candidates = [] then l1
      else
        let l = fl_assert (si_attributes newItem = [] \<or>
                  list_all (\<lambda>candidate. length (si_attributes newItem) = length (si_attributes candidate)
                    \<and> si_localName newItem = si_localName candidate
                    \<and> si_namespaceURI newItem = si_namespaceURI candidate) candidates) l1 in
        case attributes_loop (si_attributes newItem) candidates of
          None \<Rightarrow> l
        | Some remaining \<Rightarrow> remove_loop (drop (kNoahsArkCapacity - 1) remaining) l)"

definition fl_append :: "HTMLStackItem \<Rightarrow> HTMLFormattingElementList \<Rightarrow> HTMLFormattingElementList" where
  "fl_append item l =
     (let l' = ensureNoahsArkCondition item l in l'\<lparr>m_entries := m_entries l' @ [ItemEntry item]\<rparr>)"

end
