(* ===== verification/Html_Formatting_List_Properties.thy ===== *)
theory Html_Formatting_List_Properties
  imports Html_Formatting_List
begin

text \<open>
  The list of active formatting elements as two lists, the entries up to the last marker and the items
  after it, and what the operations do to them.
\<close>

section \<open>The invariant and the view\<close>

fun entry_item :: "Entry \<Rightarrow> HTMLStackItem list" where
  "entry_item MarkerEntry = []"
| "entry_item (ItemEntry item) = [item]"

definition entry_items :: "Entry list \<Rightarrow> HTMLStackItem list" where
  "entry_items entries = concat (map entry_item entries)"

lemma entry_items_simps [simp]:
  "entry_items [] = []" "entry_items (MarkerEntry # es) = entry_items es"
  "entry_items (ItemEntry item # es) = item # entry_items es"
  "entry_items (xs @ ys) = entry_items xs @ entry_items ys"
  by (simp_all add: entry_items_def)

lemma entry_items_rev [simp]: "entry_items (rev es) = rev (entry_items es)"
proof (induction es)
  case (Cons e es)
  then show ?case by (cases e) simp_all
qed simp

definition attributes_ok :: "HTMLStackItem \<Rightarrow> bool" where
  "attributes_ok item \<longleftrightarrow> distinct (map da_name (si_attributes item))"

text \<open>No element is in the list twice, and no item has two attributes with one name.\<close>

definition list_inv :: "HTMLFormattingElementList \<Rightarrow> bool" where
  "list_inv l \<longleftrightarrow> distinct (map item_id (entry_items (m_entries l)))
     \<and> list_all attributes_ok (entry_items (m_entries l)) \<and> fl_asserts l"

text \<open>The items after the last marker, newest first, and the entries up to and including the marker.\<close>

definition items_after_marker :: "HTMLFormattingElementList \<Rightarrow> HTMLStackItem list" where
  "items_after_marker l = entry_items (takeWhile (\<lambda>e. \<not> isMarker e) (rev (m_entries l)))"

definition entries_to_marker :: "HTMLFormattingElementList \<Rightarrow> Entry list" where
  "entries_to_marker l = rev (dropWhile (\<lambda>e. \<not> isMarker e) (rev (m_entries l)))"

lemma no_marker_items: "list_all (\<lambda>e. \<not> isMarker e) es \<Longrightarrow> es = map ItemEntry (entry_items es)"
  by (induction es) (auto elim: isMarker.elims)

lemma entries_split: "m_entries l = entries_to_marker l @ rev (map ItemEntry (items_after_marker l))"
proof -
  let ?t = "takeWhile (\<lambda>e. \<not> isMarker e) (rev (m_entries l))"
  have "list_all (\<lambda>e. \<not> isMarker e) ?t" by (auto simp: list_all_iff dest: set_takeWhileD)
  then have "?t = map ItemEntry (items_after_marker l)" unfolding items_after_marker_def by (rule no_marker_items)
  moreover have "rev (m_entries l) = ?t @ dropWhile (\<lambda>e. \<not> isMarker e) (rev (m_entries l))" by simp
  ultimately have "rev (m_entries l) = map ItemEntry (items_after_marker l) @ rev (entries_to_marker l)"
    unfolding entries_to_marker_def by simp
  then show ?thesis by (metis rev_append rev_rev_ident)
qed

text \<open>The two parts determine the view.\<close>

lemma view_of_split:
  assumes "m_entries l = pre @ rev (map ItemEntry items)" "pre = [] \<or> isMarker (last pre)"
  shows "entries_to_marker l = pre" "items_after_marker l = items"
proof -
  have rev: "rev (m_entries l) = map ItemEntry items @ rev pre" using assms(1) by simp
  have no: "\<forall>e \<in> set (map ItemEntry items). \<not> isMarker e" by auto
  have d: "dropWhile (\<lambda>e. \<not> isMarker e) (rev pre) = rev pre"
    using assms(2) by (cases "rev pre") (auto simp: last_rev [of "rev pre", simplified])
  show "entries_to_marker l = pre" unfolding entries_to_marker_def rev
    using dropWhile_append2 [of "map ItemEntry items" "\<lambda>e. \<not> isMarker e" "rev pre"] no d by simp
  have t: "takeWhile (\<lambda>e. \<not> isMarker e) (rev pre) = []"
    using assms(2) by (cases "rev pre") (auto simp: last_rev [of "rev pre", simplified])
  have "entry_items (map ItemEntry items) = items" by (induction items) auto
  then show "items_after_marker l = items" unfolding items_after_marker_def rev
    using takeWhile_append2 [of "map ItemEntry items" "\<lambda>e. \<not> isMarker e" "rev pre"] no t by simp
qed

lemma marker_last: "entries_to_marker l = [] \<or> isMarker (last (entries_to_marker l))"
  unfolding entries_to_marker_def using hd_dropWhile [of "\<lambda>e. \<not> isMarker e" "rev (m_entries l)"]
  by (auto simp: last_rev)

lemma fl_quiet: "fl_asserts l \<Longrightarrow> c \<Longrightarrow> fl_assert c l = l"
  by (simp add: fl_assert_def)

section \<open>Removing by element\<close>

lemma reverseFind_loop_Some:
  "reverseFind_loop element es n = Some i \<Longrightarrow> i < n \<and> entryIs element (es ! i) \<and> (\<forall>j. i < j \<and> j < n \<longrightarrow> \<not> entryIs element (es ! j))"
  by (induction n) (auto split: if_splits simp: less_Suc_eq)

lemma reverseFind_loop_None:
  "reverseFind_loop element es n = None \<Longrightarrow> j < n \<Longrightarrow> \<not> entryIs element (es ! j)"
  by (induction n) (auto split: if_splits simp: less_Suc_eq)

lemma entryIs_iff: "entryIs element e \<longleftrightarrow> (\<exists>item. e = ItemEntry item \<and> item_id item = element)"
  by (cases e) auto

lemma entry_items_member: "item \<in> set (entry_items es) \<longleftrightarrow> ItemEntry item \<in> set es"
proof (induction es)
  case (Cons e es)
  then show ?case by (cases e) auto
qed simp

lemma fl_contains_iff: "fl_contains element l \<longleftrightarrow> element \<in> item_id ` set (entry_items (m_entries l))"
proof (cases "reverseFind element (m_entries l)")
  case None
  have "item_id item \<noteq> element" if "ItemEntry item \<in> set (m_entries l)" for item
  proof -
    obtain i where "i < length (m_entries l)" "m_entries l ! i = ItemEntry item" using \<open>ItemEntry item \<in> _\<close> by (metis in_set_conv_nth)
    then show ?thesis using reverseFind_loop_None [OF None [unfolded reverseFind_def], of i] by simp
  qed
  then have "element \<notin> item_id ` set (entry_items (m_entries l))" unfolding image_iff Bex_def entry_items_member by blast
  then show ?thesis using None by (simp add: fl_contains_def fl_find_def)
next
  case (Some i)
  then have i: "i < length (m_entries l)" "entryIs element (m_entries l ! i)"
    using reverseFind_loop_Some unfolding reverseFind_def by blast+
  then obtain item where "m_entries l ! i = ItemEntry item" "item_id item = element" by (auto simp: entryIs_iff)
  then have "ItemEntry item \<in> set (m_entries l)" using i(1) nth_mem [of i "m_entries l"] by simp
  then have "element \<in> item_id ` set (entry_items (m_entries l))"
    using \<open>item_id item = element\<close> by (auto simp: entry_items_member)
  then show ?thesis using Some by (simp add: fl_contains_def fl_find_def)
qed

definition without :: "nat set \<Rightarrow> Entry list \<Rightarrow> Entry list" where
  "without ids es = filter (\<lambda>e. \<not> (\<exists>element \<in> ids. entryIs element e)) es"

lemma without_none: "(\<And>element e. element \<in> ids \<Longrightarrow> e \<in> set es \<Longrightarrow> \<not> entryIs element e) \<Longrightarrow> without ids es = es"
  unfolding without_def by (rule filter_True) auto

lemma without_append [simp]: "without ids (xs @ ys) = without ids xs @ without ids ys"
  by (simp add: without_def)

lemma without_without: "without A (without B es) = without (A \<union> B) es"
  by (auto simp: without_def intro: filter_cong)

lemma without_items: "entry_items (without ids es) = filter (\<lambda>item. item_id item \<notin> ids) (entry_items es)"
proof (induction es)
  case (Cons e es)
  then show ?case by (cases e) (auto simp: without_def)
qed (simp add: without_def)

lemma fl_remove_eq:
  assumes "distinct (map item_id (entry_items (m_entries l)))"
  shows "fl_remove element l = l\<lparr>m_entries := without {element} (m_entries l)\<rparr>"
proof (cases "reverseFind element (m_entries l)")
  case None
  then have "\<not> entryIs element e" if "e \<in> set (m_entries l)" for e
    using that reverseFind_loop_None unfolding reverseFind_def by (metis in_set_conv_nth)
  then have "without {element} (m_entries l) = m_entries l" by (intro without_none) auto
  then show ?thesis using None by (simp add: fl_remove_def)
next
  case (Some i)
  let ?es = "m_entries l"
  have i: "i < length ?es" "entryIs element (?es ! i)"
    using reverseFind_loop_Some Some unfolding reverseFind_def by blast+
  then obtain item where item: "?es ! i = ItemEntry item" "item_id item = element" by (auto simp: entryIs_iff)
  have split: "?es = take i ?es @ ItemEntry item # drop (Suc i) ?es" using i item(1) by (metis id_take_nth_drop)
  then have "entry_items ?es = entry_items (take i ?es) @ item # entry_items (drop (Suc i) ?es)" by (metis entry_items_simps(3,4))
  then have fresh: "element \<notin> item_id ` set (entry_items (take i ?es))" "element \<notin> item_id ` set (entry_items (drop (Suc i) ?es))"
    using assms item(2) by auto
  have keep: "without {element} xs = xs" if "element \<notin> item_id ` set (entry_items xs)" for xs
    by (rule without_none) (use that in \<open>auto simp: entryIs_iff entry_items_member image_iff\<close>)
  have "without {element} (ItemEntry item # drop (Suc i) ?es) = without {element} (drop (Suc i) ?es)"
    using item(2) by (simp add: without_def)
  then have "without {element} ?es = vector_remove i ?es"
    unfolding vector_remove_def using keep fresh split without_append by metis
  then show ?thesis using Some by (simp add: fl_remove_def)
qed

lemma distinct_without: "distinct (map item_id (entry_items es)) \<Longrightarrow> distinct (map item_id (entry_items (without ids es)))"
  by (simp add: without_items distinct_map_filter)

lemma remove_loop_eq:
  assumes "distinct (map item_id (entry_items (m_entries l)))"
  shows "remove_loop cands l = l\<lparr>m_entries := without (item_id ` set cands) (m_entries l)\<rparr>"
  using assms
proof (induction cands arbitrary: l)
  case Nil
  have "without {} (m_entries l) = m_entries l" by (rule without_none) simp
  then show ?case by simp
next
  case (Cons c cands)
  then show ?case by (simp add: fl_remove_eq distinct_without without_without)
qed

section \<open>Equal formatting elements\<close>

text \<open>Two elements are alike if they have the same name, namespace and attributes, in any order.\<close>

definition same_element :: "HTMLStackItem \<Rightarrow> HTMLStackItem \<Rightarrow> bool" where
  "same_element a b \<longleftrightarrow> si_localName a = si_localName b \<and> si_namespaceURI a = si_namespaceURI b
     \<and> set (si_attributes a) = set (si_attributes b)"

lemma findDomAttribute_mem:
  "distinct (map da_name as) \<Longrightarrow> findDomAttribute as n = Some a \<longleftrightarrow> a \<in> set as \<and> da_name a = n"
  by (induction as) (auto simp: image_iff)

lemma hasSameAttribute_iff:
  assumes "attributes_ok c"
  shows "hasSameAttribute a c \<longleftrightarrow> a \<in> set (si_attributes c)"
proof -
  note mem = findDomAttribute_mem [of "si_attributes c" "da_name a", OF assms [unfolded attributes_ok_def]]
  show ?thesis
  proof (cases "findDomAttribute (si_attributes c) (da_name a)")
    case None
    then have "a \<notin> set (si_attributes c)" using mem [of a] by simp
    then show ?thesis using None by (simp add: hasSameAttribute_def HTMLStackItem_findAttribute_def)
  next
    case (Some b)
    then have b: "b \<in> set (si_attributes c)" "da_name b = da_name a" using mem [of b] by simp_all
    have "a \<in> set (si_attributes c) \<longleftrightarrow> b = a" using mem [of a] b Some by auto
    moreover have "b = a \<longleftrightarrow> da_value b = da_value a" using b(2) by (cases a; cases b) simp
    ultimately show ?thesis using Some by (simp add: hasSameAttribute_def HTMLStackItem_findAttribute_def)
  qed
qed

lemma alike_iff:
  assumes "attributes_ok a" "attributes_ok c" "length (si_attributes c) = length (si_attributes a)"
  shows "(\<forall>x \<in> set (si_attributes a). hasSameAttribute x c) \<longleftrightarrow> set (si_attributes a) = set (si_attributes c)"
proof
  have d: "distinct (si_attributes a)" "distinct (si_attributes c)" using assms(1,2) by (auto simp: attributes_ok_def distinct_map)
  assume "\<forall>x \<in> set (si_attributes a). hasSameAttribute x c"
  then have "set (si_attributes a) \<subseteq> set (si_attributes c)" using hasSameAttribute_iff [OF assms(2)] by auto
  moreover have "card (set (si_attributes a)) = card (set (si_attributes c))" using assms(3) d by (simp add: distinct_card)
  ultimately show "set (si_attributes a) = set (si_attributes c)" by (simp add: card_subset_eq)
qed (use hasSameAttribute_iff [OF assms(2)] in auto)

lemma same_length: "attributes_ok a \<Longrightarrow> attributes_ok b \<Longrightarrow> set (si_attributes a) = set (si_attributes b)
    \<Longrightarrow> length (si_attributes a) = length (si_attributes b)"
  unfolding attributes_ok_def distinct_map by (metis distinct_card)

lemma quick_loop_eq:
  "quick_loop item es = filter (\<lambda>c. si_localName item = si_localName c \<and> si_namespaceURI item = si_namespaceURI c
      \<and> length (si_attributes c) = length (si_attributes item)) (entry_items (takeWhile (\<lambda>e. \<not> isMarker e) es))"
  by (induction item es rule: quick_loop.induct) auto

lemma attributes_loop_eq:
  assumes "attributes_loop atts cands = r" "kNoahsArkCapacity \<le> length cands"
  shows "r = (let all = filter (\<lambda>c. \<forall>a \<in> set atts. hasSameAttribute a c) cands in
              if length all < kNoahsArkCapacity then None else Some all)"
  using assms
proof (induction atts arbitrary: cands)
  case (Cons a atts)
  let ?rest = "filter (hasSameAttribute a) cands"
  have all: "filter (\<lambda>c. \<forall>x \<in> set (a # atts). hasSameAttribute x c) cands
      = filter (\<lambda>c. \<forall>x \<in> set atts. hasSameAttribute x c) ?rest"
    by (simp add: conj_commute)
  show ?case
  proof (cases "length ?rest < kNoahsArkCapacity")
    case True
    then have "length (filter (\<lambda>c. \<forall>x \<in> set atts. hasSameAttribute x c) ?rest) < kNoahsArkCapacity"
      using length_filter_le le_less_trans by blast
    then show ?thesis unfolding all using True Cons.prems by (simp add: Let_def)
  next
    case False
    have r: "attributes_loop atts ?rest = r" using Cons.prems(1) False by (simp add: Let_def)
    show ?thesis unfolding all by (rule Cons.IH [OF r]) (use False in simp)
  qed
qed simp

section \<open>Appending\<close>

definition alike_after_marker :: "HTMLStackItem \<Rightarrow> HTMLFormattingElementList \<Rightarrow> HTMLStackItem list" where
  "alike_after_marker item l = filter (same_element item) (items_after_marker l)"

lemma list_inv_after:
  assumes "list_inv l"
  shows "distinct (map item_id (items_after_marker l))" "list_all attributes_ok (items_after_marker l)"
    "distinct (items_after_marker l)"
    "item_id ` set (items_after_marker l) \<inter> item_id ` set (entry_items (entries_to_marker l)) = {}"
proof -
  have e: "entry_items (m_entries l) = entry_items (entries_to_marker l) @ rev (items_after_marker l)"
  proof -
    have "entry_items (map ItemEntry xs) = xs" for xs by (induction xs) auto
    then show ?thesis by (subst entries_split) simp
  qed
  have inv: "distinct (map item_id (entry_items (m_entries l)))" "list_all attributes_ok (entry_items (m_entries l))"
    using assms by (simp_all add: list_inv_def)
  show d: "distinct (map item_id (items_after_marker l))" using inv(1) unfolding e by (simp add: rev_map [symmetric])
  show "list_all attributes_ok (items_after_marker l)" using inv(2) unfolding e by (simp add: list_all_iff)
  show "distinct (items_after_marker l)" using d by (simp add: distinct_map)
  show "item_id ` set (items_after_marker l) \<inter> item_id ` set (entry_items (entries_to_marker l)) = {}"
    using inv(1) unfolding e by auto
qed

lemma length_after_marker: "length (items_after_marker l) \<le> length (m_entries l)"
  by (subst entries_split) simp

lemma quick_filter:
  assumes "list_all attributes_ok items" "attributes_ok item"
  shows "filter (\<lambda>c. \<forall>a \<in> set (si_attributes item). hasSameAttribute a c)
      (filter (\<lambda>c. si_localName item = si_localName c \<and> si_namespaceURI item = si_namespaceURI c
        \<and> length (si_attributes c) = length (si_attributes item)) items) = filter (same_element item) items"
proof -
  have "(si_localName item = si_localName c \<and> si_namespaceURI item = si_namespaceURI c
        \<and> length (si_attributes c) = length (si_attributes item))
      \<and> (\<forall>a \<in> set (si_attributes item). hasSameAttribute a c) \<longleftrightarrow> same_element item c" if "c \<in> set items" for c
  proof -
    have c: "attributes_ok c" using assms(1) that by (auto simp: list_all_iff)
    show ?thesis using alike_iff [OF assms(2) c] same_length [OF assms(2) c] unfolding same_element_def by metis
  qed
  then show ?thesis by (simp add: filter_filter cong: filter_cong)
qed

lemma ensure_eq:
  assumes "list_inv l" "attributes_ok item" "isElement item"
  shows "ensureNoahsArkCondition item l =
    l\<lparr>m_entries := without (item_id ` set (drop 2 (alike_after_marker item l))) (m_entries l)\<rparr>"
proof -
  let ?M = "alike_after_marker item l"
  let ?Q = "quick_loop item (rev (m_entries l))"
  have inv: "distinct (map item_id (entry_items (m_entries l)))" "fl_asserts l" using assms(1) by (simp_all add: list_inv_def)
  have Q: "?Q = filter (\<lambda>c. si_localName item = si_localName c \<and> si_namespaceURI item = si_namespaceURI c
      \<and> length (si_attributes c) = length (si_attributes item)) (items_after_marker l)"
    unfolding quick_loop_eq items_after_marker_def ..
  have M: "filter (\<lambda>c. \<forall>a \<in> set (si_attributes item). hasSameAttribute a c) ?Q = ?M"
    unfolding Q alike_after_marker_def by (rule quick_filter [OF list_inv_after(2) [OF assms(1)] assms(2)])
  have short: "l\<lparr>m_entries := without (item_id ` set (drop 2 ?M)) (m_entries l)\<rparr> = l" if "length ?M \<le> 2"
  proof -
    have "without {} (m_entries l) = m_entries l" by (rule without_none) simp
    then show ?thesis using that by simp
  qed
  have l: "fl_assert (length (m_entries l) < kNoahsArkCapacity \<or> isElement item) l = l"
    using inv(2) assms(3) by (simp add: fl_assert_def)
  have len: "length ?M \<le> length ?Q" "length ?M \<le> length (m_entries l)"
  proof -
    show "length ?M \<le> length ?Q" by (subst M [symmetric]) (rule length_filter_le)
    show "length ?M \<le> length (m_entries l)"
      unfolding alike_after_marker_def using length_filter_le length_after_marker le_trans by blast
  qed
  show ?thesis
  proof (cases "length (m_entries l) < 3 \<or> length ?Q < 3")
    case True
    then have "ensureNoahsArkCondition item l = l"
      unfolding ensureNoahsArkCondition_def l
      by (auto simp: Let_def tryToEnsureNoahsArkConditionQuickly_def kNoahsArkCapacity_def)
    moreover have "length ?M \<le> 2" using True len by linarith
    ultimately show ?thesis using short by simp
  next
    case False
    then have quick: "tryToEnsureNoahsArkConditionQuickly item l = ?Q" "?Q \<noteq> []"
      by (auto simp: tryToEnsureNoahsArkConditionQuickly_def kNoahsArkCapacity_def Let_def)
    have loop: "attributes_loop (si_attributes item) ?Q = (if length ?M < 3 then None else Some ?M)"
      using attributes_loop_eq [OF refl, of ?Q "si_attributes item"] False M by (simp add: kNoahsArkCapacity_def Let_def)
    have cands: "list_all (\<lambda>c. length (si_attributes item) = length (si_attributes c) \<and> si_localName item = si_localName c
        \<and> si_namespaceURI item = si_namespaceURI c) ?Q" unfolding Q by (auto simp: list_all_iff)
    show ?thesis
    proof (cases "length ?M < 3")
      case True
      then have "ensureNoahsArkCondition item l = l"
        unfolding ensureNoahsArkCondition_def l using quick loop cands inv(2) by (simp add: Let_def fl_quiet)
      then show ?thesis using short True by simp
    next
      case False
      then have "ensureNoahsArkCondition item l = remove_loop (drop 2 ?M) l"
        unfolding ensureNoahsArkCondition_def l using quick loop cands inv(2) by (simp add: Let_def fl_quiet kNoahsArkCapacity_def)
      then show ?thesis using remove_loop_eq [OF inv(1)] by simp
    qed
  qed
qed

lemma without_items_only: "without ids (rev (map ItemEntry items)) = rev (map ItemEntry (filter (\<lambda>i. item_id i \<notin> ids) items))"
  by (induction items) (auto simp: without_def)

lemma fl_append_view:
  assumes "list_inv l" "attributes_ok item" "isElement item"
  shows "entries_to_marker (fl_append item l) = entries_to_marker l"
    "items_after_marker (fl_append item l) =
      item # filter (\<lambda>i. i \<notin> set (drop 2 (alike_after_marker item l))) (items_after_marker l)"
    "fl_asserts (fl_append item l) = fl_asserts l"
proof -
  let ?gone = "set (drop 2 (alike_after_marker item l))"
  let ?seg = "items_after_marker l"
  note after = list_inv_after [OF assms(1)]
  have sub: "?gone \<subseteq> set ?seg"
    using set_drop_subset [of 2 "alike_after_marker item l"] by (auto simp: alike_after_marker_def)
  have "without (item_id ` ?gone) (entries_to_marker l) = entries_to_marker l"
  proof (rule without_none)
    fix element e assume gone: "element \<in> item_id ` ?gone" and e: "e \<in> set (entries_to_marker l)"
    have "element \<in> item_id ` set ?seg" using gone sub by blast
    then have "element \<notin> item_id ` set (entry_items (entries_to_marker l))" using after(4) by blast
    then show "\<not> entryIs element e" using e by (auto simp: entryIs_iff entry_items_member)
  qed
  moreover have "filter (\<lambda>i. item_id i \<notin> item_id ` ?gone) ?seg = filter (\<lambda>i. i \<notin> ?gone) ?seg"
  proof (rule filter_cong [OF refl])
    fix i assume "i \<in> set ?seg"
    then show "(item_id i \<notin> item_id ` ?gone) = (i \<notin> ?gone)"
      using inj_on_image_mem_iff [of item_id "set ?seg" i ?gone] after(1) sub by (simp add: distinct_map)
  qed
  ultimately have "without (item_id ` ?gone) (m_entries l) =
      entries_to_marker l @ rev (map ItemEntry (filter (\<lambda>i. i \<notin> ?gone) ?seg))"
    by (subst entries_split) (simp add: without_items_only)
  then have m: "m_entries (fl_append item l) =
      entries_to_marker l @ rev (map ItemEntry (item # filter (\<lambda>i. i \<notin> ?gone) ?seg))"
    unfolding fl_append_def ensure_eq [OF assms] by (simp add: Let_def)
  show "entries_to_marker (fl_append item l) = entries_to_marker l"
    "items_after_marker (fl_append item l) = item # filter (\<lambda>i. i \<notin> ?gone) ?seg"
    using view_of_split [OF m marker_last] by simp_all
  show "fl_asserts (fl_append item l) = fl_asserts l"
    unfolding fl_append_def ensure_eq [OF assms] by (simp add: Let_def)
qed

lemma filter_not_dropped:
  assumes "distinct xs"
  shows "filter (\<lambda>x. x \<notin> set (drop n xs)) xs = take n xs"
proof -
  let ?P = "\<lambda>x. x \<notin> set (drop n xs)"
  have "filter ?P (take n xs) = take n xs"
    by (rule filter_True) (use set_take_disj_set_drop_if_distinct [OF assms, of n n] in auto)
  moreover have "filter ?P (drop n xs) = []" by (rule filter_False) simp
  ultimately show ?thesis using filter_append [of ?P "take n xs" "drop n xs"] by simp
qed

lemma length_filter_filter: "length (filter P (filter Q xs)) \<le> length (filter P xs)"
  by (induction xs) auto

lemma same_element_class: "same_element a b \<Longrightarrow> same_element a c \<longleftrightarrow> same_element b c"
  by (auto simp: same_element_def)

lemma append_inv:
  assumes "list_inv l" "attributes_ok item" "isElement item" "\<not> fl_contains (item_id item) l"
  shows "list_inv (fl_append item l)"
proof -
  let ?ids = "item_id ` set (drop 2 (alike_after_marker item l))"
  have m: "m_entries (fl_append item l) = without ?ids (m_entries l) @ [ItemEntry item]"
    unfolding fl_append_def ensure_eq [OF assms(1-3)] by (simp add: Let_def)
  have "item_id item \<notin> item_id ` set (entry_items (m_entries l))" using assms(4) by (simp add: fl_contains_iff)
  then show ?thesis using assms(1,2) fl_append_view(3) [OF assms(1-3)] unfolding list_inv_def m
    by (auto simp: without_items distinct_map_filter list_all_iff)
qed

section \<open>Properties\<close>

text \<open>
  C12. Appending keeps the Noah's Ark condition. Of the items after the last marker that are alike the new
  one, with the same name, namespace and attributes in any order, the two newest stay and the others
  are removed, so with the new one there are at most three; every other item stays, in its place, and so
  does everything up to the marker. If at most three of every kind were there before, the same holds
  afterwards.
\<close>

theorem noahs_ark:
  assumes "list_inv l" "attributes_ok item" "isElement item" "\<not> fl_contains (item_id item) l"
  shows "list_inv (fl_append item l)
    \<and> entries_to_marker (fl_append item l) = entries_to_marker l
    \<and> items_after_marker (fl_append item l) =
        item # filter (\<lambda>i. i \<notin> set (drop 2 (alike_after_marker item l))) (items_after_marker l)
    \<and> alike_after_marker item (fl_append item l) = item # take 2 (alike_after_marker item l)
    \<and> ((\<forall>kind. length (alike_after_marker kind l) \<le> 3) \<longrightarrow>
        (\<forall>kind. length (alike_after_marker kind (fl_append item l)) \<le> 3))"
proof -
  let ?M = "alike_after_marker item l"
  let ?keep = "\<lambda>i. i \<notin> set (drop 2 ?M)"
  note view = fl_append_view [OF assms(1-3)]
  have "distinct ?M" using list_inv_after(3) [OF assms(1)] by (simp add: alike_after_marker_def)
  then have "filter ?keep ?M = take 2 ?M" by (rule filter_not_dropped)
  then have "filter (same_element item) (filter ?keep (items_after_marker l)) = take 2 ?M"
    by (simp add: alike_after_marker_def conj_commute)
  then have alike: "alike_after_marker item (fl_append item l) = item # take 2 ?M"
    unfolding alike_after_marker_def [of item "fl_append item l"] view(2) by (simp add: same_element_def)
  have "length (alike_after_marker kind (fl_append item l)) \<le> 3" if bound: "\<forall>kind. length (alike_after_marker kind l) \<le> 3" for kind
  proof (cases "same_element kind item")
    case True
    have "alike_after_marker kind (fl_append item l) = alike_after_marker item (fl_append item l)"
      unfolding alike_after_marker_def using same_element_class [OF True] by (simp cong: filter_cong)
    then show ?thesis using alike by simp
  next
    case False
    have "length (filter (same_element kind) (filter ?keep (items_after_marker l))) \<le> length (alike_after_marker kind l)"
      unfolding alike_after_marker_def by (rule length_filter_filter)
    then show ?thesis using False bound unfolding alike_after_marker_def [of kind "fl_append item l"] view(2)
      by (simp add: le_trans)
  qed
  then show ?thesis using append_inv [OF assms] view alike by blast
qed

definition sample_bold :: "nat \<Rightarrow> HTMLStackItem" where
  "sample_bold n = HTMLStackItem_forElement \<lparr>node_id = n, node_tag = Some (htmlName (lit ''b''))\<rparr>"

definition sample_list :: HTMLFormattingElementList where
  "sample_list = \<lparr>m_entries = [ItemEntry (sample_bold 0), MarkerEntry, ItemEntry (sample_bold 1),
     ItemEntry (sample_bold 2), ItemEntry (sample_bold 3)], fl_asserts = True\<rparr>"

lemma sample_list_inv: "list_inv sample_list"
  by (simp add: list_inv_def sample_list_def sample_bold_def HTMLStackItem_forElement_def attributes_ok_def)

lemma sample_bold_ok: "attributes_ok (sample_bold n)" "isElement (sample_bold n)" "item_id (sample_bold n) = n"
  by (simp_all add: sample_bold_def HTMLStackItem_forElement_def attributes_ok_def isElement_def isDocumentFragment_def)

theorem noahs_ark_witness:
  "items_after_marker (fl_append (sample_bold 4) sample_list) = [sample_bold 4, sample_bold 3, sample_bold 2]"
proof -
  have after: "items_after_marker sample_list = [sample_bold 3, sample_bold 2, sample_bold 1]"
    by (simp add: items_after_marker_def sample_list_def)
  have alike: "alike_after_marker (sample_bold 4) sample_list = [sample_bold 3, sample_bold 2, sample_bold 1]"
    by (simp add: alike_after_marker_def after same_element_def sample_bold_def HTMLStackItem_forElement_def)
  have "\<not> fl_contains (item_id (sample_bold 4)) sample_list"
    by (simp add: fl_contains_def fl_find_def reverseFind_def sample_list_def sample_bold_ok numeral_eq_Suc)
  from noahs_ark [OF sample_list_inv sample_bold_ok(1,2) this]
  have "items_after_marker (fl_append (sample_bold 4) sample_list) =
      sample_bold 4 # filter (\<lambda>i. i \<notin> {sample_bold 1}) [sample_bold 3, sample_bold 2, sample_bold 1]"
    using alike after by (simp add: numeral_2_eq_2)
  then show ?thesis by (simp add: sample_bold_def HTMLStackItem_forElement_def)
qed

lemma append_ids:
  assumes "list_inv l" "attributes_ok item" "isElement item"
  shows "item_id ` set (entry_items (m_entries (fl_append item l))) \<subseteq> insert (item_id item) (item_id ` set (entry_items (m_entries l)))"
  unfolding fl_append_def ensure_eq [OF assms] by (auto simp: Let_def without_items)

lemma disjoint_mono: "A \<subseteq> insert x B \<Longrightarrow> x \<notin> C \<Longrightarrow> B \<inter> C = {} \<Longrightarrow> A \<inter> C = {}"
  by blast

lemma disjoint_image: "\<forall>i \<in> I. f i \<notin> A \<Longrightarrow> A \<inter> f ` I = {}"
  by blast

lemma appends_keep_prefix:
  assumes "list_inv l" "list_all (\<lambda>i. attributes_ok i \<and> isElement i) items" "distinct (map item_id items)"
    and "item_id ` set (entry_items (m_entries l)) \<inter> item_id ` set items = {}"
  shows "entries_to_marker (fold fl_append items l) = entries_to_marker l \<and> fl_asserts (fold fl_append items l)"
  using assms
proof (induction items arbitrary: l)
  case Nil
  then show ?case by (simp add: list_inv_def)
next
  case (Cons i items)
  have i: "attributes_ok i" "isElement i" "\<not> fl_contains (item_id i) l"
    using Cons.prems by (auto simp: fl_contains_iff)
  have "item_id ` set (entry_items (m_entries (fl_append i l))) \<inter> item_id ` set items = {}"
    by (rule disjoint_mono [OF append_ids [OF Cons.prems(1) i(1,2)]]) (use Cons.prems(3,4) in simp_all)
  then have "entries_to_marker (fold fl_append items (fl_append i l)) = entries_to_marker (fl_append i l)
      \<and> fl_asserts (fold fl_append items (fl_append i l))"
    using Cons.prems by (intro Cons.IH append_inv [OF Cons.prems(1) i]) auto
  then show ?case using fl_append_view(1) [OF Cons.prems(1) i(1,2)] by simp
qed

lemma clear_loop_eq: "clear_loop es = tl (dropWhile (\<lambda>e. \<not> isMarker e) es)"
  by (induction es) auto

lemma clear_eq: "m_entries (clearToLastMarker l) = butlast (entries_to_marker l)"
  by (simp add: clearToLastMarker_def clear_loop_eq entries_to_marker_def butlast_rev)

text \<open>
  C35. A marker isolates what comes after it: after appending a marker and then any formatting elements,
  clearing to the last marker gives the list back as it was before the marker, whatever the Noah's Ark
  condition removed in between.
\<close>

theorem clear_to_marker_restores:
  assumes "list_inv l" "list_all (\<lambda>i. attributes_ok i \<and> isElement i \<and> \<not> fl_contains (item_id i) l) items"
    and "distinct (map item_id items)"
  shows "clearToLastMarker (fold fl_append items (appendMarker l)) = l"
proof -
  let ?l = "fold fl_append items (appendMarker l)"
  have m: "m_entries (appendMarker l) = (m_entries l @ [MarkerEntry]) @ rev (map ItemEntry [])"
    by (simp add: appendMarker_def)
  have pre: "entries_to_marker (appendMarker l) = m_entries l @ [MarkerEntry]"
    by (rule view_of_split(1) [OF m]) simp
  have "list_inv (appendMarker l)" using assms(1) by (simp add: list_inv_def appendMarker_def)
  moreover have "list_all (\<lambda>i. attributes_ok i \<and> isElement i) items" using assms(2) by (auto simp: list_all_iff)
  moreover have "item_id ` set (entry_items (m_entries (appendMarker l))) \<inter> item_id ` set items = {}"
    by (rule disjoint_image) (use assms(2) in \<open>simp add: list_all_iff fl_contains_iff appendMarker_def\<close>)
  ultimately have k: "entries_to_marker ?l = m_entries l @ [MarkerEntry]" "fl_asserts ?l"
    using appends_keep_prefix [OF _ _ assms(3)] pre by simp_all
  have "m_entries (clearToLastMarker ?l) = m_entries l" "fl_asserts (clearToLastMarker ?l)"
    using k by (simp add: clear_eq) (simp add: clearToLastMarker_def k)
  then show ?thesis using assms(1) by (simp add: list_inv_def)
qed

theorem clear_to_marker_restores_witness:
  "clearToLastMarker (fold fl_append [sample_bold 4, sample_bold 5] (appendMarker sample_list)) = sample_list"
proof (rule clear_to_marker_restores [OF sample_list_inv])
  show "list_all (\<lambda>i. attributes_ok i \<and> isElement i \<and> \<not> fl_contains (item_id i) sample_list) [sample_bold 4, sample_bold 5]"
    by (simp add: sample_bold_ok fl_contains_iff sample_list_def)
  show "distinct (map item_id [sample_bold 4, sample_bold 5])" by (simp add: sample_bold_ok)
qed

lemma list_inv_contains_new:
  assumes "list_inv l" "\<not> fl_contains (item_id new) l" "attributes_ok new"
  shows "list_inv (l\<lparr>m_entries := vector_insert k (ItemEntry new) (m_entries l)\<rparr>)"
proof -
  have "entry_items (m_entries l) = entry_items (take k (m_entries l)) @ entry_items (drop k (m_entries l))"
    by (metis append_take_drop_id entry_items_simps(4))
  then show ?thesis using assms by (auto simp: list_inv_def fl_contains_iff vector_insert_def)
qed

lemma list_inv_without: "list_inv l \<Longrightarrow> list_inv (l\<lparr>m_entries := without ids (m_entries l)\<rparr>)"
  by (auto simp: list_inv_def without_items distinct_map_filter list_all_iff)

lemma insert_other: "x \<notin> A \<Longrightarrow> x \<notin> B \<Longrightarrow> insert n (A \<union> B) = insert n (insert x (A \<union> B) - {x})"
  by blast

lemma list_inv_update:
  assumes "list_inv l" "\<not> fl_contains (item_id new) l" "attributes_ok new" "k < length (m_entries l)"
    and "m_entries l ! k = ItemEntry old"
  shows "list_inv (l\<lparr>m_entries := (m_entries l)[k := ItemEntry new]\<rparr>)"
    "item_id ` set (entry_items ((m_entries l)[k := ItemEntry new])) =
       insert (item_id new) (item_id ` set (entry_items (m_entries l)) - {item_id old})"
proof -
  let ?a = "entry_items (take k (m_entries l))" and ?b = "entry_items (drop (Suc k) (m_entries l))"
  have old: "entry_items (m_entries l) = ?a @ old # ?b"
    by (subst id_take_nth_drop [OF assms(4)]) (simp add: assms(5))
  have new: "entry_items ((m_entries l)[k := ItemEntry new]) = ?a @ new # ?b"
    by (simp add: upd_conv_take_nth_drop [OF assms(4)])
  have d: "distinct (map item_id (?a @ old # ?b))" "list_all attributes_ok (?a @ old # ?b)" "fl_asserts l"
    using assms(1) unfolding list_inv_def old by simp_all
  have "item_id new \<notin> item_id ` set (?a @ old # ?b)" using assms(2) unfolding fl_contains_iff old .
  then show "list_inv (l\<lparr>m_entries := (m_entries l)[k := ItemEntry new]\<rparr>)"
    using d assms(3) unfolding list_inv_def by (simp add: new image_Un)
  show "item_id ` set (entry_items ((m_entries l)[k := ItemEntry new])) =
      insert (item_id new) (item_id ` set (entry_items (m_entries l)) - {item_id old})"
    unfolding new old using insert_other [of "item_id old" "item_id ` set ?a" "item_id ` set ?b" "item_id new"] d(1)
    by (simp add: image_Un)
qed

lemma bookmark_place:
  assumes "bookmarkFor old l = Some b0"
  shows "m_mark b0 < length (m_entries l)" "entryIs old (m_entries l ! m_mark b0)" "\<not> m_hasBeenMoved b0"
  using assms reverseFind_loop_Some [of old "m_entries l" "length (m_entries l)"]
  by (auto simp: bookmarkFor_def fl_find_def reverseFind_def)

lemma swapTo_eq:
  assumes "list_inv l" "fl_contains old l" "\<not> fl_contains (item_id new) l" "attributes_ok new"
    and found: "m_mark b0 < length (m_entries l)" "entryIs old (m_entries l ! m_mark b0)" "\<not> m_hasBeenMoved b0"
    and moved: "b = b0 \<or> (\<exists>k < length (m_entries l). b = moveToAfter k b0)"
  shows "list_inv (swapTo old new b l) \<and> fl_contains (item_id new) (swapTo old new b l) \<and> \<not> fl_contains old (swapTo old new b l)
    \<and> m_entries (swapTo old new b l) =
      (if m_hasBeenMoved b
       then without {old} (take (m_mark b + 1) (m_entries l)) @ ItemEntry new # without {old} (drop (m_mark b + 1) (m_entries l))
       else (m_entries l)[m_mark b := ItemEntry new])"
proof -
  have asserts: "fl_asserts l" using assms(1) by (simp add: list_inv_def)
  have ids: "old \<noteq> item_id new" using assms(2,3) by auto
  show ?thesis
  proof (cases "m_hasBeenMoved b")
    case False
    then have b: "b = b0" using moved by (auto simp: moveToAfter_def)
    obtain item where item: "m_entries l ! m_mark b0 = ItemEntry item" "item_id item = old"
      using found(2) by (auto simp: entryIs_iff)
    have s: "swapTo old new b l = l\<lparr>m_entries := (m_entries l)[m_mark b := ItemEntry new]\<rparr>"
      using assms(2,3) found asserts by (simp add: swapTo_def b fl_quiet)
    show ?thesis unfolding s using list_inv_update [OF assms(1,3,4) found(1) item(1)] ids item(2) False
      by (simp add: b fl_contains_iff)
  next
    case True
    then obtain k where k: "k < length (m_entries l)" "b = moveToAfter k b0" using moved found(3) by auto
    let ?l = "l\<lparr>m_entries := vector_insert (k + 1) (ItemEntry new) (m_entries l)\<rparr>"
    have inv: "list_inv ?l" by (rule list_inv_contains_new [OF assms(1,3,4)])
    have dist: "distinct (map item_id (entry_items (m_entries ?l)))" using inv by (simp only: list_inv_def)
    have s0: "swapTo old new b l = fl_remove old ?l"
      using assms(2,3) k asserts by (simp add: swapTo_def moveToAfter_def fl_quiet)
    have s: "swapTo old new b l = ?l\<lparr>m_entries := without {old} (m_entries ?l)\<rparr>"
      unfolding s0 by (rule fl_remove_eq [OF dist])
    have e: "m_entries (swapTo old new b l) =
        without {old} (take (k + 1) (m_entries l)) @ ItemEntry new # without {old} (drop (k + 1) (m_entries l))"
      unfolding s using ids by (simp add: vector_insert_def without_def)
    have "list_inv (swapTo old new b l)" unfolding s by (rule list_inv_without [OF inv])
    then show ?thesis using e k True ids by (auto simp: fl_contains_iff without_items moveToAfter_def)
  qed
qed

text \<open>
  C36. Swapping a formatting element for its clone, the last step of the adoption agency. If the bookmark
  still stands where it was made, the clone takes the place of the element; if it was moved after some
  entry, the clone is put right after that entry and the element is taken out. Either way no assertion
  fails, the clone is in the list, the element is not, and all other entries keep their order.
\<close>

theorem swapTo_correct:
  assumes "list_inv l" "fl_contains old l" "\<not> fl_contains (item_id new) l" "attributes_ok new"
    and "bookmarkFor old l = Some b0" "b = b0 \<or> (\<exists>k < length (m_entries l). b = moveToAfter k b0)"
  shows "list_inv (swapTo old new b l) \<and> fl_contains (item_id new) (swapTo old new b l) \<and> \<not> fl_contains old (swapTo old new b l)
    \<and> m_entries (swapTo old new b l) =
      (if m_hasBeenMoved b
       then without {old} (take (m_mark b + 1) (m_entries l)) @ ItemEntry new # without {old} (drop (m_mark b + 1) (m_entries l))
       else (m_entries l)[m_mark b := ItemEntry new])"
proof -
  have "m_mark b0 < length (m_entries l)" "entryIs old (m_entries l ! m_mark b0)" "\<not> m_hasBeenMoved b0"
    using bookmark_place [OF assms(5)] by simp_all
  from swapTo_eq [OF assms(1-4) this assms(6)] show ?thesis .
qed

theorem swapTo_correct_witness:
  "m_entries (swapTo 2 (sample_bold 9) \<lparr>m_hasBeenMoved = True, m_mark = 4\<rparr> sample_list) =
     [ItemEntry (sample_bold 0), MarkerEntry, ItemEntry (sample_bold 1), ItemEntry (sample_bold 3), ItemEntry (sample_bold 9)]"
proof -
  let ?b = "\<lparr>m_hasBeenMoved = False, m_mark = 3\<rparr>"
  have c: "fl_contains 2 sample_list" "\<not> fl_contains (item_id (sample_bold 9)) sample_list"
    by (simp_all add: fl_contains_iff sample_list_def sample_bold_ok)
  have b: "bookmarkFor 2 sample_list = Some ?b"
    by (simp add: bookmarkFor_def fl_find_def reverseFind_def sample_list_def sample_bold_ok numeral_eq_Suc)
  have "\<exists>k < length (m_entries sample_list). \<lparr>m_hasBeenMoved = True, m_mark = 4\<rparr> = moveToAfter k ?b"
    by (intro exI [of _ 4]) (simp add: sample_list_def moveToAfter_def)
  from swapTo_correct [OF sample_list_inv c sample_bold_ok(1) b disjI2 [OF this]]
  show ?thesis by (simp add: sample_list_def without_def sample_bold_ok)
qed

text \<open>
  The search for an element by name sees the entries after the last marker only, and returns the
  newest that matches.
\<close>

theorem closest_element_correct:
  "closestElementInScopeWithName name l = List.find (matchesHTMLTag name) (items_after_marker l)"
proof -
  have "closest_loop name es = List.find (matchesHTMLTag name) (entry_items (takeWhile (\<lambda>e. \<not> isMarker e) es))" for es
    by (induction name es rule: closest_loop.induct) auto
  then show ?thesis by (simp add: closestElementInScopeWithName_def items_after_marker_def)
qed

end
