(* ===== verification/Html_Parser_Idioms.thy ===== *)
theory Html_Parser_Idioms
  imports Wtf_Strings
begin

text \<open>
  The micro-syntaxes of \<open>Source/WebCore/html/parser/HTMLParserIdioms.{h,cpp}\<close>: spaces, integers, lists
  of numbers, refresh directives and hash-name references.

  A string or a view of either width is the list of its code units, and the range from \<open>position\<close> to
  \<open>end\<close> is the list of what is left. \<open>int\<close> and \<open>unsigned\<close> are 32-bit words, read as signed by \<open>sint\<close> for
  \<open>int\<close>. An \<open>Expected\<close> value is a sum with the error on the left. The conversion of decimal notation to
  floating point is a parameter of the functions that call it.
\<close>

section \<open>Character classes\<close>

definition isHTMLSpace :: "uchar \<Rightarrow> bool" where
  "isHTMLSpace character \<longleftrightarrow> character \<le> chr_space \<and> (character = chr_space \<or> character = chr_lf
     \<or> character = chr_tab \<or> character = chr_cr \<or> character = chr_ff)"

definition isNotHTMLSpace :: "uchar \<Rightarrow> bool" where
  "isNotHTMLSpace character \<longleftrightarrow> \<not> isHTMLSpace character"

definition isHTMLLineBreak :: "uchar \<Rightarrow> bool" where
  "isHTMLLineBreak character \<longleftrightarrow> character \<le> chr_cr \<and> (character = chr_lf \<or> character = chr_cr)"

definition isComma :: "uchar \<Rightarrow> bool" where
  "isComma character \<longleftrightarrow> character = chr_comma"

definition isHTMLSpaceOrComma :: "uchar \<Rightarrow> bool" where
  "isHTMLSpaceOrComma character \<longleftrightarrow> isComma character \<or> isHTMLSpace character"

definition isHTMLSpaceButNotLineBreak :: "uchar \<Rightarrow> bool" where
  "isHTMLSpaceButNotLineBreak character \<longleftrightarrow> isHTMLSpace character \<and> \<not> isHTMLLineBreak character"

section \<open>Stripping\<close>

text \<open>
  The loops count the spaces at either end, \<open>strip_count\<close> on the characters and on the reversed
  characters; \<open>substring\<close> clamps its arguments. The boolean is the assertion.
\<close>

fun strip_count :: "uchar list \<Rightarrow> nat" where
  "strip_count [] = 0"
| "strip_count (character # characters) =
     (if isNotHTMLSpace character then 0 else Suc (strip_count characters))"

definition substring :: "uchar list \<Rightarrow> nat \<Rightarrow> nat \<Rightarrow> uchar list" where
  "substring cs start len = take len (drop start cs)"

definition stripInternal :: "uchar list \<Rightarrow> uchar list \<times> bool" where
  "stripInternal cs =
     (let numLeadingSpaces = strip_count cs in
      if numLeadingSpaces = length cs then ([], True)
      else
        let numTrailingSpaces = strip_count (rev cs) in
        if numLeadingSpaces = 0 \<and> numTrailingSpaces = 0
        then (cs, numLeadingSpaces + numTrailingSpaces < length cs)
        else (substring cs numLeadingSpaces (length cs - (numLeadingSpaces + numTrailingSpaces)),
              numLeadingSpaces + numTrailingSpaces < length cs))"

text \<open>\<open>None\<close> is the null string.\<close>

definition stripLeadingAndTrailingHTMLSpaces :: "uchar list option \<Rightarrow> uchar list option \<times> bool" where
  "stripLeadingAndTrailingHTMLSpaces str =
     (case str of
        None \<Rightarrow> (None, True)
      | Some cs \<Rightarrow>
          if cs = [] then (Some [], True)
          else (case stripInternal cs of (r, ok) \<Rightarrow> (Some r, ok)))"

section \<open>Integers\<close>

datatype HTMLIntegerParsingError = NegativeOverflow | PositiveOverflow | Other

definition intMax :: unsigned where "intMax = 0x7FFFFFFF"

definition maxHTMLNonNegativeInteger :: unsigned where "maxHTMLNonNegativeInteger = 2147483647"

fun skipWhile :: "(uchar \<Rightarrow> bool) \<Rightarrow> uchar list \<Rightarrow> uchar list" where
  "skipWhile P [] = []"
| "skipWhile P (c # cs) = (if P c then skipWhile P cs else c # cs)"

text \<open>
  The \<open>do\<close> loop over the digits: \<open>Inl\<close> is the return inside it. The digit is not more than 9, so its
  comparison as a signed \<open>int\<close> is the one of the words; the comparisons of \<open>result\<close> are unsigned.
\<close>

fun digits_loop :: "bool \<Rightarrow> unsigned \<Rightarrow> uchar list \<Rightarrow> HTMLIntegerParsingError + unsigned" where
  "digits_loop isNegative result [] = Inr result"
| "digits_loop isNegative result (c # cs) =
     (if \<not> isASCIIDigit c then Inr result
      else
        let digitValue = ucast (c - 0x30) :: unsigned;
            maxMultiplier = intMax div 10 in
        if result > maxMultiplier
           \<or> (result = maxMultiplier \<and> digitValue > intMax mod 10 + (if isNegative then 1 else 0))
        then Inl (if isNegative then NegativeOverflow else PositiveOverflow)
        else digits_loop isNegative (10 * result + digitValue) cs)"

definition parseHTMLIntegerInternal :: "uchar list \<Rightarrow> HTMLIntegerParsingError + unsigned" where
  "parseHTMLIntegerInternal cs =
     (case skipWhile isHTMLSpace cs of
        [] \<Rightarrow> Inl Other
      | c # rest \<Rightarrow>
          let isNegative = (c = chr_dash);
              position = (if c = chr_dash \<or> c = chr_plus then rest else c # rest) in
          case position of
            [] \<Rightarrow> Inl Other
          | d # _ \<Rightarrow>
              if \<not> isASCIIDigit d then Inl Other
              else case digits_loop isNegative 0 position of
                     Inl e \<Rightarrow> Inl e
                   | Inr result \<Rightarrow> Inr (if isNegative then - result else result))"

definition parseHTMLInteger :: "uchar list \<Rightarrow> HTMLIntegerParsingError + unsigned" where
  "parseHTMLInteger input = (if input = [] then Inl Other else parseHTMLIntegerInternal input)"

definition parseHTMLNonNegativeInteger :: "uchar list \<Rightarrow> HTMLIntegerParsingError + unsigned" where
  "parseHTMLNonNegativeInteger input =
     (case parseHTMLInteger input of
        Inl e \<Rightarrow> Inl e
      | Inr v \<Rightarrow> if sint v < 0 then Inl NegativeOverflow else Inr v)"

definition parseValidHTMLNonNegativeIntegerInternal :: "uchar list \<Rightarrow> unsigned option" where
  "parseValidHTMLNonNegativeIntegerInternal cs =
     (if \<not> list_all isASCIIDigit cs then None
      else case parseHTMLIntegerInternal cs of
             Inl _ \<Rightarrow> None
           | Inr v \<Rightarrow> if sint v < 0 then None else Some v)"

definition parseValidHTMLNonNegativeInteger :: "uchar list \<Rightarrow> unsigned option" where
  "parseValidHTMLNonNegativeInteger input =
     (if input = [] then None else parseValidHTMLNonNegativeIntegerInternal input)"

subsection \<open>Reflected attributes\<close>

definition limitToOnlyHTMLNonNegativeNumbersGreaterThanZero :: "unsigned \<Rightarrow> unsigned \<Rightarrow> unsigned" where
  "limitToOnlyHTMLNonNegativeNumbersGreaterThanZero value defaultValue =
     (if value > 0 \<and> value \<le> maxHTMLNonNegativeInteger then value else defaultValue)"

text \<open>The next functions have their assertions as a boolean.\<close>

definition limitToOnlyHTMLNonNegativeNumbersGreaterThanZero_string :: "uchar list \<Rightarrow> unsigned \<Rightarrow> unsigned \<times> bool" where
  "limitToOnlyHTMLNonNegativeNumbersGreaterThanZero_string stringValue defaultValue =
     (let value = (case parseHTMLNonNegativeInteger stringValue of
                     Inr v \<Rightarrow> if v \<noteq> 0 then v else defaultValue
                   | Inl _ \<Rightarrow> defaultValue) in
      (value, defaultValue > 0 \<and> defaultValue \<le> maxHTMLNonNegativeInteger
         \<and> value > 0 \<and> value \<le> maxHTMLNonNegativeInteger))"

definition limitToOnlyHTMLNonNegative :: "unsigned \<Rightarrow> unsigned \<Rightarrow> unsigned \<times> bool" where
  "limitToOnlyHTMLNonNegative value defaultValue =
     (if value \<le> maxHTMLNonNegativeInteger then value else defaultValue,
      defaultValue \<le> maxHTMLNonNegativeInteger)"

definition limitToOnlyHTMLNonNegative_string :: "uchar list \<Rightarrow> unsigned \<Rightarrow> unsigned \<times> bool" where
  "limitToOnlyHTMLNonNegative_string stringValue defaultValue =
     (let value = (case parseHTMLNonNegativeInteger stringValue of Inr v \<Rightarrow> v | Inl _ \<Rightarrow> defaultValue) in
      (value, defaultValue \<le> maxHTMLNonNegativeInteger \<and> value \<le> maxHTMLNonNegativeInteger))"

definition clampHTMLNonNegativeIntegerToRange :: "uchar list \<Rightarrow> unsigned \<Rightarrow> unsigned \<Rightarrow> unsigned \<Rightarrow> unsigned \<times> bool" where
  "clampHTMLNonNegativeIntegerToRange stringValue mn mx defaultValue =
     (case parseHTMLNonNegativeInteger stringValue of
        Inr v \<Rightarrow> min (max v mn) mx
      | Inl e \<Rightarrow> if e = PositiveOverflow then mx else defaultValue,
      defaultValue \<ge> mn \<and> defaultValue \<le> mx)"

section \<open>Floating-point numbers\<close>

definition isHTMLSpaceOrDelimiter :: "uchar \<Rightarrow> bool" where
  "isHTMLSpaceOrDelimiter character \<longleftrightarrow> isHTMLSpace character \<or> character = chr_comma \<or> character = chr_semi"

definition isNumberStart :: "uchar \<Rightarrow> bool" where
  "isNumberStart character \<longleftrightarrow> isASCIIDigit character \<or> character = chr_dot \<or> character = chr_dash"

text \<open>
  \<open>parseDouble\<close> returns a number and the length it parsed, and \<open>isfinite\<close> tests the number.
\<close>

definition parseValidHTMLFloatingPointNumber ::
    "(uchar list \<Rightarrow> 'd \<times> nat) \<Rightarrow> ('d \<Rightarrow> bool) \<Rightarrow> uchar list \<Rightarrow> 'd option" where
  "parseValidHTMLFloatingPointNumber parseDouble isfinite input =
     (if input = [] then None
      else if hd input = chr_plus \<or> last input = chr_dot then None
      else case parseDouble input of (number, parsedLength) \<Rightarrow>
             if parsedLength = length input \<and> isfinite number then Some number else None)"

lemma skipWhile_shorter: "length (skipWhile P cs) \<le> length cs"
  by (induction cs) auto

lemma skipWhile_eq: "skipWhile P cs = dropWhile P cs"
  by (induction cs) auto

text \<open>
  The outer loop starts on a character that is not a delimiter, or at the end, so that it makes
  progress; the fuel of a round is the length of what is left, and \<open>None\<close> is the fuel spent.
\<close>

fun numbers_loop ::
    "nat \<Rightarrow> (uchar list \<Rightarrow> 'd \<times> nat) \<Rightarrow> ('d \<Rightarrow> bool) \<Rightarrow> 'd \<Rightarrow> uchar list \<Rightarrow> 'd list option" where
  "numbers_loop fuel parseDouble isfinite zero [] = Some []"
| "numbers_loop 0 parseDouble isfinite zero (c # cs) = None"
| "numbers_loop (Suc fuel) parseDouble isfinite zero (c # cs) =
     (let numberStart = skipWhile (\<lambda>c. \<not> (isHTMLSpaceOrDelimiter c \<or> isNumberStart c)) (c # cs);
          position = skipWhile (\<lambda>c. \<not> isHTMLSpaceOrDelimiter c) numberStart;
          text = take (length numberStart - length position) numberStart in
      case parseDouble text of (number, parsedLength) \<Rightarrow>
        map_option ((#) (if parsedLength > 0 \<and> isfinite number then number else zero))
          (numbers_loop fuel parseDouble isfinite zero (skipWhile isHTMLSpaceOrDelimiter position)))"

definition parseHTMLListOfOfFloatingPointNumberValues ::
    "(uchar list \<Rightarrow> 'd \<times> nat) \<Rightarrow> ('d \<Rightarrow> bool) \<Rightarrow> 'd \<Rightarrow> uchar list \<Rightarrow> 'd list option" where
  "parseHTMLListOfOfFloatingPointNumberValues parseDouble isfinite zero input =
     numbers_loop (length input) parseDouble isfinite zero (skipWhile isHTMLSpaceOrDelimiter input)"

section \<open>CORS settings, refresh and hash-name references\<close>

fun equalIgnoringASCIICase_loop :: "uchar list \<Rightarrow> uchar list \<Rightarrow> bool" where
  "equalIgnoringASCIICase_loop (a # as) (b # bs) =
     (if toASCIILower a \<noteq> toASCIILower b then False else equalIgnoringASCIICase_loop as bs)"
| "equalIgnoringASCIICase_loop as bs = True"

definition equalIgnoringASCIICase :: "uchar list \<Rightarrow> uchar list \<Rightarrow> bool" where
  "equalIgnoringASCIICase a b \<longleftrightarrow> length a = length b \<and> equalIgnoringASCIICase_loop a b"

definition parseCORSSettingsAttribute :: "uchar list option \<Rightarrow> uchar list option" where
  "parseCORSSettingsAttribute value =
     (case value of
        None \<Rightarrow> None
      | Some v \<Rightarrow>
          if equalIgnoringASCIICase v (lit ''use-credentials'') then Some (lit ''use-credentials'')
          else Some (lit ''anonymous''))"

text \<open>
  The result of a refresh directive: \<open>None\<close> if it is not one, else the delay and the URL, \<open>None\<close> where
  the reference \<open>parsedURL\<close> is left as it was.
\<close>

definition refresh_url :: "uchar list \<Rightarrow> uchar list" where
  "refresh_url position =
     (case position of
        [] \<Rightarrow> []
      | quote # rest \<Rightarrow>
          if quote = chr_apos \<or> quote = chr_quot then takeWhile (\<lambda>c. c \<noteq> quote) rest else position)"

text \<open>Behind a \<open>U\<close>: the text after \<open>url =\<close>, or \<open>None\<close> if that is not what follows.\<close>

definition afterUrlEquals :: "uchar list \<Rightarrow> uchar list option" where
  "afterUrlEquals position =
     (case position of
        r # l # rest \<Rightarrow>
          if (r = 0x52 \<or> r = 0x72) \<and> (l = 0x4C \<or> l = 0x6C) then
            (case skipWhile isHTMLSpace rest of
               e # rest' \<Rightarrow> if e = chr_eq then Some (skipWhile isHTMLSpace rest') else None
             | [] \<Rightarrow> None)
          else None
      | _ \<Rightarrow> None)"

definition refresh_tail :: "unsigned \<Rightarrow> uchar list \<Rightarrow> unsigned \<times> uchar list option" where
  "refresh_tail time position0 =
     (let position1 = skipWhile isHTMLSpace position0;
          position2 = (case position1 of
                         c # rest \<Rightarrow> if c = chr_semi \<or> c = chr_comma then rest else position1
                       | [] \<Rightarrow> []);
          position = skipWhile isHTMLSpace position2 in
      case position of
        [] \<Rightarrow> (time, None)
      | u # rest \<Rightarrow>
          if u = 0x55 \<or> u = 0x75 then
            (case afterUrlEquals rest of
               None \<Rightarrow> (time, Some position)
             | Some position' \<Rightarrow> (time, Some (refresh_url position')))
          else (time, Some (refresh_url position)))"

definition parseHTTPRefreshInternal :: "uchar list \<Rightarrow> (unsigned \<times> uchar list option) option" where
  "parseHTTPRefreshInternal input =
     (let numberStart = skipWhile isHTMLSpace input;
          position = skipWhile isASCIIDigit numberStart;
          timeString = take (length numberStart - length position) numberStart;
          time = (if timeString = [] then
                    (case position of c # _ \<Rightarrow> if c \<noteq> chr_dot then None else Some 0 | [] \<Rightarrow> None)
                  else case parseHTMLNonNegativeInteger timeString of Inl _ \<Rightarrow> None | Inr v \<Rightarrow> Some v) in
      case time of
        None \<Rightarrow> None
      | Some t \<Rightarrow>
          (case skipWhile (\<lambda>c. isASCIIDigit c \<or> c = chr_dot) position of
             [] \<Rightarrow> Some (t, None)
           | c # rest \<Rightarrow>
               if c \<noteq> chr_semi \<and> c \<noteq> chr_comma \<and> \<not> isHTMLSpace c then None
               else Some (refresh_tail t (c # rest))))"

definition parseMetaHTTPEquivRefresh :: "uchar list \<Rightarrow> (unsigned \<times> uchar list option) option" where
  "parseMetaHTTPEquivRefresh input = parseHTTPRefreshInternal input"

definition parseHTMLHashNameReference :: "uchar list \<Rightarrow> uchar list option" where
  "parseHTMLHashNameReference usemap =
     (case skipWhile (\<lambda>c. c \<noteq> chr_hash) usemap of
        [] \<Rightarrow> None
      | _ # rest \<Rightarrow> Some rest)"

end
