(* ===== verification/Html_Parser_Idioms_Properties.thy ===== *)
theory Html_Parser_Idioms_Properties
  imports Html_Parser_Idioms
begin

text \<open>The micro-syntaxes of the HTML parser against reference definitions on whole strings.\<close>

section \<open>Stripping\<close>

lemma strip_count_eq: "strip_count cs = length (takeWhile isHTMLSpace cs)"
  by (induction cs) (auto simp: isNotHTMLSpace_def)

definition strip_reference :: "uchar list \<Rightarrow> uchar list" where
  "strip_reference cs = rev (dropWhile isHTMLSpace (rev (dropWhile isHTMLSpace cs)))"

lemma takeWhile_all: "length (takeWhile P xs) = length xs \<longleftrightarrow> list_all P xs"
  by (induction xs) auto

lemma dropWhile_prefix: "dropWhile P xs = drop (length (takeWhile P xs)) xs"
  by (rule dropWhile_eq_drop)

lemma middle_split:
  assumes "\<not> list_all P xs"
  shows "\<exists>a b c. xs = a @ b @ c \<and> list_all P a \<and> list_all P c \<and> b \<noteq> [] \<and> \<not> P (hd b) \<and> \<not> P (last b)"
proof -
  let ?a = "takeWhile P xs" and ?r = "dropWhile P xs"
  let ?c = "takeWhile P (rev ?r)" and ?b = "dropWhile P (rev ?r)"
  have r: "?r \<noteq> []" "\<not> P (hd ?r)" using assms hd_dropWhile [of P xs] by (auto simp: dropWhile_eq_Nil_conv list_all_iff)
  have rr: "rev ?r = ?c @ ?b" by simp
  have "hd ?r \<in> set (rev ?r)" using r(1) by simp
  then have b: "?b \<noteq> []" using r(2) unfolding dropWhile_eq_Nil_conv by blast
  have rb: "?r = rev ?b @ rev ?c" using rr by (metis rev_append rev_rev_ident)
  have "hd (rev ?b) = hd ?r" using rb b by (metis hd_append2 rev_is_Nil_conv)
  moreover have "\<not> P (last (rev ?b))" using hd_dropWhile [OF b] b by (simp add: last_rev)
  moreover have "xs = ?a @ rev ?b @ rev ?c" using rb by simp
  moreover have "list_all P ?a" "list_all P (rev ?c)" by (auto simp: list_all_iff dest: set_takeWhileD)
  ultimately show ?thesis using r b by (intro exI [of _ ?a] exI [of _ "rev ?b"] exI [of _ "rev ?c"]) auto
qed

lemma strip_middle:
  assumes "list_all P a" "list_all P c" "b \<noteq> []" "\<not> P (hd b)" "\<not> P (last b)"
  shows "takeWhile P (a @ b @ c) = a" "takeWhile P (rev (a @ b @ c)) = rev c"
    "rev (dropWhile P (rev (dropWhile P (a @ b @ c)))) = b"
proof -
  obtain h t where h: "b = h # t" using assms(3) by (cases b) auto
  obtain i l where l: "b = i @ [l]" using assms(3) by (cases b rule: rev_cases) auto
  have a: "\<forall>x \<in> set a. P x" and c: "\<forall>x \<in> set (rev c). P x" using assms(1,2) by (auto simp: list_all_iff)
  show "takeWhile P (a @ b @ c) = a" using takeWhile_append2 [of a P "b @ c"] a assms(4) h by simp
  show "takeWhile P (rev (a @ b @ c)) = rev c" using takeWhile_append2 [of "rev c" P "rev b @ rev a"] c assms(5) l by simp
  have d: "dropWhile P (a @ b @ c) = b @ c" using dropWhile_append2 [of a P "b @ c"] a assms(4) h by simp
  show "rev (dropWhile P (rev (dropWhile P (a @ b @ c)))) = b"
    unfolding d using dropWhile_append2 [of "rev c" P "rev b"] c assms(5) l by simp
qed

section \<open>Decimal numbers\<close>

definition digit_value :: "uchar \<Rightarrow> nat" where
  "digit_value c = unat c - 48"

definition decimal :: "nat \<Rightarrow> uchar list \<Rightarrow> nat" where
  "decimal v cs = foldl (\<lambda>v c. 10 * v + digit_value c) v cs"

lemma decimal_simps [simp]: "decimal v [] = v" "decimal v (c # cs) = decimal (10 * v + digit_value c) cs"
  by (simp_all add: decimal_def)

lemma decimal_ge: "v \<le> decimal v cs"
proof (induction cs arbitrary: v)
  case (Cons c cs)
  have "v \<le> 10 * v + digit_value c" by simp
  also have "\<dots> \<le> decimal v (c # cs)" using Cons [of "10 * v + digit_value c"] by simp
  finally show ?case .
qed simp

lemma digit_bounds: "isASCIIDigit c \<Longrightarrow> digit_value c \<le> 9 \<and> unat (ucast (c - 0x30) :: unsigned) = digit_value c"
proof -
  assume "isASCIIDigit c"
  then have r: "48 \<le> unat c" "unat c \<le> 57" by (simp_all add: isASCIIDigit_def word_le_nat_alt)
  have s: "unat (c - 0x30) = unat c - 48" using r by (subst unat_sub) (simp_all add: word_le_nat_alt)
  have "unat (ucast (c - 0x30) :: unsigned) = unat (c - 0x30)"
    using r s by (simp add: unsigned_ucast_eq take_bit_nat_eq_self_iff)
  then show ?thesis using r s by (simp add: digit_value_def)
qed

definition int_bound :: "bool \<Rightarrow> nat" where
  "int_bound isNegative = 2147483647 + (if isNegative then 1 else 0)"

lemma int_bound_cases [simp]: "int_bound True = 2147483648" "int_bound False = 2147483647"
  by (simp_all add: int_bound_def)

lemma overflow_test:
  assumes "unat r \<le> int_bound neg" "unat d \<le> 9"
  shows "(r > intMax div 10 \<or> (r = intMax div 10 \<and> d > intMax mod 10 + (if neg then 1 else 0)))
      \<longleftrightarrow> int_bound neg < 10 * unat r + unat d"
    and "10 * unat r + unat d \<le> int_bound neg \<Longrightarrow> unat (10 * r + d) = 10 * unat r + unat d"
proof -
  have m: "intMax div 10 = (214748364 :: unsigned)" "intMax mod 10 = (7 :: unsigned)"
    by (simp_all add: intMax_def)
  have a: "r > intMax div 10 \<longleftrightarrow> unat r > 214748364" unfolding m by (simp add: word_less_nat_alt)
  have b: "r = intMax div 10 \<longleftrightarrow> unat r = 214748364" unfolding m by (simp add: word_unat_eq_iff)
  have c: "d > intMax mod 10 + (if neg then 1 else 0) \<longleftrightarrow> unat d > 7 + (if neg then 1 else 0)"
    unfolding m by (simp add: word_less_nat_alt)
  show "(r > intMax div 10 \<or> (r = intMax div 10 \<and> d > intMax mod 10 + (if neg then 1 else 0)))
      \<longleftrightarrow> int_bound neg < 10 * unat r + unat d"
    unfolding a b c using assms(2) by (auto simp: int_bound_def)
  assume le: "10 * unat r + unat d \<le> int_bound neg"
  then have lt: "10 * unat r + unat d < 2 ^ 32" by (auto simp: int_bound_def split: if_splits)
  have "unat (10 * r) = 10 * unat r" using lt by (subst unat_mult_lem [THEN iffD1]) simp_all
  then show "unat (10 * r + d) = 10 * unat r + unat d" using lt by (subst unat_add_lem [THEN iffD1]) simp_all
qed

lemma digits_loop_eq:
  assumes "unat r \<le> int_bound neg"
  shows "digits_loop neg r cs =
    (let v = decimal (unat r) (takeWhile isASCIIDigit cs) in
     if int_bound neg < v then Inl (if neg then NegativeOverflow else PositiveOverflow) else Inr (of_nat v))"
  using assms
proof (induction cs arbitrary: r)
  case Nil
  then show ?case by simp
next
  case (Cons c cs)
  let ?d = "ucast (c - 0x30) :: unsigned"
  show ?case
  proof (cases "isASCIIDigit c")
    case False
    then show ?thesis using Cons.prems by simp
  next
    case True
    note d = digit_bounds [OF True]
    have d9: "unat ?d \<le> 9" using d by simp
    note t = overflow_test [OF Cons.prems d9]
    have loop: "digits_loop neg r (c # cs) =
      (if int_bound neg < 10 * unat r + unat ?d then Inl (if neg then NegativeOverflow else PositiveOverflow)
       else digits_loop neg (10 * r + ?d) cs)"
      unfolding t(1) [symmetric] using True by (simp add: Let_def)
    show ?thesis
    proof (cases "int_bound neg < 10 * unat r + unat ?d")
      case over: True
      then have "int_bound neg < decimal (10 * unat r + digit_value c) (takeWhile isASCIIDigit cs)"
        using decimal_ge [of "10 * unat r + digit_value c" "takeWhile isASCIIDigit cs"] d by simp
      then show ?thesis unfolding loop using over True by (simp add: Let_def)
    next
      case False
      then have u: "unat (10 * r + ?d) = 10 * unat r + digit_value c" using t(2) d by simp
      then have "unat (10 * r + ?d) \<le> int_bound neg" using False d by simp
      from Cons.IH [OF this] show ?thesis unfolding loop using False True u by simp
    qed
  qed
qed

text \<open>The rules for parsing integers as one expression over the whole string.\<close>

definition integer_reference :: "uchar list \<Rightarrow> HTMLIntegerParsingError + int" where
  "integer_reference cs =
     (let body = dropWhile isHTMLSpace cs;
          neg = (body \<noteq> [] \<and> hd body = chr_dash);
          signed = (body \<noteq> [] \<and> (hd body = chr_dash \<or> hd body = chr_plus));
          digits = takeWhile isASCIIDigit (if signed then tl body else body);
          v = decimal 0 digits in
      if digits = [] then Inl Other
      else if neg then if v > 2 ^ 31 then Inl NegativeOverflow else Inr (- int v)
      else if v > 2 ^ 31 - 1 then Inl PositiveOverflow else Inr (int v))"

lemma sint_of_bound: "v \<le> 2147483647 \<Longrightarrow> sint (of_nat v :: unsigned) = int v"
  "v \<le> 2147483648 \<Longrightarrow> sint (- (of_nat v :: unsigned)) = - int v"
proof -
  show "sint (of_nat v :: unsigned) = int v" if "v \<le> 2147483647"
    using that by (simp add: signed_of_nat signed_take_bit_int_eq_self_iff signed_take_bit_int_eq_self)
  have "sint (word_of_int (- int v) :: unsigned) = signed_take_bit 31 (- int v)"
    unfolding signed_of_int by simp
  moreover have "signed_take_bit 31 (- int v) = - int v" if "v \<le> 2147483648"
    using that by (intro signed_take_bit_int_eq_self) simp_all
  ultimately show "v \<le> 2147483648 \<Longrightarrow> sint (- (of_nat v :: unsigned)) = - int v" by simp
qed

lemma parse_reference:
  "map_sum id sint (parseHTMLInteger cs) = integer_reference cs"
proof (cases "dropWhile isHTMLSpace cs")
  case Nil
  then show ?thesis by (cases cs) (simp_all add: parseHTMLInteger_def parseHTMLIntegerInternal_def integer_reference_def skipWhile_eq)
next
  case (Cons c rest)
  then have ne: "cs \<noteq> []" by auto
  define neg where "neg = (c = chr_dash)"
  define body where "body = (if c = chr_dash \<or> c = chr_plus then rest else c # rest)"
  define ds where "ds = takeWhile isASCIIDigit body"
  have "parseHTMLInteger cs =
      (case body of [] \<Rightarrow> Inl Other
       | d # _ \<Rightarrow> if \<not> isASCIIDigit d then Inl Other
         else case digits_loop neg 0 body of Inl e \<Rightarrow> Inl e | Inr r \<Rightarrow> Inr (if neg then - r else r))"
    unfolding parseHTMLInteger_def parseHTMLIntegerInternal_def skipWhile_eq Cons list.case Let_def neg_def body_def
    using ne by (simp only: if_False)
  also have "\<dots> = (if ds = [] then Inl Other
      else if int_bound neg < decimal 0 ds then Inl (if neg then NegativeOverflow else PositiveOverflow)
      else Inr (if neg then - of_nat (decimal 0 ds) else of_nat (decimal 0 ds)))"
  proof -
    have loop: "digits_loop neg 0 body = (if int_bound neg < decimal 0 ds
        then Inl (if neg then NegativeOverflow else PositiveOverflow) else Inr (of_nat (decimal 0 ds)))"
      using digits_loop_eq [of 0 neg body] unfolding ds_def by (simp add: Let_def del: digits_loop.simps)
    have "ds = [] \<longleftrightarrow> body = [] \<or> \<not> isASCIIDigit (hd body)" unfolding ds_def by (cases body) auto
    then show ?thesis unfolding loop by (cases body) (simp_all del: decimal_simps)
  qed
  finally have p: "parseHTMLInteger cs = (if ds = [] then Inl Other
      else if int_bound neg < decimal 0 ds then Inl (if neg then NegativeOverflow else PositiveOverflow)
      else Inr (if neg then - of_nat (decimal 0 ds) else of_nat (decimal 0 ds)))" .
  have r: "integer_reference cs = (if ds = [] then Inl Other
      else if int_bound neg < decimal 0 ds then Inl (if neg then NegativeOverflow else PositiveOverflow)
      else Inr (if neg then - int (decimal 0 ds) else int (decimal 0 ds)))"
    using Cons by (simp add: integer_reference_def Let_def neg_def body_def ds_def)
  show ?thesis unfolding p r using sint_of_bound [of "decimal 0 ds"] by (cases neg) auto
qed

section \<open>Lists of numbers\<close>

text \<open>The maximal runs of characters that are not delimiters, from a split at every delimiter.\<close>

fun split_at_delimiters :: "uchar list \<Rightarrow> uchar list list" where
  "split_at_delimiters [] = [[]]"
| "split_at_delimiters (c # cs) =
     (if isHTMLSpaceOrDelimiter c then [] # split_at_delimiters cs
      else (c # hd (split_at_delimiters cs)) # tl (split_at_delimiters cs))"

definition runs :: "uchar list \<Rightarrow> uchar list list" where
  "runs cs = filter (\<lambda>r. r \<noteq> []) (split_at_delimiters cs)"

lemma split_ne: "split_at_delimiters cs \<noteq> []"
  by (cases cs) auto

lemma split_first:
  "split_at_delimiters cs = takeWhile (\<lambda>c. \<not> isHTMLSpaceOrDelimiter c) cs #
     (case dropWhile (\<lambda>c. \<not> isHTMLSpaceOrDelimiter c) cs of [] \<Rightarrow> [] | _ # r \<Rightarrow> split_at_delimiters r)"
  by (induction cs) auto

lemma runs_skip: "runs (dropWhile isHTMLSpaceOrDelimiter cs) = runs cs"
  by (induction cs) (auto simp: runs_def)

lemma runs_cases:
  "runs cs = (let r = takeWhile (\<lambda>c. \<not> isHTMLSpaceOrDelimiter c) cs in
     (if r = [] then [] else [r]) @ runs (dropWhile (\<lambda>c. \<not> isHTMLSpaceOrDelimiter c) cs))"
proof (cases "dropWhile (\<lambda>c. \<not> isHTMLSpaceOrDelimiter c) cs")
  case Nil
  have "split_at_delimiters cs = [takeWhile (\<lambda>c. \<not> isHTMLSpaceOrDelimiter c) cs]"
    using split_first [of cs] unfolding Nil list.case .
  then show ?thesis unfolding Nil Let_def by (simp add: runs_def)
next
  case (Cons c r)
  have c: "isHTMLSpaceOrDelimiter c" using hd_dropWhile [of "\<lambda>c. \<not> isHTMLSpaceOrDelimiter c" cs] Cons by simp
  have "split_at_delimiters cs = takeWhile (\<lambda>c. \<not> isHTMLSpaceOrDelimiter c) cs # split_at_delimiters r"
    using split_first [of cs] unfolding Cons list.case .
  then show ?thesis unfolding Cons Let_def using c by (simp add: runs_def)
qed

definition number_of_run :: "(uchar list \<Rightarrow> 'd \<times> nat) \<Rightarrow> ('d \<Rightarrow> bool) \<Rightarrow> 'd \<Rightarrow> uchar list \<Rightarrow> 'd" where
  "number_of_run parseDouble isfinite zero run =
     (case parseDouble (dropWhile (\<lambda>c. \<not> isNumberStart c) run) of (number, parsedLength) \<Rightarrow>
        if parsedLength > 0 \<and> isfinite number then number else zero)"

lemma garbage_then_run:
  fixes cs defines "n \<equiv> dropWhile (\<lambda>c. \<not> (isHTMLSpaceOrDelimiter c \<or> isNumberStart c)) cs"
  shows "takeWhile (\<lambda>c. \<not> isHTMLSpaceOrDelimiter c) n =
      dropWhile (\<lambda>c. \<not> isNumberStart c) (takeWhile (\<lambda>c. \<not> isHTMLSpaceOrDelimiter c) cs)"
    and "dropWhile (\<lambda>c. \<not> isHTMLSpaceOrDelimiter c) n = dropWhile (\<lambda>c. \<not> isHTMLSpaceOrDelimiter c) cs"
  unfolding n_def by (induction cs) auto

lemma take_run: "take (length n - length (dropWhile P n)) n = takeWhile P n"
  by (metis append_take_drop_id dropWhile_eq_drop length_drop diff_diff_cancel length_takeWhile_le takeWhile_eq_take)

lemma numbers_loop_eq:
  assumes "length cs \<le> fuel" "cs = [] \<or> \<not> isHTMLSpaceOrDelimiter (hd cs)"
  shows "numbers_loop fuel parseDouble isfinite zero cs = Some (map (number_of_run parseDouble isfinite zero) (runs cs))"
  using assms
proof (induction fuel arbitrary: cs)
  case 0
  then show ?case by (simp add: runs_def)
next
  case (Suc fuel)
  show ?case
  proof (cases cs)
    case Nil
    then show ?thesis by (simp add: runs_def)
  next
    case (Cons c cs')
    let ?D = isHTMLSpaceOrDelimiter
    let ?n = "dropWhile (\<lambda>c. \<not> (?D c \<or> isNumberStart c)) cs"
    let ?run = "takeWhile (\<lambda>c. \<not> ?D c) cs" and ?rest = "dropWhile ?D (dropWhile (\<lambda>c. \<not> ?D c) cs)"
    have c: "\<not> ?D c" using Suc.prems Cons by simp
    have "length (dropWhile (\<lambda>c. \<not> ?D c) cs) \<le> length cs'" using c Cons by (simp add: length_dropWhile_le)
    moreover have "length ?rest \<le> length (dropWhile (\<lambda>c. \<not> ?D c) cs)" by (rule length_dropWhile_le)
    ultimately have len: "length ?rest \<le> fuel" using Suc.prems(1) Cons by simp
    have hd: "?rest = [] \<or> \<not> ?D (hd ?rest)" using hd_dropWhile [of ?D "dropWhile (\<lambda>c. \<not> ?D c) cs"] by auto
    have "numbers_loop (Suc fuel) parseDouble isfinite zero cs =
        map_option ((#) (number_of_run parseDouble isfinite zero ?run)) (numbers_loop fuel parseDouble isfinite zero ?rest)"
      unfolding Cons numbers_loop.simps skipWhile_eq take_run Let_def garbage_then_run number_of_run_def
      by (simp split: prod.split)
    also have "\<dots> = Some (map (number_of_run parseDouble isfinite zero) (?run # runs ?rest))"
      by (simp add: Suc.IH [OF len hd])
    also have "?run # runs ?rest = runs cs"
      using runs_cases [of cs] c Cons by (simp add: runs_skip Let_def)
    finally show ?thesis .
  qed
qed

lemma uint_nonneg:
  assumes "0 \<le> sint (v :: unsigned)"
  shows "uint v = sint v" "uint v \<le> 2147483647"
proof -
  have "uint v = uint (word_of_int (sint v) :: unsigned)" by simp
  also have "\<dots> = sint v mod 2 ^ 32" unfolding uint_word_of_int by simp
  finally have "uint v = sint v mod 2 ^ 32" .
  moreover have lt: "sint v < 2147483648" using sint_lt [of v] by simp
  ultimately show "uint v = sint v" using assms by simp
  then show "uint v \<le> 2147483647" using lt by simp
qed

lemma nonNegative_range:
  assumes "parseHTMLNonNegativeInteger cs = Inr v"
  shows "v \<le> maxHTMLNonNegativeInteger"
proof -
  have "0 \<le> sint v" using assms by (auto simp: parseHTMLNonNegativeInteger_def split: sum.splits if_splits)
  then have "uint v \<le> 2147483647" by (rule uint_nonneg)
  then show ?thesis by (simp add: maxHTMLNonNegativeInteger_def word_le_def)
qed

lemma nonNegative_value:
  assumes "integer_reference cs = Inr n" "0 \<le> n"
  shows "\<exists>v. parseHTMLNonNegativeInteger cs = Inr v \<and> uint v = n"
proof -
  obtain v where v: "parseHTMLInteger cs = Inr v" "sint v = n"
    using parse_reference [of cs] assms(1) by (cases "parseHTMLInteger cs") auto
  then show ?thesis using assms(2) uint_nonneg [of v] by (simp add: parseHTMLNonNegativeInteger_def)
qed

section \<open>Refresh directives\<close>

lemma take_digits: "list_all isASCIIDigit ds \<Longrightarrow> \<not> isASCIIDigit c \<Longrightarrow>
    dropWhile isASCIIDigit (ds @ c # rest) = c # rest \<and> takeWhile isASCIIDigit (ds @ c # rest) = ds"
  by (induction ds) auto

lemma digit_not_space: "isASCIIDigit c \<Longrightarrow> \<not> isHTMLSpace c"
  "isASCIIDigit c \<Longrightarrow> c \<noteq> chr_dash \<and> c \<noteq> chr_plus"
  by (auto simp: isASCIIDigit_def isHTMLSpace_def word_le_nat_alt)

lemma digits_reference:
  assumes "list_all isASCIIDigit ds" "ds \<noteq> []" "decimal 0 ds \<le> 2147483647"
  shows "integer_reference ds = Inr (int (decimal 0 ds))"
proof -
  obtain d ds' where d: "ds = d # ds'" using assms(2) by (cases ds) auto
  have "\<not> isHTMLSpace d" "d \<noteq> chr_dash" "d \<noteq> chr_plus" using assms(1) d digit_not_space by auto
  moreover have "takeWhile isASCIIDigit ds = ds" using assms(1) by (simp add: takeWhile_eq_all_conv list_all_iff)
  ultimately show ?thesis using assms(3) d unfolding integer_reference_def by (simp add: Let_def del: decimal_simps)
qed

section \<open>Properties\<close>

text \<open>
  C14. Parsing an integer agrees with the reference, which skips leading spaces, takes one optional sign and
  the longest run of digits, and ignores what follows: the result is the exact value if it fits a 32-bit
  signed integer, the smallest one included; otherwise it is the overflow error of its sign, and without
  digits the other error. No intermediate value wraps around.
\<close>

theorem parseHTMLInteger_correct:
  "map_sum id sint (parseHTMLInteger cs) = integer_reference cs"
  by (rule parse_reference)

text \<open>
  C38. The functions for reflected attributes stay in their ranges. The parsed non-negative integer is at most
  2147483647; the limit to numbers greater than zero gives a number from 1 to that, the limit to
  non-negative numbers one up to that, clamping one between the bounds, and given the conditions on the
  default value that the code asserts, none of their assertions fails.
\<close>

theorem reflected_ranges:
  assumes "mn \<le> dflt" "dflt \<le> mx"
  shows "(case parseHTMLNonNegativeInteger cs of Inr v \<Rightarrow> v \<le> maxHTMLNonNegativeInteger | Inl _ \<Rightarrow> True)
    \<and> (0 < dflt \<and> dflt \<le> maxHTMLNonNegativeInteger \<longrightarrow>
        (case limitToOnlyHTMLNonNegativeNumbersGreaterThanZero_string cs dflt of (v, ok) \<Rightarrow>
           ok \<and> 0 < v \<and> v \<le> maxHTMLNonNegativeInteger))
    \<and> (dflt \<le> maxHTMLNonNegativeInteger \<longrightarrow>
        (case limitToOnlyHTMLNonNegative_string cs dflt of (v, ok) \<Rightarrow> ok \<and> v \<le> maxHTMLNonNegativeInteger))
    \<and> (case clampHTMLNonNegativeIntegerToRange cs mn mx dflt of (v, ok) \<Rightarrow> ok \<and> mn \<le> v \<and> v \<le> mx)"
proof (cases "parseHTMLNonNegativeInteger cs")
  case (Inl e)
  then show ?thesis using assms order_trans [OF assms]
    by (simp add: limitToOnlyHTMLNonNegativeNumbersGreaterThanZero_string_def limitToOnlyHTMLNonNegative_string_def
        clampHTMLNonNegativeIntegerToRange_def)
next
  case (Inr v)
  then show ?thesis using assms nonNegative_range [OF Inr]
    by (auto simp: limitToOnlyHTMLNonNegativeNumbersGreaterThanZero_string_def limitToOnlyHTMLNonNegative_string_def
        clampHTMLNonNegativeIntegerToRange_def word_neq_0_conv min_def max_def)
qed

theorem reflected_ranges_witness:
  "case clampHTMLNonNegativeIntegerToRange (lit ''99999999999'') 1 1000 2 of (v, ok) \<Rightarrow> ok \<and> 1 \<le> v \<and> v \<le> 1000"
  using reflected_ranges [of 1 2 1000 "lit ''99999999999''"] by auto

text \<open>
  Stripping removes exactly the spaces at both ends: the result is the string without its leading and
  without its trailing spaces, the assertion on the two counts holds, a string of spaces becomes empty
  and the null string stays null.
\<close>

theorem strip_correct:
  "stripLeadingAndTrailingHTMLSpaces str =
     (case str of None \<Rightarrow> (None, True) | Some cs \<Rightarrow> (Some (strip_reference cs), True))"
proof (cases str)
  case (Some cs)
  show ?thesis
  proof (cases "list_all isHTMLSpace cs")
    case True
    then have none: "dropWhile isHTMLSpace cs = []" by (simp add: dropWhile_eq_Nil_conv list_all_iff)
    have "strip_reference cs = []" unfolding strip_reference_def none by simp
    moreover have "strip_count cs = length cs" using True by (simp add: strip_count_eq takeWhile_all)
    ultimately show ?thesis using Some
      by (simp add: stripLeadingAndTrailingHTMLSpaces_def stripInternal_def)
  next
    case False
    obtain a b c where s: "cs = a @ b @ c" "list_all isHTMLSpace a" "list_all isHTMLSpace c" "b \<noteq> []"
      "\<not> isHTMLSpace (hd b)" "\<not> isHTMLSpace (last b)" using middle_split [OF False] by blast
    note m = strip_middle [OF s(2-6)]
    have counts: "strip_count cs = length a" "strip_count (rev cs) = length c"
      using m(1,2) unfolding s(1) by (simp_all add: strip_count_eq)
    have "stripInternal cs = (b, True)"
      using s(1,4) unfolding stripInternal_def counts by (auto simp: Let_def substring_def)
    then show ?thesis using Some s(1,4) m(3) by (simp add: stripLeadingAndTrailingHTMLSpaces_def strip_reference_def)
  qed
qed (simp add: stripLeadingAndTrailingHTMLSpaces_def)

text \<open>
  C37. Parsing a list of floating-point numbers ends and gives one number per maximal run of characters
  that are not spaces, commas or semicolons: the number that the conversion reads at the first character
  of the run that can start one, and zero if it reads none or one that is not finite.
\<close>

theorem number_list_correct:
  "parseHTMLListOfOfFloatingPointNumberValues parseDouble isfinite zero cs =
     Some (map (number_of_run parseDouble isfinite zero) (runs cs))"
proof -
  let ?cs = "dropWhile isHTMLSpaceOrDelimiter cs"
  have "length ?cs \<le> length cs" by (rule length_dropWhile_le)
  moreover have "?cs = [] \<or> \<not> isHTMLSpaceOrDelimiter (hd ?cs)" using hd_dropWhile [of isHTMLSpaceOrDelimiter cs] by auto
  ultimately show ?thesis
    unfolding parseHTMLListOfOfFloatingPointNumberValues_def skipWhile_eq by (subst numbers_loop_eq) (auto simp: runs_skip)
qed

text \<open>
  C39. A refresh directive of the usual form, spaces, a number of seconds that fits, a semicolon, spaces and
  \<open>url=\<close> with a quoted address, is parsed into that number and the address up to the closing quote;
  what follows the quote is ignored.
\<close>

theorem refresh_directive_parsed:
  assumes "list_all isHTMLSpace sp" "list_all isHTMLSpace sp'" "list_all isASCIIDigit ds" "ds \<noteq> []"
    and "decimal 0 ds \<le> 2147483647" "q = chr_apos \<or> q = chr_quot" "q \<notin> set url"
  shows "\<exists>time. parseMetaHTTPEquivRefresh (sp @ ds @ chr_semi # sp' @ lit ''url='' @ q # url @ q # rest) = Some (time, Some url)
    \<and> uint time = int (decimal 0 ds)"
proof -
  let ?tail = "sp' @ lit ''url='' @ q # url @ q # rest"
  obtain v where v: "parseHTMLNonNegativeInteger ds = Inr v" "uint v = int (decimal 0 ds)"
    using nonNegative_value [OF digits_reference [OF assms(3-5)]] by auto
  obtain d ds' where d: "ds = d # ds'" using assms(4) by (cases ds) auto
  have nd: "\<not> isHTMLSpace d" using assms(3) d digit_not_space by auto
  have semi: "\<not> isASCIIDigit chr_semi" by (simp add: isASCIIDigit_def)
  have p1: "dropWhile isHTMLSpace (sp @ ds @ chr_semi # ?tail) = ds @ chr_semi # ?tail"
    using dropWhile_append2 [of sp isHTMLSpace "ds @ chr_semi # ?tail"] assms(1) nd d by (simp add: list_all_iff)
  note p2 = take_digits [OF assms(3) semi, of ?tail]
  have p3: "take (length (ds @ chr_semi # ?tail) - length (chr_semi # ?tail)) (ds @ chr_semi # ?tail) = ds" by simp
  have p4: "dropWhile isHTMLSpace ?tail = lit ''url='' @ q # url @ q # rest"
    using dropWhile_append2 [of sp' isHTMLSpace "lit ''url='' @ q # url @ q # rest"] assms(2)
    by (simp add: list_all_iff isHTMLSpace_def)
  have nq: "\<not> isHTMLSpace q" using assms(6) by (auto simp: isHTMLSpace_def)
  have url: "takeWhile (\<lambda>c. c \<noteq> q) (url @ q # rest) = url"
    using assms(7) by (induction url) auto
  have ns: "\<not> isHTMLSpace 0x3B" "\<not> isHTMLSpace 0x75" "\<not> isHTMLSpace 0x3D" by (simp_all add: isHTMLSpace_def)
  have tail: "refresh_tail v (chr_semi # ?tail) = (v, Some url)"
    unfolding refresh_tail_def skipWhile_eq
    using p4 nq url assms(6) ns by (auto simp: Let_def afterUrlEquals_def skipWhile_eq refresh_url_def)
  have "parseMetaHTTPEquivRefresh (sp @ ds @ chr_semi # ?tail) = Some (v, Some url)"
    unfolding parseMetaHTTPEquivRefresh_def parseHTTPRefreshInternal_def skipWhile_eq p1 Let_def
    using p2 v(1) assms(4) semi tail by simp
  then show ?thesis using v(2) by auto
qed

theorem refresh_directive_parsed_witness:
  "\<exists>time. parseMetaHTTPEquivRefresh (lit ''5; url=\"a\"'') = Some (time, Some (lit ''a'')) \<and> uint time = 5"
  using refresh_directive_parsed [of "[]" "[0x20]" "[0x35]" chr_quot "[0x61]" "[]"]
  by (simp add: isHTMLSpace_def isASCIIDigit_def digit_value_def)

end
