(* ===== verification/Dom_Tree.thy ===== *)
theory Dom_Tree
  imports Html_Element_Stack
begin

text \<open>
  The part of the DOM tree construction changes: the links between nodes in
  \<open>Source/WebCore/dom/Node.h\<close> and \<open>ContainerNode.h\<close>, and the operations of
  \<open>Source/WebCore/dom/ContainerNode.cpp\<close> reserved for the parser.

  A document is a store of nodes by identity, each with the five pointers of the source. Assertions,
  release assertions included, are recorded in \<open>dom_asserts\<close>; the notifications of the code are recorded
  as events, so a handler that would run there and change the tree is outside the model. The document a
  node belongs to, renderers and frames are left out.
\<close>

section \<open>The store of nodes\<close>

datatype NodeKind =
    DocumentNode
  | DocumentTypeNode "uchar list" "uchar list" "uchar list"
  | DocumentFragmentNode bool
  | ElementNode QualifiedName "DomAttribute list"
  | TextNode "uchar list"
  | CommentNode "uchar list"

record DomNode =
  nd_kind :: NodeKind
  nd_parentNode :: "nat option"
  nd_previousSibling :: "nat option"
  nd_nextSibling :: "nat option"
  nd_firstChild :: "nat option"
  nd_lastChild :: "nat option"
  nd_content :: "nat option"

datatype dom_event = ChildInserted nat nat | ChildRemoved nat nat | NodeCall node_event

text \<open>The identities below \<open>dom_next\<close> are in use.\<close>

record Dom =
  dom_node :: "nat \<Rightarrow> DomNode"
  dom_next :: nat
  dom_asserts :: bool
  dom_events :: "dom_event list"

definition dom_assert :: "bool \<Rightarrow> Dom \<Rightarrow> Dom" where
  "dom_assert b d = d\<lparr>dom_asserts := dom_asserts d \<and> b\<rparr>"

definition dom_call :: "dom_event \<Rightarrow> Dom \<Rightarrow> Dom" where
  "dom_call e d = d\<lparr>dom_events := dom_events d @ [e]\<rparr>"

definition updNode :: "nat \<Rightarrow> (DomNode \<Rightarrow> DomNode) \<Rightarrow> Dom \<Rightarrow> Dom" where
  "updNode x f d = d\<lparr>dom_node := (dom_node d)(x := f (dom_node d x))\<rparr>"

definition blankNode :: "NodeKind \<Rightarrow> DomNode" where
  "blankNode kind = \<lparr>nd_kind = kind, nd_parentNode = None, nd_previousSibling = None, nd_nextSibling = None,
     nd_firstChild = None, nd_lastChild = None, nd_content = None\<rparr>"

definition newNode :: "NodeKind \<Rightarrow> Dom \<Rightarrow> nat \<times> Dom" where
  "newNode kind d =
     (dom_next d, d\<lparr>dom_node := (dom_node d)(dom_next d := blankNode kind), dom_next := Suc (dom_next d)\<rparr>)"

abbreviation parentNode :: "Dom \<Rightarrow> nat \<Rightarrow> nat option" where
  "parentNode d x \<equiv> nd_parentNode (dom_node d x)"

abbreviation previousSibling :: "Dom \<Rightarrow> nat \<Rightarrow> nat option" where
  "previousSibling d x \<equiv> nd_previousSibling (dom_node d x)"

abbreviation nextSibling :: "Dom \<Rightarrow> nat \<Rightarrow> nat option" where
  "nextSibling d x \<equiv> nd_nextSibling (dom_node d x)"

abbreviation firstChild :: "Dom \<Rightarrow> nat \<Rightarrow> nat option" where
  "firstChild d x \<equiv> nd_firstChild (dom_node d x)"

abbreviation lastChild :: "Dom \<Rightarrow> nat \<Rightarrow> nat option" where
  "lastChild d x \<equiv> nd_lastChild (dom_node d x)"

abbreviation setParentNode :: "nat \<Rightarrow> nat option \<Rightarrow> Dom \<Rightarrow> Dom" where
  "setParentNode x p \<equiv> updNode x (nd_parentNode_update (\<lambda>_. p))"

abbreviation setPreviousSibling :: "nat \<Rightarrow> nat option \<Rightarrow> Dom \<Rightarrow> Dom" where
  "setPreviousSibling x p \<equiv> updNode x (nd_previousSibling_update (\<lambda>_. p))"

abbreviation setNextSibling :: "nat \<Rightarrow> nat option \<Rightarrow> Dom \<Rightarrow> Dom" where
  "setNextSibling x p \<equiv> updNode x (nd_nextSibling_update (\<lambda>_. p))"

abbreviation setFirstChild :: "nat \<Rightarrow> nat option \<Rightarrow> Dom \<Rightarrow> Dom" where
  "setFirstChild x p \<equiv> updNode x (nd_firstChild_update (\<lambda>_. p))"

abbreviation setLastChild :: "nat \<Rightarrow> nat option \<Rightarrow> Dom \<Rightarrow> Dom" where
  "setLastChild x p \<equiv> updNode x (nd_lastChild_update (\<lambda>_. p))"

fun kindTag :: "NodeKind \<Rightarrow> QualifiedName option" where
  "kindTag (ElementNode name attributes) = Some name"
| "kindTag _ = None"

fun isFragmentKind :: "NodeKind \<Rightarrow> bool" where
  "isFragmentKind (DocumentFragmentNode templateContent) = True"
| "isFragmentKind _ = False"

definition nodeTag :: "Dom \<Rightarrow> nat \<Rightarrow> QualifiedName option" where
  "nodeTag d x = kindTag (nd_kind (dom_node d x))"

definition isFragment :: "Dom \<Rightarrow> nat \<Rightarrow> bool" where
  "isFragment d x = isFragmentKind (nd_kind (dom_node d x))"

definition templateTag :: QualifiedName where
  "templateTag = htmlName (lit ''template'')"

section \<open>Linking and unlinking\<close>

definition insertBeforeCommon :: "nat \<Rightarrow> nat \<Rightarrow> nat \<Rightarrow> Dom \<Rightarrow> Dom" where
  "insertBeforeCommon this nextChild newChild d0 =
     (let d1 = dom_assert (parentNode d0 newChild = None \<and> nextSibling d0 newChild = None
                 \<and> previousSibling d0 newChild = None) d0;
          prev = previousSibling d1 nextChild;
          d2 = dom_assert (lastChild d1 this \<noteq> prev) d1;
          d3 = setPreviousSibling nextChild (Some newChild) d2;
          d4 = (case prev of
                  Some p \<Rightarrow>
                    setNextSibling p (Some newChild)
                      (dom_assert (firstChild d3 this \<noteq> Some nextChild \<and> nextSibling d3 p = Some nextChild) d3)
                | None \<Rightarrow>
                    setFirstChild this (Some newChild) (dom_assert (firstChild d3 this = Some nextChild) d3)) in
      setNextSibling newChild (Some nextChild)
        (setPreviousSibling newChild prev (setParentNode newChild (Some this) d4)))"

definition appendChildCommon :: "nat \<Rightarrow> nat \<Rightarrow> Dom \<Rightarrow> Dom" where
  "appendChildCommon this child d0 =
     (let d1 = setParentNode child (Some this) d0;
          d2 = (case lastChild d1 this of
                  Some l \<Rightarrow> setNextSibling l (Some child) (setPreviousSibling child (Some l) d1)
                | None \<Rightarrow> setFirstChild this (Some child) d1) in
      setLastChild this (Some child) d2)"

definition removeBetween :: "nat \<Rightarrow> nat option \<Rightarrow> nat option \<Rightarrow> nat \<Rightarrow> Dom \<Rightarrow> Dom" where
  "removeBetween this previousChild nextChild oldChild d0 =
     (let d1 = dom_assert (parentNode d0 oldChild = Some this) d0;
          d2 = (case nextChild of
                  Some n \<Rightarrow> setNextSibling oldChild None (setPreviousSibling n previousChild d1)
                | None \<Rightarrow>
                    setLastChild this previousChild (dom_assert (lastChild d1 this = Some oldChild) d1));
          d3 = (case previousChild of
                  Some p \<Rightarrow> setPreviousSibling oldChild None (setNextSibling p nextChild d2)
                | None \<Rightarrow>
                    setFirstChild this nextChild (dom_assert (firstChild d2 this = Some oldChild) d2));
          d4 = dom_assert (firstChild d3 this \<noteq> Some oldChild \<and> lastChild d3 this \<noteq> Some oldChild
                 \<and> previousSibling d3 oldChild = None \<and> nextSibling d3 oldChild = None) d3 in
      setParentNode oldChild None d4)"

section \<open>The operations of the parser\<close>

definition parserInsertBefore :: "nat \<Rightarrow> nat \<Rightarrow> nat \<Rightarrow> Dom \<Rightarrow> Dom" where
  "parserInsertBefore this newChild nextChild d0 =
     (let d = dom_assert (parentNode d0 nextChild = Some this \<and> \<not> isFragment d0 newChild
                \<and> nodeTag d0 this \<noteq> Some templateTag) d0 in
      if previousSibling d nextChild = Some newChild \<or> nextChild = newChild then d
      else dom_call (ChildInserted this newChild) (insertBeforeCommon this nextChild newChild d))"

definition parserAppendChild :: "nat \<Rightarrow> nat \<Rightarrow> Dom \<Rightarrow> Dom" where
  "parserAppendChild this newChild d =
     dom_call (ChildInserted this newChild)
       (appendChildCommon this newChild
         (dom_assert (parentNode d newChild = None \<and> \<not> isFragment d newChild
            \<and> nodeTag d this \<noteq> Some templateTag) d))"

definition parserRemoveChild :: "nat \<Rightarrow> nat \<Rightarrow> Dom \<Rightarrow> Dom" where
  "parserRemoveChild this oldChild d =
     (if parentNode d oldChild \<noteq> Some this then d
      else dom_call (ChildRemoved this oldChild)
        (removeBetween this (previousSibling d oldChild) (nextSibling d oldChild) oldChild
          (dom_assert (\<not> isFragment d oldChild) d)))"

text \<open>
  The two loops of \<open>takeAllChildrenFrom\<close> follow links of the tree; \<open>None\<close> is a loop that does not end.
\<close>

partial_function (option) getChildNodes_loop :: "Dom \<Rightarrow> nat option \<Rightarrow> nat list option" where
  "getChildNodes_loop d child =
     (case child of
        None \<Rightarrow> Some []
      | Some c \<Rightarrow> Option.bind (getChildNodes_loop d (nextSibling d c)) (\<lambda>cs. Some (c # cs)))"

definition getChildNodes :: "Dom \<Rightarrow> nat \<Rightarrow> nat list option" where
  "getChildNodes d this = getChildNodes_loop d (firstChild d this)"

partial_function (option) removeChildren_loop :: "nat \<Rightarrow> Dom \<Rightarrow> Dom option" where
  "removeChildren_loop oldParent d =
     (case firstChild d oldParent of
        None \<Rightarrow> Some d
      | Some child \<Rightarrow>
          removeChildren_loop oldParent
            (dom_call (ChildRemoved oldParent child)
              (removeBetween oldParent None (nextSibling d child) child d)))"

fun appendChildren_loop :: "nat \<Rightarrow> nat list \<Rightarrow> Dom \<Rightarrow> Dom" where
  "appendChildren_loop this [] d = d"
| "appendChildren_loop this (child # children) d =
     appendChildren_loop this children
       (parserAppendChild this child (dom_assert (parentNode d child = None) d))"

definition takeAllChildrenFrom :: "nat \<Rightarrow> nat \<Rightarrow> Dom \<Rightarrow> Dom option" where
  "takeAllChildrenFrom this oldParent d =
     Option.bind (getChildNodes d oldParent) (\<lambda>children.
       Option.bind (removeChildren_loop oldParent d) (\<lambda>d'.
         Some (appendChildren_loop this children d')))"

section \<open>Template contents\<close>

text \<open>\<open>HTMLTemplateElement::content\<close> makes the fragment when it is asked for first.\<close>

definition templateContent :: "nat \<Rightarrow> Dom \<Rightarrow> nat \<times> Dom" where
  "templateContent x d =
     (case nd_content (dom_node d x) of
        Some content \<Rightarrow> (content, d)
      | None \<Rightarrow>
          (case newNode (DocumentFragmentNode True) d of
             (content, d') \<Rightarrow> (content, updNode x (nd_content_update (\<lambda>_. Some content)) d')))"

end
