(* ===== verification/Html_Construction_Site.thy ===== *)
theory Html_Construction_Site
  imports Dom_Tree Html_Formatting_List Html_Parser_Idioms "HOL-Library.Monad_Syntax"
begin

text \<open>
  The construction site, \<open>Source/WebCore/html/parser/HTMLConstructionSite.{h,cpp}\<close>: creating elements,
  queueing and executing the changes of the tree, foster parenting, reconstruction of the formatting
  elements, and what a DOCTYPE says about the compatibility mode.

  An operation that follows a null pointer has the value \<open>None\<close>. What the site asks of code that is
  generated by the build, of the classes of the elements and of the Unicode library is an argument,
  the record \<open>ElementEnvironment\<close>. The document a node belongs to, form owners and the running of
  scripts take no part.
\<close>

section \<open>The environment\<close>

record ElementEnvironment =
  createKnownElement :: "AtomicString \<Rightarrow> QualifiedName option"
  findInterface :: "AtomicString \<Rightarrow> bool"
  isURLAttribute :: "QualifiedName \<Rightarrow> DomAttribute \<Rightarrow> bool"
  isHTMLContentAttribute :: "QualifiedName \<Rightarrow> DomAttribute \<Rightarrow> bool"
  u_foldCase :: "uchar \<Rightarrow> uchar"
  ubrk_isBoundary :: "uchar list \<Rightarrow> unsigned \<Rightarrow> bool"
  ubrk_preceding :: "uchar list \<Rightarrow> unsigned \<Rightarrow> unsigned"

section \<open>What may run scripts\<close>

datatype ParserContentPolicy =
    DisallowScriptingAndPluginContent
  | DisallowScriptingContent
  | AllowScriptingContent
  | AllowScriptingContentAndDoNotMarkAlreadyStarted

definition scriptingContentIsAllowed :: "ParserContentPolicy \<Rightarrow> bool" where
  "scriptingContentIsAllowed parserContentPolicy \<longleftrightarrow>
     parserContentPolicy = AllowScriptingContent
     \<or> parserContentPolicy = AllowScriptingContentAndDoNotMarkAlreadyStarted"

definition pluginContentIsAllowed :: "ParserContentPolicy \<Rightarrow> bool" where
  "pluginContentIsAllowed parserContentPolicy \<longleftrightarrow> parserContentPolicy \<noteq> DisallowScriptingAndPluginContent"

text \<open>\<open>protocolIsInternal\<close>: the subscript of a string is null past its end, which ends the loop.\<close>

definition shouldTrimFromURL :: "uchar \<Rightarrow> bool" where
  "shouldTrimFromURL c \<longleftrightarrow> c \<le> chr_space"

definition isTabNewline :: "uchar \<Rightarrow> bool" where
  "isTabNewline c \<longleftrightarrow> c = chr_tab \<or> c = chr_lf \<or> c = chr_cr"

fun protocolIsInternal_loop :: "uchar list \<Rightarrow> uchar list \<Rightarrow> bool \<Rightarrow> bool" where
  "protocolIsInternal_loop [] protocol isLeading = False"
| "protocolIsInternal_loop (c # url) protocol isLeading =
     (if c = chr_nul then False
      else if isLeading \<and> shouldTrimFromURL c then protocolIsInternal_loop url protocol isLeading
      else if isTabNewline c then protocolIsInternal_loop url protocol False
      else case protocol of
             [] \<Rightarrow> c = 0x3A
           | p # protocol' \<Rightarrow>
               if \<not> isASCIIAlphaCaselessEqual c p then False
               else protocolIsInternal_loop url protocol' False)"

definition protocolIsJavaScript :: "uchar list \<Rightarrow> bool" where
  "protocolIsJavaScript url = protocolIsInternal_loop url (lit ''javascript'') True"

definition isEventHandlerAttribute :: "DomAttribute \<Rightarrow> bool" where
  "isEventHandlerAttribute attribute \<longleftrightarrow>
     qn_namespaceURI (da_name attribute) = None \<and> take 2 (qn_localName (da_name attribute)) = lit ''on''"

definition isJavaScriptURLAttribute :: "ElementEnvironment \<Rightarrow> QualifiedName \<Rightarrow> DomAttribute \<Rightarrow> bool" where
  "isJavaScriptURLAttribute env element attribute \<longleftrightarrow>
     isURLAttribute env element attribute
     \<and> (case stripLeadingAndTrailingHTMLSpaces (Some (da_value attribute)) of
          (Some value, _) \<Rightarrow> protocolIsJavaScript value
        | (None, _) \<Rightarrow> False)"

definition stripScriptingAttributes ::
    "ElementEnvironment \<Rightarrow> QualifiedName \<Rightarrow> DomAttribute list \<Rightarrow> DomAttribute list" where
  "stripScriptingAttributes env element attributeVector =
     filter (\<lambda>attribute. \<not> (isEventHandlerAttribute attribute
        \<or> isJavaScriptURLAttribute env element attribute
        \<or> isHTMLContentAttribute env element attribute)) attributeVector"

definition setAttributes ::
    "ElementEnvironment \<Rightarrow> QualifiedName \<Rightarrow> DomAttribute list \<Rightarrow> ParserContentPolicy \<Rightarrow> DomAttribute list" where
  "setAttributes env element attributes parserContentPolicy =
     (if \<not> scriptingContentIsAllowed parserContentPolicy
      then stripScriptingAttributes env element attributes else attributes)"

definition scriptTag :: QualifiedName where "scriptTag = htmlName (lit ''script'')"
definition styleTag :: QualifiedName where "styleTag = htmlName (lit ''style'')"
definition svgScriptTag :: QualifiedName where "svgScriptTag = svgName (lit ''script'')"

definition isScriptElement :: "QualifiedName option \<Rightarrow> bool" where
  "isScriptElement tag \<longleftrightarrow> tag = Some scriptTag \<or> tag = Some svgScriptTag"

definition isPluginElement :: "QualifiedName option \<Rightarrow> bool" where
  "isPluginElement tag \<longleftrightarrow> tag = Some (htmlName (lit ''applet'')) \<or> tag = Some (htmlName (lit ''embed''))
     \<or> tag = Some (htmlName (lit ''object''))"

section \<open>Kinds of items\<close>

definition hasImpliedEndTag :: "HTMLStackItem \<Rightarrow> bool" where
  "hasImpliedEndTag item \<longleftrightarrow>
     hasTagName (htmlName (lit ''dd'')) item
     \<or> hasTagName (htmlName (lit ''dt'')) item
     \<or> hasTagName (htmlName (lit ''li'')) item
     \<or> nodeHasTag (htmlName (lit ''option'')) item
     \<or> nodeHasTag (htmlName (lit ''optgroup'')) item
     \<or> hasTagName (htmlName (lit ''p'')) item
     \<or> hasTagName (htmlName (lit ''rb'')) item
     \<or> hasTagName (htmlName (lit ''rp'')) item
     \<or> hasTagName (htmlName (lit ''rt'')) item
     \<or> hasTagName (htmlName (lit ''rtc'')) item"

definition shouldUseLengthLimit :: "QualifiedName option \<Rightarrow> bool" where
  "shouldUseLengthLimit tag \<longleftrightarrow> tag \<noteq> Some scriptTag \<and> tag \<noteq> Some styleTag \<and> tag \<noteq> Some svgScriptTag"

definition causesFosterParenting :: "HTMLStackItem \<Rightarrow> bool" where
  "causesFosterParenting item \<longleftrightarrow>
     hasTagName (htmlName (lit ''table'')) item
     \<or> hasTagName (htmlName (lit ''tbody'')) item
     \<or> hasTagName (htmlName (lit ''tfoot'')) item
     \<or> hasTagName (htmlName (lit ''thead'')) item
     \<or> hasTagName (htmlName (lit ''tr'')) item"

definition isNonAnchorNonNobrFormattingTag :: "AtomicString \<Rightarrow> bool" where
  "isNonAnchorNonNobrFormattingTag tagName \<longleftrightarrow>
     tagName \<in> set (map lit [''b'', ''big'', ''code'', ''em'', ''font'', ''i'', ''s'', ''small'', ''strike'',
       ''strong'', ''tt'', ''u''])"

definition isNonAnchorFormattingTag :: "AtomicString \<Rightarrow> bool" where
  "isNonAnchorFormattingTag tagName \<longleftrightarrow> tagName = lit ''nobr'' \<or> isNonAnchorNonNobrFormattingTag tagName"

definition isFormattingTag :: "AtomicString \<Rightarrow> bool" where
  "isFormattingTag tagName \<longleftrightarrow> tagName = lit ''a'' \<or> isNonAnchorFormattingTag tagName"

section \<open>Tasks\<close>

datatype Operation = Insert | InsertAlreadyParsedChild | Reparent | TakeAllChildrenAndReparent

record HTMLConstructionSiteTask =
  task_operation :: Operation
  task_parent :: "nat option"
  task_nextChild :: "nat option"
  task_child :: nat
  task_selfClosing :: bool

definition task_new :: "Operation \<Rightarrow> nat \<Rightarrow> HTMLConstructionSiteTask" where
  "task_new op child = \<lparr>task_operation = op, task_parent = None, task_nextChild = None, task_child = child,
     task_selfClosing = False\<rparr>"

definition insert_task :: "HTMLConstructionSiteTask \<Rightarrow> Dom \<Rightarrow> Dom option" where
  "insert_task task d =
     do { parent \<leftarrow> task_parent task;
          let (parent', nextChild, d1) =
            (if nodeTag d parent = Some templateTag
             then (case templateContent parent d of (content, d') \<Rightarrow> (content, None, d'))
             else (parent, task_nextChild task, d));
          let d2 = dom_assert (parentNode d1 (task_child task) = None) d1;
          case nextChild of
            Some n \<Rightarrow> Some (parserInsertBefore parent' (task_child task) n d2)
          | None \<Rightarrow> Some (parserAppendChild parent' (task_child task) d2) }"

definition executeInsertTask :: "HTMLConstructionSiteTask \<Rightarrow> Dom \<Rightarrow> Dom option" where
  "executeInsertTask task d =
     do { d1 \<leftarrow> insert_task task (dom_assert (task_operation task = Insert) d);
          let d2 = dom_call (NodeCall (BeginParsingChildren (task_child task))) d1;
          Some (if task_selfClosing task
                then dom_call (NodeCall (FinishParsingChildren (task_child task))) d2 else d2) }"

definition removeFromParent :: "nat \<Rightarrow> Dom \<Rightarrow> Dom" where
  "removeFromParent child d =
     (case parentNode d child of Some parent \<Rightarrow> parserRemoveChild parent child d | None \<Rightarrow> d)"

definition executeReparentTask :: "HTMLConstructionSiteTask \<Rightarrow> Dom \<Rightarrow> Dom option" where
  "executeReparentTask task d0 =
     (let d1 = dom_assert (task_operation task = Reparent \<and> task_nextChild task = None) d0;
          d2 = removeFromParent (task_child task) d1 in
      if parentNode d2 (task_child task) \<noteq> None then Some d2
      else do { parent \<leftarrow> task_parent task; Some (parserAppendChild parent (task_child task) d2) })"

definition executeInsertAlreadyParsedChildTask :: "HTMLConstructionSiteTask \<Rightarrow> Dom \<Rightarrow> Dom option" where
  "executeInsertAlreadyParsedChildTask task d0 =
     (let d1 = dom_assert (task_operation task = InsertAlreadyParsedChild) d0;
          d2 = removeFromParent (task_child task) d1 in
      if parentNode d2 (task_child task) \<noteq> None then Some d2
      else if (case task_nextChild task of
                 Some n \<Rightarrow> parentNode d2 n \<noteq> task_parent task
               | None \<Rightarrow> False) then Some d2
      else insert_task task d2)"

definition executeTakeAllChildrenAndReparentTask :: "HTMLConstructionSiteTask \<Rightarrow> Dom \<Rightarrow> Dom option" where
  "executeTakeAllChildrenAndReparentTask task d0 =
     (let d1 = dom_assert (task_operation task = TakeAllChildrenAndReparent \<and> task_nextChild task = None) d0;
          furthestBlock = task_child task in
      do { parent \<leftarrow> task_parent task;
           d2 \<leftarrow> takeAllChildrenFrom parent furthestBlock d1;
           Some (parserAppendChild furthestBlock parent (dom_assert (parentNode d2 parent = None) d2)) })"

definition executeTask :: "HTMLConstructionSiteTask \<Rightarrow> Dom \<Rightarrow> Dom option" where
  "executeTask task d =
     (case task_operation task of
        Insert \<Rightarrow> executeInsertTask task d
      | InsertAlreadyParsedChild \<Rightarrow> executeInsertAlreadyParsedChildTask task d
      | Reparent \<Rightarrow> executeReparentTask task d
      | TakeAllChildrenAndReparent \<Rightarrow> executeTakeAllChildrenAndReparentTask task d)"

fun executeTasks :: "HTMLConstructionSiteTask list \<Rightarrow> Dom \<Rightarrow> Dom option" where
  "executeTasks [] d = Some d"
| "executeTasks (task # queue) d = do { d' \<leftarrow> executeTask task d; executeTasks queue d' }"

section \<open>The site\<close>

datatype DocumentCompatibilityMode = NoQuirksMode | QuirksMode | LimitedQuirksMode

text \<open>
  Of the document, the compatibility mode, whether it is locked, and whether it is a \<open>srcdoc\<close> document
  take part.
\<close>

record HTMLConstructionSite =
  cs_dom :: Dom
  m_attachmentRoot :: nat
  m_head :: "HTMLStackItem option"
  m_form :: "nat option"
  m_openElements :: HTMLElementStack
  m_activeFormattingElements :: HTMLFormattingElementList
  m_taskQueue :: "HTMLConstructionSiteTask list"
  m_parserContentPolicy :: ParserContentPolicy
  m_isParsingFragment :: bool
  m_redirectAttachToFosterParent :: bool
  m_maximumDOMTreeDepth :: unsigned
  m_inQuirksMode :: bool
  doc_compatibilityMode :: DocumentCompatibilityMode
  doc_compatibilityModeLocked :: bool
  doc_isSrcdocDocument :: bool
  cs_asserts :: bool

definition HTMLConstructionSite_new ::
    "Dom \<Rightarrow> nat \<Rightarrow> bool \<Rightarrow> ParserContentPolicy \<Rightarrow> unsigned \<Rightarrow> DocumentCompatibilityMode \<Rightarrow> bool \<Rightarrow> bool \<Rightarrow>
     HTMLConstructionSite" where
  "HTMLConstructionSite_new d root isFragmentSite policy maximumDOMTreeDepth mode locked srcdoc =
     \<lparr>cs_dom = d, m_attachmentRoot = root, m_head = None, m_form = None,
      m_openElements = HTMLElementStack_new, m_activeFormattingElements = HTMLFormattingElementList_new,
      m_taskQueue = [], m_parserContentPolicy = policy, m_isParsingFragment = isFragmentSite,
      m_redirectAttachToFosterParent = False, m_maximumDOMTreeDepth = maximumDOMTreeDepth,
      m_inQuirksMode = (mode = QuirksMode), doc_compatibilityMode = mode, doc_compatibilityModeLocked = locked,
      doc_isSrcdocDocument = srcdoc,
      cs_asserts = True\<rparr>"

definition cs_assert :: "bool \<Rightarrow> HTMLConstructionSite \<Rightarrow> HTMLConstructionSite" where
  "cs_assert b s = s\<lparr>cs_asserts := cs_asserts s \<and> b\<rparr>"

definition currentStackItem :: "HTMLConstructionSite \<Rightarrow> HTMLStackItem option" where
  "currentStackItem s = (case m_top (m_openElements s) of [] \<Rightarrow> None | item # _ \<Rightarrow> Some item)"

definition currentNode :: "HTMLConstructionSite \<Rightarrow> ContainerNode option" where
  "currentNode s = map_option si_node (currentStackItem s)"

definition currentIsRootNode :: "HTMLConstructionSite \<Rightarrow> bool option" where
  "currentIsRootNode s =
     do { node \<leftarrow> currentNode s; root \<leftarrow> m_rootNode (m_openElements s); Some (node_id node = root) }"

definition site_isEmpty :: "HTMLConstructionSite \<Rightarrow> bool" where
  "site_isEmpty s \<longleftrightarrow> m_stackDepth (m_openElements s) = 0"

definition withStack :: "(HTMLElementStack \<Rightarrow> HTMLElementStack) \<Rightarrow> HTMLConstructionSite \<Rightarrow> HTMLConstructionSite" where
  "withStack f s = s\<lparr>m_openElements := f (m_openElements s)\<rparr>"

definition withStackOpt ::
    "(HTMLElementStack \<Rightarrow> HTMLElementStack option) \<Rightarrow> HTMLConstructionSite \<Rightarrow> HTMLConstructionSite option" where
  "withStackOpt f s = map_option (\<lambda>st. s\<lparr>m_openElements := st\<rparr>) (f (m_openElements s))"

definition withList ::
    "(HTMLFormattingElementList \<Rightarrow> HTMLFormattingElementList) \<Rightarrow> HTMLConstructionSite \<Rightarrow> HTMLConstructionSite" where
  "withList f s = s\<lparr>m_activeFormattingElements := f (m_activeFormattingElements s)\<rparr>"

definition setForm :: "nat option \<Rightarrow> HTMLConstructionSite \<Rightarrow> HTMLConstructionSite" where
  "setForm form s = (cs_assert (m_form s = None) s)\<lparr>m_form := form\<rparr>"

definition takeForm :: "HTMLConstructionSite \<Rightarrow> nat option \<times> HTMLConstructionSite" where
  "takeForm s = (m_form s, s\<lparr>m_form := None\<rparr>)"

definition executeQueuedTasks :: "HTMLConstructionSite \<Rightarrow> HTMLConstructionSite option" where
  "executeQueuedTasks s =
     (if m_taskQueue s = [] then Some s
      else do { d \<leftarrow> executeTasks (m_taskQueue s) (cs_dom s);
                Some (s\<lparr>cs_dom := d, m_taskQueue := []\<rparr>) })"

definition appendTask :: "HTMLConstructionSiteTask \<Rightarrow> HTMLConstructionSite \<Rightarrow> HTMLConstructionSite" where
  "appendTask task s = s\<lparr>m_taskQueue := m_taskQueue s @ [task]\<rparr>"

subsection \<open>Where a node goes\<close>

text \<open>A scope query that reaches its final assertion returns false.\<close>

definition scope_answer :: "bool option \<Rightarrow> bool" where
  "scope_answer r \<longleftrightarrow> r = Some True"

fun isTemplateContentKind :: "NodeKind \<Rightarrow> bool" where
  "isTemplateContentKind (DocumentFragmentNode isTemplateContent) = isTemplateContent"
| "isTemplateContentKind _ = False"

definition parentCanBeFosterParent :: "HTMLConstructionSite \<Rightarrow> nat option \<Rightarrow> bool" where
  "parentCanBeFosterParent s parent \<longleftrightarrow>
     (case parent of
        None \<Rightarrow> False
      | Some p \<Rightarrow>
          nodeTag (cs_dom s) p \<noteq> None \<or> m_isParsingFragment s \<and> parent = m_rootNode (m_openElements s)
          \<or> isTemplateContentKind (nd_kind (dom_node (cs_dom s) p)))"

text \<open>The parent and the next sibling of the foster site; reading an element downcasts and asserts.\<close>

definition findFosterTable :: "HTMLConstructionSite \<Rightarrow> ((nat \<times> nat option) \<times> HTMLConstructionSite) option" where
  "findFosterTable s =
     (let items = m_top (m_openElements s) in
      case topmost (lit ''table'') (m_openElements s) of
        Some i \<Rightarrow>
          (let s1 = cs_assert (isElementNode (items ! i)) s;
               lastTableElement = item_id (items ! i);
               parent = parentNode (cs_dom s) lastTableElement in
           case parent of
             Some p \<Rightarrow>
               if parentCanBeFosterParent s parent then Some ((p, Some lastTableElement), s1)
               else if i + 1 < length items
               then Some ((item_id (items ! (i + 1)), None), cs_assert (isElementNode (items ! (i + 1))) s1)
               else None
           | None \<Rightarrow>
               if i + 1 < length items
               then Some ((item_id (items ! (i + 1)), None), cs_assert (isElementNode (items ! (i + 1))) s1)
               else None)
      | None \<Rightarrow> do { root \<leftarrow> m_rootNode (m_openElements s); Some ((root, None), s) })"

definition findFosterSite :: "HTMLConstructionSite \<Rightarrow> ((nat \<times> nat option) \<times> HTMLConstructionSite) option" where
  "findFosterSite s =
     (let st = m_openElements s in
      case topmost (lit ''template'') st of
        Some i \<Rightarrow>
          (let s1 = cs_assert (inTableScope (lit ''table'') st \<noteq> None) s in
           if \<not> scope_answer (inTableScope (lit ''table'') st)
           then Some ((item_id (m_top st ! i), None), cs_assert (isElementNode (m_top st ! i)) s1)
           else findFosterTable s1)
      | None \<Rightarrow> findFosterTable s)"

definition shouldFosterParent :: "HTMLConstructionSite \<Rightarrow> bool option" where
  "shouldFosterParent s =
     (if m_redirectAttachToFosterParent s then map_option causesFosterParenting (currentStackItem s)
      else Some False)"

definition fosterParent :: "nat \<Rightarrow> HTMLConstructionSite \<Rightarrow> HTMLConstructionSite option" where
  "fosterParent node s =
     do { ((parent, nextChild), s1) \<leftarrow> findFosterSite s;
          Some (appendTask ((task_new Insert node)\<lparr>task_parent := Some parent, task_nextChild := nextChild\<rparr>) s1) }"

definition attachLater :: "nat \<Rightarrow> nat \<Rightarrow> bool \<Rightarrow> HTMLConstructionSite \<Rightarrow> HTMLConstructionSite option" where
  "attachLater parent child selfClosing s0 =
     (let tag = nodeTag (cs_dom s0) child;
          s = cs_assert ((scriptingContentIsAllowed (m_parserContentPolicy s0) \<or> \<not> isScriptElement tag)
                \<and> (pluginContentIsAllowed (m_parserContentPolicy s0) \<or> \<not> isPluginElement tag)) s0 in
      do { foster \<leftarrow> shouldFosterParent s;
           if foster then fosterParent child s
           else
             let task = (task_new Insert child)\<lparr>task_parent := Some parent, task_selfClosing := selfClosing\<rparr> in
             Some (appendTask
               (if m_stackDepth (m_openElements s) > m_maximumDOMTreeDepth s \<and> parentNode (cs_dom s) parent \<noteq> None
                then task\<lparr>task_parent := parentNode (cs_dom s) parent\<rparr> else task) s) })"

subsection \<open>Creating elements\<close>

text \<open>Asking for the owner document of the contents of a template makes these contents.\<close>

definition ownerDocumentForCurrentNode :: "HTMLConstructionSite \<Rightarrow> HTMLConstructionSite option" where
  "ownerDocumentForCurrentNode s =
     do { node \<leftarrow> currentNode s;
          Some (if node_tag node = Some templateTag
                then s\<lparr>cs_dom := snd (templateContent (node_id node) (cs_dom s))\<rparr> else s) }"

text \<open>
  A new element with the attributes of a token, from which the attributes that may run a script are
  gone afterwards.
\<close>

definition elementForToken ::
    "ElementEnvironment \<Rightarrow> QualifiedName \<Rightarrow> AtomicHTMLToken \<Rightarrow> HTMLConstructionSite \<Rightarrow>
     ContainerNode \<times> AtomicHTMLToken \<times> HTMLConstructionSite" where
  "elementForToken env tag token s =
     (let attributes = setAttributes env tag (at_attributes token) (m_parserContentPolicy s) in
      case newNode (ElementNode tag attributes) (cs_dom s) of
        (x, d) \<Rightarrow>
          (\<lparr>node_id = x, node_tag = Some tag\<rparr>, token\<lparr>at_attributes := attributes\<rparr>, s\<lparr>cs_dom := d\<rparr>))"

definition createElement ::
    "ElementEnvironment \<Rightarrow> AtomicHTMLToken \<Rightarrow> AtomicString \<Rightarrow> HTMLConstructionSite \<Rightarrow>
     (ContainerNode \<times> AtomicHTMLToken \<times> HTMLConstructionSite) option" where
  "createElement env token namespaceURI s =
     do { s1 \<leftarrow> ownerDocumentForCurrentNode s;
          Some (elementForToken env \<lparr>qn_localName = at_name token, qn_namespaceURI = Some namespaceURI\<rparr> token s1) }"

text \<open>\<open>Inr\<close> is the element; \<open>Inl\<close> is the interface of a custom element that was found instead.\<close>

definition createHTMLElementOrFindCustomElementInterface ::
    "ElementEnvironment \<Rightarrow> bool \<Rightarrow> AtomicHTMLToken \<Rightarrow> HTMLConstructionSite \<Rightarrow>
     (HTMLConstructionSite + ContainerNode \<times> AtomicHTMLToken \<times> HTMLConstructionSite) option" where
  "createHTMLElementOrFindCustomElementInterface env customElementInterface token s =
     do { s1 \<leftarrow> ownerDocumentForCurrentNode s;
          case createKnownElement env (at_name token) of
            Some tag \<Rightarrow>
              Some (Inr (elementForToken env tag token
                (cs_assert (qn_namespaceURI tag = Some xhtmlNamespaceURI) s1)))
          | None \<Rightarrow>
              if customElementInterface \<and> findInterface env (at_name token) then Some (Inl s1)
              else Some (Inr (elementForToken env (htmlName (at_name token)) token s1)) }"

definition createHTMLElement ::
    "ElementEnvironment \<Rightarrow> AtomicHTMLToken \<Rightarrow> HTMLConstructionSite \<Rightarrow>
     (ContainerNode \<times> AtomicHTMLToken \<times> HTMLConstructionSite) option" where
  "createHTMLElement env token s =
     do { result \<leftarrow> createHTMLElementOrFindCustomElementInterface env False token s;
          case result of Inr r \<Rightarrow> Some r | Inl _ \<Rightarrow> None }"

text \<open>A saved item has a name and a namespace, which the assertions say; a null string would be empty.\<close>

definition orEmpty :: "AtomicString option \<Rightarrow> AtomicString" where
  "orEmpty string = (case string of Some s \<Rightarrow> s | None \<Rightarrow> [])"

definition createElementFromSavedToken ::
    "ElementEnvironment \<Rightarrow> HTMLStackItem \<Rightarrow> HTMLConstructionSite \<Rightarrow> (HTMLStackItem \<times> HTMLConstructionSite) option" where
  "createElementFromSavedToken env item s =
     (let fakeToken = AtomicHTMLToken_tag StartTag (orEmpty (si_localName item)) (si_attributes item);
          s1 = cs_assert (isElement item \<and> si_namespaceURI item = Some xhtmlNamespaceURI
                 \<and> isFormattingTag (orEmpty (si_localName item))) s in
      do { (element, token, s2) \<leftarrow> createHTMLElement env fakeToken s1;
           Some (HTMLStackItem_forToken element token (orEmpty (si_namespaceURI item)), s2) })"

subsection \<open>Attributes of an element that is open already\<close>

text \<open>The attributes of an element, which \<open>findAttributeByName\<close> and \<open>setAttribute\<close> work on.\<close>

fun elementAttributes :: "NodeKind \<Rightarrow> DomAttribute list" where
  "elementAttributes (ElementNode tag attributes) = attributes"
| "elementAttributes _ = []"

fun addAttribute :: "DomAttribute \<Rightarrow> NodeKind \<Rightarrow> NodeKind" where
  "addAttribute attribute (ElementNode tag attributes) = ElementNode tag (attributes @ [attribute])"
| "addAttribute attribute kind = kind"

fun mergeAttributes_loop :: "DomAttribute list \<Rightarrow> nat \<Rightarrow> Dom \<Rightarrow> Dom" where
  "mergeAttributes_loop [] element d = d"
| "mergeAttributes_loop (tokenAttribute # attributes) element d =
     mergeAttributes_loop attributes element
       (if findDomAttribute (elementAttributes (nd_kind (dom_node d element))) (da_name tokenAttribute) = None
        then updNode element (nd_kind_update (addAttribute tokenAttribute)) d else d)"

definition mergeAttributesFromTokenIntoElement ::
    "AtomicHTMLToken \<Rightarrow> nat \<Rightarrow> HTMLConstructionSite \<Rightarrow> HTMLConstructionSite" where
  "mergeAttributesFromTokenIntoElement token element s =
     (if at_attributes token = [] then s
      else s\<lparr>cs_dom := mergeAttributes_loop (at_attributes token) element (cs_dom s)\<rparr>)"

definition insertHTMLHtmlStartTagInBody :: "AtomicHTMLToken \<Rightarrow> HTMLConstructionSite \<Rightarrow> HTMLConstructionSite option" where
  "insertHTMLHtmlStartTagInBody token s =
     (if m_isParsingFragment s then Some s
      else do { root \<leftarrow> m_rootNode (m_openElements s);
                Some (mergeAttributesFromTokenIntoElement token root s) })"

definition insertHTMLBodyStartTagInBody :: "AtomicHTMLToken \<Rightarrow> HTMLConstructionSite \<Rightarrow> HTMLConstructionSite option" where
  "insertHTMLBodyStartTagInBody token s =
     do { body \<leftarrow> m_bodyElement (m_openElements s);
          Some (mergeAttributesFromTokenIntoElement token body s) }"

subsection \<open>Compatibility mode\<close>

text \<open>\<open>Document::setCompatibilityMode\<close>; the style sheets it has parsed again take no part.\<close>

definition Document_setCompatibilityMode :: "DocumentCompatibilityMode \<Rightarrow> HTMLConstructionSite \<Rightarrow> HTMLConstructionSite" where
  "Document_setCompatibilityMode mode s =
     (if doc_compatibilityModeLocked s \<or> mode = doc_compatibilityMode s then s
      else s\<lparr>doc_compatibilityMode := mode\<rparr>)"

definition setCompatibilityMode :: "DocumentCompatibilityMode \<Rightarrow> HTMLConstructionSite \<Rightarrow> HTMLConstructionSite" where
  "setCompatibilityMode mode s = Document_setCompatibilityMode mode (s\<lparr>m_inQuirksMode := (mode = QuirksMode)\<rparr>)"

definition setDefaultCompatibilityMode :: "HTMLConstructionSite \<Rightarrow> HTMLConstructionSite" where
  "setDefaultCompatibilityMode s =
     (if m_isParsingFragment s then s
      else if doc_isSrcdocDocument s then s
      else setCompatibilityMode QuirksMode s)"

definition latin1CaseFoldTable :: "uchar \<Rightarrow> uchar" where
  "latin1CaseFoldTable c =
     (if 0x41 \<le> c \<and> c \<le> 0x5A then c + 0x20
      else if c = 0xB5 then 0x3BC
      else if 0xC0 \<le> c \<and> c \<le> 0xDE \<and> c \<noteq> 0xD7 then c + 0x20
      else c)"

text \<open>
  \<open>String::startsWith\<close> without regard to case, for an identifier of a DOCTYPE, which has 16-bit
  characters; a null string starts with nothing.
\<close>

fun equalCompatibilityCaseless :: "(uchar \<Rightarrow> uchar) \<Rightarrow> uchar list \<Rightarrow> uchar list \<Rightarrow> bool" where
  "equalCompatibilityCaseless fold_case (a # as) (b # bs) =
     (if fold_case a \<noteq> latin1CaseFoldTable b then False else equalCompatibilityCaseless fold_case as bs)"
| "equalCompatibilityCaseless fold_case as bs = True"

definition startsWithCaseless :: "ElementEnvironment \<Rightarrow> uchar list option \<Rightarrow> string \<Rightarrow> bool" where
  "startsWithCaseless env string prefix =
     (case string of
        None \<Rightarrow> False
      | Some cs \<Rightarrow>
          if length prefix > length cs then False
          else equalCompatibilityCaseless (u_foldCase env) cs (lit prefix))"

definition equalLetters :: "uchar list option \<Rightarrow> string \<Rightarrow> bool" where
  "equalLetters string letters =
     (case string of None \<Rightarrow> False | Some cs \<Rightarrow> equalLettersIgnoringASCIICase cs (lit letters))"

definition quirksPublicPrefixes :: "string list" where
  "quirksPublicPrefixes =
     [''+//Silmaril//dtd html Pro v0r11 19970101//'',
      ''-//AdvaSoft Ltd//DTD HTML 3.0 asWedit + extensions//'',
      ''-//AS//DTD HTML 3.0 asWedit + extensions//'',
      ''-//IETF//DTD HTML 2.0 Level 1//'',
      ''-//IETF//DTD HTML 2.0 Level 2//'',
      ''-//IETF//DTD HTML 2.0 Strict Level 1//'',
      ''-//IETF//DTD HTML 2.0 Strict Level 2//'',
      ''-//IETF//DTD HTML 2.0 Strict//'',
      ''-//IETF//DTD HTML 2.0//'',
      ''-//IETF//DTD HTML 2.1E//'',
      ''-//IETF//DTD HTML 3.0//'',
      ''-//IETF//DTD HTML 3.2 Final//'',
      ''-//IETF//DTD HTML 3.2//'',
      ''-//IETF//DTD HTML 3//'',
      ''-//IETF//DTD HTML Level 0//'',
      ''-//IETF//DTD HTML Level 1//'',
      ''-//IETF//DTD HTML Level 2//'',
      ''-//IETF//DTD HTML Level 3//'',
      ''-//IETF//DTD HTML Strict Level 0//'',
      ''-//IETF//DTD HTML Strict Level 1//'',
      ''-//IETF//DTD HTML Strict Level 2//'',
      ''-//IETF//DTD HTML Strict Level 3//'',
      ''-//IETF//DTD HTML Strict//'',
      ''-//IETF//DTD HTML//'',
      ''-//Metrius//DTD Metrius Presentational//'',
      ''-//Microsoft//DTD Internet Explorer 2.0 HTML Strict//'',
      ''-//Microsoft//DTD Internet Explorer 2.0 HTML//'',
      ''-//Microsoft//DTD Internet Explorer 2.0 Tables//'',
      ''-//Microsoft//DTD Internet Explorer 3.0 HTML Strict//'',
      ''-//Microsoft//DTD Internet Explorer 3.0 HTML//'',
      ''-//Microsoft//DTD Internet Explorer 3.0 Tables//'',
      ''-//Netscape Comm. Corp.//DTD HTML//'',
      ''-//Netscape Comm. Corp.//DTD Strict HTML//'',
      ''-//O'Reilly and Associates//DTD HTML 2.0//'',
      ''-//O'Reilly and Associates//DTD HTML Extended 1.0//'',
      ''-//O'Reilly and Associates//DTD HTML Extended Relaxed 1.0//'',
      ''-//SoftQuad Software//DTD HoTMetaL PRO 6.0::19990601::extensions to HTML 4.0//'',
      ''-//SoftQuad//DTD HoTMetaL PRO 4.0::19971010::extensions to HTML 4.0//'',
      ''-//Spyglass//DTD HTML 2.0 Extended//'',
      ''-//SQ//DTD HTML 2.0 HoTMetaL + extensions//'',
      ''-//Sun Microsystems Corp.//DTD HotJava HTML//'',
      ''-//Sun Microsystems Corp.//DTD HotJava Strict HTML//'',
      ''-//W3C//DTD HTML 3 1995-03-24//'',
      ''-//W3C//DTD HTML 3.2 Draft//'',
      ''-//W3C//DTD HTML 3.2 Final//'',
      ''-//W3C//DTD HTML 3.2//'',
      ''-//W3C//DTD HTML 3.2S Draft//'',
      ''-//W3C//DTD HTML 4.0 Frameset//'',
      ''-//W3C//DTD HTML 4.0 Transitional//'',
      ''-//W3C//DTD HTML Experimental 19960712//'',
      ''-//W3C//DTD HTML Experimental 970421//'',
      ''-//W3C//DTD W3 HTML//'',
      ''-//W3O//DTD W3 HTML 3.0//'',
      ''-//WebTechs//DTD Mozilla HTML 2.0//'',
      ''-//WebTechs//DTD Mozilla HTML//'']"

definition isQuirksDoctype ::
    "ElementEnvironment \<Rightarrow> uchar list \<Rightarrow> uchar list option \<Rightarrow> uchar list option \<Rightarrow> bool" where
  "isQuirksDoctype env name publicId systemId \<longleftrightarrow>
     name \<noteq> lit ''html''
     \<or> list_ex (startsWithCaseless env publicId) quirksPublicPrefixes
     \<or> equalLetters publicId ''-//w3o//dtd w3 html strict 3.0//en//''
     \<or> equalLetters publicId ''-/w3c/dtd html 4.0 transitional/en''
     \<or> equalLetters publicId ''html''
     \<or> equalLetters systemId ''http://www.ibm.com/data/dtd/v11/ibmxhtml1-transitional.dtd''
     \<or> orEmpty systemId = [] \<and> startsWithCaseless env publicId ''-//W3C//DTD HTML 4.01 Frameset//''
     \<or> orEmpty systemId = [] \<and> startsWithCaseless env publicId ''-//W3C//DTD HTML 4.01 Transitional//''"

definition isLimitedQuirksDoctype ::
    "ElementEnvironment \<Rightarrow> uchar list option \<Rightarrow> uchar list option \<Rightarrow> bool" where
  "isLimitedQuirksDoctype env publicId systemId \<longleftrightarrow>
     startsWithCaseless env publicId ''-//W3C//DTD XHTML 1.0 Frameset//''
     \<or> startsWithCaseless env publicId ''-//W3C//DTD XHTML 1.0 Transitional//''
     \<or> orEmpty systemId \<noteq> [] \<and> startsWithCaseless env publicId ''-//W3C//DTD HTML 4.01 Frameset//''
     \<or> orEmpty systemId \<noteq> [] \<and> startsWithCaseless env publicId ''-//W3C//DTD HTML 4.01 Transitional//''"

definition setCompatibilityModeFromDoctype ::
    "ElementEnvironment \<Rightarrow> uchar list \<Rightarrow> uchar list option \<Rightarrow> uchar list option \<Rightarrow> HTMLConstructionSite \<Rightarrow> HTMLConstructionSite" where
  "setCompatibilityModeFromDoctype env name publicId systemId s =
     (if isQuirksDoctype env name publicId systemId then setCompatibilityMode QuirksMode s
      else if isLimitedQuirksDoctype env publicId systemId then setCompatibilityMode LimitedQuirksMode s
      else setCompatibilityMode NoQuirksMode s)"

subsection \<open>Inserting\<close>

definition insertDoctype :: "ElementEnvironment \<Rightarrow> AtomicHTMLToken \<Rightarrow> HTMLConstructionSite \<Rightarrow> HTMLConstructionSite option" where
  "insertDoctype env token s =
     do { publicId \<leftarrow> AtomicHTMLToken_publicIdentifier token;
          systemId \<leftarrow> AtomicHTMLToken_systemIdentifier token;
          let (x, d) = newNode (DocumentTypeNode (at_name token) (orEmpty publicId) (orEmpty systemId)) (cs_dom s);
          s1 \<leftarrow> attachLater (m_attachmentRoot s) x False ((cs_assert (at_type token = DOCTYPE) s)\<lparr>cs_dom := d\<rparr>);
          let s2 = cs_assert (\<not> m_isParsingFragment s1) s1;
          if m_isParsingFragment s2 then Some s2
          else do { quirks \<leftarrow> AtomicHTMLToken_forceQuirks token;
                    Some (if quirks then setCompatibilityMode QuirksMode s2
                          else setCompatibilityModeFromDoctype env (at_name token) publicId systemId s2) } }"

definition insertCommentUnder :: "nat \<Rightarrow> AtomicHTMLToken \<Rightarrow> HTMLConstructionSite \<Rightarrow> HTMLConstructionSite option" where
  "insertCommentUnder parent token s =
     (case newNode (CommentNode (at_data token)) (cs_dom s) of
        (x, d) \<Rightarrow> attachLater parent x False ((cs_assert (at_type token = Comment) s)\<lparr>cs_dom := d\<rparr>))"

definition insertComment :: "AtomicHTMLToken \<Rightarrow> HTMLConstructionSite \<Rightarrow> HTMLConstructionSite option" where
  "insertComment token s =
     do { node \<leftarrow> currentNode s;
          s1 \<leftarrow> ownerDocumentForCurrentNode s;
          insertCommentUnder (node_id node) token s1 }"

definition insertCommentOnDocument :: "AtomicHTMLToken \<Rightarrow> HTMLConstructionSite \<Rightarrow> HTMLConstructionSite option" where
  "insertCommentOnDocument token s = insertCommentUnder (m_attachmentRoot s) token s"

definition insertCommentOnHTMLHtmlElement :: "AtomicHTMLToken \<Rightarrow> HTMLConstructionSite \<Rightarrow> HTMLConstructionSite option" where
  "insertCommentOnHTMLHtmlElement token s =
     do { root \<leftarrow> m_rootNode (m_openElements s); insertCommentUnder root token s }"

definition insertHTMLHtmlStartTagBeforeHTML ::
    "ElementEnvironment \<Rightarrow> AtomicHTMLToken \<Rightarrow> HTMLConstructionSite \<Rightarrow> HTMLConstructionSite option" where
  "insertHTMLHtmlStartTagBeforeHTML env token s =
     (case elementForToken env htmlTag token s of
        (element, token', s1) \<Rightarrow>
          do { s2 \<leftarrow> attachLater (m_attachmentRoot s1) (node_id element) False s1;
               executeQueuedTasks
                 (withStack (pushHTMLHtmlElement (HTMLStackItem_forToken element token' xhtmlNamespaceURI)) s2) })"

definition insertHTMLHeadElement ::
    "ElementEnvironment \<Rightarrow> AtomicHTMLToken \<Rightarrow> HTMLConstructionSite \<Rightarrow> HTMLConstructionSite option" where
  "insertHTMLHeadElement env token s =
     do { foster \<leftarrow> shouldFosterParent s;
          (element, token', s1) \<leftarrow> createHTMLElement env token (cs_assert (\<not> foster) s);
          let head = HTMLStackItem_forToken element token' xhtmlNamespaceURI;
          node \<leftarrow> currentNode s1;
          s2 \<leftarrow> attachLater (node_id node) (node_id element) False (s1\<lparr>m_head := Some head\<rparr>);
          Some (withStack (pushHTMLHeadElement head) s2) }"

definition insertHTMLBodyElement ::
    "ElementEnvironment \<Rightarrow> AtomicHTMLToken \<Rightarrow> HTMLConstructionSite \<Rightarrow> HTMLConstructionSite option" where
  "insertHTMLBodyElement env token s =
     do { foster \<leftarrow> shouldFosterParent s;
          (body, token', s1) \<leftarrow> createHTMLElement env token (cs_assert (\<not> foster) s);
          node \<leftarrow> currentNode s1;
          s2 \<leftarrow> attachLater (node_id node) (node_id body) False s1;
          Some (withStack (pushHTMLBodyElement (HTMLStackItem_forToken body token' xhtmlNamespaceURI)) s2) }"

text \<open>The downcast to a form asserts.\<close>

definition insertHTMLFormElement ::
    "ElementEnvironment \<Rightarrow> AtomicHTMLToken \<Rightarrow> HTMLConstructionSite \<Rightarrow> HTMLConstructionSite option" where
  "insertHTMLFormElement env token s =
     do { (element, token', s1) \<leftarrow> createHTMLElement env token s;
          let inTemplate = hasTemplateInHTMLScope (m_openElements s1);
          let s2 = cs_assert (node_tag element = Some (htmlName (lit ''form'')) \<and> inTemplate \<noteq> None) s1;
          let s3 = (if \<not> scope_answer inTemplate then s2\<lparr>m_form := Some (node_id element)\<rparr> else s2);
          node \<leftarrow> currentNode s3;
          s4 \<leftarrow> attachLater (node_id node) (node_id element) False s3;
          Some (withStack (push (HTMLStackItem_forToken element token' xhtmlNamespaceURI)) s4) }"

definition insertHTMLElement ::
    "ElementEnvironment \<Rightarrow> AtomicHTMLToken \<Rightarrow> HTMLConstructionSite \<Rightarrow> HTMLConstructionSite option" where
  "insertHTMLElement env token s =
     do { (element, token', s1) \<leftarrow> createHTMLElement env token s;
          node \<leftarrow> currentNode s1;
          s2 \<leftarrow> attachLater (node_id node) (node_id element) False s1;
          Some (withStack (push (HTMLStackItem_forToken element token' xhtmlNamespaceURI)) s2) }"

text \<open>The boolean says that the interface of a custom element is to be constructed.\<close>

definition insertHTMLElementOrFindCustomElementInterface ::
    "ElementEnvironment \<Rightarrow> AtomicHTMLToken \<Rightarrow> HTMLConstructionSite \<Rightarrow> (bool \<times> HTMLConstructionSite) option" where
  "insertHTMLElementOrFindCustomElementInterface env token s =
     do { result \<leftarrow> createHTMLElementOrFindCustomElementInterface env True token s;
          case result of
            Inl s1 \<Rightarrow> Some (True, s1)
          | Inr (element, token', s1) \<Rightarrow>
              do { node \<leftarrow> currentNode s1;
                   s2 \<leftarrow> attachLater (node_id node) (node_id element) False s1;
                   Some (False, withStack (push (HTMLStackItem_forToken element token' xhtmlNamespaceURI)) s2) } }"

text \<open>A custom element comes from a script; its node is in the store, without attributes.\<close>

definition insertCustomElement ::
    "ElementEnvironment \<Rightarrow> ContainerNode \<Rightarrow> AtomicString \<Rightarrow> DomAttribute list \<Rightarrow> HTMLConstructionSite \<Rightarrow>
     HTMLConstructionSite option" where
  "insertCustomElement env element localName attributes s =
     do { tag \<leftarrow> node_tag element;
          let attributes' = setAttributes env tag attributes (m_parserContentPolicy s);
          let s1 = s\<lparr>cs_dom := updNode (node_id element) (nd_kind_update (\<lambda>_. ElementNode tag attributes')) (cs_dom s)\<rparr>;
          node \<leftarrow> currentNode s1;
          s2 \<leftarrow> attachLater (node_id node) (node_id element) False s1;
          Some (withStack (push (HTMLStackItem_forName element localName attributes')) s2) }"

definition insertSelfClosingHTMLElement ::
    "ElementEnvironment \<Rightarrow> AtomicHTMLToken \<Rightarrow> HTMLConstructionSite \<Rightarrow> HTMLConstructionSite option" where
  "insertSelfClosingHTMLElement env token s =
     do { node \<leftarrow> currentNode s;
          (element, token', s1) \<leftarrow> createHTMLElement env token (cs_assert (at_type token = StartTag) s);
          attachLater (node_id node) (node_id element) True s1 }"

definition insertFormattingElement ::
    "ElementEnvironment \<Rightarrow> AtomicHTMLToken \<Rightarrow> HTMLConstructionSite \<Rightarrow> HTMLConstructionSite option" where
  "insertFormattingElement env token s =
     do { s1 \<leftarrow> insertHTMLElement env token (cs_assert (isFormattingTag (at_name token)) s);
          item \<leftarrow> currentStackItem s1;
          Some (withList (fl_append item) s1) }"

definition insertScriptElement ::
    "ElementEnvironment \<Rightarrow> AtomicHTMLToken \<Rightarrow> HTMLConstructionSite \<Rightarrow> HTMLConstructionSite option" where
  "insertScriptElement env token s =
     do { s1 \<leftarrow> ownerDocumentForCurrentNode s;
          let (element, token', s2) = elementForToken env scriptTag token s1;
          node \<leftarrow> currentNode s2;
          s3 \<leftarrow> (if scriptingContentIsAllowed (m_parserContentPolicy s2)
                then attachLater (node_id node) (node_id element) False s2 else Some s2);
          Some (withStack (push (HTMLStackItem_forToken element token' xhtmlNamespaceURI)) s3) }"

definition insertForeignElement ::
    "ElementEnvironment \<Rightarrow> AtomicHTMLToken \<Rightarrow> AtomicString \<Rightarrow> HTMLConstructionSite \<Rightarrow> HTMLConstructionSite option" where
  "insertForeignElement env token namespaceURI s =
     do { (element, token', s1) \<leftarrow> createElement env token namespaceURI (cs_assert (at_type token = StartTag) s);
          node \<leftarrow> currentNode s1;
          s2 \<leftarrow> (if scriptingContentIsAllowed (m_parserContentPolicy s1) \<or> \<not> isScriptElement (node_tag element)
                then attachLater (node_id node) (node_id element) (at_selfClosing token') s1 else Some s1);
          Some (if \<not> at_selfClosing token'
                then withStack (push (HTMLStackItem_forToken element token' namespaceURI)) s2 else s2) }"

subsection \<open>Text\<close>

definition defaultLengthLimit :: unsigned where
  "defaultLengthLimit = 65536"

text \<open>\<open>CharacterData::parserAppendData\<close>: the new data, how much was appended, and what it asserts.\<close>

definition parserAppendData ::
    "ElementEnvironment \<Rightarrow> uchar list \<Rightarrow> uchar list \<Rightarrow> unsigned \<Rightarrow> unsigned \<Rightarrow> uchar list \<times> unsigned \<times> bool" where
  "parserAppendData env data string offset lengthLimit =
     (let oldLength = of_nat (length data);
          characterLength = of_nat (length string) - offset;
          limit = min characterLength (lengthLimit - oldLength);
          buffer = take (unat (if limit + 2 > characterLength then characterLength else limit + 2))
                     (drop (unat offset) string);
          characterLengthLimit =
            (if limit < characterLength
             then if \<not> ubrk_isBoundary env buffer limit then ubrk_preceding env buffer limit else limit
             else limit) in
      if characterLengthLimit = 0 then (data, 0, oldLength \<le> lengthLimit)
      else (data @ take (unat characterLengthLimit) (drop (unat offset) string), characterLengthLimit,
            oldLength \<le> lengthLimit))"

definition createWithLengthLimit ::
    "ElementEnvironment \<Rightarrow> uchar list \<Rightarrow> unsigned \<Rightarrow> unsigned \<Rightarrow> uchar list \<times> bool" where
  "createWithLengthLimit env data start lengthLimit =
     (if start = 0 \<and> of_nat (length data) \<le> lengthLimit then (data, True)
      else case parserAppendData env [] data start lengthLimit of (result, _, ok) \<Rightarrow> (result, ok))"

text \<open>The loop over the pieces; \<open>None\<close> is also a loop that does not end.\<close>

partial_function (option) insertText_loop ::
    "ElementEnvironment \<Rightarrow> uchar list \<Rightarrow> unsigned \<Rightarrow> HTMLConstructionSiteTask \<Rightarrow> unsigned \<Rightarrow> Dom \<Rightarrow> Dom option" where
  "insertText_loop env characters lengthLimit task currentPosition d =
     (if currentPosition < of_nat (length characters) then
        let (data, ok) = createWithLengthLimit env characters currentPosition lengthLimit;
            piece = (if data = [] then drop (unat currentPosition) characters else data);
            currentPosition' = currentPosition + of_nat (length piece);
            (textNode, d1) = newNode (TextNode piece) (dom_assert ok d);
            d2 = dom_assert (currentPosition' \<le> of_nat (length characters)) d1 in
        Option.bind (executeTask (task\<lparr>task_child := textNode\<rparr>) d2)
          (insertText_loop env characters lengthLimit task currentPosition')
      else Some d)"

text \<open>Whether the characters are all white space decides on the sharing of strings only.\<close>

definition appendToPrevious ::
    "ElementEnvironment \<Rightarrow> uchar list \<Rightarrow> unsigned \<Rightarrow> nat option \<Rightarrow> Dom \<Rightarrow> unsigned \<times> Dom" where
  "appendToPrevious env characters lengthLimit previousChild d =
     (case previousChild of
        None \<Rightarrow> (0, d)
      | Some x \<Rightarrow>
          (case nd_kind (dom_node d x) of
             TextNode data \<Rightarrow>
               (case parserAppendData env data characters 0 lengthLimit of
                  (data', n, ok) \<Rightarrow> (n, updNode x (nd_kind_update (\<lambda>_. TextNode data')) (dom_assert ok d)))
           | _ \<Rightarrow> (0, d)))"

definition insertTextNode ::
    "ElementEnvironment \<Rightarrow> uchar list \<Rightarrow> HTMLConstructionSite \<Rightarrow> HTMLConstructionSite option" where
  "insertTextNode env characters s =
     do { node \<leftarrow> currentNode s;
          foster \<leftarrow> shouldFosterParent s;
          ((parent0, nextChild), s1) \<leftarrow> (if foster then findFosterSite s else Some ((node_id node, None), s));
          let (parent, d) = (if nodeTag (cs_dom s1) parent0 = Some templateTag
                             then templateContent parent0 (cs_dom s1) else (parent0, cs_dom s1));
          let lengthLimit = (if shouldUseLengthLimit (nodeTag d parent) then defaultLengthLimit else - 1);
          let previousChild = (case nextChild of Some n \<Rightarrow> previousSibling d n | None \<Rightarrow> lastChild d parent);
          let (currentPosition, d1) = appendToPrevious env characters lengthLimit previousChild d;
          d2 \<leftarrow> insertText_loop env characters lengthLimit
                  ((task_new Insert 0)\<lparr>task_parent := Some parent, task_nextChild := nextChild\<rparr>) currentPosition d1;
          Some (s1\<lparr>cs_dom := d2\<rparr>) }"

subsection \<open>Moving nodes\<close>

definition reparent :: "ContainerNode \<Rightarrow> HTMLStackItem \<Rightarrow> HTMLConstructionSite \<Rightarrow> HTMLConstructionSite" where
  "reparent newParent child s =
     appendTask ((task_new Reparent (item_id child))\<lparr>task_parent := Some (node_id newParent)\<rparr>)
       (cs_assert (isElementNode child) s)"

definition insertAlreadyParsedChild ::
    "HTMLStackItem \<Rightarrow> HTMLStackItem \<Rightarrow> HTMLConstructionSite \<Rightarrow> HTMLConstructionSite option" where
  "insertAlreadyParsedChild newParent child s =
     do { ((parent, nextChild), s1) \<leftarrow>
            (if causesFosterParenting newParent then findFosterSite s else Some ((item_id newParent, None), s));
          Some (appendTask
            ((task_new InsertAlreadyParsedChild (item_id child))\<lparr>task_parent := Some parent, task_nextChild := nextChild\<rparr>)
            (cs_assert (isElementNode child) s1)) }"

definition takeAllChildrenAndReparent ::
    "HTMLStackItem \<Rightarrow> HTMLStackItem \<Rightarrow> HTMLConstructionSite \<Rightarrow> HTMLConstructionSite" where
  "takeAllChildrenAndReparent newParent oldParent s =
     appendTask ((task_new TakeAllChildrenAndReparent (item_id oldParent))\<lparr>task_parent := Some (item_id newParent)\<rparr>) s"

subsection \<open>Formatting elements and implied end tags\<close>

fun firstUnopen_loop :: "(Entry \<Rightarrow> bool) \<Rightarrow> Entry list \<Rightarrow> nat \<Rightarrow> nat option" where
  "firstUnopen_loop isOpen entries 0 = Some 0"
| "firstUnopen_loop isOpen entries (Suc index) =
     (if isOpen (entries ! index)
      then if index + 1 < length entries then Some (index + 1) else None
      else firstUnopen_loop isOpen entries index)"

fun openEntry :: "HTMLElementStack \<Rightarrow> Entry \<Rightarrow> bool" where
  "openEntry st MarkerEntry = True"
| "openEntry st (ItemEntry item) = contains_element (item_id item) st"

definition indexOfFirstUnopenFormattingElement :: "HTMLConstructionSite \<Rightarrow> nat option" where
  "indexOfFirstUnopenFormattingElement s =
     (let entries = m_entries (m_activeFormattingElements s) in
      if entries = [] then None
      else firstUnopen_loop (openEntry (m_openElements s)) entries (length entries))"

fun reconstruct_loop ::
    "ElementEnvironment \<Rightarrow> nat list \<Rightarrow> HTMLConstructionSite \<Rightarrow> HTMLConstructionSite option" where
  "reconstruct_loop env [] s = Some s"
| "reconstruct_loop env (index # indices) s =
     (case m_entries (m_activeFormattingElements s) ! index of
        MarkerEntry \<Rightarrow> None
      | ItemEntry unopened \<Rightarrow>
          do { (reconstructed, s1) \<leftarrow> createElementFromSavedToken env unopened s;
               node \<leftarrow> currentNode s1;
               s2 \<leftarrow> attachLater (node_id node) (item_id reconstructed) False s1;
               reconstruct_loop env indices
                 (withList (fl_replaceElement index reconstructed) (withStack (push reconstructed) s2)) })"

definition reconstructTheActiveFormattingElements ::
    "ElementEnvironment \<Rightarrow> HTMLConstructionSite \<Rightarrow> HTMLConstructionSite option" where
  "reconstructTheActiveFormattingElements env s =
     (case indexOfFirstUnopenFormattingElement s of
        None \<Rightarrow> Some s
      | Some firstUnopenElementIndex \<Rightarrow>
          let size = length (m_entries (m_activeFormattingElements s)) in
          reconstruct_loop env [firstUnopenElementIndex ..< size]
            (cs_assert (firstUnopenElementIndex < size) s))"

definition generateImpliedEndTagsWithExclusion :: "AtomicString \<Rightarrow> HTMLConstructionSite \<Rightarrow> HTMLConstructionSite option" where
  "generateImpliedEndTagsWithExclusion tagName s =
     withStackOpt (popWhileNot (\<lambda>_. True) (\<lambda>item. \<not> (hasImpliedEndTag item \<and> \<not> matchesHTMLTag tagName item))) s"

definition generateImpliedEndTags :: "HTMLConstructionSite \<Rightarrow> HTMLConstructionSite option" where
  "generateImpliedEndTags s = withStackOpt (popWhileNot (\<lambda>_. True) (\<lambda>item. \<not> hasImpliedEndTag item)) s"

end
