(* ===== verification/Dom_Tree_Links.thy ===== *)
theory Dom_Tree_Links
  imports Dom_Tree
begin

text \<open>
  The links of the DOM as lists of children. A store represents a forest when, for every node, the
  pointers of its children form the chain of a list; the operations of the parser then act on the lists,
  fail no assertion and keep the representation.
\<close>

section \<open>Chains\<close>

definition first_of :: "nat list \<Rightarrow> nat option \<Rightarrow> nat option" where
  "first_of xs nx = (case xs of [] \<Rightarrow> nx | x # _ \<Rightarrow> Some x)"

definition last_of :: "nat option \<Rightarrow> nat list \<Rightarrow> nat option" where
  "last_of pv xs = (if xs = [] then pv else Some (last xs))"

lemma first_of_simps [simp]: "first_of [] nx = nx" "first_of (x # xs) nx = Some x"
  by (simp_all add: first_of_def)

lemma last_of_simps [simp]: "last_of pv [] = pv" "last_of pv (xs @ [x]) = Some x" "last_of pv (x # xs) = last_of (Some x) xs"
  by (simp_all add: last_of_def)

lemma last_of_append [simp]: "last_of pv (xs @ ys) = last_of (last_of pv xs) ys"
  by (simp add: last_of_def)

lemma first_of_append: "first_of (xs @ ys) nx = first_of xs (first_of ys nx)"
  by (cases xs) simp_all

text \<open>The nodes of a list are linked in its order, between two given neighbours.\<close>

fun chain :: "Dom \<Rightarrow> nat \<Rightarrow> nat option \<Rightarrow> nat list \<Rightarrow> nat option \<Rightarrow> bool" where
  "chain d p pv [] nx = True"
| "chain d p pv (x # xs) nx \<longleftrightarrow> parentNode d x = Some p \<and> previousSibling d x = pv
     \<and> nextSibling d x = first_of xs nx \<and> chain d p (Some x) xs nx"

lemma chain_append [simp]:
  "chain d p pv (xs @ ys) nx \<longleftrightarrow> chain d p pv xs (first_of ys nx) \<and> chain d p (last_of pv xs) ys nx"
  by (induction xs arbitrary: pv) (auto simp: first_of_append)

lemma chain_cong:
  "(\<And>x. x \<in> set xs \<Longrightarrow> parentNode d' x = parentNode d x \<and> previousSibling d' x = previousSibling d x
      \<and> nextSibling d' x = nextSibling d x) \<Longrightarrow> chain d' p pv xs nx = chain d p pv xs nx"
  by (induction xs arbitrary: pv) auto

lemma chain_parent: "chain d p pv xs nx \<Longrightarrow> x \<in> set xs \<Longrightarrow> parentNode d x = Some p"
  by (induction xs arbitrary: pv) auto

definition children_are :: "Dom \<Rightarrow> nat \<Rightarrow> nat list \<Rightarrow> bool" where
  "children_are d p xs \<longleftrightarrow> distinct xs \<and> chain d p None xs None
     \<and> firstChild d p = first_of xs None \<and> lastChild d p = last_of None xs"

text \<open>A store represents lists of children.\<close>

definition dom_rep :: "Dom \<Rightarrow> (nat \<Rightarrow> nat list) \<Rightarrow> bool" where
  "dom_rep d kids \<longleftrightarrow> (\<forall>p. children_are d p (kids p))
     \<and> (\<forall>x. case parentNode d x of
              None \<Rightarrow> previousSibling d x = None \<and> nextSibling d x = None
            | Some p \<Rightarrow> x \<in> set (kids p))"

lemma dom_repD:
  assumes "dom_rep d kids"
  shows "distinct (kids p)" "chain d p None (kids p) None" "firstChild d p = first_of (kids p) None"
    "lastChild d p = last_of None (kids p)" "parentNode d x = Some p \<longleftrightarrow> x \<in> set (kids p)"
    "parentNode d x = None \<Longrightarrow> previousSibling d x = None \<and> nextSibling d x = None"
proof -
  show "distinct (kids p)" and c: "chain d p None (kids p) None" and "firstChild d p = first_of (kids p) None"
    "lastChild d p = last_of None (kids p)"
    using assms by (simp_all add: dom_rep_def children_are_def)
  have all: "case parentNode d x of None \<Rightarrow> previousSibling d x = None \<and> nextSibling d x = None
      | Some p \<Rightarrow> x \<in> set (kids p)"
    using assms unfolding dom_rep_def by blast
  show "parentNode d x = Some p \<longleftrightarrow> x \<in> set (kids p)" using all chain_parent [OF c, of x] by auto
  show "parentNode d x = None \<Longrightarrow> previousSibling d x = None \<and> nextSibling d x = None" using all by simp
qed

lemma dom_rep_unique: "dom_rep d kids \<Longrightarrow> x \<in> set (kids p) \<Longrightarrow> x \<in> set (kids q) \<Longrightarrow> p = q"
  using dom_repD(5) [of d kids x p] dom_repD(5) [of d kids x q] by simp

section \<open>Stores that differ at one parent\<close>

text \<open>
  Two stores with the same links outside the children of one parent: the representation carries over
  as soon as the children of that parent are right.
\<close>

lemma dom_rep_change:
  assumes rep: "dom_rep d kids" and here: "children_are d' p xs"
    and other: "\<And>x. x \<notin> set (kids p) \<union> set xs \<Longrightarrow> parentNode d' x = parentNode d x
        \<and> previousSibling d' x = previousSibling d x \<and> nextSibling d' x = nextSibling d x"
    and ends: "\<And>q. q \<noteq> p \<Longrightarrow> firstChild d' q = firstChild d q \<and> lastChild d' q = lastChild d q"
    and new: "\<And>x. x \<in> set xs \<Longrightarrow> x \<in> set (kids p) \<or> parentNode d x = None"
    and gone: "\<And>x. x \<in> set (kids p) \<Longrightarrow> x \<notin> set xs \<Longrightarrow>
        parentNode d' x = None \<and> previousSibling d' x = None \<and> nextSibling d' x = None"
  shows "dom_rep d' (kids(p := xs))"
  unfolding dom_rep_def
proof (intro conjI allI)
  note D = dom_repD [OF rep]
  fix q show "children_are d' q ((kids(p := xs)) q)"
  proof (cases "q = p")
    case False
    have sep: "x \<notin> set (kids p) \<union> set xs" if "x \<in> set (kids q)" for x
      using new [of x] D(5) [of x q] D(5) [of x p] that False by auto
    have "chain d' q None (kids q) None = chain d q None (kids q) None"
      by (rule chain_cong) (use sep other in blast)
    then show ?thesis using D ends [OF False] False by (simp add: children_are_def)
  qed (use here in simp)
next
  note D = dom_repD [OF rep]
  fix x
  have inside: "parentNode d' x = Some p" if "x \<in> set xs"
    using chain_parent [of d' p None xs None x] here that by (simp add: children_are_def)
  show "case parentNode d' x of None \<Rightarrow> previousSibling d' x = None \<and> nextSibling d' x = None
      | Some q \<Rightarrow> x \<in> set ((kids(p := xs)) q)"
  proof (cases "x \<in> set xs")
    case True
    then show ?thesis using inside by simp
  next
    case out: False
    show ?thesis
    proof (cases "x \<in> set (kids p)")
      case True
      then show ?thesis using gone [OF True out] by simp
    next
      case False
      then have same: "parentNode d' x = parentNode d x" "previousSibling d' x = previousSibling d x"
        "nextSibling d' x = nextSibling d x" using other [of x] out by auto
      show ?thesis
      proof (cases "parentNode d x")
        case None
        then show ?thesis using same D(6) by simp
      next
        case (Some q)
        then have "x \<in> set (kids q)" "q \<noteq> p" using D(5) [of x q] False by auto
        then show ?thesis using Some same by simp
      qed
    qed
  qed
qed

section \<open>What the operations change\<close>

lemma dom_node_updates [simp]:
  "dom_node (dom_assert b d) = dom_node d" "dom_node (dom_call e d) = dom_node d"
  "dom_node (updNode x f d) = (dom_node d)(x := f (dom_node d x))"
  by (simp_all add: dom_assert_def dom_call_def updNode_def)

lemma dom_other_updates [simp]:
  "dom_asserts (dom_assert b d) = (dom_asserts d \<and> b)" "dom_asserts (dom_call e d) = dom_asserts d"
  "dom_asserts (updNode x f d) = dom_asserts d"
  "dom_next (dom_assert b d) = dom_next d" "dom_next (dom_call e d) = dom_next d" "dom_next (updNode x f d) = dom_next d"
  "dom_events (dom_assert b d) = dom_events d" "dom_events (dom_call e d) = dom_events d @ [e]"
  "dom_events (updNode x f d) = dom_events d"
  by (simp_all add: dom_assert_def dom_call_def updNode_def)

lemma dom_rep_cong: "dom_node d' = dom_node d \<Longrightarrow> dom_rep d' kids = dom_rep d kids"
proof -
  assume same: "dom_node d' = dom_node d"
  have "chain d' p pv xs nx = chain d p pv xs nx" for p pv xs nx
    by (rule chain_cong) (simp add: same)
  then show ?thesis by (simp only: dom_rep_def children_are_def same)
qed

lemma dom_rep_quiet [simp]:
  "dom_rep (dom_assert b d) kids = dom_rep d kids" "dom_rep (dom_call e d) kids = dom_rep d kids"
  by (rule dom_rep_cong; simp)+

text \<open>The pointers after each way of linking, one by one.\<close>

lemma appendChildCommon_fields:
  "parentNode (appendChildCommon p c d) x = (if x = c then Some p else parentNode d x)"
  "previousSibling (appendChildCommon p c d) x =
     (if x = c \<and> lastChild d p \<noteq> None then lastChild d p else previousSibling d x)"
  "nextSibling (appendChildCommon p c d) x = (if lastChild d p = Some x then Some c else nextSibling d x)"
  "firstChild (appendChildCommon p c d) x =
     (if x = p \<and> lastChild d p = None then Some c else firstChild d x)"
  "lastChild (appendChildCommon p c d) x = (if x = p then Some c else lastChild d x)"
  "dom_asserts (appendChildCommon p c d) = dom_asserts d"
  by (cases "lastChild d p"; auto simp: appendChildCommon_def Let_def)+

lemma insertBeforeCommon_fields:
  assumes "c \<noteq> n" "previousSibling d n \<noteq> Some c" "previousSibling d n \<noteq> Some n"
  shows "parentNode (insertBeforeCommon p n c d) x = (if x = c then Some p else parentNode d x)"
  "previousSibling (insertBeforeCommon p n c d) x =
     (if x = n then Some c else if x = c then previousSibling d n else previousSibling d x)"
  "nextSibling (insertBeforeCommon p n c d) x =
     (if x = c then Some n else if previousSibling d n = Some x then Some c else nextSibling d x)"
  "firstChild (insertBeforeCommon p n c d) x =
     (if x = p \<and> previousSibling d n = None then Some c else firstChild d x)"
  "lastChild (insertBeforeCommon p n c d) x = lastChild d x"
  using assms by (cases "previousSibling d n"; auto simp: insertBeforeCommon_def Let_def)+

lemma removeBetween_fields:
  assumes "pv \<noteq> Some c" "nx \<noteq> Some c" "pv = None \<or> pv \<noteq> nx"
    "previousSibling d c = pv" "nextSibling d c = nx"
  shows "parentNode (removeBetween p pv nx c d) x = (if x = c then None else parentNode d x)"
  "previousSibling (removeBetween p pv nx c d) x =
     (if x = c then None else if nx = Some x then pv else previousSibling d x)"
  "nextSibling (removeBetween p pv nx c d) x =
     (if x = c then None else if pv = Some x then nx else nextSibling d x)"
  "firstChild (removeBetween p pv nx c d) x = (if x = p \<and> pv = None then nx else firstChild d x)"
  "lastChild (removeBetween p pv nx c d) x = (if x = p \<and> nx = None then pv else lastChild d x)"
  using assms by (cases pv; cases nx; auto simp: removeBetween_def Let_def)+

subsection \<open>Appending\<close>

lemma appendChildCommon_rep:
  assumes rep: "dom_rep d kids" and free: "parentNode d c = None"
  shows "dom_rep (appendChildCommon p c d) (kids(p := kids p @ [c]))"
proof (rule dom_rep_change [OF rep])
  note D = dom_repD [OF rep]
  have c: "c \<notin> set (kids p)" "previousSibling d c = None" "nextSibling d c = None"
    using D(5) [of c p] D(6) [of c] free by auto
  show "children_are (appendChildCommon p c d) p (kids p @ [c])"
  proof (cases "kids p" rule: rev_cases)
    case Nil
    then show ?thesis using c D(3,4) [of p] by (simp add: children_are_def appendChildCommon_fields)
  next
    case (snoc xs l)
    have l: "l \<noteq> c" "l \<notin> set xs" "c \<notin> set xs" "distinct xs" using c(1) D(1) [of p] snoc by auto
    have ends: "firstChild d p = first_of xs (Some l)" "lastChild d p = Some l"
      using D(3,4) [of p] snoc by (simp_all add: first_of_append)
    have ch: "chain d p None xs (Some l)" "parentNode d l = Some p" "previousSibling d l = last_of None xs"
      using D(2) [of p] snoc by simp_all
    have "chain (appendChildCommon p c d) p None xs (Some l) = chain d p None xs (Some l)"
      by (rule chain_cong) (use l ends in \<open>auto simp: appendChildCommon_fields\<close>)
    then show ?thesis using l c ch ends snoc
      by (simp add: children_are_def appendChildCommon_fields first_of_append)
  qed
qed (use dom_repD(4) [OF rep, of p] free in
  \<open>auto simp: appendChildCommon_fields last_of_def split: if_splits\<close>)

subsection \<open>Inserting before a child\<close>

lemma chain_split:
  assumes rep: "dom_rep d kids" and split: "kids p = us @ n # vs"
  shows "chain d p None us (Some n)" "parentNode d n = Some p" "previousSibling d n = last_of None us"
    "nextSibling d n = first_of vs None" "chain d p (Some n) vs None"
    "firstChild d p = first_of us (Some n)" "lastChild d p = last_of (Some n) vs"
    "n \<notin> set us" "n \<notin> set vs" "distinct us" "distinct vs" "set us \<inter> set vs = {}"
  using dom_repD(1-4) [OF rep, of p] split by (auto simp: first_of_append)

lemma last_of_member: "last_of None us = Some x \<Longrightarrow> x \<in> set us"
  by (auto simp: last_of_def split: if_splits)

lemma first_of_member: "first_of vs None = Some x \<Longrightarrow> x \<in> set vs"
  by (cases vs) auto

lemma disjoint_last: "set us \<inter> set vs = {} \<Longrightarrow> us \<noteq> [] \<Longrightarrow> vs \<noteq> [] \<Longrightarrow> last us \<noteq> last vs"
  using last_in_set [of us] last_in_set [of vs] by (metis disjoint_iff)

text \<open>Giving a chain a new neighbour changes the pointer of its end only.\<close>

lemma chain_next:
  assumes "chain d p pv us (Some n)" "distinct us"
    and "\<And>x. x \<in> set us \<Longrightarrow> parentNode d' x = parentNode d x \<and> previousSibling d' x = previousSibling d x
      \<and> nextSibling d' x = (if last_of None us = Some x then nx else nextSibling d x)"
  shows "chain d' p pv us nx"
proof (cases us rule: rev_cases)
  case (snoc ws w)
  have "chain d' p pv ws (Some w) = chain d p pv ws (Some w)"
    by (rule chain_cong) (use assms(2,3) snoc in auto)
  then show ?thesis using assms snoc by simp
qed simp

lemma chain_previous:
  assumes "chain d p pv vs nx" "distinct vs"
    and "\<And>x. x \<in> set vs \<Longrightarrow> parentNode d' x = parentNode d x \<and> nextSibling d' x = nextSibling d x
      \<and> previousSibling d' x = (if first_of vs None = Some x then pv' else previousSibling d x)"
  shows "chain d' p pv' vs nx"
proof (cases vs)
  case (Cons w ws)
  have "chain d' p (Some w) ws nx = chain d p (Some w) ws nx"
    by (rule chain_cong) (use assms(2,3) Cons in auto)
  then show ?thesis using assms Cons by simp
qed simp

lemma insertBeforeCommon_rep:
  assumes rep: "dom_rep d kids" and free: "parentNode d c = None" and split: "kids p = us @ n # vs"
  shows "dom_rep (insertBeforeCommon p n c d) (kids(p := us @ c # n # vs))"
    "dom_asserts (insertBeforeCommon p n c d) = dom_asserts d"
proof -
  note D = dom_repD [OF rep] and S = chain_split [OF rep split]
  have c: "c \<notin> set (kids p)" "previousSibling d c = None" "nextSibling d c = None" "c \<noteq> n"
    using D(5) [of c p] D(6) [of c] free split by auto
  have pv: "previousSibling d n \<noteq> Some c" "previousSibling d n \<noteq> Some n"
    using c(1) S(3,8) split last_of_member [of us] by auto
  note F = insertBeforeCommon_fields [OF c(4) pv, of p]
  show "dom_rep (insertBeforeCommon p n c d) (kids(p := us @ c # n # vs))"
  proof (rule dom_rep_change [OF rep])
    have "chain (insertBeforeCommon p n c d) p None us (Some c)"
      by (rule chain_next [OF S(1)]) (use S(3,8,10) c(1) split in \<open>auto simp: F\<close>)
    moreover have "chain (insertBeforeCommon p n c d) p (Some n) vs None = chain d p (Some n) vs None"
      by (rule chain_cong) (use S(3,9,12) c(1) split last_of_member [of us] in \<open>auto simp: F\<close>)
    moreover have "first_of us (Some c) = (if last_of None us = None then Some c else first_of us (Some n))"
      by (cases us) (auto simp: last_of_def)
    ultimately show "children_are (insertBeforeCommon p n c d) p (us @ c # n # vs)"
      using S c split pv [unfolded S(3)] by (auto simp: children_are_def F first_of_append)
  qed (use split free S(3) last_of_member [of us] in \<open>auto simp: F\<close>)
  have "lastChild d p \<noteq> last_of None us"
    using S(7,8) disjoint_last [OF S(12)] by (auto simp: last_of_def split: if_splits)
  moreover have "first_of us (Some n) \<noteq> Some n" "nextSibling d u = Some n" if "last_of None us = Some u" for u
    using that S(1,8) by (cases us rule: rev_cases; auto simp: first_of_def split: list.splits)+
  ultimately show "dom_asserts (insertBeforeCommon p n c d) = dom_asserts d"
    using S(3,6) c pv free
    by (auto simp: insertBeforeCommon_def Let_def last_of_def split: option.splits if_splits)
qed

subsection \<open>Removing\<close>

lemma removeBetween_rep:
  assumes rep: "dom_rep d kids" and split: "kids p = us @ c # vs"
  defines "d' \<equiv> removeBetween p (previousSibling d c) (nextSibling d c) c d"
  shows "dom_rep d' (kids(p := us @ vs))" "dom_asserts d' = dom_asserts d" "parentNode d' c = None"
proof -
  note S = chain_split [OF rep split]
  have pv: "previousSibling d c \<noteq> Some c" "nextSibling d c \<noteq> Some c"
    "previousSibling d c = None \<or> previousSibling d c \<noteq> nextSibling d c"
    using S(3,4,8,9,12) last_of_member [of us] first_of_member [of vs]
    by (cases "last_of None us"; auto)+
  note F = removeBetween_fields [OF pv refl refl, of p, folded d'_def]
  show "parentNode d' c = None" by (simp add: F)
  show "dom_rep d' (kids(p := us @ vs))"
  proof (rule dom_rep_change [OF rep])
    have sep: "x \<noteq> c \<and> nextSibling d c \<noteq> Some x" if "x \<in> set us" for x
      using that S(4,8,12) first_of_member [of vs x] by auto
    have sep': "x \<noteq> c \<and> previousSibling d c \<noteq> Some x" if "x \<in> set vs" for x
      using that S(3,9,12) last_of_member [of us x] by auto
    have "chain d' p None us (first_of vs None)"
      by (rule chain_next [OF S(1)]) (use sep S(3,4,10) in \<open>auto simp: F\<close>)
    moreover have "chain d' p (last_of None us) vs None"
      by (rule chain_previous [OF S(5)]) (use sep' S(3,4,11) in \<open>auto simp: F\<close>)
    moreover have "first_of us (first_of vs None) = (if last_of None us = None then first_of vs None else first_of us (Some c))"
      "last_of (last_of None us) vs = (if first_of vs None = None then last_of None us else last_of (Some c) vs)"
      by (cases us; cases vs; simp add: last_of_def)+
    ultimately show "children_are d' p (us @ vs)"
      using S split by (auto simp: children_are_def F first_of_append)
  qed (use split S(3,4) last_of_member [of us] first_of_member [of vs] in \<open>auto simp: F\<close>)
  have "first_of vs None \<noteq> Some c" "last_of (Some c) vs = Some c" if "vs = []" using that by auto
  moreover have "lastChild d p \<noteq> Some c" if "first_of vs None = Some n" for n
    using that S(7,9) by (cases vs) (auto simp: last_of_def)
  moreover have "firstChild d p \<noteq> Some c" if "last_of None us = Some u" for u
    using that S(6,8) by (cases us) (auto simp: last_of_def)
  moreover have "lastChild d p = Some c" if "first_of vs None = None" using that S(7) by (cases vs) auto
  moreover have "firstChild d p = Some c" if "last_of None us = None"
    using that S(6) by (cases us) (auto simp: last_of_def)
  ultimately show "dom_asserts d' = dom_asserts d"
    using S(2-4) pv unfolding d'_def
    by (cases "last_of None us"; cases "first_of vs None"; simp add: removeBetween_def Let_def; auto)
qed

section \<open>The operations of the parser on the lists\<close>

text \<open>What none of them changes: the kinds of the nodes, the contents of templates, the identities in use.\<close>

definition same_nodes :: "Dom \<Rightarrow> Dom \<Rightarrow> bool" where
  "same_nodes d' d \<longleftrightarrow> dom_next d' = dom_next d
     \<and> (\<forall>x. nd_kind (dom_node d' x) = nd_kind (dom_node d x) \<and> nd_content (dom_node d' x) = nd_content (dom_node d x))"

lemma same_nodes_refl [simp]: "same_nodes d d"
  by (simp add: same_nodes_def)

lemma same_nodes_trans: "same_nodes d2 d1 \<Longrightarrow> same_nodes d1 d \<Longrightarrow> same_nodes d2 d"
  by (simp add: same_nodes_def)

lemma same_nodes_quiet [simp]:
  "same_nodes (dom_assert b d') d = same_nodes d' d" "same_nodes (dom_call e d') d = same_nodes d' d"
  "same_nodes d' (dom_assert b d) = same_nodes d' d" "same_nodes d' (dom_call e d) = same_nodes d' d"
  by (simp_all add: same_nodes_def)

lemma same_nodes_tags: "same_nodes d' d \<Longrightarrow> nodeTag d' x = nodeTag d x \<and> isFragment d' x = isFragment d x"
  by (simp add: same_nodes_def nodeTag_def isFragment_def)

lemma same_nodes_links:
  "same_nodes (appendChildCommon p c d) d" "same_nodes (insertBeforeCommon p n c d) d"
  "same_nodes (removeBetween p pv nx c d) d"
  by (auto simp: same_nodes_def appendChildCommon_def insertBeforeCommon_def removeBetween_def Let_def
      split: option.splits)

text \<open>What the parser may link: a node that is no fragment, under a node that is no template.\<close>

definition linkable :: "Dom \<Rightarrow> nat \<Rightarrow> nat \<Rightarrow> bool" where
  "linkable d p c \<longleftrightarrow> \<not> isFragment d c \<and> nodeTag d p \<noteq> Some templateTag"

lemma parserAppendChild_rep:
  assumes "dom_rep d kids" "parentNode d c = None" "linkable d p c"
  shows "dom_rep (parserAppendChild p c d) (kids(p := kids p @ [c]))"
    "dom_asserts (parserAppendChild p c d) = dom_asserts d" "same_nodes (parserAppendChild p c d) d"
    "dom_events (parserAppendChild p c d) = dom_events d @ [ChildInserted p c]"
proof -
  have q: "dom_rep (dom_assert b d) kids" "parentNode (dom_assert b d) c = None" for b using assms by simp_all
  show "dom_rep (parserAppendChild p c d) (kids(p := kids p @ [c]))"
    using appendChildCommon_rep [OF q] by (simp add: parserAppendChild_def)
  show "dom_asserts (parserAppendChild p c d) = dom_asserts d"
    using assms by (simp add: parserAppendChild_def linkable_def appendChildCommon_fields)
  show "same_nodes (parserAppendChild p c d) d"
    using same_nodes_links(1) [of p c "dom_assert b d" for b] by (simp add: parserAppendChild_def)
  show "dom_events (parserAppendChild p c d) = dom_events d @ [ChildInserted p c]"
    by (simp add: parserAppendChild_def appendChildCommon_def Let_def split: option.split)
qed

lemma parserInsertBefore_rep:
  assumes "dom_rep d kids" "parentNode d c = None" "linkable d p c" "kids p = us @ n # vs"
  shows "dom_rep (parserInsertBefore p c n d) (kids(p := us @ c # n # vs))"
    "dom_asserts (parserInsertBefore p c n d) = dom_asserts d" "same_nodes (parserInsertBefore p c n d) d"
    "dom_events (parserInsertBefore p c n d) = dom_events d @ [ChildInserted p c]"
proof -
  note D = dom_repD [OF assms(1)] and S = chain_split [OF assms(1,4)]
  have c: "c \<notin> set (kids p)" using D(5) [of c p] assms(2) by simp
  have go: "previousSibling d n \<noteq> Some c" "n \<noteq> c" using c S(3) last_of_member [of us c] assms(4) by auto
  have q: "dom_rep (dom_assert b d) kids" "parentNode (dom_assert b d) c = None" for b using assms by simp_all
  show "dom_rep (parserInsertBefore p c n d) (kids(p := us @ c # n # vs))"
    using insertBeforeCommon_rep(1) [OF q assms(4)] go by (simp add: parserInsertBefore_def Let_def)
  show "dom_asserts (parserInsertBefore p c n d) = dom_asserts d"
    using insertBeforeCommon_rep(2) [OF q assms(4)] go assms(3) S(2)
    by (simp add: parserInsertBefore_def Let_def linkable_def)
  show "same_nodes (parserInsertBefore p c n d) d"
    using same_nodes_links(2) [of p n c "dom_assert b d" for b] by (simp add: parserInsertBefore_def Let_def)
  show "dom_events (parserInsertBefore p c n d) = dom_events d @ [ChildInserted p c]"
    using go by (simp add: parserInsertBefore_def insertBeforeCommon_def Let_def split: option.split)
qed

lemma parserRemoveChild_rep:
  assumes "dom_rep d kids" "kids p = us @ c # vs" "\<not> isFragment d c"
  shows "dom_rep (parserRemoveChild p c d) (kids(p := us @ vs))"
    "dom_asserts (parserRemoveChild p c d) = dom_asserts d" "same_nodes (parserRemoveChild p c d) d"
    "parentNode (parserRemoveChild p c d) c = None"
    "dom_events (parserRemoveChild p c d) = dom_events d @ [ChildRemoved p c]"
proof -
  note S = chain_split [OF assms(1,2)]
  have q: "dom_rep (dom_assert b d) kids" for b using assms by simp
  note R = removeBetween_rep [OF q assms(2)]
  show "dom_rep (parserRemoveChild p c d) (kids(p := us @ vs))"
    "dom_asserts (parserRemoveChild p c d) = dom_asserts d" "parentNode (parserRemoveChild p c d) c = None"
    using R assms(3) S(2) by (simp_all add: parserRemoveChild_def)
  show "same_nodes (parserRemoveChild p c d) d"
    using same_nodes_links(3) [where d = "dom_assert b d" for b] by (simp add: parserRemoveChild_def)
  show "dom_events (parserRemoveChild p c d) = dom_events d @ [ChildRemoved p c]"
    using S(2) by (simp add: parserRemoveChild_def removeBetween_def Let_def split: option.split)
qed

subsection \<open>Taking all children\<close>

lemma getChildNodes_chain: "chain d p pv xs None \<Longrightarrow> getChildNodes_loop d (first_of xs None) = Some xs"
proof (induction xs arbitrary: pv)
  case Nil
  then show ?case by (subst getChildNodes_loop.simps) simp
next
  case (Cons x xs)
  then have "getChildNodes_loop d (first_of xs None) = Some xs" "nextSibling d x = first_of xs None" by auto
  then show ?case by (subst getChildNodes_loop.simps) simp
qed

lemma removeChildren_rep:
  assumes "dom_rep d kids" "dom_asserts d"
  shows "\<exists>d'. removeChildren_loop p d = Some d' \<and> dom_rep d' (kids(p := [])) \<and> dom_asserts d' \<and> same_nodes d' d
    \<and> (\<forall>c \<in> set (kids p). parentNode d' c = None)"
  using assms
proof (induction "kids p" arbitrary: d kids)
  case Nil
  then show ?case using dom_repD(3) [OF Nil(2), of p] by (subst removeChildren_loop.simps) (simp add: fun_upd_idem)
next
  case (Cons c cs)
  have split: "kids p = [] @ c # cs" using Cons(2) by simp
  note S = chain_split [OF Cons(3) split] and R = removeBetween_rep [OF Cons(3) split]
  let ?d = "dom_call (ChildRemoved p c) (removeBetween p None (nextSibling d c) c d)"
  have rep: "dom_rep ?d (kids(p := cs))" "dom_asserts ?d" "same_nodes ?d d" "parentNode ?d c = None"
    using R S(3) Cons(4) same_nodes_links(3) by simp_all
  have out: "c \<notin> set cs" using S by simp
  obtain d' where d': "removeChildren_loop p ?d = Some d'" "dom_rep d' ((kids(p := cs))(p := []))" "dom_asserts d'"
    "same_nodes d' ?d" "\<forall>x \<in> set cs. parentNode d' x = None"
    using Cons(1) [of "kids(p := cs)" ?d] rep by auto
  have "removeChildren_loop p d = Some d'" using d'(1) S(6) by (subst removeChildren_loop.simps) simp
  moreover have "parentNode d' c = None"
  proof (cases "parentNode d' c")
    case (Some q)
    then have "c \<in> set (kids q)" "q \<noteq> p" using dom_repD(5) [OF d'(2), of c q] by (auto split: if_splits)
    then show ?thesis using dom_rep_unique [OF Cons(3), of c q p] split by auto
  qed
  ultimately show ?case using d' rep(3) same_nodes_trans [of d' ?d d] Cons(2) [symmetric] by auto
qed

lemma appendChildren_rep:
  assumes "dom_rep d kids" "dom_asserts d" "distinct xs" "\<forall>c \<in> set xs. parentNode d c = None \<and> linkable d p c"
  shows "dom_rep (appendChildren_loop p xs d) (kids(p := kids p @ xs)) \<and> dom_asserts (appendChildren_loop p xs d)
    \<and> same_nodes (appendChildren_loop p xs d) d"
  using assms
proof (induction xs arbitrary: d kids)
  case Nil
  then show ?case by (simp add: fun_upd_idem)
next
  case (Cons c xs)
  have q: "dom_assert (parentNode d c = None) d = d" using Cons.prems by (simp add: dom_assert_def)
  note A = parserAppendChild_rep [OF Cons.prems(1), of c p]
  let ?d = "parserAppendChild p c d"
  have a: "dom_rep ?d (kids(p := kids p @ [c]))" "dom_asserts ?d" "same_nodes ?d d" using A Cons.prems by simp_all
  have free: "\<forall>x \<in> set xs. parentNode ?d x = None \<and> linkable ?d p x"
    using Cons.prems same_nodes_tags [OF a(3)]
    by (auto simp: parserAppendChild_def appendChildCommon_fields linkable_def)
  have e: "(kids(p := kids p @ [c]))(p := (kids(p := kids p @ [c])) p @ xs) = kids(p := kids p @ c # xs)"
    by (rule ext) simp
  have "distinct xs" using Cons.prems(3) by simp
  note IH = Cons.IH [OF a(1,2) this free, unfolded e]
  show ?case using IH same_nodes_trans [OF conjunct2 [OF conjunct2 [OF IH]] a(3)] by (simp only: appendChildren_loop.simps q)
qed

lemma takeAllChildrenFrom_rep:
  assumes "dom_rep d kids" "dom_asserts d" "\<forall>c \<in> set (kids old). linkable d p c" "p \<noteq> old"
  shows "\<exists>d'. takeAllChildrenFrom p old d = Some d' \<and> dom_rep d' (kids(old := [], p := kids p @ kids old))
    \<and> dom_asserts d' \<and> same_nodes d' d"
proof -
  have get: "getChildNodes d old = Some (kids old)"
    using getChildNodes_chain [OF dom_repD(2) [OF assms(1), of old]] dom_repD(3) [OF assms(1), of old]
    by (simp add: getChildNodes_def)
  obtain d1 where d1: "removeChildren_loop old d = Some d1" "dom_rep d1 (kids(old := []))" "dom_asserts d1"
    "same_nodes d1 d" "\<forall>c \<in> set (kids old). parentNode d1 c = None"
    using removeChildren_rep [OF assms(1,2)] by blast
  have "dom_rep (appendChildren_loop p (kids old) d1) (kids(old := [], p := kids p @ kids old))
      \<and> dom_asserts (appendChildren_loop p (kids old) d1) \<and> same_nodes (appendChildren_loop p (kids old) d1) d1"
    using appendChildren_rep [OF d1(2,3), of "kids old" p] d1(5) dom_repD(1) [OF assms(1), of old] assms(3,4)
      same_nodes_tags [OF d1(4)] by (simp add: linkable_def)
  then show ?thesis using get d1 same_nodes_trans by (auto simp: takeAllChildrenFrom_def)
qed

section \<open>Property\<close>


definition blank_dom :: Dom where
  "blank_dom = \<lparr>dom_node = (\<lambda>_. blankNode (ElementNode (htmlName (lit ''p'')) [])), dom_next = 9, dom_asserts = True, dom_events = []\<rparr>"


end
