(* ===== verification/Html_Construction_Site_Invariant.thy ===== *)
theory Html_Construction_Site_Invariant
  imports Html_Construction_Site Dom_Tree_Links Html_Formatting_List_Properties Html_Element_Stack_Scope
begin

text \<open>
  The invariant of the construction site, which ties the stack of open elements, the list of active
  formatting elements and the tree together, and what the building blocks of its operations keep of it.
\<close>

section \<open>The tree\<close>

text \<open>
  Identities that are not in use have no links, what is linked may be linked, and the contents of a
  template are a fragment.
\<close>

definition dom_ok :: "Dom \<Rightarrow> (nat \<Rightarrow> nat list) \<Rightarrow> bool" where
  "dom_ok d kids \<longleftrightarrow> dom_rep d kids \<and> dom_asserts d
     \<and> (\<forall>x. dom_next d \<le> x \<longrightarrow> parentNode d x = None \<and> kids x = [])
     \<and> (\<forall>p c. c \<in> set (kids p) \<longrightarrow> linkable d p c)
     \<and> (\<forall>x c. nd_content (dom_node d x) = Some c \<longrightarrow> c < dom_next d \<and> isFragment d c)"

lemma dom_okD:
  assumes "dom_ok d kids"
  shows "dom_rep d kids" "dom_asserts d" "dom_next d \<le> x \<Longrightarrow> parentNode d x = None" "dom_next d \<le> x \<Longrightarrow> kids x = []"
    "c \<in> set (kids p) \<Longrightarrow> linkable d p c" "nd_content (dom_node d x) = Some c \<Longrightarrow> c < dom_next d \<and> isFragment d c"
    "c \<in> set (kids p) \<Longrightarrow> c < dom_next d \<and> p < dom_next d"
proof -
  show rep: "dom_rep d kids" and "dom_asserts d" and a: "\<And>x. dom_next d \<le> x \<Longrightarrow> parentNode d x = None"
    and b: "\<And>x. dom_next d \<le> x \<Longrightarrow> kids x = []" and "c \<in> set (kids p) \<Longrightarrow> linkable d p c"
    and "nd_content (dom_node d x) = Some c \<Longrightarrow> c < dom_next d \<and> isFragment d c"
    using assms by (simp_all add: dom_ok_def)
  assume c: "c \<in> set (kids p)"
  then have "parentNode d c = Some p" using dom_repD(5) [OF rep] by simp
  then have "c < dom_next d" using a [of c] by (cases "dom_next d \<le> c") auto
  moreover have "p < dom_next d" using b [of p] c by (cases "dom_next d \<le> p") auto
  ultimately show "c < dom_next d \<and> p < dom_next d" ..
qed

text \<open>The nodes in use keep their tags.\<close>

definition tags_kept :: "Dom \<Rightarrow> Dom \<Rightarrow> bool" where
  "tags_kept d' d \<longleftrightarrow> dom_next d \<le> dom_next d'
     \<and> (\<forall>x < dom_next d. nodeTag d' x = nodeTag d x \<and> isFragment d' x = isFragment d x
          \<and> isTemplateContentKind (nd_kind (dom_node d' x)) = isTemplateContentKind (nd_kind (dom_node d x)))"

lemma tags_kept_refl [simp]: "tags_kept d d"
  by (simp add: tags_kept_def)

lemma tags_kept_trans: "tags_kept d2 d1 \<Longrightarrow> tags_kept d1 d \<Longrightarrow> tags_kept d2 d"
  by (auto simp: tags_kept_def)

lemma tags_kept_same: "same_nodes d' d \<Longrightarrow> tags_kept d' d"
  using same_nodes_tags by (simp add: tags_kept_def same_nodes_def)

lemma tags_keptD: "tags_kept d' d \<Longrightarrow> x < dom_next d \<Longrightarrow> nodeTag d' x = nodeTag d x"
  "tags_kept d' d \<Longrightarrow> x < dom_next d \<Longrightarrow> isFragment d' x = isFragment d x"
  "tags_kept d' d \<Longrightarrow> x < dom_next d \<Longrightarrow> x < dom_next d'"
  "tags_kept d' d \<Longrightarrow> x < dom_next d \<Longrightarrow>
     isTemplateContentKind (nd_kind (dom_node d' x)) = isTemplateContentKind (nd_kind (dom_node d x))"
  by (auto simp: tags_kept_def)

lemma dom_rep_links:
  assumes "dom_rep d kids" "\<And>x. parentNode d' x = parentNode d x \<and> previousSibling d' x = previousSibling d x
      \<and> nextSibling d' x = nextSibling d x \<and> firstChild d' x = firstChild d x \<and> lastChild d' x = lastChild d x"
  shows "dom_rep d' kids"
proof -
  have "chain d' p pv xs nx = chain d p pv xs nx" for p pv xs nx by (rule chain_cong) (simp add: assms(2))
  then show ?thesis using assms by (simp add: dom_rep_def children_are_def cong: option.case_cong)
qed

lemma newNode_ok:
  assumes "dom_ok d kids" "newNode kind d = (x, d')"
  shows "dom_ok d' kids" "tags_kept d' d" "x = dom_next d" "x < dom_next d'" "nodeTag d' x = kindTag kind"
    "isFragment d' x = isFragmentKind kind" "parentNode d' x = None" "kids x = []"
    "dom_asserts d'" "nd_kind (dom_node d' x) = kind"
proof -
  note D = dom_okD [OF assms(1)]
  have x: "x = dom_next d" and d': "d' = d\<lparr>dom_node := (dom_node d)(x := blankNode kind), dom_next := Suc x\<rparr>"
    using assms(2) by (auto simp: newNode_def)
  note R = dom_repD [OF D(1)]
  have free: "parentNode d x = None" "kids x = []" using D(3,4) [of x] x by auto
  have links: "previousSibling d x = None" "nextSibling d x = None" "firstChild d x = None" "lastChild d x = None"
    using R(6) [of x] R(3,4) [of x] free by simp_all
  have rep: "dom_rep d' kids"
    by (rule dom_rep_links [OF D(1)]) (use free links in \<open>auto simp: d' blankNode_def\<close>)
  show t: "tags_kept d' d" by (simp add: tags_kept_def d' x nodeTag_def isFragment_def)
  have "linkable d' p c" if "c \<in> set (kids p)" for p c
    using D(5,7) [OF that] tags_keptD [OF t] by (auto simp: linkable_def)
  moreover have "c < dom_next d' \<and> isFragment d' c" if "nd_content (dom_node d' y) = Some c" for y c
    using D(6) [of y c] that tags_keptD(2,3) [OF t, of c] by (auto simp: d' blankNode_def split: if_splits)
  ultimately show "dom_ok d' kids" using rep D(2,3,4)
    unfolding dom_ok_def by (auto simp: d' x blankNode_def)
  show "x = dom_next d" by (rule x)
  show "x < dom_next d'" "nodeTag d' x = kindTag kind" "isFragment d' x = isFragmentKind kind" "parentNode d' x = None"
    "kids x = []" "dom_asserts d'" "nd_kind (dom_node d' x) = kind"
    using free D(2) by (simp_all add: d' nodeTag_def isFragment_def blankNode_def)
qed

lemma templateContent_ok:
  assumes "dom_ok d kids" "templateContent x d = (c, d')"
  shows "dom_ok d' kids" "tags_kept d' d" "isFragment d' c" "c < dom_next d'" "nodeTag d' c = None"
    "dom_events d' = dom_events d"
proof -
  have main: "dom_ok d' kids \<and> tags_kept d' d \<and> isFragment d' c \<and> c < dom_next d' \<and> dom_events d' = dom_events d"
  proof (cases "nd_content (dom_node d x)")
    case (Some c')
    then show ?thesis using assms dom_okD(6) [OF assms(1), of x c'] by (simp add: templateContent_def)
  next
    case None
    obtain y d1 where new: "newNode (DocumentFragmentNode True) d = (y, d1)" by (cases "newNode (DocumentFragmentNode True) d")
    then have d': "c = y" "d' = updNode x (nd_content_update (\<lambda>_. Some y)) d1"
      using None assms(2) by (auto simp: templateContent_def)
    note N = newNode_ok [OF assms(1) new]
    note D = dom_okD [OF N(1)]
    have rep: "dom_rep d' kids" by (rule dom_rep_links [OF D(1)]) (simp add: d')
    have tags: "nodeTag d' z = nodeTag d1 z" "isFragment d' z = isFragment d1 z" "nd_kind (dom_node d' z) = nd_kind (dom_node d1 z)" for z
      by (simp_all add: d' nodeTag_def isFragment_def)
    have "z < dom_next d' \<and> isFragment d' z" if "nd_content (dom_node d' w) = Some z" for w z
      using that D(6) [of w z] N(4,6) by (auto simp: tags) (auto simp: d' split: if_splits)
    then have "dom_ok d' kids" using rep D(2-5) unfolding dom_ok_def
      by (auto simp: linkable_def tags) (auto simp: d')
    moreover have "tags_kept d' d" using N(2) by (simp add: tags_kept_def tags) (simp add: d')
    moreover have "dom_events d' = dom_events d" using new by (auto simp: d' newNode_def)
    ultimately show ?thesis using N(4,6) tags by (simp add: d')
  qed
  then show "dom_ok d' kids" "tags_kept d' d" "isFragment d' c" "c < dom_next d'" "dom_events d' = dom_events d" by simp_all
  show "nodeTag d' c = None" using main by (cases "nd_kind (dom_node d' c)") (simp_all add: isFragment_def nodeTag_def)
qed

section \<open>Formatting elements\<close>

definition formatting_item :: "HTMLStackItem \<Rightarrow> bool" where
  "formatting_item item \<longleftrightarrow> item_ok item \<and> si_namespaceURI item = Some xhtmlNamespaceURI
     \<and> isFormattingTag (orEmpty (si_localName item))"

lemma formatting_names:
  "isFormattingTag name \<longleftrightarrow> name \<in> set (map lit [''a'', ''nobr'', ''b'', ''big'', ''code'', ''em'', ''font'', ''i'', ''s'',
     ''small'', ''strike'', ''strong'', ''tt'', ''u''])"
  by (simp add: isFormattingTag_def isNonAnchorFormattingTag_def isNonAnchorNonNobrFormattingTag_def)

lemma formatting_itemD:
  assumes "formatting_item item"
  shows "isElement item" "node_tag (si_node item) = Some (htmlName (orEmpty (si_localName item)))"
    "si_localName item = Some (orEmpty (si_localName item))" "isElementNode item" "item_ok item"
proof -
  have n: "si_localName item \<noteq> None" using assms by (auto simp: formatting_item_def formatting_names orEmpty_def split: option.splits)
  then show "isElement item" "si_localName item = Some (orEmpty (si_localName item))"
    by (auto simp: isElement_def isDocumentFragment_def orEmpty_def)
  show ok: "item_ok item" using assms by (simp add: formatting_item_def)
  show "isElementNode item" using isElementNode_iff [OF ok] \<open>isElement item\<close> by simp
  show "node_tag (si_node item) = Some (htmlName (orEmpty (si_localName item)))"
    using assms n by (auto simp: formatting_item_def item_ok_def htmlName_def orEmpty_def split: option.splits)
qed

text \<open>A formatting element is none of the elements the code singles out elsewhere.\<close>

lemma formatting_tag_other:
  assumes "isFormattingTag name" "tag \<in> {templateTag, scriptTag, svgScriptTag, htmlTag, headTag, bodyTag,
    htmlName (lit ''applet''), htmlName (lit ''embed''), htmlName (lit ''object''), htmlName (lit ''table''),
    htmlName (lit ''form'')}"
  shows "htmlName name \<noteq> tag"
  using assms by (auto simp: formatting_names htmlName_def templateTag_def scriptTag_def svgScriptTag_def svgName_def
      htmlTag_def headTag_def bodyTag_def)

lemma formatting_not:
  assumes "formatting_item item"
  shows "plain_item item" "\<not> isScopeMarker item" "\<not> isSpecialNode item" "\<not> causesFosterParenting item"
proof -
  note F = formatting_itemD [OF assms]
  let ?n = "orEmpty (si_localName item)"
  have f: "isFormattingTag ?n" and ns: "si_namespaceURI item = Some xhtmlNamespaceURI"
    using assms by (simp_all add: formatting_item_def)
  have frag: "\<not> isDocumentFragment item" using F(1) by (simp add: isElement_def)
  show "plain_item item" using f F(3) ns frag
    by (auto simp: formatting_names plain_item_def isRootNode_def hasTagName_def htmlTag_def headTag_def bodyTag_def htmlName_def)
  show "\<not> isScopeMarker item" using f F(2,3) ns frag
    by (auto simp: formatting_names isScopeMarker_def isRootNode_def hasTagName_def htmlTag_def htmlName_def
        mathmlName_def svgName_def nodeHasTag_def)
  show "\<not> isSpecialNode item" using f F(3) ns frag
    by (auto simp: formatting_names isSpecialNode_def localNameIn_def specialHTMLNames_def)
  show "\<not> causesFosterParenting item" using f F(3) ns
    by (auto simp: formatting_names causesFosterParenting_def hasTagName_def htmlName_def)
qed

end
