(* ===== verification/Html_Construction_Site_Steps.thy ===== *)
theory Html_Construction_Site_Steps
  imports Html_Construction_Site_Invariant
begin

text \<open>
  What creating, attaching and reconstructing elements do to the construction site.
\<close>

section \<open>The invariant of the site\<close>

text \<open>
  The items of stack and list have the tags of their nodes in the tree, the list holds formatting
  elements only, and an element in both has one item.
\<close>

definition item_in :: "Dom \<Rightarrow> HTMLStackItem \<Rightarrow> bool" where
  "item_in d item \<longleftrightarrow> item_id item < dom_next d \<and> node_tag (si_node item) = nodeTag d (item_id item)"

definition site_ok :: "HTMLConstructionSite \<Rightarrow> (nat \<Rightarrow> nat list) \<Rightarrow> bool" where
  "site_ok s kids \<longleftrightarrow> stack_ok (m_openElements s) \<and> list_inv (m_activeFormattingElements s) \<and> cs_asserts s
     \<and> dom_ok (cs_dom s) kids
     \<and> list_all (item_in (cs_dom s)) (m_top (m_openElements s))
     \<and> list_all (\<lambda>e. formatting_item e \<and> item_in (cs_dom s) e) (entry_items (m_entries (m_activeFormattingElements s)))
     \<and> (\<forall>i \<in> set (m_top (m_openElements s)). \<forall>e \<in> set (entry_items (m_entries (m_activeFormattingElements s))).
          item_id i = item_id e \<longrightarrow> i = e)"

lemma site_okD:
  assumes "site_ok s kids"
  shows "stack_ok (m_openElements s)" "list_inv (m_activeFormattingElements s)" "cs_asserts s" "dom_ok (cs_dom s) kids"
    "i \<in> set (m_top (m_openElements s)) \<Longrightarrow> item_in (cs_dom s) i"
    "e \<in> set (entry_items (m_entries (m_activeFormattingElements s))) \<Longrightarrow> formatting_item e \<and> item_in (cs_dom s) e"
    "i \<in> set (m_top (m_openElements s)) \<Longrightarrow> e \<in> set (entry_items (m_entries (m_activeFormattingElements s)))
      \<Longrightarrow> item_id i = item_id e \<Longrightarrow> i = e"
  using assms unfolding site_ok_def list_all_iff by blast+

lemma cs_quiet: "cs_asserts s \<Longrightarrow> b \<Longrightarrow> cs_assert b s = s"
  by (simp add: cs_assert_def)

lemma item_in_kept: "tags_kept d' d \<Longrightarrow> item_in d item \<Longrightarrow> item_in d' item"
  using tags_keptD(1,3) by (simp add: item_in_def)

lemma site_ok_dom:
  assumes "site_ok s kids" "dom_ok d' kids'" "tags_kept d' (cs_dom s)"
  shows "site_ok (s\<lparr>cs_dom := d'\<rparr>) kids'"
  using assms item_in_kept [OF assms(3)] unfolding site_ok_def list_all_iff by simp

lemma site_ok_queue [simp]: "site_ok (s\<lparr>m_taskQueue := q\<rparr>) kids = site_ok s kids"
  "site_ok (s\<lparr>m_head := h\<rparr>) kids = site_ok s kids" "site_ok (s\<lparr>m_form := f\<rparr>) kids = site_ok s kids"
  by (simp_all add: site_ok_def)

lemma orEmpty_Some [simp]: "orEmpty (Some x) = x" "orEmpty None = []"
  by (simp_all add: orEmpty_def)

text \<open>What is documented of the generated factory: a known name makes an element of that name.\<close>

definition env_ok :: "ElementEnvironment \<Rightarrow> bool" where
  "env_ok env \<longleftrightarrow> (\<forall>name tag. createKnownElement env name = Some tag \<longrightarrow> tag = htmlName name)"

section \<open>Creating elements\<close>

lemma current_of_stack:
  assumes "m_top (m_openElements s) = cur # rest"
  shows "currentStackItem s = Some cur" "currentNode s = Some (si_node cur)"
  using assms by (simp_all add: currentStackItem_def currentNode_def)

lemma ownerDocument_ok:
  assumes "site_ok s kids" "m_top (m_openElements s) \<noteq> []"
  shows "\<exists>d'. ownerDocumentForCurrentNode s = Some (s\<lparr>cs_dom := d'\<rparr>) \<and> dom_ok d' kids \<and> tags_kept d' (cs_dom s)"
proof -
  obtain cur rest where cur: "m_top (m_openElements s) = cur # rest" using assms(2) by (cases "m_top (m_openElements s)") auto
  obtain c d' where c: "templateContent (item_id cur) (cs_dom s) = (c, d')" by (cases "templateContent (item_id cur) (cs_dom s)")
  note T = templateContent_ok [OF site_okD(4) [OF assms(1)] c]
  show ?thesis
  proof (cases "node_tag (si_node cur) = Some templateTag")
    case True
    then show ?thesis using T c by (intro exI [of _ d']) (simp add: ownerDocumentForCurrentNode_def current_of_stack [OF cur])
  next
    case False
    then show ?thesis using site_okD(4) [OF assms(1)]
      by (intro exI [of _ "cs_dom s"]) (simp add: ownerDocumentForCurrentNode_def current_of_stack [OF cur])
  qed
qed

text \<open>A node that was made just now: it has no place in the tree and no item.\<close>

definition fresh_in :: "HTMLConstructionSite \<Rightarrow> nat \<Rightarrow> bool" where
  "fresh_in s x \<longleftrightarrow> x \<notin> item_id ` set (m_top (m_openElements s))
     \<and> x \<notin> item_id ` set (entry_items (m_entries (m_activeFormattingElements s)))"

lemma in_use_not_fresh:
  assumes "site_ok s kids" "dom_next (cs_dom s) \<le> x"
  shows "fresh_in s x"
proof -
  have "item_id i \<noteq> x" if "i \<in> set (m_top (m_openElements s))" for i
    using site_okD(5) [OF assms(1) that] assms(2) by (auto simp: item_in_def)
  moreover have "item_id e \<noteq> x" if "e \<in> set (entry_items (m_entries (m_activeFormattingElements s)))" for e
    using site_okD(6) [OF assms(1) that] assms(2) by (auto simp: item_in_def)
  ultimately show ?thesis by (auto simp: fresh_in_def)
qed

lemma elementForToken_ok:
  assumes "site_ok s kids"
  shows "\<exists>d' x. elementForToken env tag token s =
      (\<lparr>node_id = x, node_tag = Some tag\<rparr>,
       token\<lparr>at_attributes := setAttributes env tag (at_attributes token) (m_parserContentPolicy s)\<rparr>, s\<lparr>cs_dom := d'\<rparr>)
    \<and> dom_ok d' kids \<and> tags_kept d' (cs_dom s) \<and> dom_next (cs_dom s) \<le> x \<and> x < dom_next d' \<and> nodeTag d' x = Some tag
    \<and> parentNode d' x = None \<and> kids x = [] \<and> fresh_in s x
    \<and> nd_kind (dom_node d' x) = ElementNode tag (setAttributes env tag (at_attributes token) (m_parserContentPolicy s))"
proof -
  let ?atts = "setAttributes env tag (at_attributes token) (m_parserContentPolicy s)"
  obtain x d' where new: "newNode (ElementNode tag ?atts) (cs_dom s) = (x, d')" by (cases "newNode (ElementNode tag ?atts) (cs_dom s)")
  note N = newNode_ok [OF site_okD(4) [OF assms] new]
  show ?thesis using N in_use_not_fresh [OF assms, of x]
    by (intro exI [of _ d'] exI [of _ x]) (simp add: elementForToken_def Let_def new)
qed

lemma createHTMLElement_ok:
  assumes "site_ok s kids" "env_ok env" "m_top (m_openElements s) \<noteq> []"
  shows "\<exists>d' x. createHTMLElement env token s =
      Some (\<lparr>node_id = x, node_tag = Some (htmlName (at_name token))\<rparr>,
        token\<lparr>at_attributes := setAttributes env (htmlName (at_name token)) (at_attributes token) (m_parserContentPolicy s)\<rparr>,
        s\<lparr>cs_dom := d'\<rparr>)
    \<and> dom_ok d' kids \<and> tags_kept d' (cs_dom s) \<and> dom_next (cs_dom s) \<le> x \<and> x < dom_next d'
    \<and> nodeTag d' x = Some (htmlName (at_name token)) \<and> parentNode d' x = None \<and> kids x = [] \<and> fresh_in s x
    \<and> nd_kind (dom_node d' x) = ElementNode (htmlName (at_name token))
        (setAttributes env (htmlName (at_name token)) (at_attributes token) (m_parserContentPolicy s))"
proof -
  let ?tag = "htmlName (at_name token)"
  obtain d1 where d1: "ownerDocumentForCurrentNode s = Some (s\<lparr>cs_dom := d1\<rparr>)" "dom_ok d1 kids" "tags_kept d1 (cs_dom s)"
    using ownerDocument_ok [OF assms(1,3)] by blast
  let ?s = "s\<lparr>cs_dom := d1\<rparr>"
  have ok: "site_ok ?s kids" by (rule site_ok_dom [OF assms(1) d1(2,3)])
  have create: "createHTMLElement env token s = Some (elementForToken env ?tag token ?s)"
  proof (cases "createKnownElement env (at_name token)")
    case None
    then show ?thesis by (simp add: createHTMLElement_def createHTMLElementOrFindCustomElementInterface_def d1(1))
  next
    case (Some tag)
    then have "tag = ?tag" using assms(2) by (simp add: env_ok_def)
    then show ?thesis using Some site_okD(3) [OF ok]
      by (simp add: createHTMLElement_def createHTMLElementOrFindCustomElementInterface_def d1(1) cs_quiet htmlName_def)
  qed
  obtain d' x where e: "elementForToken env ?tag token ?s = (\<lparr>node_id = x, node_tag = Some ?tag\<rparr>,
      token\<lparr>at_attributes := setAttributes env ?tag (at_attributes token) (m_parserContentPolicy ?s)\<rparr>, ?s\<lparr>cs_dom := d'\<rparr>)"
    "dom_ok d' kids" "tags_kept d' (cs_dom ?s)" "dom_next (cs_dom ?s) \<le> x" "x < dom_next d'" "nodeTag d' x = Some ?tag"
    "parentNode d' x = None" "kids x = []" "fresh_in ?s x"
    "nd_kind (dom_node d' x) = ElementNode ?tag (setAttributes env ?tag (at_attributes token) (m_parserContentPolicy ?s))"
    using elementForToken_ok [OF ok, of env ?tag token] by blast
  have "tags_kept d' (cs_dom s)" using tags_kept_trans [OF e(3)] d1(3) by simp
  moreover have "dom_next (cs_dom s) \<le> x" using e(4) d1(3) by (simp add: tags_kept_def)
  ultimately show ?thesis using create e(1,2,5-8,10) e(9)
    by (intro exI [of _ d'] exI [of _ x]) (simp add: fresh_in_def)
qed

lemma setAttributes_ok: "attributes_ok item \<Longrightarrow> distinct (map da_name (setAttributes env tag (si_attributes item) policy))"
  by (simp add: attributes_ok_def setAttributes_def stripScriptingAttributes_def distinct_map_filter)

text \<open>The clone of a formatting element: a new node of the same name, with the attributes that are allowed.\<close>

definition clone_of :: "ElementEnvironment \<Rightarrow> ParserContentPolicy \<Rightarrow> HTMLStackItem \<Rightarrow> nat \<Rightarrow> HTMLStackItem" where
  "clone_of env policy item x =
     \<lparr>si_node = \<lparr>node_id = x, node_tag = node_tag (si_node item)\<rparr>, si_namespaceURI = si_namespaceURI item,
      si_localName = si_localName item,
      si_attributes = setAttributes env (htmlName (orEmpty (si_localName item))) (si_attributes item) policy\<rparr>"

lemma clone_fields [simp]: "item_id (clone_of env policy item x) = x" "node_tag (si_node (clone_of env policy item x)) = node_tag (si_node item)"
  "si_localName (clone_of env policy item x) = si_localName item" "si_namespaceURI (clone_of env policy item x) = si_namespaceURI item"
  by (simp_all add: clone_of_def)

lemma clone_ok:
  assumes "formatting_item item" "attributes_ok item"
  shows "formatting_item (clone_of env policy item x)" "attributes_ok (clone_of env policy item x)"
proof -
  show "formatting_item (clone_of env policy item x)"
    using assms(1) by (auto simp: formatting_item_def item_ok_def split: option.splits)
  show "attributes_ok (clone_of env policy item x)"
    using setAttributes_ok [OF assms(2)] unfolding attributes_ok_def clone_of_def by simp
qed

lemma createElementFromSavedToken_ok:
  assumes "site_ok s kids" "env_ok env" "m_top (m_openElements s) \<noteq> []" "formatting_item item"
  shows "\<exists>d' x. createElementFromSavedToken env item s = Some (clone_of env (m_parserContentPolicy s) item x, s\<lparr>cs_dom := d'\<rparr>)
    \<and> dom_ok d' kids \<and> tags_kept d' (cs_dom s) \<and> dom_next (cs_dom s) \<le> x \<and> x < dom_next d'
    \<and> nodeTag d' x = node_tag (si_node item) \<and> parentNode d' x = None \<and> kids x = [] \<and> fresh_in s x"
proof -
  note F = formatting_itemD [OF assms(4)]
  let ?n = "orEmpty (si_localName item)"
  let ?token = "AtomicHTMLToken_tag StartTag ?n (si_attributes item)"
  have t: "at_name ?token = ?n" "at_attributes ?token = si_attributes item" by (simp_all add: AtomicHTMLToken_tag_def AtomicHTMLToken_empty_def)
  have ns: "si_namespaceURI item = Some xhtmlNamespaceURI" "orEmpty (si_namespaceURI item) = xhtmlNamespaceURI" "isFormattingTag ?n"
    using assms(4) by (simp_all add: formatting_item_def orEmpty_def)
  have q: "cs_assert (isElement item \<and> si_namespaceURI item = Some xhtmlNamespaceURI \<and> isFormattingTag ?n) s = s"
    using F ns site_okD(3) [OF assms(1)] by (simp add: cs_quiet)
  obtain d' x where c: "createHTMLElement env ?token s =
      Some (\<lparr>node_id = x, node_tag = Some (htmlName ?n)\<rparr>,
        ?token\<lparr>at_attributes := setAttributes env (htmlName ?n) (si_attributes item) (m_parserContentPolicy s)\<rparr>, s\<lparr>cs_dom := d'\<rparr>)"
    "dom_ok d' kids" "tags_kept d' (cs_dom s)" "dom_next (cs_dom s) \<le> x" "x < dom_next d'"
    "nodeTag d' x = Some (htmlName ?n)" "parentNode d' x = None" "kids x = []" "fresh_in s x"
    using createHTMLElement_ok [OF assms(1-3), of ?token] unfolding t by blast
  have "createElementFromSavedToken env item s = Some (clone_of env (m_parserContentPolicy s) item x, s\<lparr>cs_dom := d'\<rparr>)"
    unfolding createElementFromSavedToken_def Let_def q c(1)
    by (simp add: clone_of_def HTMLStackItem_forToken_def ns t(1) F(2) F(3) [symmetric])
  then show ?thesis using c F(2) by auto
qed

section \<open>Finding a place\<close>

text \<open>
  The element below the last table takes the nodes a table cannot hold, unless the parent of the table
  does. When the table is right above the root of a fragment, there is no such element.
\<close>

definition foster_ok :: "HTMLConstructionSite \<Rightarrow> bool" where
  "foster_ok s \<longleftrightarrow> (case rev (m_top (m_openElements s)) of
     root # table # _ \<Rightarrow> matchesHTMLTag (lit ''table'') table \<and> \<not> isElementNode root \<longrightarrow>
       parentCanBeFosterParent s (parentNode (cs_dom s) (item_id table))
   | _ \<Rightarrow> True)"

lemma find_record_Some:
  "find_record P items = Some i \<Longrightarrow> i < length items \<and> P (items ! i) \<and> (\<forall>j < i. \<not> P (items ! j))"
proof (induction items arbitrary: i)
  case (Cons item items)
  show ?case
  proof (cases "P item")
    case False
    then obtain k where k: "find_record P items = Some k" "i = Suc k" using Cons.prems by auto
    have "\<not> P ((item # items) ! j)" if "j < i" for j using that k Cons.IH [OF k(1)] False by (cases j) auto
    then show ?thesis using Cons.IH [OF k(1)] k by auto
  qed (use Cons.prems in auto)
qed simp

lemma find_record_None: "find_record P items = None \<longleftrightarrow> (\<forall>i \<in> set items. \<not> P i)"
  by (induction items) auto

lemma table_not_root: "matchesHTMLTag (lit ''table'') item \<Longrightarrow> \<not> isRootNode item" "matchesHTMLTag (lit ''template'') item \<Longrightarrow> \<not> isRootNode item"
  by (auto simp: matchesHTMLTag_def isRootNode_def isDocumentFragment_def hasTagName_def htmlTag_def htmlName_def)

lemma not_root_below:
  assumes "items_ok items" "i < length items" "\<not> isRootNode (items ! i)"
  shows "i + 1 < length items" "isElementNode (items ! i)"
    "i + 2 < length items \<Longrightarrow> isElementNode (items ! (i + 1))"
proof -
  have last: "isRootNode (last items)" "items \<noteq> []" using assms(1,2) by (auto simp: items_ok_def)
  show "i + 1 < length items"
  proof (rule ccontr)
    assume "\<not> i + 1 < length items"
    then have "i = length items - 1" using assms(2) by simp
    then have "items ! i = last items" using last(2) by (simp add: last_conv_nth)
    then show False using assms(3) last(1) by simp
  qed
  have ok: "item_ok (items ! j)" if "j < length items" for j using assms(1) that by (auto simp: items_ok_def list_all_length)
  show "isElementNode (items ! i)" using not_root_element [OF ok] assms(2,3) by simp
  assume "i + 2 < length items"
  then have "\<not> isRootNode (items ! (i + 1))"
    using assms(1) by (auto simp: items_ok_def list_all_length nth_butlast)
  then show "isElementNode (items ! (i + 1))" using not_root_element ok \<open>i + 1 < length items\<close> by blast
qed

lemma foster_at_bottom:
  assumes "foster_ok s" "i + 2 = length (m_top (m_openElements s))" "matchesHTMLTag (lit ''table'') (m_top (m_openElements s) ! i)"
    "\<not> isElementNode (m_top (m_openElements s) ! (i + 1))"
  shows "parentCanBeFosterParent s (parentNode (cs_dom s) (item_id (m_top (m_openElements s) ! i)))"
proof -
  let ?items = "m_top (m_openElements s)"
  have "rev ?items = ?items ! (i + 1) # ?items ! i # drop 2 (rev ?items)"
  proof (rule nth_equalityI)
    show "length (rev ?items) = length (?items ! (i + 1) # ?items ! i # drop 2 (rev ?items))" using assms(2) by simp
    fix k assume "k < length (rev ?items)"
    then show "rev ?items ! k = (?items ! (i + 1) # ?items ! i # drop 2 (rev ?items)) ! k"
      using assms(2) [symmetric] by (cases k; cases "k - 1") (auto simp: rev_nth)
  qed
  then obtain zs where r: "rev ?items = ?items ! (i + 1) # ?items ! i # zs" by blast
  show ?thesis using assms(1,3,4) unfolding foster_ok_def r by (simp only: list.case simp_thms)
qed

lemma findFosterTable_ok:
  assumes "site_ok s kids" "foster_ok s" "m_top (m_openElements s) \<noteq> []"
  shows "\<exists>p n. findFosterTable s = Some ((p, n), s) \<and> p < dom_next (cs_dom s)
    \<and> (\<forall>t. n = Some t \<longrightarrow> parentNode (cs_dom s) t = Some p)"
proof -
  let ?items = "m_top (m_openElements s)"
  have ok: "items_ok ?items" and root: "m_rootNode (m_openElements s) = Some (item_id (last ?items))"
    using site_okD(1) [OF assms(1)] assms(3) by (simp_all add: stack_ok_def stack_inv_def)
  have used: "item_id i < dom_next (cs_dom s)" if "i \<in> set ?items" for i
    using site_okD(5) [OF assms(1) that] by (simp add: item_in_def)
  show ?thesis
  proof (cases "topmost (lit ''table'') (m_openElements s)")
    case None
    then show ?thesis using root used [OF last_in_set [OF assms(3)]] by (simp add: findFosterTable_def)
  next
    case (Some i)
    have i: "i < length ?items" "matchesHTMLTag (lit ''table'') (?items ! i)"
      using find_record_Some [OF Some [unfolded topmost_def]] by auto
    note below = not_root_below [OF ok i(1) table_not_root(1) [OF i(2)]]
    have q: "cs_assert (isElementNode (?items ! i)) s = s" using below(2) site_okD(3) [OF assms(1)] by (simp add: cs_quiet)
    let ?p = "parentNode (cs_dom s) (item_id (?items ! i))"
    show ?thesis
    proof (cases "parentCanBeFosterParent s ?p")
      case True
      then obtain p where p: "?p = Some p" by (auto simp: parentCanBeFosterParent_def split: option.splits)
      have "p < dom_next (cs_dom s)" using dom_okD(7) [OF site_okD(4) [OF assms(1)]]
          dom_repD(5) [OF dom_okD(1) [OF site_okD(4) [OF assms(1)]], of "item_id (?items ! i)" p] p by blast
      then show ?thesis using True p unfolding findFosterTable_def Some Let_def option.case q by simp
    next
      case False
      have "isElementNode (?items ! (i + 1))"
      proof (cases "i + 2 < length ?items")
        case at: False
        then have "i + 2 = length ?items" using below(1) by simp
        then show ?thesis using foster_at_bottom [OF assms(2) _ i(2)] False by blast
      qed (use below(3) in blast)
      then have q2: "cs_assert (isElementNode (?items ! (i + 1))) s = s" using site_okD(3) [OF assms(1)] by (simp add: cs_quiet)
      have "item_id (?items ! (i + 1)) < dom_next (cs_dom s)" by (rule used) (use below(1) in simp)
      then show ?thesis using False below(1) q2 unfolding findFosterTable_def Some Let_def option.case q
        by (cases ?p) simp_all
    qed
  qed
qed

lemma findFosterSite_ok:
  assumes "site_ok s kids" "foster_ok s" "m_top (m_openElements s) \<noteq> []"
  shows "\<exists>p n. findFosterSite s = Some ((p, n), s) \<and> p < dom_next (cs_dom s)
    \<and> (\<forall>t. n = Some t \<longrightarrow> parentNode (cs_dom s) t = Some p)"
proof (cases "topmost (lit ''template'') (m_openElements s)")
  case None
  then show ?thesis using findFosterTable_ok [OF assms] by (simp add: findFosterSite_def)
next
  case (Some i)
  let ?items = "m_top (m_openElements s)"
  have ok: "items_ok ?items" using site_okD(1) [OF assms(1)] by (simp add: stack_ok_def stack_inv_def)
  have i: "i < length ?items" "matchesHTMLTag (lit ''template'') (?items ! i)"
    using find_record_Some [OF Some [unfolded topmost_def]] by auto
  have el: "isElementNode (?items ! i)" by (rule not_root_below(2) [OF ok i(1) table_not_root(2) [OF i(2)]])
  have scope: "inTableScope (lit ''table'') (m_openElements s) \<noteq> None"
    using table_scope.query_decides [OF site_okD(1) [OF assms(1)] assms(3)] by (simp add: inTableScope_def inScopeCommon_def)
  have used: "item_id (?items ! i) < dom_next (cs_dom s)"
    using site_okD(5) [OF assms(1), of "?items ! i"] i(1) by (simp add: item_in_def)
  have q: "cs_assert (inTableScope (lit ''table'') (m_openElements s) \<noteq> None) s = s" "cs_assert (isElementNode (?items ! i)) s = s"
    using scope el site_okD(3) [OF assms(1)] by (simp_all add: cs_quiet)
  show ?thesis using findFosterTable_ok [OF assms] used
    unfolding findFosterSite_def Some Let_def option.case q by simp
qed

section \<open>Executing tasks\<close>

lemma dom_ok_relinked:
  assumes "dom_ok d kids" "dom_rep d' kids'" "dom_asserts d'" "same_nodes d' d"
    and "\<And>p c. c \<in> set (kids' p) \<Longrightarrow> linkable d p c \<and> p < dom_next d \<and> c < dom_next d"
  shows "dom_ok d' kids'"
proof -
  have nxt: "dom_next d' = dom_next d" and tags: "linkable d' p c = linkable d p c" for p c
    using assms(4) same_nodes_tags [OF assms(4)] by (simp_all add: same_nodes_def linkable_def)
  have "parentNode d' x = None \<and> kids' x = []" if "dom_next d' \<le> x" for x
  proof
    show "parentNode d' x = None"
    proof (cases "parentNode d' x")
      case (Some p)
      then have "x \<in> set (kids' p)" using dom_repD(5) [OF assms(2)] by simp
      then show ?thesis using assms(5) that nxt by fastforce
    qed
    show "kids' x = []" using assms(5) [of "hd (kids' x)" x] that nxt by (cases "kids' x") auto
  qed
  moreover have "nd_content (dom_node d' x) = Some c \<Longrightarrow> c < dom_next d' \<and> isFragment d' c" for x c
    using dom_okD(6) [OF assms(1), of x c] assms(4) same_nodes_tags [OF assms(4)] by (simp add: same_nodes_def)
  ultimately show ?thesis using assms(2,3,5) tags unfolding dom_ok_def by blast
qed

text \<open>The lists of children after a node was put in front of another or at the end.\<close>

definition place_in :: "(nat \<Rightarrow> nat list) \<Rightarrow> nat \<Rightarrow> nat option \<Rightarrow> nat \<Rightarrow> nat \<Rightarrow> nat list" where
  "place_in kids p nextChild c =
     (case nextChild of
        None \<Rightarrow> kids(p := kids p @ [c])
      | Some n \<Rightarrow> kids(p := takeWhile (\<lambda>x. x \<noteq> n) (kids p) @ c # dropWhile (\<lambda>x. x \<noteq> n) (kids p)))"

lemma set_place_in: "x \<in> set (place_in kids p n c q) \<longleftrightarrow> x \<in> set (kids q) \<or> x = c \<and> q = p"
proof (cases n)
  case (Some t)
  have "set (kids p) = set (takeWhile (\<lambda>x. x \<noteq> t) (kids p)) \<union> set (dropWhile (\<lambda>x. x \<noteq> t) (kids p))"
    by (metis set_append takeWhile_dropWhile_id)
  then show ?thesis using Some by (auto simp: place_in_def)
qed (auto simp: place_in_def)

lemma split_at_member:
  assumes "n \<in> set xs"
  shows "xs = takeWhile (\<lambda>x. x \<noteq> n) xs @ n # tl (dropWhile (\<lambda>x. x \<noteq> n) xs)"
    "dropWhile (\<lambda>x. x \<noteq> n) xs = n # tl (dropWhile (\<lambda>x. x \<noteq> n) xs)"
  using assms by (induction xs) auto

lemma place_ok:
  assumes "dom_ok d kids" "linkable d p c" "p < dom_next d" "c < dom_next d" "parentNode d c = None"
    and "\<And>n. nextChild = Some n \<Longrightarrow> parentNode d n = Some p"
  defines "d' \<equiv> (case nextChild of Some n \<Rightarrow> parserInsertBefore p c n d | None \<Rightarrow> parserAppendChild p c d)"
  shows "dom_ok d' (place_in kids p nextChild c)" "same_nodes d' d" "dom_events d' = dom_events d @ [ChildInserted p c]"
proof -
  note rep = dom_okD(1,2) [OF assms(1)]
  have all: "dom_rep d' (place_in kids p nextChild c) \<and> dom_asserts d' \<and> same_nodes d' d \<and> dom_events d' = dom_events d @ [ChildInserted p c]"
  proof (cases nextChild)
    case None
    then show ?thesis using parserAppendChild_rep [OF rep(1) assms(5,2)] rep(2) by (simp add: d'_def place_in_def)
  next
    case (Some n)
    have "n \<in> set (kids p)" using assms(6) [OF Some] dom_repD(5) [OF rep(1)] by simp
    note split = split_at_member [OF this]
    show ?thesis using parserInsertBefore_rep [OF rep(1) assms(5,2) split(1)] rep(2) Some split(2)
      by (simp add: d'_def place_in_def)
  qed
  then show "same_nodes d' d" "dom_events d' = dom_events d @ [ChildInserted p c]" by simp_all
  show "dom_ok d' (place_in kids p nextChild c)"
  proof (rule dom_ok_relinked [OF assms(1)])
    fix r x assume "x \<in> set (place_in kids p nextChild c r)"
    then consider "x \<in> set (kids r)" | "x = c" "r = p" by (auto simp: set_place_in)
    then show "linkable d r x \<and> r < dom_next d \<and> x < dom_next d"
    proof cases
      case 1
      then show ?thesis using dom_okD(5,7) [OF assms(1) 1] by simp
    qed (use assms(2-4) in simp)
  qed (use all in simp_all)
qed

lemma parent_place:
  assumes "dom_ok d kids" "dom_ok d' (place_in kids p n c)" "parentNode d c = None"
  shows "parentNode d' x = (if x = c then Some p else parentNode d x)"
proof -
  note R = dom_repD(5) [OF dom_okD(1) [OF assms(1)]] and R' = dom_repD(5) [OF dom_okD(1) [OF assms(2)]]
  have "parentNode d' c = Some p" using R' [of c p] by (simp add: set_place_in)
  moreover have "parentNode d' x = Some q \<longleftrightarrow> parentNode d x = Some q" if "x \<noteq> c" for q
    using R' [of x q] R [of x q] that by (simp add: set_place_in)
  then have "x \<noteq> c \<Longrightarrow> parentNode d' x = parentNode d x" by (metis not_None_eq)
  ultimately show ?thesis by simp
qed

text \<open>The parent an insertion uses in the end: for a template, its contents.\<close>

definition insert_place :: "(nat \<Rightarrow> nat list) \<Rightarrow> Dom \<Rightarrow> nat \<Rightarrow> nat option \<Rightarrow> nat \<Rightarrow> (nat \<Rightarrow> nat list) \<Rightarrow> bool" where
  "insert_place kids d q n c kids' \<longleftrightarrow>
     (if nodeTag d q = Some templateTag then \<exists>content. kids' = place_in kids content None c
      else kids' = place_in kids q n c)"

lemma insert_task_ok:
  assumes "dom_ok d kids" "task_parent task = Some q" "q < dom_next d" "task_child task < dom_next d"
    and "\<not> isFragment d (task_child task)" "parentNode d (task_child task) = None"
    and "\<And>n. task_nextChild task = Some n \<Longrightarrow> parentNode d n = Some q"
  shows "\<exists>d' kids'. insert_task task d = Some d' \<and> dom_ok d' kids' \<and> tags_kept d' d
    \<and> insert_place kids d q (task_nextChild task) (task_child task) kids'
    \<and> (\<forall>x. x \<noteq> task_child task \<longrightarrow> parentNode d' x = parentNode d x)
    \<and> (\<exists>p. dom_events d' = dom_events d @ [ChildInserted p (task_child task)])"
proof -
  let ?c = "task_child task" and ?n = "task_nextChild task"
  show ?thesis
  proof (cases "nodeTag d q = Some templateTag")
    case True
    obtain p d1 where t: "templateContent q d = (p, d1)" by (cases "templateContent q d")
    note T = templateContent_ok [OF assms(1) t]
    have c: "\<not> isFragment d1 ?c" "?c < dom_next d1" using tags_keptD [OF T(2) assms(4)] assms(5) by simp_all
    have free: "parentNode d1 x = parentNode d x" for x
    proof -
      have "parentNode d1 x = Some r \<longleftrightarrow> parentNode d x = Some r" for r
        using dom_repD(5) [OF dom_okD(1) [OF T(1)], of x r] dom_repD(5) [OF dom_okD(1) [OF assms(1)], of x r] by simp
      then show ?thesis by (metis not_None_eq)
    qed
    have q: "dom_assert (parentNode d1 ?c = None) d1 = d1" using free assms(6) dom_okD(2) [OF T(1)] by (simp add: dom_assert_def)
    have link: "linkable d1 p ?c" using T(5) c by (simp add: linkable_def)
    note P = place_ok [OF T(1) link T(4) c(2), of None]
    have P': "dom_ok (parserAppendChild p ?c d1) (place_in kids p None ?c)" "same_nodes (parserAppendChild p ?c d1) d1"
      "dom_events (parserAppendChild p ?c d1) = dom_events d @ [ChildInserted p ?c]"
      using P free assms(6) T(6) by simp_all
    have "insert_task task d = Some (parserAppendChild p ?c d1)"
      using True by (simp add: insert_task_def assms(2) t q)
    moreover have "tags_kept (parserAppendChild p ?c d1) d" using tags_kept_trans [OF tags_kept_same [OF P'(2)] T(2)] .
    moreover have "parentNode (parserAppendChild p ?c d1) x = parentNode d x" if "x \<noteq> ?c" for x
      using parent_place [OF T(1) P'(1)] that free assms(6) by simp
    ultimately show ?thesis using P'(1,3) True unfolding insert_place_def by auto
  next
    case False
    have link: "linkable d q ?c" using False assms(5) by (simp add: linkable_def)
    have q: "dom_assert (parentNode d ?c = None) d = d" using assms(6) dom_okD(2) [OF assms(1)] by (simp add: dom_assert_def)
    let ?d = "case ?n of Some n \<Rightarrow> parserInsertBefore q ?c n d | None \<Rightarrow> parserAppendChild q ?c d"
    note P = place_ok [OF assms(1) link assms(3,4,6), of ?n, OF assms(7)]
    have "insert_task task d = Some ?d" using False by (cases ?n) (simp_all add: insert_task_def assms(2) q)
    moreover have "parentNode ?d x = parentNode d x" if "x \<noteq> ?c" for x
      using parent_place [OF assms(1) P(1) assms(6)] that by simp
    ultimately show ?thesis using P(1,3) tags_kept_same [OF P(2)] False unfolding insert_place_def by auto
  qed
qed

subsection \<open>Queues of insertions\<close>

definition insert_ready :: "Dom \<Rightarrow> HTMLConstructionSiteTask \<Rightarrow> bool" where
  "insert_ready d task \<longleftrightarrow> task_operation task = Insert \<and> task_child task < dom_next d \<and> \<not> isFragment d (task_child task)
     \<and> parentNode d (task_child task) = None
     \<and> (\<exists>q. task_parent task = Some q \<and> q < dom_next d \<and> (\<forall>n. task_nextChild task = Some n \<longrightarrow> parentNode d n = Some q))"

definition insert_queue :: "Dom \<Rightarrow> HTMLConstructionSiteTask list \<Rightarrow> bool" where
  "insert_queue d queue \<longleftrightarrow> list_all (insert_ready d) queue \<and> distinct (map task_child queue)"

lemma insert_ready_kept:
  assumes "insert_ready d task" "tags_kept d' d" "\<And>x. x \<noteq> c \<Longrightarrow> parentNode d' x = parentNode d x"
    and "task_child task \<noteq> c" "parentNode d c = None"
  shows "insert_ready d' task"
proof -
  obtain q where q: "task_parent task = Some q" "q < dom_next d" "\<And>n. task_nextChild task = Some n \<Longrightarrow> parentNode d n = Some q"
    using assms(1) by (auto simp: insert_ready_def)
  have "parentNode d' n = Some q" if "task_nextChild task = Some n" for n
    using q(3) [OF that] assms(3) [of n] assms(5) by (cases "n = c") auto
  then show ?thesis using assms q tags_keptD(2,3) [OF assms(2)] by (auto simp: insert_ready_def)
qed

lemma executeInsert_ok:
  assumes "dom_ok d kids" "insert_ready d task"
  shows "\<exists>d' kids'. executeTask task d = Some d' \<and> dom_ok d' kids' \<and> tags_kept d' d
    \<and> insert_place kids d (the (task_parent task)) (task_nextChild task) (task_child task) kids'
    \<and> (\<forall>x. x \<noteq> task_child task \<longrightarrow> parentNode d' x = parentNode d x)
    \<and> (\<exists>p. dom_events d' = dom_events d @ [ChildInserted p (task_child task), NodeCall (BeginParsingChildren (task_child task))]
         @ (if task_selfClosing task then [NodeCall (FinishParsingChildren (task_child task))] else []))"
proof -
  obtain q where q: "task_parent task = Some q" "q < dom_next d" "\<And>n. task_nextChild task = Some n \<Longrightarrow> parentNode d n = Some q"
    using assms(2) by (auto simp: insert_ready_def)
  have r: "task_operation task = Insert" "task_child task < dom_next d" "\<not> isFragment d (task_child task)"
    "parentNode d (task_child task) = None" using assms(2) by (auto simp: insert_ready_def)
  obtain d1 kids' where d1: "insert_task task d = Some d1" "dom_ok d1 kids'" "tags_kept d1 d"
    "insert_place kids d q (task_nextChild task) (task_child task) kids'"
    "\<forall>x. x \<noteq> task_child task \<longrightarrow> parentNode d1 x = parentNode d x"
    "\<exists>p. dom_events d1 = dom_events d @ [ChildInserted p (task_child task)]"
    using insert_task_ok [OF assms(1) q(1,2) r(2-4) q(3)] by blast
  have quiet: "dom_assert True d = d" by (simp add: dom_assert_def)
  have call: "dom_ok (dom_call e d') kids' = dom_ok d' kids'" "tags_kept (dom_call e d') d = tags_kept d' d" for e d'
    by (simp_all add: dom_ok_def tags_kept_def linkable_def nodeTag_def isFragment_def)
  let ?opened = "dom_call (NodeCall (BeginParsingChildren (task_child task))) d1"
  let ?done = "if task_selfClosing task then dom_call (NodeCall (FinishParsingChildren (task_child task))) ?opened else ?opened"
  have "executeTask task d = Some ?done" using d1(1) r(1) by (simp add: executeTask_def executeInsertTask_def quiet)
  moreover have "dom_ok ?done kids'" "tags_kept ?done d" using d1(2,3) by (simp_all add: call)
  ultimately show ?thesis using d1(4,5,6) q(1)
    by (intro exI [of _ ?done] exI [of _ kids']) auto
qed

lemma executeInserts_ok:
  assumes "dom_ok d kids" "insert_queue d queue"
  shows "\<exists>d' kids'. executeTasks queue d = Some d' \<and> dom_ok d' kids' \<and> tags_kept d' d"
  using assms
proof (induction queue arbitrary: d kids)
  case Nil
  then show ?case by auto
next
  case (Cons task queue)
  have ready: "insert_ready d task" "list_all (insert_ready d) queue" "task_child task \<notin> task_child ` set queue"
    "distinct (map task_child queue)"
    using Cons.prems(2) by (simp_all add: insert_queue_def)
  obtain d1 kids1 where d1: "executeTask task d = Some d1" "dom_ok d1 kids1" "tags_kept d1 d"
    "\<And>x. x \<noteq> task_child task \<Longrightarrow> parentNode d1 x = parentNode d x"
    using executeInsert_ok [OF Cons.prems(1) ready(1)] by blast
  have free: "parentNode d (task_child task) = None" using ready(1) by (simp add: insert_ready_def)
  have "insert_ready d1 t" if "t \<in> set queue" for t
  proof (rule insert_ready_kept [OF _ d1(3,4) _ free])
    show "task_child t \<noteq> task_child task" using ready(3) imageI [OF that, of task_child] by metis
  qed (use ready(2) that in \<open>simp_all add: list_all_iff\<close>)
  then have "insert_queue d1 queue" using ready(4) by (simp add: insert_queue_def list_all_iff)
  from Cons.IH [OF d1(2) this] obtain d2 kids2 where "executeTasks queue d1 = Some d2" "dom_ok d2 kids2" "tags_kept d2 d1" by blast
  then show ?case using d1(1) tags_kept_trans [OF _ d1(3)] by auto
qed

section \<open>Attaching\<close>

text \<open>The task attaching appends.\<close>

definition attach_task :: "nat \<Rightarrow> bool \<Rightarrow> HTMLConstructionSite \<Rightarrow> HTMLConstructionSiteTask \<Rightarrow> bool" where
  "attach_task c selfClosing s task \<longleftrightarrow> task_operation task = Insert \<and> task_child task = c
     \<and> task_selfClosing task = (selfClosing \<and> shouldFosterParent s = Some False)
     \<and> (\<exists>q. task_parent task = Some q \<and> q < dom_next (cs_dom s)
          \<and> (\<forall>n. task_nextChild task = Some n \<longrightarrow> parentNode (cs_dom s) n = Some q))"

lemma attachLater_ok:
  assumes "site_ok s kids" "foster_ok s" "m_top (m_openElements s) \<noteq> []" "p < dom_next (cs_dom s)"
    and "scriptingContentIsAllowed (m_parserContentPolicy s) \<or> \<not> isScriptElement (nodeTag (cs_dom s) c)"
    and "pluginContentIsAllowed (m_parserContentPolicy s) \<or> \<not> isPluginElement (nodeTag (cs_dom s) c)"
  shows "\<exists>task. attachLater p c selfClosing s = Some (appendTask task s) \<and> attach_task c selfClosing s task"
proof -
  let ?tag = "nodeTag (cs_dom s) c"
  have quiet: "cs_assert ((scriptingContentIsAllowed (m_parserContentPolicy s) \<or> \<not> isScriptElement ?tag)
      \<and> (pluginContentIsAllowed (m_parserContentPolicy s) \<or> \<not> isPluginElement ?tag)) s = s"
    using assms(5,6) site_okD(3) [OF assms(1)] by (simp add: cs_quiet)
  obtain cur rest where cur: "m_top (m_openElements s) = cur # rest" using assms(3) by (cases "m_top (m_openElements s)") auto
  have foster: "shouldFosterParent s = Some (m_redirectAttachToFosterParent s \<and> causesFosterParenting cur)"
    by (simp add: shouldFosterParent_def current_of_stack [OF cur])
  show ?thesis
  proof (cases "shouldFosterParent s = Some True")
    case True
    obtain q n where f: "findFosterSite s = Some ((q, n), s)" "q < dom_next (cs_dom s)"
      "\<And>t. n = Some t \<Longrightarrow> parentNode (cs_dom s) t = Some q"
      using findFosterSite_ok [OF assms(1-3)] by blast
    show ?thesis
      by (rule exI [of _ "(task_new Insert c)\<lparr>task_parent := Some q, task_nextChild := n\<rparr>"])
        (use True f in \<open>simp add: attachLater_def Let_def quiet fosterParent_def attach_task_def task_new_def\<close>)
  next
    case False
    then have no: "shouldFosterParent s = Some False" using foster by auto
    let ?up = "m_stackDepth (m_openElements s) > m_maximumDOMTreeDepth s \<and> parentNode (cs_dom s) p \<noteq> None"
    let ?task = "(task_new Insert c)\<lparr>task_parent := if ?up then parentNode (cs_dom s) p else Some p, task_selfClosing := selfClosing\<rparr>"
    have "q < dom_next (cs_dom s)" if "parentNode (cs_dom s) p = Some q" for q
      using dom_okD(7) [OF site_okD(4) [OF assms(1)], of p q] dom_repD(5) [OF dom_okD(1) [OF site_okD(4) [OF assms(1)]]] that by simp
    then have "attach_task c selfClosing s ?task" using no assms(4) by (auto simp: attach_task_def task_new_def)
    moreover have "attachLater p c selfClosing s = Some (appendTask ?task s)"
    proof (cases ?up)
      case True
      then show ?thesis unfolding attachLater_def Let_def quiet no by (simp add: task_new_def)
    next
      case False
      then show ?thesis unfolding attachLater_def Let_def quiet no by (auto simp: task_new_def)
    qed
    ultimately show ?thesis by blast
  qed
qed

end
