(* ===== verification/Html_Reconstruction.thy ===== *)
theory Html_Reconstruction
  imports Html_Construction_Site_Steps
begin

text \<open>
  Changes of stack and list under the invariant of the site, and the reconstruction of the active
  formatting elements.
\<close>

section \<open>Pushing, replacing, appending\<close>

lemma withStack_fields [simp]:
  "m_openElements (withStack f s) = f (m_openElements s)" "m_activeFormattingElements (withStack f s) = m_activeFormattingElements s"
  "cs_dom (withStack f s) = cs_dom s" "m_taskQueue (withStack f s) = m_taskQueue s" "cs_asserts (withStack f s) = cs_asserts s"
  "m_parserContentPolicy (withStack f s) = m_parserContentPolicy s" "m_isParsingFragment (withStack f s) = m_isParsingFragment s"
  "m_redirectAttachToFosterParent (withStack f s) = m_redirectAttachToFosterParent s"
  by (simp_all add: withStack_def)

lemma withList_fields [simp]:
  "m_openElements (withList g s) = m_openElements s" "m_activeFormattingElements (withList g s) = g (m_activeFormattingElements s)"
  "cs_dom (withList g s) = cs_dom s" "m_taskQueue (withList g s) = m_taskQueue s" "cs_asserts (withList g s) = cs_asserts s"
  "m_parserContentPolicy (withList g s) = m_parserContentPolicy s" "m_isParsingFragment (withList g s) = m_isParsingFragment s"
  "m_redirectAttachToFosterParent (withList g s) = m_redirectAttachToFosterParent s"
  by (simp_all add: withList_def)

lemma appendTask_fields [simp]:
  "m_openElements (appendTask t s) = m_openElements s" "m_activeFormattingElements (appendTask t s) = m_activeFormattingElements s"
  "cs_dom (appendTask t s) = cs_dom s" "m_taskQueue (appendTask t s) = m_taskQueue s @ [t]" "cs_asserts (appendTask t s) = cs_asserts s"
  "m_parserContentPolicy (appendTask t s) = m_parserContentPolicy s" "m_isParsingFragment (appendTask t s) = m_isParsingFragment s"
  "m_redirectAttachToFosterParent (appendTask t s) = m_redirectAttachToFosterParent s"
  by (simp_all add: appendTask_def)

lemma site_ok_appendTask [simp]: "site_ok (appendTask t s) kids = site_ok s kids"
  by (simp add: site_ok_def)

lemma stack_in_use:
  "site_ok s kids \<Longrightarrow> i \<in> set (m_top (m_openElements s)) \<Longrightarrow> item_id i < dom_next (cs_dom s)"
  "site_ok s kids \<Longrightarrow> e \<in> set (entry_items (m_entries (m_activeFormattingElements s))) \<Longrightarrow> item_id e < dom_next (cs_dom s)"
  using site_okD(5,6) by (auto simp: item_in_def)

lemma site_push:
  assumes "site_ok s kids" "m_top (m_openElements s) \<noteq> []" "item_ok item" "plain_item item" "item_in (cs_dom s) item"
    and "fresh_in s (item_id item)"
  shows "site_ok (withStack (push item) s) kids" "m_top (m_openElements (withStack (push item) s)) = item # m_top (m_openElements s)"
proof -
  have p: "stack_ok (push item (m_openElements s))" "m_top (push item (m_openElements s)) = item # m_top (m_openElements s)"
    using push_ok [OF site_okD(1) [OF assms(1)] assms(2,3) _ assms(4)] assms(6) by (auto simp: fresh_in_def)
  then show "m_top (m_openElements (withStack (push item) s)) = item # m_top (m_openElements s)" by simp
  have "item_id item \<noteq> item_id e" if "e \<in> set (entry_items (m_entries (m_activeFormattingElements s)))" for e
    using assms(6) imageI [OF that, of item_id] unfolding fresh_in_def by metis
  then show "site_ok (withStack (push item) s) kids" using assms(1,5) p unfolding site_ok_def by simp
qed

lemma entry_items_update: "set (entry_items (es[k := ItemEntry item])) \<subseteq> insert item (set (entry_items es))"
proof
  fix e assume "e \<in> set (entry_items (es[k := ItemEntry item]))"
  then have "ItemEntry e \<in> set (es[k := ItemEntry item])" by (simp add: entry_items_member)
  then have "ItemEntry e = ItemEntry item \<or> ItemEntry e \<in> set es" using set_update_subset_insert [of es k] by blast
  then show "e \<in> insert item (set (entry_items es))" by (auto simp: entry_items_member)
qed

lemma site_entry:
  assumes "site_ok s kids" "list_inv l'"
    and "set (entry_items (m_entries l')) \<subseteq> insert item (set (entry_items (m_entries (m_activeFormattingElements s))))"
    and "formatting_item item" "item_in (cs_dom s) item"
    and "\<And>i. i \<in> set (m_top (m_openElements s)) \<Longrightarrow> item_id i = item_id item \<Longrightarrow> i = item"
  shows "site_ok (s\<lparr>m_activeFormattingElements := l'\<rparr>) kids"
proof -
  have "formatting_item e \<and> item_in (cs_dom s) e" if "e \<in> set (entry_items (m_entries l'))" for e
    using that assms(3-5) site_okD(6) [OF assms(1), of e] by blast
  moreover have "i = e" if "i \<in> set (m_top (m_openElements s))" "e \<in> set (entry_items (m_entries l'))" "item_id i = item_id e" for i e
    using that assms(3,6) site_okD(7) [OF assms(1), of i e] by blast
  ultimately show ?thesis using assms(1,2) unfolding site_ok_def list_all_iff by simp
qed

lemma site_replace_entry:
  assumes "site_ok s kids" "k < length (m_entries (m_activeFormattingElements s))"
    "m_entries (m_activeFormattingElements s) ! k = ItemEntry old"
    and "formatting_item item" "attributes_ok item" "item_in (cs_dom s) item"
    and "item_id item \<notin> item_id ` set (entry_items (m_entries (m_activeFormattingElements s)))"
    and "\<And>i. i \<in> set (m_top (m_openElements s)) \<Longrightarrow> item_id i = item_id item \<Longrightarrow> i = item"
  shows "site_ok (withList (fl_replaceElement k item) s) kids"
  unfolding withList_def fl_replaceElement_def
  by (rule site_entry [OF assms(1) list_inv_update(1) [OF site_okD(2) [OF assms(1)] _ assms(5,2,3)] _ assms(4,6,8)])
    (use assms(7) entry_items_update in \<open>auto simp: fl_contains_iff\<close>)

section \<open>The foster site and the queue while the tree grows\<close>

lemma parents_same:
  assumes "dom_ok d kids" "dom_ok d' kids"
  shows "parentNode d' x = parentNode d x"
proof -
  have "parentNode d' x = Some p \<longleftrightarrow> parentNode d x = Some p" for p
    using dom_repD(5) [OF dom_okD(1) [OF assms(1)], of x p] dom_repD(5) [OF dom_okD(1) [OF assms(2)], of x p] by simp
  then show ?thesis by (metis not_None_eq)
qed

lemma parent_in_use:
  assumes "dom_ok d kids" "parentNode d x = Some p"
  shows "p < dom_next d" "x < dom_next d"
  using dom_okD(7) [OF assms(1), of x p] dom_repD(5) [OF dom_okD(1) [OF assms(1)], of x p] assms(2) by simp_all

text \<open>The two lowest items decide, so changes further up do not matter.\<close>

lemma foster_keep:
  assumes "foster_ok s" "dom_ok (cs_dom s) kids" "dom_ok (cs_dom s') kids" "tags_kept (cs_dom s') (cs_dom s)"
    and "m_isParsingFragment s' = m_isParsingFragment s" "m_rootNode (m_openElements s') = m_rootNode (m_openElements s)"
    and "m_top (m_openElements s') = over' @ rest" "m_top (m_openElements s) = over @ rest" "rest \<noteq> []"
    and "\<And>i. i \<in> set over' \<Longrightarrow> \<not> matchesHTMLTag (lit ''table'') i"
  shows "foster_ok s'"
proof -
  have can: "parentCanBeFosterParent s' (parentNode (cs_dom s') x) = parentCanBeFosterParent s (parentNode (cs_dom s) x)" for x
  proof (cases "parentNode (cs_dom s) x")
    case (Some p)
    then show ?thesis using parents_same [OF assms(2,3)] tags_keptD(1,4) [OF assms(4) parent_in_use(1) [OF assms(2) Some]] assms(5,6)
      by (simp add: parentCanBeFosterParent_def)
  qed (use parents_same [OF assms(2,3)] in \<open>simp add: parentCanBeFosterParent_def\<close>)
  obtain root rest' where r: "rest = rest' @ [root]" using assms(9) by (cases rest rule: rev_cases) auto
  show ?thesis
  proof (cases rest' rule: rev_cases)
    case Nil
    have no: "\<not> matchesHTMLTag (lit ''table'') i" if "i \<in> set (rev over')" for i using assms(10) that by simp
    show ?thesis
    proof (cases "rev over'")
      case (Cons i items)
      then have "\<not> matchesHTMLTag (lit ''table'') i" using no by simp
      then show ?thesis unfolding foster_ok_def assms(7) rev_append r Nil Cons by simp
    qed (simp add: foster_ok_def assms(7) r Nil)
  next
    case (snoc zs z)
    show ?thesis using assms(1) unfolding foster_ok_def assms(7,8) r snoc can by simp
  qed
qed

lemma insert_queue_grow:
  assumes "insert_queue d queue" "dom_ok d kids" "dom_ok d' kids" "tags_kept d' d"
  shows "insert_queue d' queue"
proof -
  have "insert_ready d' t" if "insert_ready d t" for t
    using that parents_same [OF assms(2,3)] tags_keptD(2,3) [OF assms(4)] by (auto simp: insert_ready_def)
  then show ?thesis using assms(1) by (auto simp: insert_queue_def list_all_iff)
qed

lemma insert_queue_attach:
  assumes "insert_queue (cs_dom s) (m_taskQueue s)" "attach_task c b s task" "c < dom_next (cs_dom s)" "\<not> isFragment (cs_dom s) c"
    and "parentNode (cs_dom s) c = None" "c \<notin> task_child ` set (m_taskQueue s)"
  shows "insert_queue (cs_dom s) (m_taskQueue (appendTask task s))"
  using assms by (auto simp: insert_queue_def insert_ready_def attach_task_def)

lemma queue_in_use: "insert_queue d queue \<Longrightarrow> dom_next d \<le> x \<Longrightarrow> x \<notin> task_child ` set queue"
  by (auto simp: insert_queue_def insert_ready_def list_all_iff)

section \<open>Reconstruction\<close>

lemma site_dom_fields [simp]:
  "m_openElements (s\<lparr>cs_dom := d\<rparr>) = m_openElements s" "m_activeFormattingElements (s\<lparr>cs_dom := d\<rparr>) = m_activeFormattingElements s"
  by simp_all

lemma formatting_not_table: "formatting_item item \<Longrightarrow> \<not> matchesHTMLTag (lit ''table'') item"
  using formatting_not(4) [of item] by (auto simp: causesFosterParenting_def hasTagName_html)

text \<open>One round: the clone of a saved item is attached, pushed and put in its place.\<close>

lemma reconstruct_round:
  assumes "site_ok s kids" "env_ok env" "foster_ok s" "m_top (m_openElements s) \<noteq> []" "insert_queue (cs_dom s) (m_taskQueue s)"
    and "k < length (m_entries (m_activeFormattingElements s))" "m_entries (m_activeFormattingElements s) ! k = ItemEntry item"
  shows "\<exists>s' x. reconstruct_loop env (k # ks) s = reconstruct_loop env ks s'
    \<and> site_ok s' kids \<and> foster_ok s' \<and> insert_queue (cs_dom s') (m_taskQueue s') \<and> tags_kept (cs_dom s') (cs_dom s)
    \<and> m_parserContentPolicy s' = m_parserContentPolicy s
    \<and> m_top (m_openElements s') = clone_of env (m_parserContentPolicy s) item x # m_top (m_openElements s)
    \<and> m_entries (m_activeFormattingElements s') =
        (m_entries (m_activeFormattingElements s))[k := ItemEntry (clone_of env (m_parserContentPolicy s) item x)]"
proof -
  note ok = site_okD [OF assms(1)]
  have mem: "item \<in> set (entry_items (m_entries (m_activeFormattingElements s)))"
    using assms(6,7) nth_mem by (fastforce simp: entry_items_member)
  have f: "formatting_item item" "attributes_ok item"
    using ok(6) [OF mem] ok(2) mem by (auto simp: list_inv_def list_all_iff)
  obtain d x where c: "createElementFromSavedToken env item s = Some (clone_of env (m_parserContentPolicy s) item x, s\<lparr>cs_dom := d\<rparr>)"
    "dom_ok d kids" "tags_kept d (cs_dom s)" "dom_next (cs_dom s) \<le> x" "x < dom_next d"
    "nodeTag d x = node_tag (si_node item)" "parentNode d x = None" "fresh_in s x"
    using createElementFromSavedToken_ok [OF assms(1,2,4) f(1)] by blast
  let ?r = "clone_of env (m_parserContentPolicy s) item x" and ?s1 = "s\<lparr>cs_dom := d\<rparr>"
  note r = clone_ok [OF f, of env "m_parserContentPolicy s" x]
  have s1: "site_ok ?s1 kids" by (rule site_ok_dom [OF assms(1) c(2,3)])
  have f1: "foster_ok ?s1"
    by (rule foster_keep [OF assms(3) ok(4), where over = "[]" and over' = "[]"]) (use c assms(4) in simp_all)
  obtain cur rest where cur: "m_top (m_openElements ?s1) = cur # rest" using assms(4) by (cases "m_top (m_openElements s)") auto
  have tag: "nodeTag d x = Some (htmlName (orEmpty (si_localName item)))" "isFormattingTag (orEmpty (si_localName item))"
    using c(6) formatting_itemD(2) [OF f(1)] f(1) by (simp_all add: formatting_item_def)
  note other = formatting_tag_other [OF tag(2)]
  obtain task where task: "attachLater (item_id cur) x False ?s1 = Some (appendTask task ?s1)" "attach_task x False ?s1 task"
    using attachLater_ok [OF s1 f1, of "item_id cur" x False] assms(4) stack_in_use(1) [OF s1, of cur] cur tag(1) other
    by (auto simp: isScriptElement_def isPluginElement_def)
  let ?s2 = "appendTask task ?s1"
  let ?s3 = "withStack (push ?r) ?s2" and ?s4 = "withList (fl_replaceElement k ?r) (withStack (push ?r) ?s2)"
  have frag: "\<not> isFragment d x" using tag(1) by (cases "nd_kind (dom_node d x)") (auto simp: nodeTag_def isFragment_def)
  have in_d: "item_in (cs_dom ?s2) ?r" using c(5,6) by (simp add: item_in_def)
  have fresh: "fresh_in ?s2 (item_id ?r)" using c(8) by (simp add: fresh_in_def)
  have s2: "site_ok ?s2 kids" using s1 by simp
  have ne: "m_top (m_openElements ?s2) \<noteq> []" using assms(4) by simp
  have pl: "item_ok ?r" "plain_item ?r" using formatting_itemD(5) [OF r(1)] formatting_not(1) [OF r(1)] by simp_all
  note s3 = site_push [OF s2 ne pl in_d fresh]
  have one: "i = ?r" if "i \<in> set (m_top (m_openElements ?s3))" "item_id i = item_id ?r" for i
    using that fresh imageI [of i "set (m_top (m_openElements s))" item_id] unfolding s3(2) fresh_in_def by auto
  have s4: "site_ok ?s4 kids"
    by (rule site_replace_entry [OF s3(1) _ _ r(1,2) _ _ one]) (use assms(6,7) in_d fresh in \<open>simp_all add: fresh_in_def\<close>)
  have queue: "insert_queue d (m_taskQueue ?s2)"
  proof -
    have q1: "insert_queue (cs_dom ?s1) (m_taskQueue ?s1)" using insert_queue_grow [OF assms(5) ok(4) c(2,3)] by simp
    have "x \<notin> task_child ` set (m_taskQueue ?s1)" using queue_in_use [OF assms(5) c(4)] by simp
    from insert_queue_attach [OF q1 task(2) _ _ _ this] show ?thesis using c(5,7) frag by simp
  qed
  have "foster_ok ?s4"
    by (rule foster_keep [OF assms(3) ok(4), where over = "[]" and over' = "[?r]" and rest = "m_top (m_openElements s)"])
      (use c s3(2) assms(4) formatting_not_table [OF r(1)] in \<open>simp_all add: push_def pushCommon_def stack_assert_def\<close>)
  moreover have "reconstruct_loop env (k # ks) s = reconstruct_loop env ks ?s4"
    using task(1) by (simp add: assms(7) c(1) current_of_stack [OF cur])
  ultimately show ?thesis using s4 queue c(3) s3(2)
    by (intro exI [of _ ?s4] exI [of _ x]) (simp add: fl_replaceElement_def)
qed

lemma reconstruct_loop_ok:
  assumes "site_ok s kids" "env_ok env" "foster_ok s" "m_top (m_openElements s) \<noteq> []" "insert_queue (cs_dom s) (m_taskQueue s)"
    and "drop k (m_entries (m_activeFormattingElements s)) = map ItemEntry items"
  shows "\<exists>s' clones. reconstruct_loop env [k ..< length (m_entries (m_activeFormattingElements s))] s = Some s'
    \<and> site_ok s' kids \<and> insert_queue (cs_dom s') (m_taskQueue s')
    \<and> list_all2 (\<lambda>item c. c = clone_of env (m_parserContentPolicy s) item (item_id c)) items clones
    \<and> m_top (m_openElements s') = rev clones @ m_top (m_openElements s)
    \<and> m_entries (m_activeFormattingElements s') = take k (m_entries (m_activeFormattingElements s)) @ map ItemEntry clones"
  using assms
proof (induction items arbitrary: k s)
  case Nil
  then have "length (m_entries (m_activeFormattingElements s)) \<le> k" by simp
  then show ?case using Nil.prems by (intro exI [of _ s] exI [of _ "[]"]) simp
next
  case (Cons item items)
  let ?es = "m_entries (m_activeFormattingElements s)"
  have k: "k < length ?es" using Cons.prems(6) by (cases "k < length ?es") auto
  have e: "?es ! k = ItemEntry item" "drop (Suc k) ?es = map ItemEntry items"
    using Cons.prems(6) drop_Suc_nth [OF k] by simp_all
  obtain s1 x where r: "reconstruct_loop env (k # [Suc k ..< length ?es]) s = reconstruct_loop env [Suc k ..< length ?es] s1"
    "site_ok s1 kids" "foster_ok s1" "insert_queue (cs_dom s1) (m_taskQueue s1)"
    "m_parserContentPolicy s1 = m_parserContentPolicy s"
    "m_top (m_openElements s1) = clone_of env (m_parserContentPolicy s) item x # m_top (m_openElements s)"
    "m_entries (m_activeFormattingElements s1) = ?es[k := ItemEntry (clone_of env (m_parserContentPolicy s) item x)]"
    using reconstruct_round [OF Cons.prems(1-5) k e(1), of "[Suc k ..< length ?es]"] by blast
  let ?c = "clone_of env (m_parserContentPolicy s) item x"
  have d: "drop (Suc k) (m_entries (m_activeFormattingElements s1)) = map ItemEntry items" using r(7) e(2) by simp
  have t: "take (Suc k) (m_entries (m_activeFormattingElements s1)) = take k ?es @ [ItemEntry ?c]"
    using r(7) k by (simp add: take_Suc_conv_app_nth)
  have ne: "m_top (m_openElements s1) \<noteq> []" using r(6) by simp
  obtain s' clones where IH: "reconstruct_loop env [Suc k ..< length (m_entries (m_activeFormattingElements s1))] s1 = Some s'"
    "site_ok s' kids" "insert_queue (cs_dom s') (m_taskQueue s')"
    "list_all2 (\<lambda>item c. c = clone_of env (m_parserContentPolicy s1) item (item_id c)) items clones"
    "m_top (m_openElements s') = rev clones @ m_top (m_openElements s1)"
    "m_entries (m_activeFormattingElements s') = take (Suc k) (m_entries (m_activeFormattingElements s1)) @ map ItemEntry clones"
    using Cons.IH [OF r(2) Cons.prems(2) r(3) ne r(4) d] by blast
  have len: "length (m_entries (m_activeFormattingElements s1)) = length ?es" using r(7) by simp
  have "reconstruct_loop env [k ..< length ?es] s = Some s'" using r(1) IH(1) k by (simp add: upt_conv_Cons len)
  then show ?case using IH(2-6) r(5,6) t by (intro exI [of _ s'] exI [of _ "?c # clones"]) simp
qed

subsection \<open>Which entries are not open\<close>

lemma firstUnopen_loop_spec:
  assumes "n \<le> length es" "\<And>j. n \<le> j \<Longrightarrow> j < length es \<Longrightarrow> \<not> isOpen (es ! j)" "es \<noteq> []"
  shows "case firstUnopen_loop isOpen es n of
      None \<Rightarrow> isOpen (last es)
    | Some k \<Rightarrow> k < length es \<and> (\<forall>j. k \<le> j \<and> j < length es \<longrightarrow> \<not> isOpen (es ! j)) \<and> (k = 0 \<or> isOpen (es ! (k - 1)))"
  using assms(1,2)
proof (induction n)
  case 0
  then show ?case using assms(3) by simp
next
  case (Suc n)
  show ?case
  proof (cases "isOpen (es ! n)")
    case True
    show ?thesis
    proof (cases "n + 1 < length es")
      case False
      then have "firstUnopen_loop isOpen es (Suc n) = None" using True by simp
      moreover have "last es = es ! n" using False Suc.prems(1) assms(3) last_conv_nth [OF assms(3)]
        by (metis Suc_eq_plus1 diff_Suc_1 le_antisym not_less)
      ultimately show ?thesis using True by simp
    qed (use True Suc.prems(2) in auto)
  next
    case False
    have "\<not> isOpen (es ! j)" if "n \<le> j" "j < length es" for j
      using that False Suc.prems(2) [of j] by (cases "j = n") auto
    then show ?thesis using Suc.IH Suc.prems(1) False by simp
  qed
qed

lemma contains_element_iff: "contains_element x st \<longleftrightarrow> x \<in> item_id ` set (m_top st)"
  using find_record_None [of "\<lambda>item. item_id item = x" "m_top st"]
  by (auto simp: contains_element_def find_element_def image_iff)

lemma indexOfFirstUnopen_spec:
  "case indexOfFirstUnopenFormattingElement s of
     None \<Rightarrow> m_entries (m_activeFormattingElements s) = []
       \<or> openEntry (m_openElements s) (last (m_entries (m_activeFormattingElements s)))
   | Some k \<Rightarrow> k < length (m_entries (m_activeFormattingElements s))
       \<and> (\<forall>j. k \<le> j \<and> j < length (m_entries (m_activeFormattingElements s)) \<longrightarrow>
            \<not> openEntry (m_openElements s) (m_entries (m_activeFormattingElements s) ! j))
       \<and> (k = 0 \<or> openEntry (m_openElements s) (m_entries (m_activeFormattingElements s) ! (k - 1)))"
proof (cases "m_entries (m_activeFormattingElements s) = []")
  case False
  then show ?thesis
    using firstUnopen_loop_spec [OF order_refl _ False, of "openEntry (m_openElements s)"]
    by (auto simp: indexOfFirstUnopenFormattingElement_def Let_def split: option.splits)
qed (simp add: indexOfFirstUnopenFormattingElement_def)

lemma all_open:
  assumes "m_entries (m_activeFormattingElements s) = es @ [ItemEntry item]" "item \<in> set (m_top (m_openElements s))"
  shows "indexOfFirstUnopenFormattingElement s = None"
proof -
  have "openEntry (m_openElements s) (ItemEntry item)" using assms(2) by (simp add: contains_element_iff)
  then show ?thesis using assms(1) by (simp add: indexOfFirstUnopenFormattingElement_def)
qed

lemma unopened_items: "(\<And>e. e \<in> set es \<Longrightarrow> \<not> openEntry st e) \<Longrightarrow> es = map ItemEntry (entry_items es)"
  by (rule no_marker_items) (auto simp: list_all_iff elim!: isMarker.elims dest: meta_spec [of _ MarkerEntry])

lemma executeQueue_ok:
  assumes "site_ok s kids" "insert_queue (cs_dom s) (m_taskQueue s)"
  shows "\<exists>s' kids'. executeQueuedTasks s = Some s' \<and> site_ok s' kids' \<and> m_taskQueue s' = []"
proof (cases "m_taskQueue s = []")
  case True
  then show ?thesis using assms(1) by (auto simp: executeQueuedTasks_def)
next
  case False
  obtain d' kids' where d: "executeTasks (m_taskQueue s) (cs_dom s) = Some d'" "dom_ok d' kids'" "tags_kept d' (cs_dom s)"
    using executeInserts_ok [OF site_okD(4) [OF assms(1)] assms(2)] by blast
  show ?thesis using False d(1) site_ok_dom [OF assms(1) d(2,3)] by (auto simp: executeQueuedTasks_def)
qed


section \<open>A sample\<close>

definition sample_env :: ElementEnvironment where
  "sample_env = \<lparr>createKnownElement = (\<lambda>name. Some (htmlName name)), findInterface = (\<lambda>_. False),
     isURLAttribute = (\<lambda>_ _. False), isHTMLContentAttribute = (\<lambda>_ _. False), u_foldCase = latin1CaseFoldTable,
     ubrk_isBoundary = (\<lambda>_ _. True), ubrk_preceding = (\<lambda>_ n. n - 1)\<rparr>"

text \<open>Nodes 0 to 3 are elements \<open>html\<close>, \<open>body\<close>, \<open>b\<close> and \<open>p\<close>, not yet in a tree.\<close>

definition sample_name :: "nat \<Rightarrow> AtomicString" where
  "sample_name x = (if x = 0 then lit ''html'' else if x = 1 then lit ''body'' else if x = 2 then lit ''b'' else lit ''p'')"

definition sample_dom :: Dom where
  "sample_dom = \<lparr>dom_node = (\<lambda>x. blankNode (ElementNode (htmlName (sample_name x)) [])), dom_next = 4, dom_asserts = True,
     dom_events = []\<rparr>"

definition site_item :: "nat \<Rightarrow> HTMLStackItem" where
  "site_item x = HTMLStackItem_forElement \<lparr>node_id = x, node_tag = Some (htmlName (sample_name x))\<rparr>"

definition sample_site :: "nat list \<Rightarrow> HTMLConstructionSite" where
  "sample_site open_ids =
     (HTMLConstructionSite_new sample_dom 0 False AllowScriptingContent 512 NoQuirksMode False False)
       \<lparr>m_openElements := \<lparr>m_top = map site_item open_ids, m_rootNode = Some 0, m_headElement = None,
          m_bodyElement = Some 1, m_stackDepth = of_nat (length open_ids), stack_asserts = True, stack_events = []\<rparr>,
        m_activeFormattingElements := \<lparr>m_entries = [ItemEntry (site_item 2)], fl_asserts = True\<rparr>\<rparr>"

lemma sample_env_ok: "env_ok sample_env"
  by (simp add: env_ok_def sample_env_def)

lemma site_item_ok: "item_ok (site_item x)"
  unfolding site_item_def by (rule created_items_ok)

lemma site_item_facts:
  "item_id (site_item x) = x" "item_ok (site_item x)" "si_attributes (site_item x) = []"
  "node_tag (si_node (site_item x)) = Some (htmlName (sample_name x))"
  "isRootNode (site_item x) \<longleftrightarrow> x = 0" "hasTagName headTag (site_item x) \<longleftrightarrow> False"
  "hasTagName bodyTag (site_item x) \<longleftrightarrow> x = 1" "matchesHTMLTag (lit ''table'') (site_item x) \<longleftrightarrow> False"
  "formatting_item (site_item x) \<longleftrightarrow> x = 2"
  using site_item_ok [of x]
  by (simp_all add: formatting_item_def) (simp_all add: site_item_def HTMLStackItem_forElement_def isRootNode_def
      isDocumentFragment_def hasTagName_def htmlTag_def headTag_def bodyTag_def htmlName_def sample_name_def matchesHTMLTag_def
      formatting_names)

lemma sample_dom_ok: "dom_ok sample_dom (\<lambda>_. [])"
  by (simp add: dom_ok_def dom_rep_def children_are_def sample_dom_def blankNode_def)

lemma sample_site_ok: "site_ok (sample_site [1, 0]) (\<lambda>_. [])" "site_ok (sample_site [3, 2, 1, 0]) (\<lambda>_. [])"
  by (simp_all add: site_ok_def sample_site_def HTMLConstructionSite_new_def sample_dom_ok stack_ok_def stack_inv_def items_ok_def
      secondHas_def plain_item_def site_item_facts list_inv_def attributes_ok_def item_in_def)
    (simp_all add: sample_dom_def nodeTag_def blankNode_def)

lemma sample_foster: "foster_ok (sample_site [1, 0])" "foster_ok (sample_site [3, 2, 1, 0])"
  by (simp_all add: foster_ok_def sample_site_def site_item_facts [simplified])


end
