(* ===== verification/Html_Adoption_Agency.thy ===== *)
theory Html_Adoption_Agency
  imports Html_Construction_Site
begin

text \<open>
  What an end tag does to misnested formatting elements: \<open>processAnyOtherEndTagForInBody\<close> and
  \<open>callTheAdoptionAgency\<close> of \<open>Source/WebCore/html/parser/HTMLTreeBuilder.cpp\<close>.

  A pointer to a record of the stack is its position below the top. While the adoption agency runs,
  records are removed only between the furthest block and the formatting element, so the positions
  above a removed record stay and those below it move up by one. A pointer to an entry of the list is
  its index, which stays because entries are only replaced. Parse errors have no effect on the tree.
\<close>

section \<open>Any other end tag\<close>

text \<open>The loop down the records from a position; \<open>None\<close> is following the null pointer below the last.\<close>

fun anyOtherEndTag_loop ::
    "AtomicString \<Rightarrow> HTMLStackItem list \<Rightarrow> HTMLConstructionSite \<Rightarrow> HTMLConstructionSite option" where
  "anyOtherEndTag_loop name [] s = None"
| "anyOtherEndTag_loop name (item # next) s =
     (if matchesHTMLTag name item then
        do { s1 \<leftarrow> generateImpliedEndTagsWithExclusion name s;
             top \<leftarrow> currentStackItem s1;
             withStackOpt (popUntilPopped_element (item_id item)) (cs_assert (isElementNode item) s1) }
      else if isSpecialNode item then Some s
      else anyOtherEndTag_loop name next s)"

definition processAnyOtherEndTagForInBody ::
    "AtomicHTMLToken \<Rightarrow> HTMLConstructionSite \<Rightarrow> HTMLConstructionSite option" where
  "processAnyOtherEndTagForInBody token s =
     anyOtherEndTag_loop (at_name token) (m_top (m_openElements s)) (cs_assert (at_type token = EndTag) s)"

section \<open>The adoption agency\<close>

definition outerIterationLimit :: nat where "outerIterationLimit = 8"
definition innerIterationLimit :: nat where "innerIterationLimit = 3"

text \<open>The variables of the inner loop that change: the records by position, and the bookmark.\<close>

record AdoptionState =
  ad_nextNode :: nat
  ad_lastNode :: nat
  ad_formattingElementRecord :: nat
  ad_bookmark :: Bookmark

fun adoption_inner_loop ::
    "ElementEnvironment \<Rightarrow> nat \<Rightarrow> nat \<Rightarrow> AdoptionState \<Rightarrow> HTMLConstructionSite \<Rightarrow>
     (AdoptionState \<times> HTMLConstructionSite) option" where
  "adoption_inner_loop env 0 furthestBlock a s = Some (a, s)"
| "adoption_inner_loop env (Suc i) furthestBlock a s =
     (let items = m_top (m_openElements s); node = ad_nextNode a in
      if \<not> node < length items then None
      else
        let item = items ! node;
            s1 = cs_assert (isElementNode item) s in
        if \<not> fl_contains (item_id item) (m_activeFormattingElements s1) then
          do { s2 \<leftarrow> withStackOpt (remove_element (si_node item)) s1;
               adoption_inner_loop env i furthestBlock
                 (a\<lparr>ad_formattingElementRecord := ad_formattingElementRecord a - 1\<rparr>) s2 }
        else if node = ad_formattingElementRecord a then Some (a, s1)
        else
          do { (newItem, s2) \<leftarrow> createElementFromSavedToken env item s1;
               nodeEntry \<leftarrow> fl_find (item_id item) (m_activeFormattingElements s2);
               let s3 = withStack (replaceElement node newItem) (withList (fl_replaceElement nodeEntry newItem) s2);
               let bookmark = (if ad_lastNode a = furthestBlock then moveToAfter nodeEntry (ad_bookmark a)
                               else ad_bookmark a);
               let s4 = reparent (si_node newItem) (m_top (m_openElements s3) ! ad_lastNode a) s3;
               adoption_inner_loop env i furthestBlock
                 (a\<lparr>ad_nextNode := node + 1, ad_lastNode := node, ad_bookmark := bookmark\<rparr>) s4 })"

text \<open>
  The steps after the inner loop: the last node goes under the common ancestor, and a clone of the
  formatting element takes the children of the furthest block and the places in the list and on the stack.
\<close>

definition finish_adoption ::
    "ElementEnvironment \<Rightarrow> HTMLStackItem \<Rightarrow> HTMLStackItem \<Rightarrow> nat \<Rightarrow> AdoptionState \<times> HTMLConstructionSite \<Rightarrow>
     (bool \<times> HTMLConstructionSite) option" where
  "finish_adoption env formatting commonAncestor furthestBlock = (\<lambda>(a, s3).
     do { s4 \<leftarrow> insertAlreadyParsedChild commonAncestor (m_top (m_openElements s3) ! ad_lastNode a) s3;
          (newItem, s5) \<leftarrow> createElementFromSavedToken env (m_top (m_openElements s4) ! ad_formattingElementRecord a) s4;
          let s6 = takeAllChildrenAndReparent newItem (m_top (m_openElements s5) ! furthestBlock) s5;
          let s7 = withList (swapTo (item_id formatting) newItem (ad_bookmark a)) s6;
          s8 \<leftarrow> withStackOpt (remove_element (si_node formatting)) s7;
          Some (True, withStack (insertAbove newItem furthestBlock) s8) })"

text \<open>One round of the outer loop; the boolean says that it goes on.\<close>

definition adoption_round ::
    "ElementEnvironment \<Rightarrow> AtomicHTMLToken \<Rightarrow> HTMLConstructionSite \<Rightarrow> (bool \<times> HTMLConstructionSite) option" where
  "adoption_round env token s =
     (case closestElementInScopeWithName (at_name token) (m_activeFormattingElements s) of
        None \<Rightarrow> map_option (Pair False) (processAnyOtherEndTagForInBody token s)
      | Some formatting \<Rightarrow>
          let formattingElement = item_id formatting;
              st = m_openElements s;
              inScope = inScope_element formattingElement st;
              s1 = cs_assert (contains_element formattingElement st \<longrightarrow> inScope \<noteq> None) s in
          if contains_element formattingElement st \<and> \<not> scope_answer inScope then Some (False, s1)
          else case find_element formattingElement st of
            None \<Rightarrow> Some (False, withList (fl_remove formattingElement) s1)
          | Some formattingElementRecord \<Rightarrow>
              do { top \<leftarrow> currentStackItem s1;
                   let furthest = furthestBlockForFormattingElement formattingElement st;
                   let s2 = cs_assert (isElementNode top \<and> furthest \<noteq> None) s1;
                   case (case furthest of Some f \<Rightarrow> f | None \<Rightarrow> None) of
                     None \<Rightarrow>
                       do { s3 \<leftarrow> withStackOpt (popUntilPopped_element formattingElement) s2;
                            Some (False, withList (fl_remove formattingElement) s3) }
                   | Some furthestBlock \<Rightarrow>
                       do { commonAncestor \<leftarrow>
                              (if formattingElementRecord + 1 < length (m_top st)
                               then Some (m_top st ! (formattingElementRecord + 1)) else None);
                            bookmark \<leftarrow> bookmarkFor formattingElement (m_activeFormattingElements s2);
                            (a, s3) \<leftarrow> adoption_inner_loop env innerIterationLimit furthestBlock
                              \<lparr>ad_nextNode = furthestBlock + 1, ad_lastNode = furthestBlock,
                               ad_formattingElementRecord = formattingElementRecord, ad_bookmark = bookmark\<rparr>
                              (cs_assert (isAbove furthestBlock formattingElementRecord st) s2);
                            finish_adoption env formatting commonAncestor furthestBlock (a, s3) } })"

fun adoption_outer_loop ::
    "ElementEnvironment \<Rightarrow> nat \<Rightarrow> AtomicHTMLToken \<Rightarrow> HTMLConstructionSite \<Rightarrow> HTMLConstructionSite option" where
  "adoption_outer_loop env 0 token s = Some s"
| "adoption_outer_loop env (Suc i) token s =
     do { (again, s') \<leftarrow> adoption_round env token s;
          if again then adoption_outer_loop env i token s' else Some s' }"

definition callTheAdoptionAgency ::
    "ElementEnvironment \<Rightarrow> AtomicHTMLToken \<Rightarrow> HTMLConstructionSite \<Rightarrow> HTMLConstructionSite option" where
  "callTheAdoptionAgency env token s = adoption_outer_loop env outerIterationLimit token s"

end
