(* ===== verification/Html_End_Tags.thy ===== *)
theory Html_End_Tags
  imports Html_Reconstruction Html_Adoption_Agency Html_Element_Stack_Properties
begin

text \<open>
  Implied end tags and the end tags without a rule of their own, under the invariant of the site.
\<close>

section \<open>Changing the stack under the invariant\<close>

lemma withStackOpt_Some: "f (m_openElements s) = Some st \<Longrightarrow> withStackOpt f s = Some (s\<lparr>m_openElements := st\<rparr>)"
  by (simp add: withStackOpt_def)

lemma site_stack:
  assumes "site_ok s kids" "stack_ok st"
    and "\<And>i. i \<in> set (m_top st) \<Longrightarrow> i \<in> set (m_top (m_openElements s))
      \<or> item_in (cs_dom s) i \<and> (\<forall>e \<in> set (entry_items (m_entries (m_activeFormattingElements s))). item_id i = item_id e \<longrightarrow> i = e)"
  shows "site_ok (s\<lparr>m_openElements := st\<rparr>) kids"
proof -
  have "item_in (cs_dom s) i" if "i \<in> set (m_top st)" for i
    using assms(3) [OF that] site_okD(5) [OF assms(1), of i] by blast
  moreover have "i = e" if "i \<in> set (m_top st)" "e \<in> set (entry_items (m_entries (m_activeFormattingElements s)))"
    "item_id i = item_id e" for i e
    using assms(3) [OF that(1)] site_okD(7) [OF assms(1), of i e] that by blast
  ultimately show ?thesis using assms(1,2) unfolding site_ok_def list_all_iff by simp
qed

lemma site_popped:
  assumes "site_ok s kids" "stack_ok (popped over (m_openElements s))"
  shows "site_ok (s\<lparr>m_openElements := popped over (m_openElements s)\<rparr>) kids"
  by (rule site_stack [OF assms]) (auto dest: in_set_dropD)

lemma distinct_key:
  assumes "distinct (map f (xs @ y # zs))"
  shows "i \<in> set xs \<Longrightarrow> f i \<noteq> f y" "i \<in> set zs \<Longrightarrow> f i \<noteq> f y"
  using assms imageI [of i "set xs" f] imageI [of i "set zs" f] by (simp, metis)+

section \<open>Implied end tags\<close>

lemma implied_plain: "hasImpliedEndTag item \<Longrightarrow> item_ok item \<Longrightarrow> plain_item item"
  by (auto simp: hasImpliedEndTag_def plain_item_def nodeHasTag_iff isRootNode_def isDocumentFragment_def hasTagName_def htmlTag_def
      headTag_def bodyTag_def htmlName_def)

lemma generateImplied_ok:
  assumes "site_ok s kids" "m_top (m_openElements s) = over @ target # rest"
    and "list_all (\<lambda>i. hasImpliedEndTag i \<and> \<not> matchesHTMLTag name i) over"
    and "\<not> (hasImpliedEndTag target \<and> \<not> matchesHTMLTag name target)"
  shows "generateImpliedEndTagsWithExclusion name s = Some (s\<lparr>m_openElements := popped over (m_openElements s)\<rparr>)"
    "stack_ok (popped over (m_openElements s))"
proof -
  have st: "stack_ok (m_openElements s)" by (rule site_okD(1) [OF assms(1)])
  have "item_ok i" if "i \<in> set over" for i
    using st assms(2) that by (auto simp: stack_ok_def stack_inv_def items_ok_def list_all_iff)
  then have "list_all (\<lambda>i. plain_item i \<and> \<not> \<not> (hasImpliedEndTag i \<and> \<not> matchesHTMLTag name i) \<and> True) over"
    using assms(3) implied_plain by (auto simp: list_all_iff)
  from popWhileNot_ok [OF st assms(2), of "\<lambda>i. \<not> (hasImpliedEndTag i \<and> \<not> matchesHTMLTag name i)" "\<lambda>_. True", OF assms(4) TrueI this]
  show "generateImpliedEndTagsWithExclusion name s = Some (s\<lparr>m_openElements := popped over (m_openElements s)\<rparr>)"
    "stack_ok (popped over (m_openElements s))"
    by (simp_all add: generateImpliedEndTagsWithExclusion_def withStackOpt_def)
qed

section \<open>Any other end tag\<close>

lemma special_cases:
  "isDocumentFragment item \<Longrightarrow> isSpecialNode item" "hasTagName htmlTag item \<Longrightarrow> isSpecialNode item"
  "hasTagName headTag item \<Longrightarrow> isSpecialNode item" "hasTagName bodyTag item \<Longrightarrow> isSpecialNode item"
  by (simp_all add: isSpecialNode_def hasTagName_def htmlTag_def headTag_def bodyTag_def htmlName_def localNameIn_def
      specialHTMLNames_def)

lemma not_special_plain: "\<not> isSpecialNode item \<Longrightarrow> plain_item item"
  using special_cases by (auto simp: plain_item_def isRootNode_def)

lemma root_special: "isRootNode item \<Longrightarrow> isSpecialNode item"
  using not_special_plain by (auto simp: plain_item_def)

text \<open>The names of the elements that are never popped by this loop.\<close>

definition ordinary_name :: "AtomicString \<Rightarrow> bool" where
  "ordinary_name name \<longleftrightarrow> name \<notin> {lit ''html'', lit ''head'', lit ''body''}"

lemma ordinary_plain: "ordinary_name name \<Longrightarrow> matchesHTMLTag name item \<Longrightarrow> plain_item item"
  by (auto simp: ordinary_name_def matchesHTMLTag_def plain_item_def isRootNode_def isDocumentFragment_def hasTagName_def htmlTag_def
      headTag_def bodyTag_def htmlName_def)

lemma anyOtherEndTag_loop_skip:
  "list_all (\<lambda>i. \<not> matchesHTMLTag name i \<and> \<not> isSpecialNode i) over \<Longrightarrow>
     anyOtherEndTag_loop name (over @ items) s = anyOtherEndTag_loop name items s"
  by (induction over) auto

lemma closing_ok:
  assumes "site_ok s kids" "m_top (m_openElements s) = over @ item # rest" "ordinary_name name" "matchesHTMLTag name item"
    and "list_all (\<lambda>i. \<not> matchesHTMLTag name i \<and> \<not> isSpecialNode i) over"
  shows "anyOtherEndTag_loop name (item # rest) s = Some (s\<lparr>m_openElements := popped (over @ [item]) (m_openElements s)\<rparr>)"
    "stack_ok (popped (over @ [item]) (m_openElements s))"
proof -
  let ?P = "\<lambda>i. hasImpliedEndTag i \<and> \<not> matchesHTMLTag name i"
  let ?gone = "takeWhile ?P over"
  let ?left = "dropWhile ?P over"
  have over: "over = ?gone @ ?left" by simp
  have gone: "list_all ?P ?gone" by (auto simp: list_all_iff dest: set_takeWhileD)
  obtain target more where t: "?left @ item # rest = target # more" "\<not> ?P target"
  proof (cases ?left)
    case Nil
    then have "?left @ item # rest = item # rest" by (simp only: append_Nil)
    then show ?thesis using that [of item rest] assms(4) by blast
  next
    case (Cons x xs)
    then have "\<not> ?P x" using hd_dropWhile [of ?P over] by (metis list.sel(1) list.distinct(1))
    moreover have "?left @ item # rest = x # xs @ item # rest" by (simp only: Cons append_Cons)
    ultimately show ?thesis using that [of x "xs @ item # rest"] by blast
  qed
  have items: "m_top (m_openElements s) = ?gone @ target # more" using assms(2) over t(1) by (metis append.assoc)
  note G = generateImplied_ok [OF assms(1) items gone t(2)]
  let ?st = "popped ?gone (m_openElements s)"
  let ?s = "s\<lparr>m_openElements := ?st\<rparr>"
  have s: "site_ok ?s kids" by (rule site_popped [OF assms(1) G(2)])
  have left_items: "m_top ?st = ?left @ item # rest" using items t(1) by simp
  have ok: "items_ok (over @ item # rest)" using site_okD(1) [OF assms(1)] assms(2) by (simp add: stack_ok_def stack_inv_def)
  have plain: "plain_item item" by (rule ordinary_plain [OF assms(3,4)])
  have rest: "rest \<noteq> []" using items_ok_suffix [OF ok] pop_list_ok(1) plain by blast
  have el: "isElementNode i" if "i \<in> set (over @ [item])" for i
    using not_root_nodes [of "over @ [item]" rest] ok rest that by (auto simp: list_all_iff)
  have left_over: "x \<in> set over" if "x \<in> set ?left" for x using that by (rule set_dropWhileD)
  have dist: "item_id i \<noteq> item_id item" if "i \<in> set over" for i by (rule distinct_key(1) [OF items_ok_distinct [OF ok] that])
  have lf: "list_all (\<lambda>i. plain_item i \<and> \<not> item_id i = item_id item \<and> isElementNode i) ?left"
    using left_over dist el assms(5) not_special_plain unfolding list_all_iff by (metis UnCI set_append)
  have el_item: "isElementNode item" by (rule el) simp
  have e: "?gone @ ?left @ [item] = over @ [item]" by (metis append.assoc takeWhile_dropWhile_id)
  from popPast_ok [OF G(2) left_items, of "\<lambda>i. item_id i = item_id item" isElementNode, OF refl el_item plain lf]
  have p: "popUntilPopped_element (item_id item) ?st = Some (popped (over @ [item]) (m_openElements s))"
    "stack_ok (popped (over @ [item]) (m_openElements s))"
    unfolding popUntilPopped_element_def popUntil_element_def popped_popped e by simp_all
  have cur: "currentStackItem ?s = Some target" using left_items t(1) by (simp add: currentStackItem_def)
  have q: "cs_assert (isElementNode item) ?s = ?s" using el [of item] site_okD(3) [OF s] by (simp add: cs_quiet)
  show "anyOtherEndTag_loop name (item # rest) s = Some (s\<lparr>m_openElements := popped (over @ [item]) (m_openElements s)\<rparr>)"
    using assms(4) p(1) by (simp add: G(1) cur q withStackOpt_def)
  show "stack_ok (popped (over @ [item]) (m_openElements s))" by (rule p(2))
qed

lemma any_other_spec:
  assumes "site_ok s kids" "m_top (m_openElements s) \<noteq> []" "ordinary_name (at_name token)" "at_type token = EndTag"
  obtains over item rest where "m_top (m_openElements s) = over @ item # rest"
    "list_all (\<lambda>i. \<not> matchesHTMLTag (at_name token) i \<and> \<not> isSpecialNode i) over"
    "matchesHTMLTag (at_name token) item \<or> isSpecialNode item"
    "processAnyOtherEndTagForInBody token s =
       Some (if matchesHTMLTag (at_name token) item then s\<lparr>m_openElements := popped (over @ [item]) (m_openElements s)\<rparr> else s)"
    "matchesHTMLTag (at_name token) item \<Longrightarrow> stack_ok (popped (over @ [item]) (m_openElements s))"
proof -
  let ?Q = "\<lambda>i. \<not> matchesHTMLTag (at_name token) i \<and> \<not> isSpecialNode i"
  let ?items = "m_top (m_openElements s)"
  have ok: "items_ok ?items" using site_okD(1) [OF assms(1)] by (simp add: stack_ok_def stack_inv_def)
  then have "\<not> ?Q (last ?items)" using assms(2) root_special by (auto simp: items_ok_def)
  then have "\<exists>i \<in> set ?items. \<not> ?Q i" using last_in_set [OF assms(2)] by blast
  then obtain over item rest where s: "?items = over @ item # rest" "\<not> ?Q item" "\<forall>i \<in> set over. ?Q i"
    using split_list_first_prop [of ?items "\<lambda>i. \<not> ?Q i"] by blast
  have q: "cs_assert (at_type token = EndTag) s = s" using assms(4) site_okD(3) [OF assms(1)] by (simp add: cs_quiet)
  have skip: "list_all ?Q over" using s(3) by (simp add: list_all_iff)
  have loop: "processAnyOtherEndTagForInBody token s = anyOtherEndTag_loop (at_name token) (item # rest) s"
    unfolding processAnyOtherEndTagForInBody_def q s(1) by (rule anyOtherEndTag_loop_skip [OF skip])
  show thesis
  proof (rule that [OF s(1) skip])
    show "matchesHTMLTag (at_name token) item \<or> isSpecialNode item" using s(2) by blast
    show "processAnyOtherEndTagForInBody token s =
        Some (if matchesHTMLTag (at_name token) item then s\<lparr>m_openElements := popped (over @ [item]) (m_openElements s)\<rparr> else s)"
      using closing_ok(1) [OF assms(1) s(1) assms(3) _ skip] s(2) unfolding loop by auto
    show "stack_ok (popped (over @ [item]) (m_openElements s))" if "matchesHTMLTag (at_name token) item"
      by (rule closing_ok(2) [OF assms(1) s(1) assms(3) that skip])
  qed
qed

text \<open>
  C18. An end tag without a rule of its own looks down the stack for an element of its name and gives up
  at the first special element. If it finds one, exactly the items down to and including it are closed,
  in order; if not, nothing changes. The root is special, so the search always ends on the stack; no
  null pointer is followed, no assertion fails, and the site stays in order.
\<close>

theorem any_other_end_tag_correct:
  assumes "site_ok s kids" "m_top (m_openElements s) \<noteq> []" "ordinary_name (at_name token)" "at_type token = EndTag"
  shows "\<exists>over item rest s'. m_top (m_openElements s) = over @ item # rest
    \<and> list_all (\<lambda>i. \<not> matchesHTMLTag (at_name token) i \<and> \<not> isSpecialNode i) over
    \<and> (matchesHTMLTag (at_name token) item \<or> isSpecialNode item)
    \<and> processAnyOtherEndTagForInBody token s = Some s' \<and> site_ok s' kids
    \<and> (if matchesHTMLTag (at_name token) item
       then m_top (m_openElements s') = rest \<and> stack_events (m_openElements s') =
         stack_events (m_openElements s) @ map (FinishParsingChildren \<circ> item_id) (over @ [item])
       else s' = s)"
proof -
  obtain over item rest where a: "m_top (m_openElements s) = over @ item # rest"
    "list_all (\<lambda>i. \<not> matchesHTMLTag (at_name token) i \<and> \<not> isSpecialNode i) over"
    "matchesHTMLTag (at_name token) item \<or> isSpecialNode item"
    "processAnyOtherEndTagForInBody token s =
       Some (if matchesHTMLTag (at_name token) item then s\<lparr>m_openElements := popped (over @ [item]) (m_openElements s)\<rparr> else s)"
    "matchesHTMLTag (at_name token) item \<Longrightarrow> stack_ok (popped (over @ [item]) (m_openElements s))"
    using any_other_spec [OF assms] by blast
  let ?s = "if matchesHTMLTag (at_name token) item then s\<lparr>m_openElements := popped (over @ [item]) (m_openElements s)\<rparr> else s"
  have "site_ok ?s kids" using site_popped [OF assms(1) a(5)] assms(1) by auto
  then show ?thesis using a(1-4) by (intro exI [of _ over] exI [of _ item] exI [of _ rest] exI [of _ ?s]) auto
qed

theorem any_other_end_tag_correct_witness:
  "\<exists>s'. processAnyOtherEndTagForInBody (AtomicHTMLToken_tag EndTag (lit ''p'') []) (sample_site [3, 2, 1, 0]) = Some s'
     \<and> m_top (m_openElements s') = [site_item 2, site_item 1, site_item 0]
     \<and> stack_events (m_openElements s') = [FinishParsingChildren 3]"
proof -
  let ?t = "AtomicHTMLToken_tag EndTag (lit ''p'') []" and ?s = "sample_site [3, 2, 1, 0]"
  have t: "at_name ?t = lit ''p''" "at_type ?t = EndTag" by (simp_all add: AtomicHTMLToken_tag_def AtomicHTMLToken_empty_def)
  have items: "m_top (m_openElements ?s) = [site_item 3, site_item 2, site_item 1, site_item 0]" "stack_events (m_openElements ?s) = []"
    by (simp_all add: sample_site_def)
  have m: "matchesHTMLTag (lit ''p'') (site_item 3)"
    by (simp add: matchesHTMLTag_def site_item_def HTMLStackItem_forElement_def sample_name_def htmlName_def)
  have name: "ordinary_name (at_name ?t)" unfolding t(1) by (simp add: ordinary_name_def)
  have ne: "m_top (m_openElements ?s) \<noteq> []" unfolding items by simp
  obtain over item rest s' where r: "m_top (m_openElements ?s) = over @ item # rest"
    "list_all (\<lambda>i. \<not> matchesHTMLTag (lit ''p'') i \<and> \<not> isSpecialNode i) over"
    "processAnyOtherEndTagForInBody ?t ?s = Some s'"
    "if matchesHTMLTag (lit ''p'') item
     then m_top (m_openElements s') = rest \<and> stack_events (m_openElements s') =
       stack_events (m_openElements ?s) @ map (FinishParsingChildren \<circ> item_id) (over @ [item])
     else s' = ?s"
    using any_other_end_tag_correct [OF sample_site_ok(2) ne name t(2)] unfolding t(1) by blast
  have "over = []" using r(1,2) m unfolding items(1) by (cases over) auto
  then have i: "over = []" "item = site_item 3" "rest = [site_item 2, site_item 1, site_item 0]"
    using r(1) unfolding items(1) by simp_all
  show ?thesis using r(3,4) m unfolding i items(2) by (simp add: site_item_facts)
qed

end
