(* ===== verification/Html_Adoption_Tasks.thy ===== *)
theory Html_Adoption_Tasks
  imports Html_Reconstruction
begin

text \<open>
  The tasks of the adoption agency: moving a node under another, moving it in front of a table, and
  moving all children of a node to a new one. A queue of them can be executed when what it moves as a
  whole has no place in the tree yet.
\<close>

section \<open>Taking a node out\<close>

lemma removeFromParent_ok:
  assumes "dom_ok d kids" "\<not> isFragment d c"
  shows "\<exists>kids'. dom_ok (removeFromParent c d) kids' \<and> same_nodes (removeFromParent c d) d
    \<and> parentNode (removeFromParent c d) c = None
    \<and> (\<forall>x. x \<noteq> c \<longrightarrow> parentNode (removeFromParent c d) x = parentNode d x)"
proof (cases "parentNode d c")
  case None
  then show ?thesis using assms(1) by (auto simp: removeFromParent_def)
next
  case (Some p)
  note R = dom_okD(1) [OF assms(1)]
  have "c \<in> set (kids p)" using dom_repD(5) [OF R] Some by simp
  then obtain us vs where s: "kids p = us @ c # vs" by (auto dest: split_list)
  let ?d = "parserRemoveChild p c d" and ?k = "kids(p := us @ vs)"
  note P = parserRemoveChild_rep [OF R s assms(2)]
  have member: "x \<in> set (?k q) \<longleftrightarrow> x \<in> set (kids q) \<and> x \<noteq> c" for x q
  proof (cases "q = p")
    case True
    then show ?thesis using s dom_repD(1) [OF R, of p] by auto
  next
    case False
    then show ?thesis using dom_rep_unique [OF R, of c q p] s by auto
  qed
  have ok: "dom_ok ?d ?k"
    by (rule dom_ok_relinked [OF assms(1) P(1) _ P(3)])
      (use P(2) dom_okD(2) [OF assms(1)] member dom_okD(5,7) [OF assms(1)] in auto)
  have "parentNode ?d x = parentNode d x" if "x \<noteq> c" for x
  proof -
    have "parentNode ?d x = Some q \<longleftrightarrow> parentNode d x = Some q" for q
      using dom_repD(5) [OF P(1), of x q] dom_repD(5) [OF R, of x q] member [of x q] that by blast
    then show ?thesis by (metis not_None_eq)
  qed
  then show ?thesis using ok P(3,4) Some by (auto simp: removeFromParent_def)
qed

section \<open>Single tasks\<close>

definition adopt_ready :: "Dom \<Rightarrow> HTMLConstructionSiteTask \<Rightarrow> bool" where
  "adopt_ready d task \<longleftrightarrow> task_child task < dom_next d
     \<and> (\<exists>p. task_parent task = Some p \<and> p < dom_next d
        \<and> (case task_operation task of
             Insert \<Rightarrow> False
           | InsertAlreadyParsedChild \<Rightarrow> \<not> isFragment d (task_child task)
           | Reparent \<Rightarrow> \<not> isFragment d (task_child task) \<and> nodeTag d p \<noteq> Some templateTag \<and> task_nextChild task = None
           | TakeAllChildrenAndReparent \<Rightarrow> \<not> isFragment d p \<and> nodeTag d p \<noteq> Some templateTag
               \<and> nodeTag d (task_child task) \<noteq> Some templateTag \<and> p \<noteq> task_child task \<and> task_nextChild task = None))"

text \<open>The node whose place in the tree the task may change from none to some.\<close>

definition mover :: "HTMLConstructionSiteTask \<Rightarrow> nat option" where
  "mover task = (if task_operation task = TakeAllChildrenAndReparent then task_parent task else Some (task_child task))"

definition detached :: "Dom \<Rightarrow> HTMLConstructionSiteTask \<Rightarrow> bool" where
  "detached d task \<longleftrightarrow> task_operation task = TakeAllChildrenAndReparent \<longrightarrow> parentNode d (the (task_parent task)) = None"

lemma adopt_ready_kept: "adopt_ready d task \<Longrightarrow> tags_kept d' d \<Longrightarrow> adopt_ready d' task"
  using tags_keptD(1,2,3) [of d' d] by (auto simp: adopt_ready_def split: Operation.splits)

lemma executeReparent_ok:
  assumes "dom_ok d kids" "adopt_ready d task" "task_operation task = Reparent"
  shows "\<exists>d' kids'. executeTask task d = Some d' \<and> dom_ok d' kids' \<and> tags_kept d' d
    \<and> (\<forall>x. Some x \<noteq> mover task \<longrightarrow> parentNode d x = None \<longrightarrow> parentNode d' x = None)"
proof -
  let ?c = "task_child task"
  obtain p where p: "task_parent task = Some p" "p < dom_next d" "?c < dom_next d" "\<not> isFragment d ?c"
    "nodeTag d p \<noteq> Some templateTag" "task_nextChild task = None"
    using assms(2,3) by (auto simp: adopt_ready_def)
  obtain kids1 where r: "dom_ok (removeFromParent ?c d) kids1" "same_nodes (removeFromParent ?c d) d"
    "parentNode (removeFromParent ?c d) ?c = None"
    "\<And>x. x \<noteq> ?c \<Longrightarrow> parentNode (removeFromParent ?c d) x = parentNode d x"
    using removeFromParent_ok [OF assms(1) p(4)] by blast
  let ?d1 = "removeFromParent ?c d"
  have nxt: "dom_next ?d1 = dom_next d" using r(2) by (simp add: same_nodes_def)
  have link: "linkable ?d1 p ?c" using p(4,5) same_nodes_tags [OF r(2)] by (simp add: linkable_def)
  note P = place_ok [OF r(1) link _ _ r(3), of None, simplified, unfolded nxt, OF p(2,3)]
  have q: "dom_assert True d = d" by (simp add: dom_assert_def)
  have "executeTask task d = Some (parserAppendChild p ?c ?d1)"
    using assms(3) p(1,6) r(3) by (simp add: executeTask_def executeReparentTask_def q)
  moreover have "tags_kept (parserAppendChild p ?c ?d1) d"
    using tags_kept_trans [OF tags_kept_same [OF P(2)] tags_kept_same [OF r(2)]] .
  moreover have "parentNode (parserAppendChild p ?c ?d1) x = None" if "Some x \<noteq> mover task" "parentNode d x = None" for x
    using parent_place [OF r(1) P(1) r(3), of x] that assms(3) r(4) [of x] by (simp add: mover_def)
  ultimately show ?thesis using P(1) by blast
qed

lemma executeInsertParsed_ok:
  assumes "dom_ok d kids" "adopt_ready d task" "task_operation task = InsertAlreadyParsedChild"
  shows "\<exists>d' kids'. executeTask task d = Some d' \<and> dom_ok d' kids' \<and> tags_kept d' d
    \<and> (\<forall>x. Some x \<noteq> mover task \<longrightarrow> parentNode d x = None \<longrightarrow> parentNode d' x = None)"
proof -
  let ?c = "task_child task"
  obtain p where p: "task_parent task = Some p" "p < dom_next d" "?c < dom_next d" "\<not> isFragment d ?c"
    using assms(2,3) by (auto simp: adopt_ready_def)
  obtain kids1 where r: "dom_ok (removeFromParent ?c d) kids1" "same_nodes (removeFromParent ?c d) d"
    "parentNode (removeFromParent ?c d) ?c = None"
    "\<And>x. x \<noteq> ?c \<Longrightarrow> parentNode (removeFromParent ?c d) x = parentNode d x"
    using removeFromParent_ok [OF assms(1) p(4)] by blast
  let ?d1 = "removeFromParent ?c d"
  have nxt: "dom_next ?d1 = dom_next d" using r(2) by (simp add: same_nodes_def)
  have q: "dom_assert True d = d" by (simp add: dom_assert_def)
  have mv: "mover task = Some ?c" using assms(3) by (simp add: mover_def)
  show ?thesis
  proof (cases "case task_nextChild task of Some n \<Rightarrow> parentNode ?d1 n \<noteq> task_parent task | None \<Rightarrow> False")
    case True
    then have "executeTask task d = Some ?d1"
      using assms(3) r(3) by (simp add: executeTask_def executeInsertAlreadyParsedChildTask_def q)
    then show ?thesis using r(1,4) tags_kept_same [OF r(2)] mv by auto
  next
    case False
    have frag: "\<not> isFragment ?d1 ?c" using p(4) same_nodes_tags [OF r(2)] by simp
    have nx: "parentNode ?d1 n = Some p" if "task_nextChild task = Some n" for n using False that p(1) by simp
    obtain d' kids' where i: "insert_task task ?d1 = Some d'" "dom_ok d' kids'" "tags_kept d' ?d1"
      "\<And>x. x \<noteq> ?c \<Longrightarrow> parentNode d' x = parentNode ?d1 x"
      using insert_task_ok [OF r(1) p(1) p(2,3) [folded nxt] frag r(3) nx] by blast
    have "executeTask task d = Some d'"
      using False assms(3) r(3) i(1) by (simp add: executeTask_def executeInsertAlreadyParsedChildTask_def q)
    then show ?thesis using i(2,4) tags_kept_trans [OF i(3) tags_kept_same [OF r(2)]] r(4) mv by auto
  qed
qed

lemma executeTakeAll_ok:
  assumes "dom_ok d kids" "adopt_ready d task" "task_operation task = TakeAllChildrenAndReparent" "detached d task"
  shows "\<exists>d' kids'. executeTask task d = Some d' \<and> dom_ok d' kids' \<and> tags_kept d' d
    \<and> (\<forall>x. Some x \<noteq> mover task \<longrightarrow> parentNode d x = None \<longrightarrow> parentNode d' x = None)"
proof -
  let ?old = "task_child task"
  obtain p where p: "task_parent task = Some p" "p < dom_next d" "?old < dom_next d" "\<not> isFragment d p"
    "nodeTag d p \<noteq> Some templateTag" "nodeTag d ?old \<noteq> Some templateTag" "p \<noteq> ?old" "task_nextChild task = None"
    using assms(2,3) by (auto simp: adopt_ready_def)
  have free: "parentNode d p = None" using assms(3,4) p(1) by (simp add: detached_def)
  note R = dom_okD(1) [OF assms(1)]
  have link: "\<forall>c \<in> set (kids ?old). linkable d p c"
    using dom_okD(5) [OF assms(1)] p(5) by (auto simp: linkable_def)
  let ?k = "kids(?old := [], p := kids p @ kids ?old)"
  obtain d1 where t: "takeAllChildrenFrom p ?old d = Some d1" "dom_rep d1 ?k" "dom_asserts d1" "same_nodes d1 d"
    using takeAllChildrenFrom_rep [OF R dom_okD(2) [OF assms(1)] link p(7)] by blast
  have ok1: "dom_ok d1 ?k"
  proof (rule dom_ok_relinked [OF assms(1) t(2-4)])
    fix q c assume "c \<in> set (?k q)"
    then consider "c \<in> set (kids q)" | "q = p" "c \<in> set (kids ?old)" by (auto split: if_splits)
    then show "linkable d q c \<and> q < dom_next d \<and> c < dom_next d"
    proof cases
      case 1
      then show ?thesis using dom_okD(5,7) [OF assms(1) 1] by simp
    next
      case 2
      then show ?thesis using link dom_okD(7) [OF assms(1) 2(2)] p(2) by simp
    qed
  qed
  have none: "parentNode d1 x = None \<longleftrightarrow> parentNode d x = None" for x
  proof -
    have "(\<exists>q. x \<in> set (?k q)) \<longleftrightarrow> (\<exists>q. x \<in> set (kids q))"
    proof
      assume "\<exists>q. x \<in> set (kids q)"
      then obtain q where q: "x \<in> set (kids q)" by blast
      show "\<exists>q. x \<in> set (?k q)"
      proof (cases "q = ?old \<or> q = p")
        case True
        then have "x \<in> set (?k p)" using q by auto
        then show ?thesis ..
      next
        case False
        then have "x \<in> set (?k q)" using q by simp
        then show ?thesis ..
      qed
    qed (auto split: if_splits)
    moreover have "(\<exists>q. x \<in> set (?k q)) \<longleftrightarrow> parentNode d1 x \<noteq> None" using dom_repD(5) [OF t(2), of x] by auto
    moreover have "(\<exists>q. x \<in> set (kids q)) \<longleftrightarrow> parentNode d x \<noteq> None" using dom_repD(5) [OF R, of x] by auto
    ultimately show ?thesis by blast
  qed
  have free1: "parentNode d1 p = None" using none free by simp
  have nxt: "dom_next d1 = dom_next d" using t(4) by (simp add: same_nodes_def)
  have link1: "linkable d1 ?old p" using p(4,6) same_nodes_tags [OF t(4)] by (simp add: linkable_def)
  note P = place_ok [OF ok1 link1 _ _ free1, of None, simplified, unfolded nxt, OF p(3,2)]
  have q: "dom_assert True d0 = d0" for d0 by (simp add: dom_assert_def)
  have "executeTask task d = Some (parserAppendChild ?old p d1)"
    using assms(3) p(1,8) t(1) free1 by (simp add: executeTask_def executeTakeAllChildrenAndReparentTask_def q)
  moreover have "tags_kept (parserAppendChild ?old p d1) d"
    using tags_kept_trans [OF tags_kept_same [OF P(2)] tags_kept_same [OF t(4)]] .
  moreover have "parentNode (parserAppendChild ?old p d1) x = None" if "Some x \<noteq> mover task" "parentNode d x = None" for x
    using parent_place [OF ok1 P(1) free1, of x] that assms(3) none p(1) by (simp add: mover_def)
  ultimately show ?thesis using P(1) by blast
qed

section \<open>Queues\<close>

fun takes_apart :: "HTMLConstructionSiteTask list \<Rightarrow> bool" where
  "takes_apart [] = True"
| "takes_apart (task # queue) \<longleftrightarrow>
     (\<forall>u \<in> set queue. task_operation u = TakeAllChildrenAndReparent \<longrightarrow> task_parent u \<noteq> mover task) \<and> takes_apart queue"

definition adopt_queue :: "Dom \<Rightarrow> HTMLConstructionSiteTask list \<Rightarrow> bool" where
  "adopt_queue d queue \<longleftrightarrow> list_all (\<lambda>t. adopt_ready d t \<and> detached d t) queue \<and> takes_apart queue"

lemma executeAdoption_ok:
  assumes "dom_ok d kids" "adopt_ready d task" "detached d task"
  shows "\<exists>d' kids'. executeTask task d = Some d' \<and> dom_ok d' kids' \<and> tags_kept d' d
    \<and> (\<forall>x. Some x \<noteq> mover task \<longrightarrow> parentNode d x = None \<longrightarrow> parentNode d' x = None)"
proof (cases "task_operation task")
  case Insert
  then show ?thesis using assms(2) by (simp add: adopt_ready_def)
qed (use executeInsertParsed_ok executeReparent_ok executeTakeAll_ok assms in blast)+

lemma executeAdoptions_ok:
  assumes "dom_ok d kids" "adopt_queue d queue"
  shows "\<exists>d' kids'. executeTasks queue d = Some d' \<and> dom_ok d' kids' \<and> tags_kept d' d"
  using assms
proof (induction queue arbitrary: d kids)
  case Nil
  then show ?case by auto
next
  case (Cons task queue)
  have h: "adopt_ready d task" "detached d task" "list_all (\<lambda>t. adopt_ready d t \<and> detached d t) queue" "takes_apart queue"
    "\<And>u. u \<in> set queue \<Longrightarrow> task_operation u = TakeAllChildrenAndReparent \<Longrightarrow> task_parent u \<noteq> mover task"
    using Cons.prems(2) by (auto simp: adopt_queue_def)
  obtain d1 kids1 where d1: "executeTask task d = Some d1" "dom_ok d1 kids1" "tags_kept d1 d"
    "\<And>x. Some x \<noteq> mover task \<Longrightarrow> parentNode d x = None \<Longrightarrow> parentNode d1 x = None"
    using executeAdoption_ok [OF Cons.prems(1) h(1,2)] by blast
  have "adopt_ready d1 u \<and> detached d1 u" if "u \<in> set queue" for u
  proof
    have u: "adopt_ready d u" "detached d u" using h(3) that by (auto simp: list_all_iff)
    show "adopt_ready d1 u" by (rule adopt_ready_kept [OF u(1) d1(3)])
    obtain p where p: "task_parent u = Some p" using u(1) by (auto simp: adopt_ready_def)
    show "detached d1 u" using u(2) h(5) [OF that] d1(4) [of p] p by (auto simp: detached_def)
  qed
  then have "adopt_queue d1 queue" using h(4) by (simp add: adopt_queue_def list_all_iff)
  from Cons.IH [OF d1(2) this] obtain d2 kids2 where "executeTasks queue d1 = Some d2" "dom_ok d2 kids2" "tags_kept d2 d1" by blast
  then show ?case using d1(1) tags_kept_trans [OF _ d1(3)] by auto
qed

lemma takes_apart_snoc:
  "takes_apart (queue @ [task]) \<longleftrightarrow> takes_apart queue
     \<and> (task_operation task = TakeAllChildrenAndReparent \<longrightarrow> task_parent task \<notin> mover ` set queue)"
  by (induction queue) auto

lemma adopt_queue_snoc:
  assumes "adopt_queue d queue" "adopt_ready d task" "detached d task"
    and "task_operation task = TakeAllChildrenAndReparent \<Longrightarrow> task_parent task \<notin> mover ` set queue"
  shows "adopt_queue d (queue @ [task])"
  using assms by (simp add: adopt_queue_def takes_apart_snoc)

lemma adopt_queue_grow:
  assumes "adopt_queue d queue" "dom_ok d kids" "dom_ok d' kids" "tags_kept d' d"
  shows "adopt_queue d' queue"
  using assms(1) adopt_ready_kept [OF _ assms(4)] parents_same [OF assms(2,3)]
  by (auto simp: adopt_queue_def list_all_iff detached_def)

lemma movers_in_use:
  assumes "adopt_queue d queue" "dom_next d \<le> x"
  shows "Some x \<notin> mover ` set queue"
proof
  assume "Some x \<in> mover ` set queue"
  then obtain t where t: "t \<in> set queue" "mover t = Some x" by auto
  then have "adopt_ready d t" using assms(1) by (auto simp: adopt_queue_def list_all_iff)
  then show False using t(2) assms(2) by (auto simp: adopt_ready_def mover_def split: if_splits)
qed

end
