(* ===== verification/Html_Adoption_Inner.thy ===== *)
theory Html_Adoption_Inner
  imports Html_End_Tags Html_Adoption_Tasks
begin

text \<open>
  The inner loop of the adoption agency: it walks down from the furthest block to the formatting
  element, takes elements that are no active formatting elements off the stack, and replaces the others
  by clones, at most three in all.
\<close>

section \<open>Helpers\<close>

lemma element_not_fragment: "item_in d item \<Longrightarrow> isElementNode item \<Longrightarrow> \<not> isFragment d (item_id item)"
  by (cases "nd_kind (dom_node d (item_id item))") (auto simp: item_in_def isElementNode_def nodeTag_def isFragment_def)

lemma entry_of_stack_item:
  assumes "site_ok s kids" "i \<in> set (m_top (m_openElements s))" "fl_contains (item_id i) (m_activeFormattingElements s)"
  shows "i \<in> set (entry_items (m_entries (m_activeFormattingElements s)))"
proof -
  obtain e where e: "e \<in> set (entry_items (m_entries (m_activeFormattingElements s)))" "item_id e = item_id i"
    using assms(3) by (auto simp: fl_contains_iff)
  then show ?thesis using site_okD(7) [OF assms(1,2) e(1)] by simp
qed

lemma entry_facts:
  assumes "site_ok s kids" "e \<in> set (entry_items (m_entries (m_activeFormattingElements s)))"
  shows "formatting_item e" "attributes_ok e" "item_in (cs_dom s) e" "fl_contains (item_id e) (m_activeFormattingElements s)"
  using site_okD(2,6) [OF assms(1)] assms(2) by (auto simp: list_inv_def list_all_iff fl_contains_iff)

lemma fl_find_entry:
  assumes "site_ok s kids" "e \<in> set (entry_items (m_entries (m_activeFormattingElements s)))"
  shows "\<exists>k. fl_find (item_id e) (m_activeFormattingElements s) = Some k
    \<and> k < length (m_entries (m_activeFormattingElements s)) \<and> m_entries (m_activeFormattingElements s) ! k = ItemEntry e"
proof -
  let ?l = "m_activeFormattingElements s"
  have "fl_contains (item_id e) ?l" using entry_facts(4) [OF assms] .
  then obtain k where k: "fl_find (item_id e) ?l = Some k" by (auto simp: fl_contains_def)
  then have p: "k < length (m_entries ?l)" "entryIs (item_id e) (m_entries ?l ! k)"
    using reverseFind_loop_Some [of "item_id e" "m_entries ?l" "length (m_entries ?l)" k] by (auto simp: fl_find_def reverseFind_def)
  then obtain e' where e': "m_entries ?l ! k = ItemEntry e'" "item_id e' = item_id e" by (auto simp: entryIs_iff)
  have "e' \<in> set (entry_items (m_entries ?l))" using e'(1) nth_mem [OF p(1)] by (simp add: entry_items_member)
  moreover have "inj_on item_id (set (entry_items (m_entries ?l)))"
    using site_okD(2) [OF assms(1)] by (simp add: list_inv_def distinct_map)
  ultimately have "e' = e" using e'(2) assms(2) by (meson inj_onD)
  then show ?thesis using k p e' by blast
qed

lemma stack_split_facts:
  assumes "site_ok s kids" "m_top (m_openElements s) = over @ fe # rest" "rest \<noteq> []"
  shows "list_all plain_item over" "i \<in> set over \<Longrightarrow> isElementNode i" "isElementNode fe"
    "i \<in> set over \<Longrightarrow> item_id i \<noteq> item_id fe" "items_ok (over @ fe # rest)"
proof -
  show ok: "items_ok (over @ fe # rest)" using site_okD(1) [OF assms(1)] assms(2) by (simp add: stack_ok_def stack_inv_def)
  show "list_all plain_item over" by (rule over_plain [OF ok assms(3)])
  have el: "list_all isElementNode (over @ [fe])" using not_root_nodes [of "over @ [fe]" rest] ok assms(3) by simp
  show "i \<in> set over \<Longrightarrow> isElementNode i" "isElementNode fe" using el by (auto simp: list_all_iff)
  show "i \<in> set over \<Longrightarrow> item_id i \<noteq> item_id fe" by (rule distinct_key(1) [OF items_ok_distinct [OF ok]])
qed

section \<open>The invariant of the inner loop\<close>

text \<open>
  The stack is the items above the furthest block, the furthest block, the clones made so far, the items
  still to be visited, the formatting element, and the rest.
\<close>

definition adopting :: "(nat \<Rightarrow> nat list) \<Rightarrow> HTMLStackItem list \<Rightarrow> HTMLStackItem \<Rightarrow> HTMLStackItem list \<Rightarrow> HTMLStackItem list \<Rightarrow>
    HTMLStackItem \<Rightarrow> HTMLStackItem list \<Rightarrow> Bookmark \<Rightarrow> AdoptionState \<Rightarrow> HTMLConstructionSite \<Rightarrow> bool" where
  "adopting kids pre block clones todo fe rest b0 a s \<longleftrightarrow>
     site_ok s kids \<and> adopt_queue (cs_dom s) (m_taskQueue s) \<and> rest \<noteq> []
     \<and> m_top (m_openElements s) = pre @ block # clones @ todo @ fe # rest
     \<and> list_all (\<lambda>i. \<not> isScopeMarker i) (pre @ block # clones @ todo)
     \<and> m_mark b0 < length (m_entries (m_activeFormattingElements s))
     \<and> m_entries (m_activeFormattingElements s) ! m_mark b0 = ItemEntry fe \<and> \<not> m_hasBeenMoved b0
     \<and> ad_nextNode a = length pre + 1 + length clones \<and> ad_lastNode a = length pre + length clones
     \<and> ad_formattingElementRecord a = length pre + 1 + length clones + length todo
     \<and> (ad_bookmark a = b0 \<or> (\<exists>k < length (m_entries (m_activeFormattingElements s)). ad_bookmark a = moveToAfter k b0))"

lemma adoptingD:
  assumes "adopting kids pre block clones todo fe rest b0 a s"
  shows "site_ok s kids" "adopt_queue (cs_dom s) (m_taskQueue s)" "rest \<noteq> []"
    "m_top (m_openElements s) = pre @ block # clones @ todo @ fe # rest"
    "m_top (m_openElements s) = (pre @ block # clones @ todo) @ fe # rest"
    "list_all (\<lambda>i. \<not> isScopeMarker i) (pre @ block # clones @ todo)"
    "m_mark b0 < length (m_entries (m_activeFormattingElements s))"
    "m_entries (m_activeFormattingElements s) ! m_mark b0 = ItemEntry fe" "\<not> m_hasBeenMoved b0"
    "ad_nextNode a = length pre + 1 + length clones" "ad_lastNode a = length pre + length clones"
    "ad_formattingElementRecord a = length pre + 1 + length clones + length todo"
    "ad_bookmark a = b0 \<or> (\<exists>k < length (m_entries (m_activeFormattingElements s)). ad_bookmark a = moveToAfter k b0)"
    "fe \<in> set (entry_items (m_entries (m_activeFormattingElements s)))"
proof -
  show "m_top (m_openElements s) = (pre @ block # clones @ todo) @ fe # rest" using assms by (simp add: adopting_def)
  show "fe \<in> set (entry_items (m_entries (m_activeFormattingElements s)))"
    using assms nth_mem [of "m_mark b0" "m_entries (m_activeFormattingElements s)"] by (simp add: adopting_def entry_items_member)
qed (use assms in \<open>simp_all add: adopting_def\<close>)

text \<open>An element that is no active formatting element is taken off the stack.\<close>

lemma adopting_drop:
  assumes inv: "adopting kids pre block clones (b # todo) fe rest b0 a s"
    and no: "\<not> fl_contains (item_id b) (m_activeFormattingElements s)"
  shows "\<exists>s'. adoption_inner_loop env (Suc n) (length pre) a s =
      adoption_inner_loop env n (length pre) (a\<lparr>ad_formattingElementRecord := ad_formattingElementRecord a - 1\<rparr>) s'
    \<and> adopting kids pre block clones todo fe rest b0 (a\<lparr>ad_formattingElementRecord := ad_formattingElementRecord a - 1\<rparr>) s'
    \<and> s' = s\<lparr>m_openElements := m_openElements s'\<rparr> \<and> m_rootNode (m_openElements s') = m_rootNode (m_openElements s)"
proof -
  note A = adoptingD [OF inv]
  let ?over = "pre @ block # clones" and ?below = "todo @ fe # rest"
  have items: "m_top (m_openElements s) = ?over @ b # ?below" using A(4) by simp
  note S = stack_split_facts [OF A(1,5,3)]
  have b: "plain_item b" "isElementNode b" using S(1,2) by (auto simp: list_all_iff)
  note R = remove_ok [OF site_okD(1) [OF A(1)] items b(1)]
  let ?st = "removed ?over b ?below (m_openElements s)"
  let ?s = "s\<lparr>m_openElements := ?st\<rparr>"
  have at: "ad_nextNode a < length (m_top (m_openElements s))" "m_top (m_openElements s) ! ad_nextNode a = b"
    unfolding items A(10) by (simp_all add: nth_append)
  have q: "cs_assert (isElementNode b) s = s" using b(2) site_okD(3) [OF A(1)] by (simp add: cs_quiet)
  have top: "m_top ?st = pre @ block # clones @ todo @ fe # rest" by (simp add: removed_def)
  have ok: "site_ok ?s kids" by (rule site_stack [OF A(1) R(2)]) (auto simp: removed_def items)
  have "adoption_inner_loop env (Suc n) (length pre) a s =
      adoption_inner_loop env n (length pre) (a\<lparr>ad_formattingElementRecord := ad_formattingElementRecord a - 1\<rparr>) ?s"
    using at no R(1) by (simp add: Let_def q withStackOpt_def)
  moreover have "adopting kids pre block clones todo fe rest b0 (a\<lparr>ad_formattingElementRecord := ad_formattingElementRecord a - 1\<rparr>) ?s"
    using ok top A(2,3,6-13) unfolding adopting_def by simp
  ultimately show ?thesis by (intro exI [of _ ?s]) (simp add: removed_def)
qed

lemma nth_last_of: "(pre @ block # clones @ zs) ! (length pre + length clones) = last (block # clones)"
proof (cases clones rule: rev_cases)
  case (snoc cs c)
  then show ?thesis by (simp add: nth_append)
qed simp

text \<open>An active formatting element is replaced by a clone, under which the last node is to go.\<close>

lemma adopting_clone:
  assumes inv: "adopting kids pre block clones (b # todo) fe rest b0 a s" and env: "env_ok env"
    and yes: "fl_contains (item_id b) (m_activeFormattingElements s)"
  shows "\<exists>a' s' x. adoption_inner_loop env (Suc n) (length pre) a s = adoption_inner_loop env n (length pre) a' s'
    \<and> adopting kids pre block (clones @ [clone_of env (m_parserContentPolicy s) b x]) todo fe rest b0 a' s'
    \<and> tags_kept (cs_dom s') (cs_dom s) \<and> m_parserContentPolicy s' = m_parserContentPolicy s
    \<and> m_isParsingFragment s' = m_isParsingFragment s \<and> m_rootNode (m_openElements s') = m_rootNode (m_openElements s)
    \<and> dom_next (cs_dom s) \<le> x
    \<and> (\<forall>y. y \<noteq> item_id b \<longrightarrow> y < dom_next (cs_dom s) \<longrightarrow>
         fl_contains y (m_activeFormattingElements s') = fl_contains y (m_activeFormattingElements s))"
proof -
  note A = adoptingD [OF inv] and ok = site_okD [OF adoptingD(1) [OF inv]]
  let ?over = "pre @ block # clones" and ?l = "m_activeFormattingElements s"
  have items: "m_top (m_openElements s) = ?over @ b # todo @ fe # rest" using A(4) by simp
  note S = stack_split_facts [OF A(1,5,3)]
  have b: "plain_item b" "isElementNode b" "item_id b \<noteq> item_id fe" using S(1,2,4) by (auto simp: list_all_iff)
  have b_in: "b \<in> set (m_top (m_openElements s))" by (simp add: items)
  note e = entry_of_stack_item [OF A(1) b_in yes]
  note F = entry_facts [OF A(1) e]
  obtain k where k: "fl_find (item_id b) ?l = Some k" "k < length (m_entries ?l)" "m_entries ?l ! k = ItemEntry b"
    using fl_find_entry [OF A(1) e] by blast
  have ne: "m_top (m_openElements s) \<noteq> []" by (simp add: items)
  obtain d x where c: "createElementFromSavedToken env b s = Some (clone_of env (m_parserContentPolicy s) b x, s\<lparr>cs_dom := d\<rparr>)"
    "dom_ok d kids" "tags_kept d (cs_dom s)" "dom_next (cs_dom s) \<le> x" "x < dom_next d"
    "nodeTag d x = node_tag (si_node b)" "parentNode d x = None" "fresh_in s x"
    using createElementFromSavedToken_ok [OF A(1) env ne F(1)] by blast
  let ?c = "clone_of env (m_parserContentPolicy s) b x" and ?s2 = "s\<lparr>cs_dom := d\<rparr>"
  note r = clone_ok [OF F(1,2), of env "m_parserContentPolicy s" x]
  have s2: "site_ok ?s2 kids" by (rule site_ok_dom [OF A(1) c(2,3)])
  have c_in: "item_in d ?c" using c(5,6) by (simp add: item_in_def)
  have fresh: "x \<notin> item_id ` set (m_top (m_openElements s))" "x \<notin> item_id ` set (entry_items (m_entries ?l))"
    using c(8) by (simp_all add: fresh_in_def)
  let ?s3a = "withList (fl_replaceElement k ?c) ?s2"
  have none: "i = ?c" if "i \<in> set (m_top (m_openElements ?s2))" "item_id i = item_id ?c" for i
    using fresh(1) imageI [of i "set (m_top (m_openElements s))" item_id] that by simp
  have s3a: "site_ok ?s3a kids"
    by (rule site_replace_entry [OF s2 _ _ r(1,2) _ _ none]) (use k c_in fresh in simp_all)
  have pl: "item_ok ?c" "plain_item ?c" using formatting_itemD(5) [OF r(1)] formatting_not(1) [OF r(1)] by simp_all
  have rep: "stack_ok (replaceElement (length ?over) ?c (m_openElements s))"
    "m_top (replaceElement (length ?over) ?c (m_openElements s)) = ?over @ ?c # todo @ fe # rest"
    using replaceElement_ok [OF ok(1) items b(1) pl] fresh(1) by simp_all
  let ?st = "replaceElement (length ?over) ?c (m_openElements s)"
  let ?s3 = "withStack (replaceElement (length ?over) ?c) ?s3a"
  have entries: "m_entries (m_activeFormattingElements ?s3) = (m_entries ?l)[k := ItemEntry ?c]" by (simp add: fl_replaceElement_def)
  have inL: "?c \<in> set (entry_items (m_entries (m_activeFormattingElements ?s3a)))"
    using k(2) by (simp add: fl_replaceElement_def entry_items_member set_update_memI)
  have s3: "site_ok ?s3 kids"
  proof -
    have inj: "inj_on item_id (set (entry_items (m_entries (m_activeFormattingElements ?s3a))))"
      using site_okD(2) [OF s3a] by (simp add: list_inv_def distinct_map)
    have "?c = e'" if "e' \<in> set (entry_items (m_entries (m_activeFormattingElements ?s3a)))" "item_id ?c = item_id e'" for e'
      using inj_onD [OF inj that(2) inL that(1)] .
    then have "site_ok (?s3a\<lparr>m_openElements := ?st\<rparr>) kids"
      by (intro site_stack [OF s3a rep(1)]) (use rep(2) items c_in in \<open>auto simp del: clone_fields\<close>)
    then show ?thesis by (simp add: withStack_def)
  qed
  let ?child = "last (block # clones)"
  let ?task = "(task_new Reparent (item_id ?child))\<lparr>task_parent := Some x\<rparr>"
  have child: "?child \<in> set (m_top (m_openElements s))" "isElementNode ?child"
    using S(2) last_in_set [of "block # clones"] by (auto simp: items)
  have child_in: "item_in d ?child" using item_in_kept [OF c(3) ok(5) [OF child(1)]] .
  have tag: "nodeTag d x \<noteq> Some templateTag"
    using c(6) formatting_itemD(2) [OF F(1)] formatting_tag_other [of "orEmpty (si_localName b)" templateTag] F(1)
    by (simp add: formatting_item_def)
  have ready: "adopt_ready d ?task" "detached d ?task"
    using child_in element_not_fragment [OF child_in child(2)] c(5) tag
    by (simp_all add: adopt_ready_def detached_def task_new_def item_in_def)
  have queue: "adopt_queue d (m_taskQueue s @ [?task])"
    by (rule adopt_queue_snoc [OF adopt_queue_grow [OF A(2) ok(4) c(2,3)] ready]) (simp add: task_new_def)
  let ?bm = "if ad_lastNode a = length pre then moveToAfter k (ad_bookmark a) else ad_bookmark a"
  let ?a = "a\<lparr>ad_nextNode := ad_nextNode a + 1, ad_lastNode := ad_nextNode a, ad_bookmark := ?bm\<rparr>"
  let ?s4 = "appendTask ?task ?s3"
  have rp: "reparent (si_node ?c) ?child ?s3 = ?s4"
    using child(2) site_okD(3) [OF s3] by (simp add: reparent_def cs_quiet)
  have at: "ad_nextNode a < length (m_top (m_openElements s))" "m_top (m_openElements s) ! ad_nextNode a = b"
    unfolding items A(10) by (simp_all add: nth_append)
  have q: "cs_assert (isElementNode b) s = s" using b(2) ok(3) by (simp add: cs_quiet)
  have len: "ad_nextNode a = length ?over" unfolding A(10) by simp
  have last: "m_top (m_openElements ?s3) ! ad_lastNode a = ?child"
    using nth_last_of [of pre block clones "?c # todo @ fe # rest"] rep(2) by (simp add: A(11))
  have loop: "adoption_inner_loop env (Suc n) (length pre) a s = adoption_inner_loop env n (length pre) ?a ?s4"
    using at yes A(12) k(1) rp last by (simp add: Let_def q c(1) len)
  have mark: "m_mark b0 < length (m_entries (m_activeFormattingElements ?s4))"
    "m_entries (m_activeFormattingElements ?s4) ! m_mark b0 = ItemEntry fe"
  proof -
    have "k \<noteq> m_mark b0" using k(3) A(8) b(3) by auto
    then show "m_mark b0 < length (m_entries (m_activeFormattingElements ?s4))"
      "m_entries (m_activeFormattingElements ?s4) ! m_mark b0 = ItemEntry fe"
      using A(7,8) entries by simp_all
  qed
  have bm: "?bm = b0 \<or> (\<exists>j < length (m_entries (m_activeFormattingElements ?s4)). ?bm = moveToAfter j b0)"
    using A(13) k(2) entries by (auto simp: moveToAfter_def)
  have inv': "adopting kids pre block (clones @ [?c]) todo fe rest b0 ?a ?s4"
    using s3 queue A(3,6,9) rep(2) mark bm formatting_not(2) [OF r(1)] unfolding adopting_def
    by (simp add: len A(12))
  have same: "fl_contains y (m_activeFormattingElements ?s4) = fl_contains y ?l" if "y \<noteq> item_id b" "y < dom_next (cs_dom s)" for y
  proof -
    have nc: "\<not> fl_contains (item_id ?c) ?l" using fresh(2) by (simp add: fl_contains_iff)
    show ?thesis using list_inv_update(2) [OF ok(2) nc r(2) k(2,3)] that c(4) entries by (simp add: fl_contains_iff)
  qed
  have "m_rootNode (m_openElements ?s4) = m_rootNode (m_openElements s)" by (simp add: replaceElement_def stack_assert_def)
  then show ?thesis using loop inv' same c(3,4) by (intro exI [of _ ?a] exI [of _ ?s4] exI [of _ x]) simp
qed

section \<open>The loop\<close>

text \<open>What no step of the loop changes, besides what \<^const>\<open>adopting\<close> says.\<close>

definition site_kept :: "HTMLConstructionSite \<Rightarrow> HTMLConstructionSite \<Rightarrow> bool" where
  "site_kept s' s \<longleftrightarrow> tags_kept (cs_dom s') (cs_dom s) \<and> m_parserContentPolicy s' = m_parserContentPolicy s
     \<and> m_isParsingFragment s' = m_isParsingFragment s \<and> m_rootNode (m_openElements s') = m_rootNode (m_openElements s)"

lemma site_kept_refl [simp]: "site_kept s s" by (simp add: site_kept_def tags_kept_refl)

lemma site_kept_trans: "site_kept s'' s' \<Longrightarrow> site_kept s' s \<Longrightarrow> site_kept s'' s"
  using tags_kept_trans [of "cs_dom s''" "cs_dom s'" "cs_dom s"] by (simp add: site_kept_def)

text \<open>The clones of the visited items that are active formatting elements.\<close>

definition clones_for :: "ElementEnvironment \<Rightarrow> HTMLConstructionSite \<Rightarrow> HTMLStackItem list \<Rightarrow> HTMLStackItem list \<Rightarrow> bool" where
  "clones_for env s visited made \<longleftrightarrow> list_all2 (\<lambda>old item. item = clone_of env (m_parserContentPolicy s) old (item_id item))
     (filter (\<lambda>i. fl_contains (item_id i) (m_activeFormattingElements s)) visited) made"

lemma clones_for_cong:
  assumes "m_parserContentPolicy s' = m_parserContentPolicy s"
    and "\<And>i. i \<in> set visited \<Longrightarrow> fl_contains (item_id i) (m_activeFormattingElements s') = fl_contains (item_id i) (m_activeFormattingElements s)"
  shows "clones_for env s' visited made = clones_for env s visited made"
proof -
  have "filter (\<lambda>i. fl_contains (item_id i) (m_activeFormattingElements s')) visited =
      filter (\<lambda>i. fl_contains (item_id i) (m_activeFormattingElements s)) visited"
    by (rule filter_cong) (simp_all add: assms(2))
  then show ?thesis by (simp add: clones_for_def assms(1))
qed

lemma adopting_stop:
  assumes "adopting kids pre block clones [] fe rest b0 a s"
  shows "adoption_inner_loop env n (length pre) a s = Some (a, s)"
proof (cases n)
  case (Suc m)
  note A = adoptingD [OF assms]
  have el: "isElementNode fe" by (rule stack_split_facts(3) [OF A(1,5,3)])
  have q: "cs_assert (isElementNode fe) s = s" using el site_okD(3) [OF A(1)] by (simp add: cs_quiet)
  have at: "ad_nextNode a < length (m_top (m_openElements s))" "m_top (m_openElements s) ! ad_nextNode a = fe"
    unfolding A(4,10) by (simp_all add: nth_append)
  show ?thesis using Suc at entry_facts(4) [OF A(1,14)] A(10,12) by (simp add: Let_def q)
qed simp

lemma adopting_loop:
  assumes "env_ok env" "adopting kids pre block clones todo fe rest b0 a s"
  shows "\<exists>a' s' visited todo' made. adoption_inner_loop env n (length pre) a s = Some (a', s')
    \<and> todo = visited @ todo' \<and> (length visited = n \<or> length visited < n \<and> todo' = []) \<and> clones_for env s visited made
    \<and> adopting kids pre block (clones @ made) todo' fe rest b0 a' s' \<and> site_kept s' s"
  using assms(2)
proof (induction n arbitrary: clones todo a s)
  case 0
  have "clones_for env s [] []" by (simp add: clones_for_def)
  then show ?case using 0 by (intro exI [of _ a] exI [of _ s] exI [of _ "[]"] exI [of _ todo] exI [of _ "[]"]) simp
next
  case (Suc n)
  show ?case
  proof (cases todo)
    case Nil
    have "clones_for env s [] []" by (simp add: clones_for_def)
    then show ?thesis using Suc.prems adopting_stop [OF Suc.prems [unfolded Nil], of env "Suc n"] Nil
      by (intro exI [of _ a] exI [of _ s] exI [of _ "[]"] exI [of _ "[]"] exI [of _ "[]"])
        (simp del: adoption_inner_loop.simps)
  next
    case (Cons b more)
    note inv = Suc.prems [unfolded Cons]
    note A = adoptingD [OF inv]
    show ?thesis
    proof (cases "fl_contains (item_id b) (m_activeFormattingElements s)")
      case False
      obtain s1 where s1: "adoption_inner_loop env (Suc n) (length pre) a s =
          adoption_inner_loop env n (length pre) (a\<lparr>ad_formattingElementRecord := ad_formattingElementRecord a - 1\<rparr>) s1"
        "adopting kids pre block clones more fe rest b0 (a\<lparr>ad_formattingElementRecord := ad_formattingElementRecord a - 1\<rparr>) s1"
        "s1 = s\<lparr>m_openElements := m_openElements s1\<rparr>" "m_rootNode (m_openElements s1) = m_rootNode (m_openElements s)"
        using adopting_drop [OF inv False] by blast
      obtain st where st: "s1 = s\<lparr>m_openElements := st\<rparr>" using s1(3) by blast
      have k: "site_kept s1 s" using s1(4) by (simp add: st site_kept_def tags_kept_refl)
      obtain a' s' visited todo' made where r: "adoption_inner_loop env (Suc n) (length pre) a s = Some (a', s')"
        "more = visited @ todo'" "length visited = n \<or> length visited < n \<and> todo' = []" "clones_for env s1 visited made"
        "adopting kids pre block (clones @ made) todo' fe rest b0 a' s'" "site_kept s' s1"
        using Suc.IH [OF s1(2)] unfolding s1(1) by blast
      have "clones_for env s (b # visited) made" using r(4) False by (simp add: clones_for_def st)
      then show ?thesis using r(1,2,3,5) Cons site_kept_trans [OF r(6) k]
        by (intro exI [of _ a'] exI [of _ s'] exI [of _ "b # visited"] exI [of _ todo'] exI [of _ made]) auto
    next
      case True
      obtain a1 s1 x where s1: "adoption_inner_loop env (Suc n) (length pre) a s = adoption_inner_loop env n (length pre) a1 s1"
        "adopting kids pre block (clones @ [clone_of env (m_parserContentPolicy s) b x]) more fe rest b0 a1 s1"
        "tags_kept (cs_dom s1) (cs_dom s)" "m_parserContentPolicy s1 = m_parserContentPolicy s"
        "m_isParsingFragment s1 = m_isParsingFragment s" "m_rootNode (m_openElements s1) = m_rootNode (m_openElements s)"
        "\<And>y. y \<noteq> item_id b \<Longrightarrow> y < dom_next (cs_dom s) \<Longrightarrow>
           fl_contains y (m_activeFormattingElements s1) = fl_contains y (m_activeFormattingElements s)"
        using adopting_clone [OF inv assms(1) True] by blast
      let ?c = "clone_of env (m_parserContentPolicy s) b x"
      have k: "site_kept s1 s" using s1(3-6) by (simp add: site_kept_def)
      obtain a' s' visited todo' made where r: "adoption_inner_loop env (Suc n) (length pre) a s = Some (a', s')"
        "more = visited @ todo'" "length visited = n \<or> length visited < n \<and> todo' = []" "clones_for env s1 visited made"
        "adopting kids pre block ((clones @ [?c]) @ made) todo' fe rest b0 a' s'" "site_kept s' s1"
        using Suc.IH [OF s1(2)] unfolding s1(1) by blast
      have "item_id i \<noteq> item_id b \<and> item_id i < dom_next (cs_dom s)" if "i \<in> set visited" for i
      proof
        have "items_ok ((pre @ block # clones) @ b # more @ fe # rest)"
          using site_okD(1) [OF A(1)] A(4) by (simp add: stack_ok_def stack_inv_def)
        then show "item_id i \<noteq> item_id b" using distinct_key(2) [OF items_ok_distinct] that r(2) by fastforce
        show "item_id i < dom_next (cs_dom s)" using site_okD(5) [OF A(1), of i] A(4) r(2) that by (simp add: item_in_def)
      qed
      then have "clones_for env s visited made" using r(4) clones_for_cong [OF s1(4), of visited env made] s1(7) by blast
      then have "clones_for env s (b # visited) (?c # made)" using True by (simp add: clones_for_def)
      moreover have "adopting kids pre block (clones @ ?c # made) todo' fe rest b0 a' s'" using r(5) by simp
      ultimately show ?thesis using r(1,2,3) Cons site_kept_trans [OF r(6) k]
        by (intro exI [of _ a'] exI [of _ s'] exI [of _ "b # visited"] exI [of _ todo'] exI [of _ "?c # made"]) auto
    qed
  qed
qed

end
