(* ===== verification/Html_Adoption_Finish.thy ===== *)
theory Html_Adoption_Finish
  imports Html_Adoption_Inner
begin

text \<open>
  The end of a round of the adoption agency, after its inner loop: the last node goes under the common
  ancestor, a clone of the formatting element takes over the children of the furthest block, and stands
  in for the formatting element on the stack and in the list.
\<close>

lemma not_marker:
  assumes "\<not> isScopeMarker i" "item_ok i"
  shows "\<not> matchesHTMLTag (lit ''table'') i" "node_tag (si_node i) \<noteq> Some templateTag"
proof -
  have "\<not> hasTagName (htmlName (lit ''table'')) i" "\<not> nodeHasTag templateTag i"
    using assms nodeHasTag_iff [OF assms(2)] by (auto simp: isScopeMarker_def templateTag_def)
  then show "\<not> matchesHTMLTag (lit ''table'') i" "node_tag (si_node i) \<noteq> Some templateTag"
    by (auto simp: matchesHTMLTag_def hasTagName_def htmlName_def nodeHasTag_def)
qed

lemma adopting_items_ok:
  assumes "adopting kids pre block clones todo fe rest b0 a s" "i \<in> set (pre @ block # clones @ todo)"
  shows "item_ok i" "\<not> isScopeMarker i" "item_in (cs_dom s) i" "isElementNode i"
proof -
  note A = adoptingD [OF assms(1)]
  show "item_ok i" using items_ok_member [OF stack_split_facts(5) [OF A(1,5,3)]] assms(2) by auto
  show "\<not> isScopeMarker i" using A(6) assms(2) by (auto simp: list_all_iff)
  show "item_in (cs_dom s) i" using site_okD(5) [OF A(1), of i] assms(2) unfolding A(5) by auto
  show "isElementNode i" by (rule stack_split_facts(2) [OF A(1,5,3) assms(2)])
qed

section \<open>The list\<close>

lemma swapTo_items:
  assumes "list_inv l" "fl_contains old l" "\<not> fl_contains (item_id new) l" "attributes_ok new"
    and "m_mark b0 < length (m_entries l)" "entryIs old (m_entries l ! m_mark b0)" "\<not> m_hasBeenMoved b0"
    and "b = b0 \<or> (\<exists>k < length (m_entries l). b = moveToAfter k b0)"
  shows "set (entry_items (m_entries (swapTo old new b l))) \<subseteq> insert new (set (entry_items (m_entries l)))"
proof (cases "m_hasBeenMoved b")
  case False
  then have "m_entries (swapTo old new b l) = (m_entries l)[m_mark b := ItemEntry new]" using swapTo_eq [OF assms] by simp
  then show ?thesis using entry_items_update by simp
next
  case True
  then have e: "m_entries (swapTo old new b l) =
      without {old} (take (m_mark b + 1) (m_entries l)) @ ItemEntry new # without {old} (drop (m_mark b + 1) (m_entries l))"
    using swapTo_eq [OF assms] by simp
  show ?thesis unfolding e by (auto simp: without_def entry_items_member dest: in_set_takeD in_set_dropD)
qed

lemma adopting_swap:
  assumes inv: "adopting kids pre block clones todo fe rest b0 a s" and dom: "dom_ok d kids" "tags_kept d (cs_dom s)"
    and new: "formatting_item new" "attributes_ok new" "item_in d new" "fresh_in s (item_id new)"
  defines "l' \<equiv> swapTo (item_id fe) new (ad_bookmark a) (m_activeFormattingElements s)"
  shows "site_ok (s\<lparr>cs_dom := d, m_taskQueue := q, m_activeFormattingElements := l'\<rparr>) kids"
    "new \<in> set (entry_items (m_entries l'))" "\<not> fl_contains (item_id fe) l'"
proof -
  note A = adoptingD [OF inv]
  let ?l = "m_activeFormattingElements s"
  have fresh: "\<not> fl_contains (item_id new) ?l" "item_id new \<notin> item_id ` set (m_top (m_openElements s))"
    using new(4) by (simp_all add: fresh_in_def fl_contains_iff)
  have fe: "fl_contains (item_id fe) ?l" by (rule entry_facts(4) [OF A(1,14)])
  have mark: "entryIs (item_id fe) (m_entries ?l ! m_mark b0)" using A(8) by (simp add: entryIs_iff)
  note X = site_okD(2) [OF A(1)] fe fresh(1) new(2) A(7) mark A(9,13)
  note E = swapTo_eq [OF X] and I = swapTo_items [OF X]
  have none: "i = new" if "i \<in> set (m_top (m_openElements s))" "item_id i = item_id new" for i
    using fresh(2) imageI [of i "set (m_top (m_openElements s))" item_id] that by simp
  have s1: "site_ok (s\<lparr>cs_dom := d, m_taskQueue := q\<rparr>) kids"
    using site_ok_dom [OF A(1) dom] site_ok_queue [where s = "s\<lparr>cs_dom := d\<rparr>"] by simp
  show "\<not> fl_contains (item_id fe) l'" using E by (simp add: l'_def)
  show "site_ok (s\<lparr>cs_dom := d, m_taskQueue := q, m_activeFormattingElements := l'\<rparr>) kids"
    using site_entry [OF s1, of l' new] E I new(1,3) none by (simp add: l'_def)
  have "fl_contains (item_id new) l'" using E by (simp add: l'_def)
  then obtain e where e: "e \<in> set (entry_items (m_entries l'))" "item_id e = item_id new" by (auto simp: fl_contains_iff)
  have "item_id new \<notin> item_id ` set (entry_items (m_entries ?l))" using fresh(1) by (simp add: fl_contains_iff)
  then have "e \<notin> set (entry_items (m_entries ?l))" using e(2) imageI [of e _ item_id] by metis
  then have "e = new" using e(1) I unfolding l'_def by blast
  then show "new \<in> set (entry_items (m_entries l'))" using e(1) by simp
qed

section \<open>The stack\<close>

lemma root_last: "stack_ok st \<Longrightarrow> m_top st \<noteq> [] \<Longrightarrow> m_rootNode st = Some (item_id (last (m_top st)))"
  by (simp add: stack_ok_def stack_inv_def)

lemma adopting_restack:
  assumes ok: "site_ok s kids" and items: "m_top (m_openElements s) = pre @ block # mid @ fe # rest" "rest \<noteq> []"
    and fe: "plain_item fe" and new: "formatting_item new" "item_in (cs_dom s) new"
    "item_id new \<notin> item_id ` set (m_top (m_openElements s))" "new \<in> set (entry_items (m_entries (m_activeFormattingElements s)))"
  shows "\<exists>st. Option.bind (withStackOpt (remove_element (si_node fe)) s) (\<lambda>s. Some (True, withStack (insertAbove new (length pre)) s))
      = Some (True, s\<lparr>m_openElements := st\<rparr>)
    \<and> site_ok (s\<lparr>m_openElements := st\<rparr>) kids \<and> m_top st = pre @ new # block # mid @ rest
    \<and> m_rootNode st = m_rootNode (m_openElements s)"
proof -
  have items': "m_top (m_openElements s) = (pre @ block # mid) @ fe # rest" using items(1) by simp
  let ?st1 = "removed (pre @ block # mid) fe rest (m_openElements s)"
  note R = remove_ok [OF site_okD(1) [OF ok] items' fe]
  have top1: "m_top ?st1 = pre @ block # mid @ rest" by (simp add: removed_def)
  have s1: "site_ok (s\<lparr>m_openElements := ?st1\<rparr>) kids" by (rule site_stack [OF ok R(2)]) (auto simp: removed_def items')
  have fresh: "item_id new \<notin> item_id ` set (m_top ?st1)" using new(3) unfolding top1 items(1) by auto
  have ne: "mid @ rest \<noteq> []" using items(2) by simp
  let ?st2 = "insertAbove new (length pre) ?st1"
  note P = insertAbove_ok [OF R(2) top1 ne formatting_itemD(5) [OF new(1)] formatting_not(1) [OF new(1)] fresh]
  have inj: "inj_on item_id (set (entry_items (m_entries (m_activeFormattingElements s))))"
    using site_okD(2) [OF ok] by (simp add: list_inv_def distinct_map)
  have "new = e" if "e \<in> set (entry_items (m_entries (m_activeFormattingElements s)))" "item_id new = item_id e" for e
    using inj_onD [OF inj that(2) new(4) that(1)] .
  then have "site_ok ((s\<lparr>m_openElements := ?st1\<rparr>)\<lparr>m_openElements := ?st2\<rparr>) kids"
    by (intro site_stack [OF s1 P(1)]) (use P(2) top1 new(2) in auto)
  then have "site_ok (s\<lparr>m_openElements := ?st2\<rparr>) kids" by simp
  moreover have "m_rootNode ?st2 = m_rootNode (m_openElements s)"
    using root_last [OF P(1)] root_last [OF site_okD(1) [OF ok]] unfolding P(2) items(1) using items(2) by simp
  ultimately show ?thesis using R(1) P(2) by (intro exI [of _ ?st2]) (simp add: withStackOpt_def withStack_def)
qed

section \<open>The tasks\<close>

definition parsedTask :: "nat \<Rightarrow> nat \<Rightarrow> nat option \<Rightarrow> HTMLConstructionSiteTask" where
  "parsedTask c p n = (task_new InsertAlreadyParsedChild c)\<lparr>task_parent := Some p, task_nextChild := n\<rparr>"

lemma adopting_insert:
  assumes inv: "adopting kids pre block clones todo fe rest b0 a s" and foster: "foster_ok s"
  shows "\<exists>task. insertAlreadyParsedChild (hd rest) (m_top (m_openElements s) ! ad_lastNode a) s = Some (appendTask task s)
    \<and> adopt_queue (cs_dom s) (m_taskQueue s @ [task])"
proof -
  note A = adoptingD [OF inv]
  let ?child = "last (block # clones)"
  have "?child \<in> set (block # clones)" by (rule last_in_set) simp
  then have child: "?child \<in> set (pre @ block # clones @ todo)" by auto
  note C = adopting_items_ok(3,4) [OF inv child]
  have at: "m_top (m_openElements s) ! ad_lastNode a = ?child" unfolding A(4,11) by (rule nth_last_of)
  have hd_in: "hd rest \<in> set (m_top (m_openElements s))" using A(3) unfolding A(4) by simp
  have ne: "m_top (m_openElements s) \<noteq> []" unfolding A(4) by simp
  have "\<exists>p n. (if causesFosterParenting (hd rest) then findFosterSite s else Some ((item_id (hd rest), None), s)) = Some ((p, n), s)
      \<and> p < dom_next (cs_dom s)"
    using findFosterSite_ok [OF A(1) foster ne] site_okD(5) [OF A(1) hd_in] by (auto simp: item_in_def)
  then obtain p n where p: "(if causesFosterParenting (hd rest) then findFosterSite s else Some ((item_id (hd rest), None), s)) = Some ((p, n), s)"
    "p < dom_next (cs_dom s)" by blast
  have q: "cs_assert (isElementNode ?child) s = s" using C(2) site_okD(3) [OF A(1)] by (simp add: cs_quiet)
  let ?t = "parsedTask (item_id ?child) p n"
  have "insertAlreadyParsedChild (hd rest) ?child s = Some (appendTask ?t s)"
    unfolding insertAlreadyParsedChild_def p(1) bind.simps prod.case q parsedTask_def ..
  moreover have "adopt_ready (cs_dom s) ?t" "detached (cs_dom s) ?t"
    using p(2) C(1) element_not_fragment [OF C] by (simp_all add: adopt_ready_def detached_def parsedTask_def task_new_def item_in_def)
  then have "adopt_queue (cs_dom s) (m_taskQueue s @ [?t])"
    by (rule adopt_queue_snoc [OF A(2)]) (simp add: parsedTask_def task_new_def)
  ultimately show ?thesis unfolding at by blast
qed

lemma adopting_take:
  assumes inv: "adopting kids pre block clones todo fe rest b0 a s"
    and queue: "adopt_queue d0 q" "dom_next d0 \<le> x" "dom_ok d0 kids" "dom_ok d kids" "tags_kept d d0" "tags_kept d (cs_dom s)"
    and x: "x < dom_next d" "nodeTag d x = node_tag (si_node fe)" "parentNode d x = None" "fresh_in s x"
  shows "adopt_queue d (q @ [(task_new TakeAllChildrenAndReparent (item_id block))\<lparr>task_parent := Some x\<rparr>])"
proof -
  note A = adoptingD [OF inv]
  let ?t = "(task_new TakeAllChildrenAndReparent (item_id block))\<lparr>task_parent := Some x\<rparr>"
  have b: "block \<in> set (pre @ block # clones @ todo)" by simp
  note B = adopting_items_ok [OF inv b]
  have b_in: "item_in d block" by (rule item_in_kept [OF queue(6) B(3)])
  have fe: "formatting_item fe" by (rule entry_facts(1) [OF A(1,14)])
  have tag: "nodeTag d x \<noteq> Some templateTag" "nodeTag d (item_id block) \<noteq> Some templateTag"
    using x(2) formatting_itemD(2) [OF fe] formatting_tag_other [of "orEmpty (si_localName fe)" templateTag] fe
      b_in not_marker(2) [OF B(2,1)] by (simp_all add: formatting_item_def item_in_def)
  have ne: "x \<noteq> item_id block" using x(4) unfolding fresh_in_def A(4) by auto
  have frag: "\<not> isFragment d x"
    using x(2) formatting_itemD(2) [OF fe] by (cases "nd_kind (dom_node d x)") (simp_all add: nodeTag_def isFragment_def)
  have ready: "adopt_ready d ?t" "detached d ?t"
    using x(1,3) tag ne frag b_in by (simp_all add: adopt_ready_def detached_def task_new_def item_in_def)
  show ?thesis
    by (rule adopt_queue_snoc [OF adopt_queue_grow [OF queue(1,3,4,5)] ready])
      (use movers_in_use [OF queue(1,2)] in \<open>simp add: task_new_def\<close>)
qed

end
