(* ===== verification/Html_Adoption_Agency_Properties.thy ===== *)
theory Html_Adoption_Agency_Properties
  imports Html_Adoption_Finish
begin

text \<open>
  The adoption agency as a whole: what one round does to the stack and the list, and that the rounds
  never follow a null pointer, keep the site in order, and queue only tasks that can be executed.
\<close>

section \<open>A round with a furthest block\<close>

lemma finish_ok:
  assumes env: "env_ok env" and inv: "adopting kids pre block clones todo fe rest b0 a s" and foster: "foster_ok s"
  shows "\<exists>s' new. finish_adoption env fe (hd rest) (length pre) (a, s) = Some (True, s') \<and> site_ok s' kids \<and> foster_ok s'
    \<and> adopt_queue (cs_dom s') (m_taskQueue s') \<and> m_top (m_openElements s') = pre @ new # block # clones @ todo @ rest
    \<and> new = clone_of env (m_parserContentPolicy s) fe (item_id new) \<and> site_kept s' s
    \<and> new \<in> set (entry_items (m_entries (m_activeFormattingElements s')))
    \<and> \<not> fl_contains (item_id fe) (m_activeFormattingElements s')"
proof -
  note A = adoptingD [OF inv] and ok = site_okD [OF adoptingD(1) [OF inv]]
  obtain task where t: "insertAlreadyParsedChild (hd rest) (m_top (m_openElements s) ! ad_lastNode a) s = Some (appendTask task s)"
    "adopt_queue (cs_dom s) (m_taskQueue s @ [task])" using adopting_insert [OF inv foster] by blast
  let ?s4 = "appendTask task s"
  have s4: "site_ok ?s4 kids" "m_top (m_openElements ?s4) \<noteq> []" using A(1,4) by simp_all
  note F = entry_facts [OF A(1,14)]
  have at: "m_top (m_openElements ?s4) ! ad_formattingElementRecord a = fe" "m_top (m_openElements s) ! length pre = block"
    unfolding A(12) appendTask_fields unfolding A(4) by (simp_all add: nth_append)
  obtain d x where c: "createElementFromSavedToken env fe ?s4 = Some (clone_of env (m_parserContentPolicy ?s4) fe x, ?s4\<lparr>cs_dom := d\<rparr>)"
    "dom_ok d kids" "tags_kept d (cs_dom s)" "dom_next (cs_dom s) \<le> x" "x < dom_next d"
    "nodeTag d x = node_tag (si_node fe)" "parentNode d x = None" "fresh_in ?s4 x"
    using createElementFromSavedToken_ok [OF s4(1) env s4(2) F(1)] by auto
  let ?new = "clone_of env (m_parserContentPolicy s) fe x"
  have fresh: "fresh_in s x" using c(8) by (simp add: fresh_in_def)
  note N = clone_ok [OF F(1,2), of env "m_parserContentPolicy s" x]
  have n_in: "item_in d ?new" using c(5,6) by (simp add: item_in_def)
  let ?take = "(task_new TakeAllChildrenAndReparent (item_id block))\<lparr>task_parent := Some x\<rparr>"
  let ?q = "(m_taskQueue s @ [task]) @ [?take]"
  have queue: "adopt_queue d ?q"
    by (rule adopting_take [OF inv t(2) c(4) ok(4) c(2,3,3) c(5,6,7) fresh])
  let ?l = "swapTo (item_id fe) ?new (ad_bookmark a) (m_activeFormattingElements s)"
  let ?s7 = "s\<lparr>cs_dom := d, m_taskQueue := ?q, m_activeFormattingElements := ?l\<rparr>"
  have "fresh_in s (item_id ?new)" using fresh by simp
  note W = adopting_swap [OF inv c(2,3) N(1,2) n_in this]
  have eq: "withList (swapTo (item_id fe) ?new (ad_bookmark a)) (takeAllChildrenAndReparent ?new block (?s4\<lparr>cs_dom := d\<rparr>)) = ?s7"
    by (simp add: takeAllChildrenAndReparent_def appendTask_def withList_def)
  have items: "m_top (m_openElements ?s7) = pre @ block # (clones @ todo) @ fe # rest" using A(4) by simp
  have out: "item_id ?new \<notin> item_id ` set (m_top (m_openElements ?s7))" using fresh by (simp add: fresh_in_def)
  have inL: "?new \<in> set (entry_items (m_entries (m_activeFormattingElements ?s7)))" using W(2) by simp
  have inD: "item_in (cs_dom ?s7) ?new" using n_in by simp
  obtain st where st: "Option.bind (withStackOpt (remove_element (si_node fe)) ?s7) (\<lambda>s. Some (True, withStack (insertAbove ?new (length pre)) s))
      = Some (True, ?s7\<lparr>m_openElements := st\<rparr>)" "site_ok (?s7\<lparr>m_openElements := st\<rparr>) kids"
    "m_top st = pre @ ?new # block # (clones @ todo) @ rest" "m_rootNode st = m_rootNode (m_openElements ?s7)"
    using adopting_restack [OF W(1) items A(3) formatting_not(1) [OF F(1)] N(1) inD out inL] by blast
  let ?s' = "?s7\<lparr>m_openElements := st\<rparr>"
  have run: "finish_adoption env fe (hd rest) (length pre) (a, s) = Some (True, ?s')"
    unfolding finish_adoption_def prod.case t(1) bind.simps at(1) c(1) Let_def using st(1) at(2) eq by simp
  have kept: "site_kept ?s' s" using c(3) st(4) by (simp add: site_kept_def)
  have "foster_ok ?s'"
  proof (rule foster_keep [OF foster ok(4)])
    show "m_top (m_openElements ?s') = (pre @ ?new # block # clones @ todo) @ rest" using st(3) by simp
    show "m_top (m_openElements s) = (pre @ block # clones @ todo @ [fe]) @ rest" using A(4) by simp
    show "\<not> matchesHTMLTag (lit ''table'') i" if "i \<in> set (pre @ ?new # block # clones @ todo)" for i
    proof (cases "i = ?new")
      case False
      then have "i \<in> set (pre @ block # clones @ todo)" using that by auto
      then show ?thesis using not_marker(1) adopting_items_ok(1,2) [OF inv] by blast
    qed (use formatting_not_table [OF N(1)] in blast)
  qed (use kept c(2) A(3) in \<open>simp_all add: site_kept_def\<close>)
  then show ?thesis using run st(2,3) queue kept W(2,3) by (intro exI [of _ ?s'] exI [of _ ?new]) simp
qed

lemma adopting_foster:
  assumes "adopting kids pre block clones todo fe rest b0 a s" "adopting kids pre block clones' todo' fe rest b0 a' s'"
    and "site_kept s' s" "foster_ok s"
  shows "foster_ok s'"
proof -
  note A = adoptingD [OF assms(1)] and B = adoptingD [OF assms(2)]
  show ?thesis
  proof (rule foster_keep [OF assms(4) site_okD(4) [OF A(1)] site_okD(4) [OF B(1)]])
    show "m_top (m_openElements s') = (pre @ block # clones' @ todo') @ fe # rest" by (rule B(5))
    show "m_top (m_openElements s) = (pre @ block # clones @ todo) @ fe # rest" by (rule A(5))
    show "\<not> matchesHTMLTag (lit ''table'') i" if "i \<in> set (pre @ block # clones' @ todo')" for i
      using not_marker(1) adopting_items_ok(1,2) [OF assms(2) that] by blast
  qed (use assms(3) in \<open>simp_all add: site_kept_def\<close>)
qed

section \<open>One round\<close>

lemma closest_entry:
  assumes "closestElementInScopeWithName name l = Some item"
  shows "item \<in> set (entry_items (m_entries l))"
proof -
  have "item \<in> set (entry_items es)" if "closest_loop name es = Some item" for es
    using that by (induction name es rule: closest_loop.induct) (auto split: if_splits)
  from this [of "rev (m_entries l)"] show ?thesis
    using assms by (simp add: closestElementInScopeWithName_def entry_items_member)
qed

lemma find_record_at: "list_all (\<lambda>i. \<not> P i) over \<Longrightarrow> P item \<Longrightarrow> find_record P (over @ item # rest) = Some (length over)"
  by (induction over) auto

lemma in_scope_append: "list_all (\<lambda>i. \<not> M i) over \<Longrightarrow> T item \<Longrightarrow> in_scope M T (over @ item # rest)"
  by (induction over) (auto simp: in_scope_Cons)

text \<open>The formatting element on the stack: it is the item of the list, above the root, and the queries find it.\<close>

lemma formatting_on_stack:
  assumes "site_ok s kids" "fe \<in> set (entry_items (m_entries (m_activeFormattingElements s)))"
    and "contains_element (item_id fe) (m_openElements s)" "scope_answer (inScope_element (item_id fe) (m_openElements s))"
  obtains over rest where "m_top (m_openElements s) = over @ fe # rest" "rest \<noteq> []" "list_all (\<lambda>i. \<not> isScopeMarker i) over"
    "find_element (item_id fe) (m_openElements s) = Some (length over)" "list_all (\<lambda>i. item_id i \<noteq> item_id fe) over"
proof -
  let ?items = "m_top (m_openElements s)"
  have ne: "?items \<noteq> []" using assms(3) by (auto simp: contains_element_iff)
  have "in_scope isScopeMarker (\<lambda>i. item_id i = item_id fe) ?items"
    using assms(4) default_scope.query_decides [OF site_okD(1) [OF assms(1)] ne]
    by (simp add: scope_answer_def inScope_element_def)
  then obtain over item rest where o: "?items = over @ item # rest" "item_id item = item_id fe"
    "list_all (\<lambda>i. item_id i \<noteq> item_id fe \<and> \<not> isScopeMarker i) over" by (rule in_scope_split)
  have fe: "item = fe" using site_okD(7) [OF assms(1) _ assms(2) o(2)] o(1) by simp
  have plain: "plain_item fe" using formatting_not(1) entry_facts(1) [OF assms(1,2)] by blast
  have "items_ok (over @ fe # rest)" using site_okD(1) [OF assms(1)] o(1) fe by (simp add: stack_ok_def stack_inv_def)
  then have rest: "rest \<noteq> []" using pop_list_ok(1) [of fe rest] items_ok_suffix [of over "fe # rest"] plain by blast
  have a: "list_all (\<lambda>i. \<not> isScopeMarker i) over" "list_all (\<lambda>i. item_id i \<noteq> item_id fe) over"
    using o(3) by (auto simp: list_all_iff)
  have "find_element (item_id fe) (m_openElements s) = Some (length over)"
    unfolding find_element_def o(1) fe by (rule find_record_at [OF a(2) refl])
  then show thesis using that o(1) fe rest a by simp
qed

lemma adopting_begin:
  assumes "site_ok s kids" "adopt_queue (cs_dom s) (m_taskQueue s)" "rest \<noteq> []"
    and "fe \<in> set (entry_items (m_entries (m_activeFormattingElements s)))"
    and "m_top (m_openElements s) = pre @ block # todo @ fe # rest" "list_all (\<lambda>i. \<not> isScopeMarker i) (pre @ block # todo)"
  shows "\<exists>b0. bookmarkFor (item_id fe) (m_activeFormattingElements s) = Some b0
    \<and> adopting kids pre block [] todo fe rest b0 \<lparr>ad_nextNode = length pre + 1, ad_lastNode = length pre,
        ad_formattingElementRecord = length pre + 1 + length todo, ad_bookmark = b0\<rparr> s"
proof -
  obtain k where "fl_find (item_id fe) (m_activeFormattingElements s) = Some k"
    "k < length (m_entries (m_activeFormattingElements s))" "m_entries (m_activeFormattingElements s) ! k = ItemEntry fe"
    using fl_find_entry [OF assms(1,4)] by blast
  then show ?thesis using assms by (intro exI [of _ "\<lparr>m_hasBeenMoved = False, m_mark = k\<rparr>"]) (simp add: bookmarkFor_def adopting_def)
qed

lemma furthest_at:
  assumes "m_top st = pre @ block # todo @ fe # rest" "list_all (\<lambda>i. item_id i \<noteq> item_id fe) (pre @ block # todo)"
    "isSpecialNode block" "list_all (\<lambda>i. \<not> isSpecialNode i) todo"
  shows "furthestBlockForFormattingElement (item_id fe) st = Some (Some (length pre))"
proof -
  let ?over = "pre @ block # todo"
  have top: "m_top st = ?over @ fe # rest" using assms(1) by simp
  have at: "?over ! length pre = block" by simp
  consider (none) "list_all (\<lambda>i. \<not> isSpecialNode i) ?over"
    | (some) i where "i < length ?over" "isSpecialNode (?over ! i)" "\<And>j. i < j \<Longrightarrow> j < length ?over \<Longrightarrow> \<not> isSpecialNode (?over ! j)"
        "furthestBlock_loop (item_id fe) None 0 (?over @ fe # rest) = Some (Some i)"
    using furthestBlock_loop_spec [OF assms(2) refl, of None 0 rest] by auto
  then show ?thesis
  proof cases
    case (some i)
    have "\<not> isSpecialNode (?over ! j)" if "length pre < j" "j < length ?over" for j
      using that assms(4) by (auto simp: nth_append list_all_length nth_Cons')
    then have "\<not> length pre < i" using some(1,2) by blast
    moreover have "\<not> i < length pre" using some(3) [of "length pre"] assms(3) at by auto
    ultimately have "i = length pre" by simp
    then show ?thesis using some(4) unfolding furthestBlockForFormattingElement_def top by simp
  qed (use assms(3) in simp)
qed

lemma round_with_block:
  assumes "site_ok s kids" "env_ok env" "foster_ok s" "adopt_queue (cs_dom s) (m_taskQueue s)"
    and closest: "closestElementInScopeWithName (at_name token) (m_activeFormattingElements s) = Some fe"
    and items: "m_top (m_openElements s) = pre @ block # todo @ fe # rest"
    and block: "isSpecialNode block" "list_all (\<lambda>i. \<not> isSpecialNode i) todo" "list_all (\<lambda>i. \<not> isScopeMarker i) (pre @ block # todo)"
  shows "\<exists>s' new visited kept made. adoption_round env token s = Some (True, s') \<and> site_ok s' kids \<and> foster_ok s'
    \<and> adopt_queue (cs_dom s') (m_taskQueue s') \<and> todo = visited @ kept
    \<and> (length visited = innerIterationLimit \<or> length visited < innerIterationLimit \<and> kept = [])
    \<and> clones_for env s visited made \<and> new = clone_of env (m_parserContentPolicy s) fe (item_id new)
    \<and> m_top (m_openElements s') = pre @ new # block # made @ kept @ rest
    \<and> new \<in> set (entry_items (m_entries (m_activeFormattingElements s')))
    \<and> \<not> fl_contains (item_id fe) (m_activeFormattingElements s')"
proof -
  let ?st = "m_openElements s" and ?over = "pre @ block # todo"
  note fe = closest_entry [OF closest]
  have items': "m_top ?st = ?over @ fe # rest" using items by simp
  have c: "contains_element (item_id fe) ?st" using items by (simp add: contains_element_iff)
  have ok: "items_ok (?over @ fe # rest)" using site_okD(1) [OF assms(1)] items' by (simp add: stack_ok_def stack_inv_def)
  have dist: "list_all (\<lambda>i. item_id i \<noteq> item_id fe) ?over"
    using distinct_key(1) [OF items_ok_distinct [OF ok]] unfolding list_all_iff by blast
  have scope: "inScope_element (item_id fe) ?st = Some True"
  proof -
    have "in_scope isScopeMarker (\<lambda>i. item_id i = item_id fe) (m_top ?st)"
      unfolding items' by (rule in_scope_append [OF block(3) refl])
    then show ?thesis using default_scope.query_decides [OF site_okD(1) [OF assms(1)], of "\<lambda>i. item_id i = item_id fe"] items
      by (simp add: inScope_element_def)
  qed
  have plain: "plain_item fe" using formatting_not(1) entry_facts(1) [OF assms(1) fe] by blast
  have rest: "rest \<noteq> []" using pop_list_ok(1) [of fe rest] items_ok_suffix [OF ok] plain by blast
  have found: "find_element (item_id fe) ?st = Some (length ?over)"
    unfolding find_element_def items' by (rule find_record_at [OF dist refl])
  note furthest = furthest_at [OF items dist block(1,2)]
  obtain top where cur: "currentStackItem s = Some top" "isElementNode top"
  proof -
    have "isElementNode (hd (m_top ?st))" using stack_split_facts(2) [OF assms(1) items' rest, of "hd ?over"] unfolding items' by (cases pre) auto
    moreover have "currentStackItem s = Some (hd (m_top ?st))" using items by (cases pre) (simp_all add: currentStackItem_def)
    ultimately show thesis by (rule that [rotated])
  qed
  have quiet: "cs_assert True s = s" using site_okD(3) [OF assms(1)] by (simp add: cs_quiet)
  have len: "length ?over + 1 < length (m_top ?st)" "m_top ?st ! (length ?over + 1) = hd rest"
    using rest unfolding items' by (auto simp: nth_append hd_conv_nth)
  have above: "isAbove (length pre) (length ?over) ?st" using len(1) by (simp add: isAbove_def)
  obtain b0 where b0: "bookmarkFor (item_id fe) (m_activeFormattingElements s) = Some b0"
    "adopting kids pre block [] todo fe rest b0 \<lparr>ad_nextNode = length pre + 1, ad_lastNode = length pre,
        ad_formattingElementRecord = length pre + 1 + length todo, ad_bookmark = b0\<rparr> s"
    using adopting_begin [OF assms(1,4) rest fe items block(3)] by blast
  let ?a = "\<lparr>ad_nextNode = length pre + 1, ad_lastNode = length pre, ad_formattingElementRecord = length pre + 1 + length todo, ad_bookmark = b0\<rparr>"
  obtain a' s3 visited kept made where l: "adoption_inner_loop env innerIterationLimit (length pre) ?a s = Some (a', s3)"
    "todo = visited @ kept" "length visited = innerIterationLimit \<or> length visited < innerIterationLimit \<and> kept = []"
    "clones_for env s visited made" "adopting kids pre block made kept fe rest b0 a' s3" "site_kept s3 s"
    using adopting_loop [OF assms(2) b0(2), of innerIterationLimit] unfolding append_Nil by blast
  obtain s' new where f: "finish_adoption env fe (hd rest) (length pre) (a', s3) = Some (True, s')" "site_ok s' kids" "foster_ok s'"
    "adopt_queue (cs_dom s') (m_taskQueue s')" "m_top (m_openElements s') = pre @ new # block # made @ kept @ rest"
    "new = clone_of env (m_parserContentPolicy s3) fe (item_id new)"
    "new \<in> set (entry_items (m_entries (m_activeFormattingElements s')))" "\<not> fl_contains (item_id fe) (m_activeFormattingElements s')"
    using finish_ok [OF assms(2) l(5) adopting_foster [OF b0(2) l(5,6) assms(3)]] by blast
  have over: "length ?over = length pre + 1 + length todo" by simp
  have "adoption_round env token s = Some (True, s')"
    unfolding adoption_round_def closest option.case Let_def scope scope_answer_def found furthest
    using c cur quiet len above b0(1) l(1) f(1) by (simp add: over)
  moreover have "m_parserContentPolicy s3 = m_parserContentPolicy s" using l(6) by (simp add: site_kept_def)
  ultimately show ?thesis using f(2-5,7,8) f(6) l(2-4)
    by (intro exI [of _ s'] exI [of _ new] exI [of _ visited] exI [of _ kept] exI [of _ made]) simp
qed

lemma site_fl_remove:
  assumes "site_ok s kids" "fe \<in> set (entry_items (m_entries (m_activeFormattingElements s)))"
  shows "site_ok (withList (fl_remove (item_id fe)) s) kids"
proof -
  let ?l = "m_activeFormattingElements s"
  note inv = site_okD(2) [OF assms(1)] and F = entry_facts [OF assms]
  have eq: "fl_remove (item_id fe) ?l = ?l\<lparr>m_entries := without {item_id fe} (m_entries ?l)\<rparr>"
    by (rule fl_remove_eq) (use inv in \<open>simp add: list_inv_def\<close>)
  have link: "i = fe" if "i \<in> set (m_top (m_openElements s))" "item_id i = item_id fe" for i
    using site_okD(7) [OF assms(1) that(1) assms(2) that(2)] .
  show ?thesis unfolding withList_def eq
    by (rule site_entry [OF assms(1) list_inv_without [OF inv] _ F(1,3) link]) (auto simp: without_items)
qed

lemma round_without_block:
  assumes "site_ok s kids" "closestElementInScopeWithName (at_name token) (m_activeFormattingElements s) = Some fe"
    and items: "m_top (m_openElements s) = over @ fe # rest" "rest \<noteq> []"
    and c: "contains_element (item_id fe) (m_openElements s)" "scope_answer (inScope_element (item_id fe) (m_openElements s))"
    and found: "find_element (item_id fe) (m_openElements s) = Some (length over)"
    and none: "list_all (\<lambda>i. item_id i \<noteq> item_id fe) over" "list_all (\<lambda>i. \<not> isSpecialNode i) over"
  shows "adoption_round env token s =
      Some (False, withList (fl_remove (item_id fe)) (s\<lparr>m_openElements := popped (over @ [fe]) (m_openElements s)\<rparr>))"
    "site_ok (withList (fl_remove (item_id fe)) (s\<lparr>m_openElements := popped (over @ [fe]) (m_openElements s)\<rparr>)) kids"
proof -
  let ?st = "m_openElements s"
  note fe = closest_entry [OF assms(2)] and S = stack_split_facts [OF assms(1) items]
  have plain: "plain_item fe" using formatting_not(1) entry_facts(1) [OF assms(1) fe] by blast
  have furthest: "furthestBlockForFormattingElement (item_id fe) ?st = Some None"
    using furthestBlock_loop_spec [OF none(1) refl, of None 0 rest] none(2)
    unfolding furthestBlockForFormattingElement_def items(1) by (auto simp: list_all_length)
  have lf: "list_all (\<lambda>i. plain_item i \<and> \<not> item_id i = item_id fe \<and> isElementNode i) over"
    using S(1,2) none(1) unfolding list_all_iff by blast
  from popPast_ok [OF site_okD(1) [OF assms(1)] items(1), of "\<lambda>i. item_id i = item_id fe" isElementNode, OF refl S(3) plain lf]
  have p: "popUntilPopped_element (item_id fe) ?st = Some (popped (over @ [fe]) ?st)" "stack_ok (popped (over @ [fe]) ?st)"
    unfolding popUntilPopped_element_def popUntil_element_def by simp_all
  obtain top where cur: "currentStackItem s = Some top" "isElementNode top"
  proof (cases over)
    case Nil
    then show thesis using that [of fe] S(3) items(1) by (simp add: currentStackItem_def)
  next
    case (Cons i more)
    then show thesis using that [of i] S(2) items(1) by (simp add: currentStackItem_def)
  qed
  have quiet: "cs_assert True s = s" using site_okD(3) [OF assms(1)] by (simp add: cs_quiet)
  have scope: "inScope_element (item_id fe) ?st = Some True" using c(2) by (simp add: scope_answer_def)
  show "adoption_round env token s =
      Some (False, withList (fl_remove (item_id fe)) (s\<lparr>m_openElements := popped (over @ [fe]) ?st\<rparr>))"
    unfolding adoption_round_def assms(2) option.case Let_def scope scope_answer_def found furthest
    using cur quiet p(1) by (simp add: withStackOpt_def)
  show "site_ok (withList (fl_remove (item_id fe)) (s\<lparr>m_openElements := popped (over @ [fe]) ?st\<rparr>)) kids"
    by (rule site_fl_remove [OF site_popped [OF assms(1) p(2)]]) (use fe in simp)
qed

lemma last_special:
  assumes "\<not> list_all (\<lambda>i. \<not> isSpecialNode i) over"
  obtains pre block todo where "over = pre @ block # todo" "isSpecialNode block" "list_all (\<lambda>i. \<not> isSpecialNode i) todo"
proof -
  have "\<exists>i \<in> set over. isSpecialNode i" using assms by (auto simp: list_all_iff)
  from split_list_last_prop [OF this] show thesis using that by (auto simp: list_all_iff)
qed

lemma round_ok:
  assumes ok: "site_ok s kids" and env: "env_ok env" "foster_ok s" "adopt_queue (cs_dom s) (m_taskQueue s)"
    and token: "m_top (m_openElements s) \<noteq> []" "ordinary_name (at_name token)" "at_type token = EndTag"
  shows "\<exists>again s'. adoption_round env token s = Some (again, s') \<and> site_ok s' kids \<and> adopt_queue (cs_dom s') (m_taskQueue s')
    \<and> (again \<longrightarrow> foster_ok s' \<and> m_top (m_openElements s') \<noteq> [])"
proof (cases "closestElementInScopeWithName (at_name token) (m_activeFormattingElements s)")
  case None
  obtain over item rest where a: "processAnyOtherEndTagForInBody token s =
      Some (if matchesHTMLTag (at_name token) item then s\<lparr>m_openElements := popped (over @ [item]) (m_openElements s)\<rparr> else s)"
    "matchesHTMLTag (at_name token) item \<Longrightarrow> stack_ok (popped (over @ [item]) (m_openElements s))"
    using any_other_spec [OF ok token] by blast
  let ?s = "if matchesHTMLTag (at_name token) item then s\<lparr>m_openElements := popped (over @ [item]) (m_openElements s)\<rparr> else s"
  have "adoption_round env token s = Some (False, ?s)" using a(1) by (simp add: adoption_round_def None)
  then show ?thesis using site_popped [OF ok a(2)] ok env(3) by (intro exI [of _ False] exI [of _ ?s]) auto
next
  case (Some fe)
  let ?st = "m_openElements s"
  note fe = closest_entry [OF Some]
  have decided: "inScope_element (item_id fe) ?st \<noteq> None"
    using default_scope.query_decides [OF site_okD(1) [OF ok] token(1)] by (simp add: inScope_element_def)
  then have q: "cs_assert (contains_element (item_id fe) ?st \<longrightarrow> inScope_element (item_id fe) ?st \<noteq> None) s = s"
    using site_okD(3) [OF ok] by (simp add: cs_quiet)
  consider (out) "contains_element (item_id fe) ?st" "\<not> scope_answer (inScope_element (item_id fe) ?st)"
    | (closed) "\<not> contains_element (item_id fe) ?st"
    | (live) "contains_element (item_id fe) ?st" "scope_answer (inScope_element (item_id fe) ?st)" by blast
  then show ?thesis
  proof cases
    case out
    then have "adoption_round env token s = Some (False, s)" unfolding adoption_round_def Some option.case Let_def q by simp
    then show ?thesis using ok env(3) by (intro exI [of _ False] exI [of _ s]) simp
  next
    case closed
    then have "find_element (item_id fe) ?st = None"
      unfolding find_element_def find_record_None contains_element_iff by (metis imageI)
    then have "adoption_round env token s = Some (False, withList (fl_remove (item_id fe)) s)"
      using closed unfolding adoption_round_def Some option.case Let_def q by simp
    then show ?thesis using site_fl_remove [OF ok fe] env(3)
      by (intro exI [of _ False] exI [of _ "withList (fl_remove (item_id fe)) s"]) simp
  next
    case live
    obtain over rest where o: "m_top ?st = over @ fe # rest" "rest \<noteq> []" "list_all (\<lambda>i. \<not> isScopeMarker i) over"
      "find_element (item_id fe) ?st = Some (length over)" "list_all (\<lambda>i. item_id i \<noteq> item_id fe) over"
      using formatting_on_stack [OF ok fe live] .
    show ?thesis
    proof (cases "list_all (\<lambda>i. \<not> isSpecialNode i) over")
      case True
      let ?s = "withList (fl_remove (item_id fe)) (s\<lparr>m_openElements := popped (over @ [fe]) ?st\<rparr>)"
      show ?thesis using round_without_block [OF ok Some o(1,2) live o(4,5) True] env(3)
        by (intro exI [of _ False] exI [of _ ?s]) simp
    next
      case False
      then obtain pre block todo where b: "over = pre @ block # todo" "isSpecialNode block" "list_all (\<lambda>i. \<not> isSpecialNode i) todo"
        by (rule last_special)
      have "m_top ?st = pre @ block # todo @ fe # rest" using o(1) b(1) by simp
      from round_with_block [OF ok env Some this b(2,3) o(3) [unfolded b(1)]]
      obtain s' new made kept where "adoption_round env token s = Some (True, s')" "site_ok s' kids" "foster_ok s'"
        "adopt_queue (cs_dom s') (m_taskQueue s')" "m_top (m_openElements s') = pre @ new # block # made @ kept @ rest" by blast
      then show ?thesis by (intro exI [of _ True] exI [of _ s']) simp
    qed
  qed
qed

section \<open>All rounds\<close>

lemma outer_loop_ok:
  assumes "site_ok s kids" "env_ok env" "foster_ok s" "adopt_queue (cs_dom s) (m_taskQueue s)"
    and "m_top (m_openElements s) \<noteq> []" "ordinary_name (at_name token)" "at_type token = EndTag"
  shows "\<exists>s'. adoption_outer_loop env n token s = Some s' \<and> site_ok s' kids \<and> adopt_queue (cs_dom s') (m_taskQueue s')"
  using assms(1,3,4,5)
proof (induction n arbitrary: s)
  case (Suc n)
  obtain again s1 where r: "adoption_round env token s = Some (again, s1)" "site_ok s1 kids" "adopt_queue (cs_dom s1) (m_taskQueue s1)"
    "again \<longrightarrow> foster_ok s1 \<and> m_top (m_openElements s1) \<noteq> []"
    using round_ok [OF Suc.prems(1) assms(2) Suc.prems(2,3,4) assms(6,7)] by blast
  then show ?case using Suc.IH [OF r(2) _ r(3)] by (cases again) simp_all
qed simp

lemma executeAdoptionQueue_ok:
  assumes "site_ok s kids" "adopt_queue (cs_dom s) (m_taskQueue s)"
  shows "\<exists>s' kids'. executeQueuedTasks s = Some s' \<and> site_ok s' kids' \<and> m_taskQueue s' = []"
proof (cases "m_taskQueue s = []")
  case True
  then show ?thesis using assms(1) by (auto simp: executeQueuedTasks_def)
next
  case False
  obtain d' kids' where d: "executeTasks (m_taskQueue s) (cs_dom s) = Some d'" "dom_ok d' kids'" "tags_kept d' (cs_dom s)"
    using executeAdoptions_ok [OF site_okD(4) [OF assms(1)] assms(2)] by blast
  show ?thesis using False d(1) site_ok_dom [OF assms(1) d(2,3)] by (auto simp: executeQueuedTasks_def)
qed

section \<open>Properties\<close>

lemma formatting_ordinary: "isFormattingTag name \<Longrightarrow> ordinary_name name"
  by (auto simp: formatting_names ordinary_name_def)


lemma sample_bold_end: "at_name (AtomicHTMLToken_tag EndTag (lit ''b'') []) = lit ''b''"
  "at_type (AtomicHTMLToken_tag EndTag (lit ''b'') []) = EndTag" "isFormattingTag (lit ''b'')"
  by (simp_all add: AtomicHTMLToken_tag_def AtomicHTMLToken_empty_def formatting_names)


text \<open>
  C9. What a round does to a formatting element with a furthest block above it. The items between the two
  are visited from the block down, three at most: those that are active formatting elements are replaced
  by clones, the others leave the stack. The formatting element leaves the stack and the list; a clone of
  it comes right above the furthest block and into the list. Everything above the block and below the
  formatting element stays where it was.
\<close>

theorem adoption_round_correct:
  assumes "site_ok s kids" "env_ok env" "foster_ok s" "adopt_queue (cs_dom s) (m_taskQueue s)"
    and "closestElementInScopeWithName (at_name token) (m_activeFormattingElements s) = Some fe"
    and "m_top (m_openElements s) = pre @ block # todo @ fe # rest" "isSpecialNode block"
    and "list_all (\<lambda>i. \<not> isSpecialNode i) todo" "list_all (\<lambda>i. \<not> isScopeMarker i) (pre @ block # todo)"
  shows "\<exists>s' new visited kept made. adoption_round env token s = Some (True, s')
    \<and> todo = visited @ kept \<and> (length visited = innerIterationLimit \<or> length visited < innerIterationLimit \<and> kept = [])
    \<and> clones_for env s visited made \<and> new = clone_of env (m_parserContentPolicy s) fe (item_id new)
    \<and> m_top (m_openElements s') = pre @ new # block # made @ kept @ rest
    \<and> new \<in> set (entry_items (m_entries (m_activeFormattingElements s')))
    \<and> \<not> fl_contains (item_id fe) (m_activeFormattingElements s') \<and> site_ok s' kids"
  using round_with_block [OF assms] by blast

theorem adoption_round_correct_witness:
  "\<exists>s' new. adoption_round sample_env (AtomicHTMLToken_tag EndTag (lit ''b'') []) (sample_site [3, 2, 1, 0]) = Some (True, s')
     \<and> m_top (m_openElements s') = [new, site_item 3, site_item 1, site_item 0] \<and> si_localName new = Some (lit ''b'')
     \<and> new \<in> set (entry_items (m_entries (m_activeFormattingElements s')))"
proof -
  let ?t = "AtomicHTMLToken_tag EndTag (lit ''b'') []" and ?s = "sample_site [3, 2, 1, 0]"
  have items: "m_top (m_openElements ?s) = [] @ site_item 3 # [] @ site_item 2 # [site_item 1, site_item 0]" by (simp add: sample_site_def)
  have q: "adopt_queue (cs_dom ?s) (m_taskQueue ?s)" by (simp add: sample_site_def HTMLConstructionSite_new_def adopt_queue_def)
  have c: "closestElementInScopeWithName (at_name ?t) (m_activeFormattingElements ?s) = Some (site_item 2)"
    unfolding sample_bold_end(1) by (simp add: sample_site_def closestElementInScopeWithName_def matchesHTMLTag_def site_item_def
        HTMLStackItem_forElement_def sample_name_def htmlName_def)
  have b: "isSpecialNode (site_item 3)" "list_all (\<lambda>i. \<not> isScopeMarker i) ([] @ site_item 3 # [])"
    by (simp_all add: isSpecialNode_def isScopeMarker_def isRootNode_def site_item_def HTMLStackItem_forElement_def sample_name_def htmlName_def
        hasTagName_def nodeHasTag_def htmlTag_def mathmlName_def svgName_def isDocumentFragment_def localNameIn_def specialHTMLNames_def)
  have n: "si_localName (clone_of env policy (site_item 2) x) = Some (lit ''b'')" for env policy x
    by (simp add: clone_of_def site_item_def HTMLStackItem_forElement_def sample_name_def htmlName_def)
  obtain s' new where r: "adoption_round sample_env ?t ?s = Some (True, s')" "new = clone_of sample_env (m_parserContentPolicy ?s) (site_item 2) (item_id new)"
    "m_top (m_openElements s') = [] @ new # site_item 3 # [] @ [] @ [site_item 1, site_item 0]"
    "new \<in> set (entry_items (m_entries (m_activeFormattingElements s')))"
    using adoption_round_correct [OF sample_site_ok(2) sample_env_ok sample_foster(2) q c items b(1) _ b(2)]
    by (auto simp: clones_for_def)
  have "si_localName new = Some (lit ''b'')" using n r(2) by metis
  then show ?thesis using r(1,3,4) by (intro exI [of _ s'] exI [of _ new]) simp
qed

end
