(* ===== verification/Html_Element_Insertion.thy ===== *)
theory Html_Element_Insertion
  imports Html_End_Tags
begin

text \<open>
  The start tags of elements: an element is created with the attributes the policy of the parser allows,
  its insertion is queued, and it is pushed on the stack; a formatting element also enters the list.
\<close>

section \<open>Attaching a new node\<close>

definition policy_allows :: "ParserContentPolicy \<Rightarrow> QualifiedName option \<Rightarrow> bool" where
  "policy_allows policy tag \<longleftrightarrow> (scriptingContentIsAllowed policy \<or> \<not> isScriptElement tag)
     \<and> (pluginContentIsAllowed policy \<or> \<not> isPluginElement tag)"

lemma tag_not_fragment: "nodeTag d x = Some tag \<Longrightarrow> \<not> isFragment d x"
  by (cases "nd_kind (dom_node d x)") (auto simp: nodeTag_def isFragment_def)

lemma attach_new:
  assumes "site_ok s kids" "foster_ok s" "m_top (m_openElements s) = cur # rest" "insert_queue (cs_dom s) (m_taskQueue s)"
    and "x < dom_next (cs_dom s)" "nodeTag (cs_dom s) x = Some tag" "parentNode (cs_dom s) x = None"
    and "x \<notin> task_child ` set (m_taskQueue s)" "policy_allows (m_parserContentPolicy s) (Some tag)"
  shows "\<exists>task. attachLater (item_id cur) x b s = Some (appendTask task s) \<and> attach_task x b s task
    \<and> insert_queue (cs_dom s) (m_taskQueue s @ [task])"
proof -
  have ne: "m_top (m_openElements s) \<noteq> []" "item_id cur < dom_next (cs_dom s)"
    using assms(3) stack_in_use(1) [OF assms(1), of cur] by simp_all
  obtain task where t: "attachLater (item_id cur) x b s = Some (appendTask task s)" "attach_task x b s task"
    using attachLater_ok [OF assms(1,2) ne, of x b] assms(6,9) by (auto simp: policy_allows_def)
  show ?thesis using t insert_queue_attach [OF assms(4) t(2) assms(5) tag_not_fragment [OF assms(6)] assms(7,8)] by auto
qed

lemma createHTMLElement_events:
  assumes "createHTMLElement env token s = Some (element, token', s')"
  shows "dom_events (cs_dom s') = dom_events (cs_dom s)"
  using assms
  by (auto simp: createHTMLElement_def createHTMLElementOrFindCustomElementInterface_def ownerDocumentForCurrentNode_def
      elementForToken_def newNode_def templateContent_def cs_assert_def Let_def bind_eq_Some_conv split: option.splits if_splits)

text \<open>The site after the creation of an element for a token.\<close>

lemma created:
  assumes "site_ok s kids" "env_ok env" "foster_ok s" "m_top (m_openElements s) = cur # rest" "insert_queue (cs_dom s) (m_taskQueue s)"
    and "policy_allows (m_parserContentPolicy s) (Some (htmlName (at_name token)))"
  defines "attributes \<equiv> setAttributes env (htmlName (at_name token)) (at_attributes token) (m_parserContentPolicy s)"
  shows "\<exists>d x task. createHTMLElement env token s =
      Some (\<lparr>node_id = x, node_tag = Some (htmlName (at_name token))\<rparr>, token\<lparr>at_attributes := attributes\<rparr>, s\<lparr>cs_dom := d\<rparr>)
    \<and> attachLater (item_id cur) x b (s\<lparr>cs_dom := d\<rparr>) = Some (appendTask task (s\<lparr>cs_dom := d\<rparr>)) \<and> attach_task x b (s\<lparr>cs_dom := d\<rparr>) task
    \<and> site_ok (s\<lparr>cs_dom := d\<rparr>) kids \<and> insert_queue d (m_taskQueue s @ [task]) \<and> tags_kept d (cs_dom s)
    \<and> fresh_in s x \<and> x < dom_next d \<and> nodeTag d x = Some (htmlName (at_name token))
    \<and> nd_kind (dom_node d x) = ElementNode (htmlName (at_name token)) attributes"
proof -
  have ne: "m_top (m_openElements s) \<noteq> []" using assms(4) by simp
  obtain d x where c: "createHTMLElement env token s =
      Some (\<lparr>node_id = x, node_tag = Some (htmlName (at_name token))\<rparr>, token\<lparr>at_attributes := attributes\<rparr>, s\<lparr>cs_dom := d\<rparr>)"
    "dom_ok d kids" "tags_kept d (cs_dom s)" "dom_next (cs_dom s) \<le> x" "x < dom_next d"
    "nodeTag d x = Some (htmlName (at_name token))" "parentNode d x = None" "fresh_in s x"
    "nd_kind (dom_node d x) = ElementNode (htmlName (at_name token)) attributes"
    using createHTMLElement_ok [OF assms(1,2) ne, of token] unfolding attributes_def by blast
  let ?s = "s\<lparr>cs_dom := d\<rparr>"
  have ok: "site_ok ?s kids" by (rule site_ok_dom [OF assms(1) c(2,3)])
  have f: "foster_ok ?s"
    by (rule foster_keep [OF assms(3) site_okD(4) [OF assms(1)], where over = "[]" and over' = "[]"]) (use c ne in simp_all)
  have q: "insert_queue d (m_taskQueue s)" by (rule insert_queue_grow [OF assms(5) site_okD(4) [OF assms(1)] c(2,3)])
  obtain task where "attachLater (item_id cur) x b ?s = Some (appendTask task ?s)" "attach_task x b ?s task"
    "insert_queue d (m_taskQueue s @ [task])"
    using attach_new [OF ok f, of cur rest x "htmlName (at_name token)" b] q c assms(4,6) queue_in_use [OF assms(5) c(4)] by auto
  then show ?thesis using c ok by blast
qed

definition token_item :: "nat \<Rightarrow> AtomicString \<Rightarrow> DomAttribute list \<Rightarrow> HTMLStackItem" where
  "token_item x name attributes =
     \<lparr>si_node = \<lparr>node_id = x, node_tag = Some (htmlName name)\<rparr>, si_namespaceURI = Some xhtmlNamespaceURI,
      si_localName = Some name, si_attributes = attributes\<rparr>"

lemma token_item_fields [simp]: "item_id (token_item x name attributes) = x"
  "node_tag (si_node (token_item x name attributes)) = Some (htmlName name)" "si_localName (token_item x name attributes) = Some name"
  "si_attributes (token_item x name attributes) = attributes"
  by (simp_all add: token_item_def)

lemma token_item_ok: "item_ok (token_item x name attributes)"
  "ordinary_name name \<Longrightarrow> plain_item (token_item x name attributes)"
  "isFormattingTag name \<Longrightarrow> formatting_item (token_item x name attributes)"
proof -
  show ok: "item_ok (token_item x name attributes)" by (simp add: item_ok_def token_item_def htmlName_def)
  show "plain_item (token_item x name attributes)" if "ordinary_name name"
    by (rule ordinary_plain [OF that]) (simp add: matchesHTMLTag_def token_item_def)
  show "formatting_item (token_item x name attributes)" if "isFormattingTag name"
    using that ok by (simp add: formatting_item_def token_item_def)
qed

lemma insertHTMLElement_ok:
  assumes "site_ok s kids" "env_ok env" "foster_ok s" "m_top (m_openElements s) \<noteq> []" "insert_queue (cs_dom s) (m_taskQueue s)"
    and "ordinary_name (at_name token)" "policy_allows (m_parserContentPolicy s) (Some (htmlName (at_name token)))"
  defines "attributes \<equiv> setAttributes env (htmlName (at_name token)) (at_attributes token) (m_parserContentPolicy s)"
  shows "\<exists>s' x task. insertHTMLElement env token s = Some s' \<and> site_ok s' kids \<and> insert_queue (cs_dom s') (m_taskQueue s')
    \<and> m_top (m_openElements s') = token_item x (at_name token) attributes # m_top (m_openElements s)
    \<and> m_activeFormattingElements s' = m_activeFormattingElements s \<and> m_taskQueue s' = m_taskQueue s @ [task]
    \<and> task_operation task = Insert \<and> task_child task = x \<and> fresh_in s x \<and> tags_kept (cs_dom s') (cs_dom s)
    \<and> nd_kind (dom_node (cs_dom s') x) = ElementNode (htmlName (at_name token)) attributes"
proof -
  obtain cur rest where cur: "m_top (m_openElements s) = cur # rest" using assms(4) by (cases "m_top (m_openElements s)") auto
  obtain d x task where c: "createHTMLElement env token s =
      Some (\<lparr>node_id = x, node_tag = Some (htmlName (at_name token))\<rparr>, token\<lparr>at_attributes := attributes\<rparr>, s\<lparr>cs_dom := d\<rparr>)"
    "attachLater (item_id cur) x False (s\<lparr>cs_dom := d\<rparr>) = Some (appendTask task (s\<lparr>cs_dom := d\<rparr>))" "attach_task x False (s\<lparr>cs_dom := d\<rparr>) task"
    "site_ok (s\<lparr>cs_dom := d\<rparr>) kids" "insert_queue d (m_taskQueue s @ [task])" "tags_kept d (cs_dom s)"
    "fresh_in s x" "x < dom_next d" "nodeTag d x = Some (htmlName (at_name token))"
    "nd_kind (dom_node d x) = ElementNode (htmlName (at_name token)) attributes"
    using created [OF assms(1-3) cur assms(5,7), where b = False] unfolding attributes_def by blast
  let ?s1 = "appendTask task (s\<lparr>cs_dom := d\<rparr>)" and ?item = "token_item x (at_name token) attributes"
  have node: "currentNode (s\<lparr>cs_dom := d\<rparr>) = Some (si_node cur)"
    using cur by (simp add: currentNode_def currentStackItem_def)
  have ok: "site_ok ?s1 kids" "m_top (m_openElements ?s1) \<noteq> []" using c(4) assms(4) by simp_all
  have fresh: "fresh_in ?s1 (item_id ?item)" using c(7) by (simp add: fresh_in_def)
  have in_d: "item_in (cs_dom ?s1) ?item" using c(8,9) by (simp add: item_in_def)
  note P = site_push [OF ok token_item_ok(1) token_item_ok(2) [OF assms(6)] in_d fresh]
  have "HTMLStackItem_forToken \<lparr>node_id = x, node_tag = Some (htmlName (at_name token))\<rparr> (token\<lparr>at_attributes := attributes\<rparr>) xhtmlNamespaceURI = ?item"
    by (simp add: HTMLStackItem_forToken_def token_item_def)
  then have "insertHTMLElement env token s = Some (withStack (push ?item) ?s1)"
    by (simp add: insertHTMLElement_def c(1,2) node)
  then show ?thesis using P c(3,5,6,7,10)
    by (intro exI [of _ "withStack (push ?item) ?s1"] exI [of _ x] exI [of _ task]) (simp add: attach_task_def)
qed

section \<open>Formatting elements\<close>

lemma formatting_allowed: "isFormattingTag name \<Longrightarrow> policy_allows policy (Some (htmlName name))"
  using formatting_tag_other [of name] by (auto simp: policy_allows_def isScriptElement_def isPluginElement_def)

lemma formatting_is_ordinary: "isFormattingTag name \<Longrightarrow> ordinary_name name"
  by (auto simp: formatting_names ordinary_name_def)

lemma append_items:
  assumes "list_inv l" "attributes_ok item" "isElement item"
  shows "set (entry_items (m_entries (fl_append item l))) \<subseteq> insert item (set (entry_items (m_entries l)))"
  unfolding fl_append_def ensure_eq [OF assms] by (auto simp: Let_def without_items entry_items_member without_def)

text \<open>
  C17. The start tag of a formatting element, from a site in order whose queue holds insertions only. The
  new element has the name of the token and the attributes the policy allows; it is on top of the stack
  and the last entry of the list, where the Noah's Ark condition has been kept; exactly one task, its
  insertion, joins the queue. The site stays in order, and executing the queue keeps it so.
\<close>

theorem formatting_element_inserted:
  assumes "site_ok s kids" "env_ok env" "foster_ok s" "m_top (m_openElements s) \<noteq> []" "insert_queue (cs_dom s) (m_taskQueue s)"
    and "isFormattingTag (at_name token)" "distinct (map da_name (at_attributes token))"
    and "attributes = setAttributes env (htmlName (at_name token)) (at_attributes token) (m_parserContentPolicy s)"
  shows "\<exists>s' x task. insertFormattingElement env token s = Some s' \<and> site_ok s' kids
    \<and> m_top (m_openElements s') = token_item x (at_name token) attributes # m_top (m_openElements s)
    \<and> m_activeFormattingElements s' = fl_append (token_item x (at_name token) attributes) (m_activeFormattingElements s)
    \<and> nd_kind (dom_node (cs_dom s') x) = ElementNode (htmlName (at_name token)) attributes
    \<and> m_taskQueue s' = m_taskQueue s @ [task] \<and> task_operation task = Insert \<and> task_child task = x
    \<and> (\<exists>s'' kids''. executeQueuedTasks s' = Some s'' \<and> site_ok s'' kids'' \<and> m_taskQueue s'' = [])"
proof -
  note f = formatting_is_ordinary [OF assms(6)] formatting_allowed [OF assms(6)]
  obtain s1 x task where r: "insertHTMLElement env token s = Some s1" "site_ok s1 kids" "insert_queue (cs_dom s1) (m_taskQueue s1)"
    "m_top (m_openElements s1) = token_item x (at_name token) attributes # m_top (m_openElements s)"
    "m_activeFormattingElements s1 = m_activeFormattingElements s" "m_taskQueue s1 = m_taskQueue s @ [task]"
    "task_operation task = Insert" "task_child task = x" "fresh_in s x" "tags_kept (cs_dom s1) (cs_dom s)"
    "nd_kind (dom_node (cs_dom s1) x) = ElementNode (htmlName (at_name token)) attributes"
    using insertHTMLElement_ok [OF assms(1-5) f] unfolding assms(8) by blast
  let ?item = "token_item x (at_name token) attributes" and ?l = "m_activeFormattingElements s"
  have q: "cs_assert (isFormattingTag (at_name token)) s = s" using assms(6) site_okD(3) [OF assms(1)] by (simp add: cs_quiet)
  note F = token_item_ok(3) [OF assms(6), of x attributes]
  have at: "attributes_ok ?item"
    using assms(7) unfolding assms(8) by (simp add: attributes_ok_def setAttributes_def stripScriptingAttributes_def distinct_map_filter)
  have inv: "list_inv ?l" by (rule site_okD(2) [OF assms(1)])
  have new: "\<not> fl_contains (item_id ?item) ?l" using r(9) by (simp add: fresh_in_def fl_contains_iff)
  note L = append_inv [OF inv at formatting_itemD(1) [OF F] new] append_items [OF inv at formatting_itemD(1) [OF F]]
  have top: "?item \<in> set (m_top (m_openElements s1))" using r(4) by simp
  have one: "i = ?item" if "i \<in> set (m_top (m_openElements s1))" "item_id i = item_id ?item" for i
    using items_by_id [OF _ that(1) top that(2)] site_okD(1) [OF r(2)] by (simp add: stack_ok_def stack_inv_def)
  let ?s = "s1\<lparr>m_activeFormattingElements := fl_append ?item ?l\<rparr>"
  have ok: "site_ok ?s kids"
    by (rule site_entry [OF r(2) L(1) _ F site_okD(5) [OF r(2) top] one]) (use L(2) r(5) in simp)
  have "currentStackItem s1 = Some ?item" using r(4) by (simp add: currentStackItem_def)
  then have "insertFormattingElement env token s = Some ?s" by (simp add: insertFormattingElement_def q r(1,5) withList_def)
  moreover have "insert_queue (cs_dom ?s) (m_taskQueue ?s)" using r(3) by simp
  note executeQueue_ok [OF ok this]
  ultimately show ?thesis using ok r(4,6,7,8,11) by (intro exI [of _ ?s] exI [of _ x] exI [of _ task]) simp
qed

section \<open>Elements without an end tag\<close>

lemma executeQueue_one:
  assumes "site_ok s kids" "m_taskQueue s = [task]" "insert_ready (cs_dom s) task"
  shows "\<exists>s' kids' p. executeQueuedTasks s = Some s' \<and> site_ok s' kids'
    \<and> dom_events (cs_dom s') = dom_events (cs_dom s) @ [ChildInserted p (task_child task), NodeCall (BeginParsingChildren (task_child task))]
        @ (if task_selfClosing task then [NodeCall (FinishParsingChildren (task_child task))] else [])"
proof -
  obtain d' kids' p where d: "executeTask task (cs_dom s) = Some d'" "dom_ok d' kids'" "tags_kept d' (cs_dom s)"
    "dom_events d' = dom_events (cs_dom s) @ [ChildInserted p (task_child task), NodeCall (BeginParsingChildren (task_child task))]
        @ (if task_selfClosing task then [NodeCall (FinishParsingChildren (task_child task))] else [])"
    using executeInsert_ok [OF site_okD(4) [OF assms(1)] assms(3)] by blast
  have "site_ok ((s\<lparr>cs_dom := d'\<rparr>)\<lparr>m_taskQueue := []\<rparr>) kids'" using site_ok_dom [OF assms(1) d(2,3)] by simp
  then show ?thesis using assms(2) d(1,4) by (auto simp: executeQueuedTasks_def)
qed

text \<open>
  C20. An element without an end tag is created and inserted by one task, and is told that its children are
  parsed if it is inserted under the current node. When it is given to a foster parent it is never told:
  it is not on the stack, and the task of the foster parent drops the flag.
\<close>

theorem self_closing_finished:
  assumes "site_ok s kids" "env_ok env" "foster_ok s" "m_top (m_openElements s) \<noteq> []" "m_taskQueue s = []"
    and "at_type token = StartTag" "policy_allows (m_parserContentPolicy s) (Some (htmlName (at_name token)))"
  shows "\<exists>s' s'' kids'' x p. insertSelfClosingHTMLElement env token s = Some s' \<and> m_openElements s' = m_openElements s
    \<and> dom_events (cs_dom s') = dom_events (cs_dom s) \<and> executeQueuedTasks s' = Some s'' \<and> site_ok s'' kids''
    \<and> dom_events (cs_dom s'') = dom_events (cs_dom s) @ [ChildInserted p x, NodeCall (BeginParsingChildren x)]
        @ (if shouldFosterParent s = Some True then [] else [NodeCall (FinishParsingChildren x)])"
proof -
  obtain cur rest where cur: "m_top (m_openElements s) = cur # rest" using assms(4) by (cases "m_top (m_openElements s)") auto
  have q: "insert_queue (cs_dom s) (m_taskQueue s)" using assms(5) by (simp add: insert_queue_def)
  obtain d x task where c: "createHTMLElement env token s =
      Some (\<lparr>node_id = x, node_tag = Some (htmlName (at_name token))\<rparr>,
        token\<lparr>at_attributes := setAttributes env (htmlName (at_name token)) (at_attributes token) (m_parserContentPolicy s)\<rparr>, s\<lparr>cs_dom := d\<rparr>)"
    "attachLater (item_id cur) x True (s\<lparr>cs_dom := d\<rparr>) = Some (appendTask task (s\<lparr>cs_dom := d\<rparr>))" "attach_task x True (s\<lparr>cs_dom := d\<rparr>) task"
    "site_ok (s\<lparr>cs_dom := d\<rparr>) kids" "insert_queue d (m_taskQueue s @ [task])"
    using created [OF assms(1-3) cur q assms(7), where b = True] by blast
  have node: "currentNode s = Some (si_node cur)" by (rule current_of_stack(2) [OF cur])
  have a: "cs_assert (at_type token = StartTag) s = s" using assms(6) site_okD(3) [OF assms(1)] by (simp add: cs_quiet)
  let ?s1 = "appendTask task (s\<lparr>cs_dom := d\<rparr>)"
  have ins: "insertSelfClosingHTMLElement env token s = Some ?s1" by (simp add: insertSelfClosingHTMLElement_def node a c(1,2))
  have events: "dom_events d = dom_events (cs_dom s)" using createHTMLElement_events [OF c(1)] by simp
  have ready: "insert_ready (cs_dom ?s1) task" using c(5) by (simp add: insert_queue_def)
  obtain s'' kids'' p where e: "executeQueuedTasks ?s1 = Some s''" "site_ok s'' kids''"
    "dom_events (cs_dom s'') = dom_events (cs_dom ?s1) @ [ChildInserted p (task_child task), NodeCall (BeginParsingChildren (task_child task))]
        @ (if task_selfClosing task then [NodeCall (FinishParsingChildren (task_child task))] else [])"
    using executeQueue_one [OF _ _ ready, of kids] c(4) assms(5) by auto
  have foster: "shouldFosterParent (s\<lparr>cs_dom := d\<rparr>) = shouldFosterParent s" "shouldFosterParent s = Some (m_redirectAttachToFosterParent s \<and> causesFosterParenting cur)"
    using cur by (simp_all add: shouldFosterParent_def currentStackItem_def)
  have t: "task_child task = x" "task_selfClosing task \<longleftrightarrow> shouldFosterParent s \<noteq> Some True"
    using c(3) foster by (auto simp: attach_task_def)
  show ?thesis using ins e t events by (intro exI [of _ ?s1] exI [of _ s''] exI [of _ kids''] exI [of _ x] exI [of _ p]) simp
qed

lemma sample_start: "at_name (AtomicHTMLToken_tag StartTag name attributes) = name"
  "at_type (AtomicHTMLToken_tag StartTag name attributes) = StartTag"
  "at_attributes (AtomicHTMLToken_tag StartTag name []) = []"
  by (simp_all add: AtomicHTMLToken_tag_def AtomicHTMLToken_empty_def)

theorem formatting_element_inserted_witness:
  "\<exists>s' x. insertFormattingElement sample_env (AtomicHTMLToken_tag StartTag (lit ''b'') []) (sample_site [1, 0]) = Some s'
     \<and> m_top (m_openElements s') = [token_item x (lit ''b'') [], site_item 1, site_item 0]
     \<and> m_activeFormattingElements s' = fl_append (token_item x (lit ''b'') []) (m_activeFormattingElements (sample_site [1, 0]))"
proof -
  let ?s = "sample_site [1, 0]" and ?t = "AtomicHTMLToken_tag StartTag (lit ''b'') []"
  have s: "m_top (m_openElements ?s) = [site_item 1, site_item 0]" "m_taskQueue ?s = []"
    by (simp_all add: sample_site_def HTMLConstructionSite_new_def)
  have h: "m_top (m_openElements ?s) \<noteq> []" "insert_queue (cs_dom ?s) (m_taskQueue ?s)" unfolding s by (simp_all add: insert_queue_def)
  have f: "isFormattingTag (at_name ?t)" "distinct (map da_name (at_attributes ?t))" unfolding sample_start
    by (simp_all add: formatting_names)
  have a: "[] = setAttributes sample_env (htmlName (at_name ?t)) (at_attributes ?t) (m_parserContentPolicy ?s)"
    unfolding sample_start by (simp add: setAttributes_def stripScriptingAttributes_def)
  from formatting_element_inserted [OF sample_site_ok(1) sample_env_ok sample_foster(1) h f a]
  show ?thesis unfolding sample_start s by blast
qed

text \<open>A table in the body, with the redirection to the foster parent on.\<close>

definition table_name :: "nat \<Rightarrow> AtomicString" where
  "table_name x = (if x = 0 then lit ''html'' else if x = 1 then lit ''body'' else lit ''table'')"

definition table_item :: "nat \<Rightarrow> HTMLStackItem" where
  "table_item x = HTMLStackItem_forElement \<lparr>node_id = x, node_tag = Some (htmlName (table_name x))\<rparr>"

definition table_dom :: Dom where
  "table_dom = \<lparr>dom_node = (\<lambda>x. blankNode (ElementNode (htmlName (table_name x)) [])), dom_next = 3, dom_asserts = True, dom_events = []\<rparr>"

definition table_site :: HTMLConstructionSite where
  "table_site =
     (HTMLConstructionSite_new table_dom 0 False AllowScriptingContent 512 NoQuirksMode False False)
       \<lparr>m_openElements := \<lparr>m_top = map table_item [2, 1, 0], m_rootNode = Some 0, m_headElement = None,
          m_bodyElement = Some 1, m_stackDepth = 3, stack_asserts = True, stack_events = []\<rparr>,
        m_redirectAttachToFosterParent := True\<rparr>"

lemma table_item_facts:
  "item_id (table_item x) = x" "item_ok (table_item x)" "node_tag (si_node (table_item x)) = Some (htmlName (table_name x))"
  "isRootNode (table_item x) \<longleftrightarrow> x = 0" "hasTagName headTag (table_item x) \<longleftrightarrow> False" "hasTagName bodyTag (table_item x) \<longleftrightarrow> x = 1"
  "isElementNode (table_item x)" "causesFosterParenting (table_item x) \<longleftrightarrow> x \<noteq> 0 \<and> x \<noteq> 1"
proof -
  show "item_ok (table_item x)" unfolding table_item_def by (rule created_items_ok)
qed (simp_all add: table_item_def HTMLStackItem_forElement_def isRootNode_def isElementNode_def causesFosterParenting_def
      isDocumentFragment_def hasTagName_def htmlTag_def headTag_def bodyTag_def htmlName_def table_name_def)

lemma table_site_ok: "site_ok table_site (\<lambda>_. [])" "foster_ok table_site"
proof -
  have "dom_ok table_dom (\<lambda>_. [])"
    by (simp add: dom_ok_def dom_rep_def children_are_def table_dom_def blankNode_def)
  then show "site_ok table_site (\<lambda>_. [])"
    by (simp add: site_ok_def table_site_def HTMLConstructionSite_new_def stack_ok_def stack_inv_def items_ok_def
        secondHas_def plain_item_def table_item_facts list_inv_def HTMLFormattingElementList_new_def item_in_def)
      (simp add: table_dom_def nodeTag_def blankNode_def)
  show "foster_ok table_site"
    by (simp add: foster_ok_def table_site_def table_item_facts)
qed

theorem self_closing_finished_witness:
  "\<exists>s' s'' x p. insertSelfClosingHTMLElement sample_env (AtomicHTMLToken_tag StartTag (lit ''br'') []) table_site = Some s'
     \<and> executeQueuedTasks s' = Some s'' \<and> m_openElements s' = m_openElements table_site
     \<and> dom_events (cs_dom s'') = [ChildInserted p x, NodeCall (BeginParsingChildren x)]"
proof -
  let ?t = "AtomicHTMLToken_tag StartTag (lit ''br'') []"
  have s: "m_top (m_openElements table_site) \<noteq> []" "m_taskQueue table_site = []" "m_parserContentPolicy table_site = AllowScriptingContent"
    "dom_events (cs_dom table_site) = []"
    by (simp_all add: table_site_def HTMLConstructionSite_new_def table_dom_def)
  have f: "shouldFosterParent table_site = Some True"
    by (simp add: shouldFosterParent_def table_site_def currentStackItem_def table_item_facts)
  have p: "policy_allows (m_parserContentPolicy table_site) (Some (htmlName (at_name ?t)))"
    unfolding s(3) by (simp add: policy_allows_def scriptingContentIsAllowed_def pluginContentIsAllowed_def)
  from self_closing_finished [OF table_site_ok(1) sample_env_ok table_site_ok(2) s(1,2) sample_start(2) p]
  show ?thesis unfolding f s(4) by auto
qed

section \<open>Keeping scripts out\<close>

definition runs_script :: "ElementEnvironment \<Rightarrow> QualifiedName \<Rightarrow> DomAttribute \<Rightarrow> bool" where
  "runs_script env tag a \<longleftrightarrow> isEventHandlerAttribute a \<or> isJavaScriptURLAttribute env tag a \<or> isHTMLContentAttribute env tag a"

text \<open>
  C19. When the policy forbids scripting, a new element has exactly the attributes of its token that cannot
  run a script, in their order, and so has the item made from it; and neither a script element of HTML nor
  one of SVG is ever attached, the queue stays as it is.
\<close>

theorem scripting_kept_out:
  assumes "site_ok s kids" "env_ok env" "m_top (m_openElements s) \<noteq> []" "\<not> scriptingContentIsAllowed (m_parserContentPolicy s)"
    and "at_type script = StartTag" "at_name script = lit ''script''"
  shows "(\<exists>element token' s'. createHTMLElement env token s = Some (element, token', s')
      \<and> nd_kind (dom_node (cs_dom s') (node_id element)) = ElementNode (htmlName (at_name token)) (at_attributes token')
      \<and> at_attributes token' = filter (\<lambda>a. \<not> runs_script env (htmlName (at_name token)) a) (at_attributes token))
    \<and> (\<exists>s'. insertScriptElement env script s = Some s' \<and> m_taskQueue s' = m_taskQueue s)
    \<and> (\<exists>s'. insertForeignElement env script svgNamespaceURI s = Some s' \<and> m_taskQueue s' = m_taskQueue s)"
proof -
  obtain cur rest where cur: "m_top (m_openElements s) = cur # rest" using assms(3) by (cases "m_top (m_openElements s)") auto
  have strip: "setAttributes env tag attributes (m_parserContentPolicy s) = filter (\<lambda>a. \<not> runs_script env tag a) attributes" for tag attributes
    using assms(4) by (simp add: setAttributes_def stripScriptingAttributes_def runs_script_def)
  obtain d' x where c: "createHTMLElement env token s =
      Some (\<lparr>node_id = x, node_tag = Some (htmlName (at_name token))\<rparr>,
        token\<lparr>at_attributes := setAttributes env (htmlName (at_name token)) (at_attributes token) (m_parserContentPolicy s)\<rparr>, s\<lparr>cs_dom := d'\<rparr>)"
    "nd_kind (dom_node d' x) = ElementNode (htmlName (at_name token))
        (setAttributes env (htmlName (at_name token)) (at_attributes token) (m_parserContentPolicy s))"
    using createHTMLElement_ok [OF assms(1-3), of token] by blast
  obtain d1 where d1: "ownerDocumentForCurrentNode s = Some (s\<lparr>cs_dom := d1\<rparr>)" "site_ok (s\<lparr>cs_dom := d1\<rparr>) kids"
    using ownerDocument_ok [OF assms(1,3)] site_ok_dom [OF assms(1)] by blast
  have new: "\<exists>d2 x token'. elementForToken env tag script (s\<lparr>cs_dom := d1\<rparr>) = (\<lparr>node_id = x, node_tag = Some tag\<rparr>, token', s\<lparr>cs_dom := d2\<rparr>)" for tag
    using elementForToken_ok [OF d1(2), of env tag script] by auto
  have node: "currentNode (s\<lparr>cs_dom := d2\<rparr>) = Some (si_node cur)" for d2 using cur by (simp add: currentNode_def currentStackItem_def)
  have q: "cs_assert (at_type script = StartTag) s = s" using assms(5) site_okD(3) [OF assms(1)] by (simp add: cs_quiet)
  have "\<exists>s'. insertScriptElement env script s = Some s' \<and> m_taskQueue s' = m_taskQueue s"
  proof -
    obtain d2 x token' where e: "elementForToken env scriptTag script (s\<lparr>cs_dom := d1\<rparr>) = (\<lparr>node_id = x, node_tag = Some scriptTag\<rparr>, token', s\<lparr>cs_dom := d2\<rparr>)"
      using new by blast
    show ?thesis using assms(4) by (simp add: insertScriptElement_def d1(1) e node)
  qed
  moreover have "\<exists>s'. insertForeignElement env script svgNamespaceURI s = Some s' \<and> m_taskQueue s' = m_taskQueue s"
  proof -
    obtain d2 x token' where e: "elementForToken env svgScriptTag script (s\<lparr>cs_dom := d1\<rparr>) = (\<lparr>node_id = x, node_tag = Some svgScriptTag\<rparr>, token', s\<lparr>cs_dom := d2\<rparr>)"
      using new by blast
    have tag: "\<lparr>qn_localName = at_name script, qn_namespaceURI = Some svgNamespaceURI\<rparr> = svgScriptTag"
      unfolding assms(6) by (simp add: svgScriptTag_def svgName_def)
    have "createElement env script svgNamespaceURI s = Some (\<lparr>node_id = x, node_tag = Some svgScriptTag\<rparr>, token', s\<lparr>cs_dom := d2\<rparr>)"
      by (simp add: createElement_def d1(1) tag e)
    then show ?thesis using assms(4) by (simp add: insertForeignElement_def q node isScriptElement_def)
  qed
  ultimately show ?thesis using c strip by auto
qed

definition sample_attribute :: "string \<Rightarrow> DomAttribute" where
  "sample_attribute name = \<lparr>da_name = \<lparr>qn_localName = lit name, qn_namespaceURI = None\<rparr>, da_value = lit ''x''\<rparr>"

theorem scripting_kept_out_witness:
  "\<exists>element token' s'. createHTMLElement sample_env
       (AtomicHTMLToken_tag StartTag (lit ''p'') [sample_attribute ''onclick'', sample_attribute ''title''])
       ((sample_site [1, 0])\<lparr>m_parserContentPolicy := DisallowScriptingContent\<rparr>) = Some (element, token', s')
     \<and> nd_kind (dom_node (cs_dom s') (node_id element)) = ElementNode (htmlName (lit ''p'')) [sample_attribute ''title'']"
proof -
  let ?s = "(sample_site [1, 0])\<lparr>m_parserContentPolicy := DisallowScriptingContent\<rparr>"
  let ?a = "[sample_attribute ''onclick'', sample_attribute ''title'']"
  let ?t = "AtomicHTMLToken_tag StartTag (lit ''p'') ?a" and ?script = "AtomicHTMLToken_tag StartTag (lit ''script'') []"
  have ok: "site_ok ?s (\<lambda>_. [])" using sample_site_ok(1) unfolding site_ok_def by simp
  have ne: "m_top (m_openElements ?s) \<noteq> []" by (simp add: sample_site_def)
  have no: "\<not> scriptingContentIsAllowed (m_parserContentPolicy ?s)" by (simp add: scriptingContentIsAllowed_def)
  have attrs: "at_attributes ?t = ?a" by (simp add: AtomicHTMLToken_tag_def AtomicHTMLToken_empty_def)
  have f: "filter (\<lambda>a. \<not> runs_script sample_env tag a) ?a = [sample_attribute ''title'']" for tag
    by (simp add: runs_script_def isEventHandlerAttribute_def isJavaScriptURLAttribute_def sample_env_def sample_attribute_def)
  from scripting_kept_out [OF ok sample_env_ok ne no sample_start(2) sample_start(1), of ?t "[]"]
  show ?thesis unfolding attrs f sample_start(1) by auto
qed

end
