(* ===== verification/Html_Text_Insertion.thy ===== *)
theory Html_Text_Insertion
  imports Html_Reconstruction
begin

text \<open>
  Text nodes: \<open>insertTextNode\<close> appends to the text node before the place as far as it has room, and makes
  new nodes for the rest, cut where the Unicode library allows it.
\<close>

section \<open>The text of the children\<close>

definition text_of :: "Dom \<Rightarrow> nat \<Rightarrow> uchar list" where
  "text_of d x = (case nd_kind (dom_node d x) of TextNode data \<Rightarrow> data | _ \<Rightarrow> [])"

text \<open>
  What the documentation of the break iterator promises: the start of a text is a boundary, and the
  boundary before a position that is none is before it.
\<close>

definition breaks_ok :: "ElementEnvironment \<Rightarrow> bool" where
  "breaks_ok env \<longleftrightarrow> (\<forall>buffer n. ubrk_isBoundary env buffer 0
     \<and> (\<not> ubrk_isBoundary env buffer n \<longrightarrow> ubrk_preceding env buffer n < n))"

lemma unat_of_length: "length (xs :: uchar list) < 2 ^ 32 \<Longrightarrow> unat (of_nat (length xs) :: unsigned) = length xs"
  by (simp add: unat_of_nat take_bit_nat_eq_self)

lemma parserAppendData_eq:
  assumes "breaks_ok env" "length string < 2 ^ 32" "unat offset \<le> length string"
  shows "\<exists>n. parserAppendData env data string offset lengthLimit =
      (data @ take (unat n) (drop (unat offset) string), n, of_nat (length data) \<le> lengthLimit)
    \<and> unat n \<le> length string - unat offset"
proof -
  let ?len = "of_nat (length string) - offset :: unsigned"
  let ?limit = "min ?len (lengthLimit - of_nat (length data))"
  let ?buffer = "take (unat (if ?limit + 2 > ?len then ?len else ?limit + 2)) (drop (unat offset) string)"
  let ?n = "if ?limit < ?len then if \<not> ubrk_isBoundary env ?buffer ?limit then ubrk_preceding env ?buffer ?limit else ?limit else ?limit"
  have le: "offset \<le> of_nat (length string)" using assms(2,3) by (simp add: word_le_nat_alt unat_of_length)
  have len: "unat ?len = length string - unat offset" using assms(2) le by (simp add: unat_sub unat_of_length)
  have "?n \<le> ?len" using assms(1) unfolding breaks_ok_def by (auto simp: min_def intro: less_imp_le order.strict_trans)
  then have "unat ?n \<le> length string - unat offset" using len by (simp add: word_le_nat_alt)
  moreover have "parserAppendData env data string offset lengthLimit =
      (data @ take (unat ?n) (drop (unat offset) string), ?n, of_nat (length data) \<le> lengthLimit)"
    unfolding parserAppendData_def Let_def by simp
  ultimately show ?thesis by blast
qed

lemma createWithLengthLimit_eq:
  assumes "breaks_ok env" "length characters < 2 ^ 32" "unat start \<le> length characters"
  shows "\<exists>n. createWithLengthLimit env characters start lengthLimit = (take n (drop (unat start) characters), True)"
proof (cases "start = 0 \<and> of_nat (length characters) \<le> lengthLimit")
  case True
  then show ?thesis by (intro exI [of _ "length characters"]) (auto simp: createWithLengthLimit_def)
next
  case False
  obtain n where "parserAppendData env [] characters start lengthLimit =
      ([] @ take (unat n) (drop (unat start) characters), n, of_nat (length ([] :: uchar list)) \<le> lengthLimit)"
    using parserAppendData_eq [OF assms] by blast
  then show ?thesis using False by (intro exI [of _ "unat n"]) (auto simp: createWithLengthLimit_def)
qed

section \<open>Inserting a piece\<close>

text \<open>A place between two children: at the end, or in front of the next child.\<close>

definition place_at :: "(nat \<Rightarrow> nat list) \<Rightarrow> nat \<Rightarrow> nat option \<Rightarrow> nat list \<Rightarrow> nat list \<Rightarrow> bool" where
  "place_at kids p nextChild us vs \<longleftrightarrow> kids p = us @ vs
     \<and> (case nextChild of None \<Rightarrow> vs = [] | Some n \<Rightarrow> \<exists>ws. vs = n # ws)"

lemma takeWhile_before: "n \<notin> set us \<Longrightarrow> takeWhile (\<lambda>x. x \<noteq> n) (us @ n # vs) = us"
  "n \<notin> set us \<Longrightarrow> dropWhile (\<lambda>x. x \<noteq> n) (us @ n # vs) = n # vs"
  by (induction us) auto

lemma place_in_at:
  assumes "dom_ok d kids" "place_at kids p nextChild us vs"
  shows "place_in kids p nextChild c = kids(p := us @ c # vs)"
proof (cases nextChild)
  case (Some n)
  then obtain ws where vs: "vs = n # ws" "kids p = us @ n # ws" using assms(2) by (auto simp: place_at_def)
  have "n \<notin> set us" using dom_repD(1) [OF dom_okD(1) [OF assms(1)], of p] vs(2) by simp
  then show ?thesis using Some takeWhile_before [of n us ws] vs by (simp add: place_in_def)
qed (use assms(2) in \<open>simp add: place_at_def place_in_def\<close>)

lemma executeInsert_plain:
  assumes "dom_ok d kids" "task_operation task = Insert" "\<not> task_selfClosing task" "task_parent task = Some p"
    and "p < dom_next d" "task_child task < dom_next d" "linkable d p (task_child task)" "parentNode d (task_child task) = None"
    and "place_at kids p (task_nextChild task) us vs"
  shows "\<exists>d'. executeTask task d = Some d' \<and> dom_ok d' (kids(p := us @ task_child task # vs)) \<and> same_nodes d' d"
proof -
  have nx: "parentNode d n = Some p" if "task_nextChild task = Some n" for n
    using assms(9) that dom_repD(5) [OF dom_okD(1) [OF assms(1)]] by (auto simp: place_at_def)
  let ?d = "case task_nextChild task of Some n \<Rightarrow> parserInsertBefore p (task_child task) n d | None \<Rightarrow> parserAppendChild p (task_child task) d"
  note P = place_ok [where nextChild = "task_nextChild task", OF assms(1,7,5,6,8) nx, unfolded place_in_at [OF assms(1,9)]]
  have q: "dom_assert True d = d" by (simp add: dom_assert_def)
  have "insert_task task d = Some ?d"
    using assms(4,7,8) by (cases "task_nextChild task") (simp_all add: insert_task_def linkable_def q)
  then have "executeTask task d = Some (dom_call (NodeCall (BeginParsingChildren (task_child task))) ?d)"
    using assms(2,3) by (simp add: executeTask_def executeInsertTask_def q)
  moreover have "dom_ok (dom_call e ?d) k = dom_ok ?d k" for e k
    by (simp add: dom_ok_def linkable_def nodeTag_def isFragment_def)
  ultimately show ?thesis using P by simp
qed

section \<open>The loop over the pieces\<close>

lemma dom_assert_quiet: "dom_ok d kids \<Longrightarrow> b \<Longrightarrow> dom_assert b d = d"
  using dom_okD(2) by (simp add: dom_assert_def)

lemma piece_facts:
  assumes "breaks_ok env" "length characters < 2 ^ 32" "(pos :: unsigned) < of_nat (length characters)"
    and "createWithLengthLimit env characters pos limit = (data, ok)"
    and "piece = (if data = [] then drop (unat pos) characters else data)"
  shows "ok" "piece \<noteq> []" "drop (unat pos) characters = piece @ drop (unat (pos + of_nat (length piece))) characters"
    "unat (pos + of_nat (length piece)) = unat pos + length piece" "unat pos + length piece \<le> length characters"
proof -
  have pos: "unat pos < length characters" using assms(2,3) by (simp add: word_less_nat_alt unat_of_length)
  obtain n where n: "data = take n (drop (unat pos) characters)" "ok"
    using createWithLengthLimit_eq [OF assms(1,2), of pos limit] pos assms(4) by auto
  show "ok" by (rule n(2))
  show ne: "piece \<noteq> []" using assms(5) pos by auto
  have "\<exists>m \<le> length characters - unat pos. piece = take m (drop (unat pos) characters)"
  proof (cases "data = []")
    case True
    then show ?thesis using assms(5) by (intro exI [of _ "length characters - unat pos"]) simp
  next
    case False
    then show ?thesis using assms(5) n(1) by (intro exI [of _ "min n (length characters - unat pos)"]) (auto simp: min_def)
  qed
  then obtain m where m: "piece = take m (drop (unat pos) characters)" "m \<le> length characters - unat pos" by blast
  then have len: "length piece = m" by simp
  show le: "unat pos + length piece \<le> length characters" using m(2) len pos by simp
  show u: "unat (pos + of_nat (length piece)) = unat pos + length piece"
    using le assms(2) by (simp add: unat_word_ariths unat_of_nat take_bit_nat_eq_self)
  show "drop (unat pos) characters = piece @ drop (unat (pos + of_nat (length piece))) characters"
    using append_take_drop_id [of "length piece" "drop (unat pos) characters"] m(1) len unfolding u by (simp add: add.commute)
qed

text \<open>New nodes with the pieces are at the place, and every other node is as it was.\<close>

definition text_added :: "uchar list list \<Rightarrow> Dom \<Rightarrow> Dom \<Rightarrow> bool" where
  "text_added pieces d d' \<longleftrightarrow> dom_next d' = dom_next d + length pieces
     \<and> map (nd_kind \<circ> dom_node d') [dom_next d ..< dom_next d'] = map TextNode pieces
     \<and> (\<forall>x < dom_next d. nd_kind (dom_node d' x) = nd_kind (dom_node d x))"

lemma insertText_loop_ok:
  assumes "breaks_ok env" "length characters < 2 ^ 32"
    and "dom_ok d kids" "unat pos \<le> length characters" "task_operation task = Insert" "\<not> task_selfClosing task"
    and "task_parent task = Some p" "p < dom_next d" "nodeTag d p \<noteq> Some templateTag" "place_at kids p (task_nextChild task) us vs"
  shows "\<exists>d' pieces. insertText_loop env characters limit task pos d = Some d' \<and> text_added pieces d d'
    \<and> concat pieces = drop (unat pos) characters \<and> [] \<notin> set pieces \<and> tags_kept d' d
    \<and> dom_ok d' (kids(p := us @ [dom_next d ..< dom_next d'] @ vs))"
  using assms(3,4,8,9,10)
proof (induction "length characters - unat pos" arbitrary: pos d kids us rule: less_induct)
  case less
  show ?case
  proof (cases "pos < of_nat (length characters)")
    case False
    then have "drop (unat pos) characters = []" using assms(2) by (simp add: word_less_nat_alt unat_of_length)
    moreover have "kids(p := us @ vs) = kids" using less.prems(5) by (metis fun_upd_triv place_at_def)
    ultimately show ?thesis using False less.prems(1)
      by (intro exI [of _ d] exI [of _ "[]"]) (simp add: insertText_loop.simps text_added_def)
  next
    case True
    obtain data ok where c: "createWithLengthLimit env characters pos limit = (data, ok)" by fastforce
    define piece where "piece = (if data = [] then drop (unat pos) characters else data)"
    note F = piece_facts [OF assms(1,2) True c piece_def]
    let ?pos = "pos + of_nat (length piece)"
    obtain x d1 where n: "newNode (TextNode piece) d = (x, d1)" by fastforce
    note N = newNode_ok [OF less.prems(1) n]
    have kinds: "nd_kind (dom_node d1 y) = (if y = dom_next d then TextNode piece else nd_kind (dom_node d y))"
      "dom_next d1 = Suc (dom_next d)" for y using n by (auto simp: newNode_def blankNode_def)
    let ?task = "task\<lparr>task_child := x\<rparr>"
    have link: "linkable d1 p (task_child ?task)"
      using N(6) tags_keptD(1) [OF N(2) less.prems(3)] less.prems(4) by (simp add: linkable_def)
    have p1: "p < dom_next d1" using tags_keptD(3) [OF N(2) less.prems(3)] .
    obtain d2 where e: "executeTask ?task d1 = Some d2" "dom_ok d2 (kids(p := us @ x # vs))" "same_nodes d2 d1"
      using executeInsert_plain [OF N(1), of ?task p us vs] assms(5-7) p1 N(4,7) link less.prems(5) by auto
    have next2: "dom_next d2 = Suc (dom_next d)" and kind2: "nd_kind (dom_node d2 y) = nd_kind (dom_node d1 y)" for y
      using e(3) kinds(2) by (simp_all add: same_nodes_def)
    let ?kids = "kids(p := (us @ [x]) @ vs)"
    have ok2: "dom_ok d2 ?kids" using e(2) by simp
    have at: "place_at ?kids p (task_nextChild task) (us @ [x]) vs" using less.prems(5) by (simp add: place_at_def)
    have kept: "tags_kept d2 d" using tags_kept_trans [OF tags_kept_same [OF e(3)] N(2)] .
    have "0 < length piece" using F(2) by simp
    then have dec: "length characters - unat ?pos < length characters - unat pos" and le: "unat ?pos \<le> length characters"
      using F(5) unfolding F(4) by linarith+
    have p2: "p < dom_next d2" "nodeTag d2 p \<noteq> Some templateTag"
      using tags_keptD(1,3) [OF kept less.prems(3)] less.prems(4) by simp_all
    obtain d' pieces where r: "insertText_loop env characters limit task ?pos d2 = Some d'" "text_added pieces d2 d'"
      "concat pieces = drop (unat ?pos) characters" "[] \<notin> set pieces" "tags_kept d' d2"
      "dom_ok d' (?kids(p := (us @ [x]) @ [dom_next d2 ..< dom_next d'] @ vs))"
      using less.hyps [OF dec ok2 le p2 at] by blast
    have quiet: "dom_assert ok d = d" "dom_assert (?pos \<le> of_nat (length characters)) d1 = d1"
      using dom_assert_quiet [OF less.prems(1)] dom_assert_quiet [OF N(1)] F(1) le assms(2)
      by (simp_all add: word_le_nat_alt unat_of_length)
    have run: "insertText_loop env characters limit task pos d = Some d'"
      using True r(1) e(1) by (subst insertText_loop.simps) (simp add: c quiet n flip: piece_def)
    have T: "dom_next d' = Suc (dom_next d) + length pieces"
      "map (nd_kind \<circ> dom_node d') [Suc (dom_next d) ..< dom_next d'] = map TextNode pieces"
      "\<And>y. y < Suc (dom_next d) \<Longrightarrow> nd_kind (dom_node d' y) = nd_kind (dom_node d2 y)"
      using r(2) unfolding text_added_def next2 by blast+
    have up: "[dom_next d ..< dom_next d'] = dom_next d # [Suc (dom_next d) ..< dom_next d']" by (rule upt_conv_Cons) (simp add: T(1))
    have added: "text_added (piece # pieces) d d'"
      using T kinds(1) kind2 unfolding text_added_def up by (simp del: upt_Suc)
    have "dom_ok d' (kids(p := us @ [dom_next d ..< dom_next d'] @ vs))" using r(6) unfolding up N(3) next2 by simp
    then show ?thesis using run added r(3,4) F(2,3) tags_kept_trans [OF r(5) kept]
      by (intro exI [of _ d'] exI [of _ "piece # pieces"]) simp
  qed
qed

section \<open>Finding the place\<close>

text \<open>No text node is longer than the limit.\<close>

definition texts_fit :: "Dom \<Rightarrow> bool" where
  "texts_fit d \<longleftrightarrow> (\<forall>x data. nd_kind (dom_node d x) = TextNode data \<longrightarrow> length data \<le> unat defaultLengthLimit)"

lemma templateContent_kinds:
  assumes "templateContent x d = (c, d')" "y < dom_next d"
  shows "nd_kind (dom_node d' y) = nd_kind (dom_node d y)"
  using assms by (auto simp: templateContent_def newNode_def split: option.splits)

lemma templateContent_fit:
  assumes "templateContent x d = (c, d')" "texts_fit d"
  shows "texts_fit d'"
  using assms by (auto simp: templateContent_def newNode_def texts_fit_def blankNode_def split: option.splits if_splits)

lemma place_exists:
  assumes "dom_ok d kids" "\<And>n. nextChild = Some n \<Longrightarrow> parentNode d n = Some p"
  shows "\<exists>us vs. place_at kids p nextChild us vs
    \<and> (case nextChild of Some n \<Rightarrow> previousSibling d n | None \<Rightarrow> lastChild d p) = last_of None us"
proof (cases nextChild)
  case None
  then show ?thesis using dom_repD(4) [OF dom_okD(1) [OF assms(1)], of p]
    by (intro exI [of _ "kids p"] exI [of _ "[]"]) (simp add: place_at_def)
next
  case (Some n)
  then have "n \<in> set (kids p)" using assms(2) dom_repD(5) [OF dom_okD(1) [OF assms(1)]] by simp
  then obtain us vs where s: "kids p = us @ n # vs" by (meson split_list)
  show ?thesis using Some s chain_split(3) [OF dom_okD(1) [OF assms(1)] s]
    by (intro exI [of _ us] exI [of _ "n # vs"]) (simp add: place_at_def)
qed

lemma text_place:
  assumes "site_ok s kids" "foster_ok s" "m_top (m_openElements s) = cur # rest" "texts_fit (cs_dom s)"
  shows "\<exists>foster p0 n p d. shouldFosterParent s = Some foster
    \<and> (if foster then findFosterSite s else Some ((item_id cur, None), s)) = Some ((p0, n), s)
    \<and> (if nodeTag (cs_dom s) p0 = Some templateTag then templateContent p0 (cs_dom s) else (p0, cs_dom s)) = (p, d)
    \<and> dom_ok d kids \<and> tags_kept d (cs_dom s) \<and> texts_fit d \<and> p < dom_next d \<and> nodeTag d p \<noteq> Some templateTag
    \<and> (\<forall>x < dom_next (cs_dom s). nd_kind (dom_node d x) = nd_kind (dom_node (cs_dom s) x))
    \<and> (\<forall>t. n = Some t \<longrightarrow> parentNode d t = Some p)
    \<and> (\<not> foster \<and> node_tag (si_node cur) \<noteq> Some templateTag \<longrightarrow> p = item_id cur \<and> n = None)"
proof -
  note ok = site_okD [OF assms(1)]
  obtain foster where f: "shouldFosterParent s = Some foster"
    using current_of_stack(1) [OF assms(3)] by (cases "m_redirectAttachToFosterParent s") (simp_all add: shouldFosterParent_def)
  have cur: "item_in (cs_dom s) cur" using ok(5) assms(3) by simp
  have "\<exists>p0 n. (if foster then findFosterSite s else Some ((item_id cur, None), s)) = Some ((p0, n), s)
      \<and> p0 < dom_next (cs_dom s) \<and> (\<forall>t. n = Some t \<longrightarrow> parentNode (cs_dom s) t = Some p0)
      \<and> (\<not> foster \<longrightarrow> p0 = item_id cur \<and> n = None)"
    using findFosterSite_ok [OF assms(1,2)] assms(3) cur by (auto simp: item_in_def)
  then obtain p0 n where p0: "(if foster then findFosterSite s else Some ((item_id cur, None), s)) = Some ((p0, n), s)"
    "p0 < dom_next (cs_dom s)" "\<And>t. n = Some t \<Longrightarrow> parentNode (cs_dom s) t = Some p0" "\<not> foster \<Longrightarrow> p0 = item_id cur \<and> n = None" by blast
  show ?thesis
  proof (cases "nodeTag (cs_dom s) p0 = Some templateTag")
    case False
    then show ?thesis using f p0 ok(4) assms(4)
      by (intro exI [of _ foster] exI [of _ p0] exI [of _ n] exI [of _ p0] exI [of _ "cs_dom s"]) simp
  next
    case True
    obtain p d where c: "templateContent p0 (cs_dom s) = (p, d)" by fastforce
    note C = templateContent_ok [OF ok(4) c]
    have "n = None"
    proof (cases n)
      case (Some t)
      then have "t \<in> set (kids p0)" using p0(3) dom_repD(5) [OF dom_okD(1) [OF ok(4)]] by simp
      then show ?thesis using dom_okD(5) [OF ok(4)] True by (auto simp: linkable_def)
    qed
    then show ?thesis
      using f p0(1,4) True c C templateContent_kinds [OF c] templateContent_fit [OF c assms(4)] cur
      by (intro exI [of _ foster] exI [of _ p0] exI [of _ n] exI [of _ p] exI [of _ d]) (auto simp: item_in_def)
  qed
qed

lemma text_update_ok:
  fixes data' :: "uchar list"
  assumes "dom_ok d kids" "nd_kind (dom_node d x) = TextNode data"
  defines "d' \<equiv> updNode x (nd_kind_update (\<lambda>_. TextNode data')) d"
  shows "dom_ok d' kids" "tags_kept d' d"
proof -
  have tags: "nodeTag d' y = nodeTag d y" "isFragment d' y = isFragment d y"
    "isTemplateContentKind (nd_kind (dom_node d' y)) = isTemplateContentKind (nd_kind (dom_node d y))" for y
    using assms(2) by (simp_all add: d'_def nodeTag_def isFragment_def)
  have "dom_rep d' kids" by (rule dom_rep_links [OF dom_okD(1) [OF assms(1)]]) (simp add: d'_def)
  moreover have "parentNode d' y = parentNode d y" "nd_content (dom_node d' y) = nd_content (dom_node d y)" for y
    by (simp_all add: d'_def)
  ultimately show "dom_ok d' kids" using assms(1) tags unfolding dom_ok_def linkable_def by (simp add: d'_def)
  show "tags_kept d' d" using tags by (simp add: tags_kept_def d'_def)
qed

lemma appendToPrevious_ok:
  assumes "breaks_ok env" "length characters < 2 ^ 32" "dom_ok d kids" "distinct us" "texts_fit d"
    and "limit = defaultLengthLimit \<or> limit = - 1"
  shows "\<exists>pos d1. appendToPrevious env characters limit (last_of None us) d = (pos, d1) \<and> dom_ok d1 kids \<and> tags_kept d1 d
    \<and> dom_next d1 = dom_next d \<and> unat pos \<le> length characters
    \<and> (\<forall>x. Some x \<noteq> last_of None us \<longrightarrow> nd_kind (dom_node d1 x) = nd_kind (dom_node d x))
    \<and> concat (map (text_of d1) us) = concat (map (text_of d) us) @ take (unat pos) characters"
proof (cases "\<exists>us' x data. us = us' @ [x] \<and> nd_kind (dom_node d x) = TextNode data")
  case False
  then have "appendToPrevious env characters limit (last_of None us) d = (0, d)"
    by (cases us rule: rev_cases) (auto simp: appendToPrevious_def split: NodeKind.splits)
  then show ?thesis using assms(3) by simp
next
  case True
  then obtain us' x data where x: "us = us' @ [x]" "nd_kind (dom_node d x) = TextNode data" by blast
  obtain n where n: "parserAppendData env data characters 0 limit = (data @ take (unat n) characters, n, of_nat (length data) \<le> limit)"
    "unat n \<le> length characters" using parserAppendData_eq [OF assms(1,2), of 0 data limit] by auto
  have "length data \<le> 65536" using assms(5) x(2) by (auto simp: texts_fit_def defaultLengthLimit_def)
  then have "of_nat (length data) \<le> defaultLengthLimit"
    by (simp add: defaultLengthLimit_def word_le_nat_alt unat_of_nat take_bit_nat_eq_self)
  then have fit: "of_nat (length data) \<le> limit" using assms(6) by auto
  let ?d = "updNode x (nd_kind_update (\<lambda>_. TextNode (data @ take (unat n) characters))) d"
  have a: "appendToPrevious env characters limit (last_of None us) d = (n, ?d)"
    using x n(1) fit dom_assert_quiet [OF assms(3), of True] by (simp add: appendToPrevious_def)
  note U = text_update_ok [OF assms(3) x(2)]
  have "map (text_of ?d) us' = map (text_of d) us'" using assms(4) x(1) by (auto simp: text_of_def)
  moreover have "text_of ?d x = text_of d x @ take (unat n) characters" using x(2) by (simp add: text_of_def)
  ultimately have "concat (map (text_of ?d) us) = concat (map (text_of d) us) @ take (unat n) characters"
    unfolding x(1) map_append concat_append by (simp del: map_eq_conv)
  then show ?thesis using a U n(2) x(1) by (intro exI [of _ n] exI [of _ ?d]) simp
qed

section \<open>Property\<close>

lemma text_added_texts:
  assumes "text_added pieces d d'"
  shows "concat (map (text_of d') [dom_next d ..< dom_next d']) = concat pieces"
    "[] \<notin> set pieces \<Longrightarrow> x \<in> set [dom_next d ..< dom_next d'] \<Longrightarrow> text_of d' x \<noteq> []"
    "x < dom_next d \<Longrightarrow> text_of d' x = text_of d x"
proof -
  let ?text = "\<lambda>kind. case kind of TextNode data \<Rightarrow> data | _ \<Rightarrow> []"
  have "map (?text \<circ> (nd_kind \<circ> dom_node d')) [dom_next d ..< dom_next d'] = map (?text \<circ> TextNode) pieces"
    using assms unfolding text_added_def by (metis map_map)
  moreover have "text_of d' = ?text \<circ> (nd_kind \<circ> dom_node d')" by (rule ext) (simp add: text_of_def)
  ultimately have e: "map (text_of d') [dom_next d ..< dom_next d'] = pieces" by (simp add: comp_def)
  show "concat (map (text_of d') [dom_next d ..< dom_next d']) = concat pieces" unfolding e ..
  show "text_of d' x \<noteq> []" if "[] \<notin> set pieces" "x \<in> set [dom_next d ..< dom_next d']"
    using that e by (metis image_eqI image_set)
  show "text_of d' x = text_of d x" if "x < dom_next d" using assms that by (simp add: text_added_def text_of_def)
qed

lemma texts_combined:
  assumes "text_added pieces d1 d'" "concat pieces = drop n characters"
    and "concat (map (text_of d1) us) = concat (map (text_of d) us) @ take n characters"
    and "\<forall>x. Some x \<noteq> last_of None us \<longrightarrow> nd_kind (dom_node d1 x) = nd_kind (dom_node d x)"
    and "\<forall>x \<in> set (us @ vs). x < dom_next d1 \<and> nd_kind (dom_node d x) = nd_kind (dom_node d0 x)" "distinct (us @ vs)"
  shows "concat (map (text_of d') (us @ [dom_next d1 ..< dom_next d'] @ vs)) =
    concat (map (text_of d0) us) @ characters @ concat (map (text_of d0) vs)"
proof -
  note T = text_added_texts [OF assms(1)]
  have "text_of d1 x = text_of d x" if "x \<in> set vs" for x
  proof -
    have "Some x \<noteq> last_of None us" using that assms(6) last_of_member [of us x] by auto
    then show ?thesis using assms(4) by (simp add: text_of_def)
  qed
  then have U: "map (text_of d') us = map (text_of d1) us" "map (text_of d) us = map (text_of d0) us"
    "map (text_of d') vs = map (text_of d0) vs"
    using T(3) assms(5) by (simp_all add: text_of_def)
  show ?thesis unfolding map_append concat_append U(1,3) T(1) assms(2,3) U(2) by simp
qed

text \<open>
  C10. Inserting text. The loop over the pieces ends; there is one place among the children of one parent,
  which is the current node unless a template or foster parenting comes in, such that the text of the
  children is the text before, with the characters inserted there exactly once and in order. Text goes
  to the end of the node before the place and into new nodes, none of them empty; no other node changes,
  and the site stays in order.
\<close>

theorem text_inserted_once:
  assumes "site_ok s kids" "foster_ok s" "m_top (m_openElements s) = cur # rest"
    and "breaks_ok env" "texts_fit (cs_dom s)" "length characters < 2 ^ 32"
  shows "\<exists>s' p us vs new. insertTextNode env characters s = Some s' \<and> kids p = us @ vs
    \<and> site_ok s' (kids(p := us @ new @ vs))
    \<and> concat (map (text_of (cs_dom s')) (us @ new @ vs)) =
        concat (map (text_of (cs_dom s)) us) @ characters @ concat (map (text_of (cs_dom s)) vs)
    \<and> (\<forall>x \<in> set new. dom_next (cs_dom s) \<le> x \<and> text_of (cs_dom s') x \<noteq> [])
    \<and> (\<forall>x < dom_next (cs_dom s). Some x \<noteq> last_of None us \<longrightarrow> nd_kind (dom_node (cs_dom s') x) = nd_kind (dom_node (cs_dom s) x))
    \<and> (shouldFosterParent s = Some False \<and> node_tag (si_node cur) \<noteq> Some templateTag \<longrightarrow> p = item_id cur \<and> vs = [])"
proof -
  obtain foster p0 n p d where pl: "shouldFosterParent s = Some foster"
    "(if foster then findFosterSite s else Some ((item_id cur, None), s)) = Some ((p0, n), s)"
    "(if nodeTag (cs_dom s) p0 = Some templateTag then templateContent p0 (cs_dom s) else (p0, cs_dom s)) = (p, d)"
    "dom_ok d kids" "tags_kept d (cs_dom s)" "texts_fit d" "p < dom_next d" "nodeTag d p \<noteq> Some templateTag"
    "\<forall>x < dom_next (cs_dom s). nd_kind (dom_node d x) = nd_kind (dom_node (cs_dom s) x)"
    "\<forall>t. n = Some t \<longrightarrow> parentNode d t = Some p"
    "\<not> foster \<and> node_tag (si_node cur) \<noteq> Some templateTag \<longrightarrow> p = item_id cur \<and> n = None"
    using text_place [OF assms(1,2,3,5)] by (elim exE conjE) (rule that)
  obtain us vs where at: "place_at kids p n us vs"
    "(case n of Some t \<Rightarrow> previousSibling d t | None \<Rightarrow> lastChild d p) = last_of None us" using place_exists [OF pl(4)] pl(10) by blast
  let ?limit = "if shouldUseLengthLimit (nodeTag d p) then defaultLengthLimit else - 1 :: unsigned"
  have kp: "kids p = us @ vs" using at(1) by (simp add: place_at_def)
  have dist: "distinct (us @ vs)" using dom_repD(1) [OF dom_okD(1) [OF pl(4)], of p] kp by simp
  have du: "distinct us" and lim: "?limit = defaultLengthLimit \<or> ?limit = - 1" using dist by simp_all
  obtain pos d1 where a: "appendToPrevious env characters ?limit (last_of None us) d = (pos, d1)" "dom_ok d1 kids" "tags_kept d1 d"
    "dom_next d1 = dom_next d" "unat pos \<le> length characters"
    "\<forall>x. Some x \<noteq> last_of None us \<longrightarrow> nd_kind (dom_node d1 x) = nd_kind (dom_node d x)"
    "concat (map (text_of d1) us) = concat (map (text_of d) us) @ take (unat pos) characters"
    using appendToPrevious_ok [OF assms(4,6) pl(4) du pl(6) lim] by (elim exE conjE) (rule that)
  let ?task = "(task_new Insert 0)\<lparr>task_parent := Some p, task_nextChild := n\<rparr>"
  have p1: "p < dom_next d1" "nodeTag d1 p \<noteq> Some templateTag" using pl(7,8) tags_keptD(1,3) [OF a(3) pl(7)] by simp_all
  have at1: "place_at kids p (task_nextChild ?task) us vs" using at(1) by simp
  have task: "task_operation ?task = Insert" "\<not> task_selfClosing ?task" "task_parent ?task = Some p" by (simp_all add: task_new_def)
  obtain d' pieces where l: "insertText_loop env characters ?limit ?task pos d1 = Some d'" "text_added pieces d1 d'"
    "concat pieces = drop (unat pos) characters" "[] \<notin> set pieces" "tags_kept d' d1"
    "dom_ok d' (kids(p := us @ [dom_next d1 ..< dom_next d'] @ vs))"
    using insertText_loop_ok [OF assms(4,6) a(2,5) task p1 at1, of ?limit] by blast
  let ?s = "s\<lparr>cs_dom := d'\<rparr>" and ?new = "[dom_next d1 ..< dom_next d']"
  have run: "insertTextNode env characters s = Some ?s"
    unfolding insertTextNode_def current_of_stack(2) [OF assms(3)] pl(1) bind.simps pl(2)
    using pl(3) at(2) a(1) l(1) by (simp add: Let_def)
  have ok: "site_ok ?s (kids(p := us @ ?new @ vs))"
    by (rule site_ok_dom [OF assms(1) l(6) tags_kept_trans [OF l(5) tags_kept_trans [OF a(3) pl(5)]]])
  have le: "dom_next (cs_dom s) \<le> dom_next d1" using pl(5) a(4) by (simp add: tags_kept_def)
  have used: "x < dom_next (cs_dom s)" if "x \<in> set (us @ vs)" for x
    using dom_okD(7) [OF site_okD(4) [OF assms(1)], of x p] that kp by simp
  have old: "\<forall>x \<in> set (us @ vs). x < dom_next d1 \<and> nd_kind (dom_node d x) = nd_kind (dom_node (cs_dom s) x)"
    using used pl(9) le by (meson order.strict_trans2)
  note texts = texts_combined [OF l(2,3) a(7,6) old dist] and T = text_added_texts [OF l(2)]
  have kinds: "nd_kind (dom_node d' x) = nd_kind (dom_node (cs_dom s) x)" if "x < dom_next (cs_dom s)" "Some x \<noteq> last_of None us" for x
    using l(2) pl(9) a(6) that le by (simp add: text_added_def)
  have new: "dom_next (cs_dom s) \<le> x \<and> text_of d' x \<noteq> []" if "x \<in> set ?new" for x using T(2) [OF l(4) that] that le by simp
  have "p = item_id cur \<and> vs = []" if "shouldFosterParent s = Some False" "node_tag (si_node cur) \<noteq> Some templateTag"
    using pl(1,11) that at(1) by (simp add: place_at_def)
  then show ?thesis using run ok kp texts kinds new
    by (intro exI [of _ ?s] exI [of _ p] exI [of _ us] exI [of _ vs] exI [of _ ?new]) simp
qed

theorem text_inserted_once_witness:
  "\<exists>s' new. insertTextNode sample_env (lit ''hi'') (sample_site [1, 0]) = Some s'
     \<and> site_ok s' ((\<lambda>_. [])(1 := new)) \<and> concat (map (text_of (cs_dom s')) new) = lit ''hi''"
proof -
  let ?s = "sample_site [1, 0]"
  have f: "m_top (m_openElements ?s) = site_item 1 # [site_item 0]" "cs_dom ?s = sample_dom" "shouldFosterParent ?s = Some False"
    by (simp_all add: sample_site_def HTMLConstructionSite_new_def shouldFosterParent_def)
  have b: "breaks_ok sample_env" by (simp add: breaks_ok_def sample_env_def)
  have fit: "texts_fit (cs_dom ?s)" unfolding f(2) by (simp add: texts_fit_def sample_dom_def blankNode_def)
  have len: "length (lit ''hi'') < 2 ^ 32" by simp
  have cur: "node_tag (si_node (site_item 1)) \<noteq> Some templateTag" "item_id (site_item 1) = 1"
    by (simp_all add: site_item_facts [of 1, simplified] templateTag_def htmlName_def sample_name_def)
  obtain s' p us vs new where r: "insertTextNode sample_env (lit ''hi'') ?s = Some s'" "[] = us @ vs"
    "site_ok s' ((\<lambda>_. [])(p := us @ new @ vs))"
    "concat (map (text_of (cs_dom s')) (us @ new @ vs)) = concat (map (text_of (cs_dom ?s)) us) @ lit ''hi'' @ concat (map (text_of (cs_dom ?s)) vs)"
    "p = item_id (site_item 1)"
    using text_inserted_once [OF sample_site_ok(1) sample_foster(1) f(1) b fit len] f(3) cur(1) by blast
  have "us = []" "vs = []" using r(2) by simp_all
  then show ?thesis using r(1,3,4) unfolding r(5) cur(2) by (intro exI [of _ s'] exI [of _ new]) simp
qed

end
