(* ===== verification/Spec2Isabelle.thy ===== *)
theory Spec2Isabelle
  imports Html_Token_Session Html_Element_Stack_Properties Html_Formatting_List_Properties Html_Parser_Idioms_Properties
    Html_Adoption_Agency_Properties Html_Element_Insertion Html_Text_Insertion
begin

text \<open>
  A verification of the HTML parser of WebKit, from the text a network or a script delivers to the
  changes of the DOM tree. The code is in \<open>Source/WebCore/html/parser\<close>,
  \<open>Source/WebCore/platform/text\<close>, \<open>Source/WebCore/dom\<close> and \<open>Source/WTF/wtf\<close>; all file names below are
  under \<open>src/\<close>.

  \<^bold>\<open>How the parts interact.\<close> Text is appended to an \<open>HTMLInputStream\<close>, a chain of \<open>SegmentedString\<close>s
  with nested insertion points for what running scripts write. The \<open>HTMLTokenizer\<close> reads the first of
  them through an \<open>InputStreamPreprocessor\<close>, which normalises line breaks and replaces nulls, and fills
  in an \<open>HTMLToken\<close>. Character references are decoded by the entity parser with an incremental search
  of a sorted table. A finished token becomes an \<open>AtomicHTMLToken\<close>. From it tree construction makes an
  \<open>HTMLStackItem\<close>, kept on the stack of open elements (\<open>HTMLElementStack\<close>) and, for formatting
  elements, in the list of active formatting elements (\<open>HTMLFormattingElementList\<close>). Both belong to the
  construction site (\<open>HTMLConstructionSite\<close>), which creates elements, queues the changes of the tree as
  tasks and executes them with the operations of \<open>ContainerNode\<close> that are reserved for the parser. The
  tree builder (\<open>HTMLTreeBuilder\<close>) decides what each tag does; its adoption agency mends misnested
  formatting elements. The values of attributes are parsed by the functions of \<open>HTMLParserIdioms\<close>.

  \<^bold>\<open>Conventions.\<close> A class is a record with the members of the class (prefixed where two classes share a
  name), and a method is a function that returns the changed record. \<open>UChar\<close>, \<open>LChar\<close> and \<open>unsigned\<close> are
  words of 16, 8 and 32 bits, so arithmetic wraps as it does in the code. A string is the list of its
  code units, with a flag where the code branches on the width; the null string is \<open>None\<close> where the
  code tells it from the empty one. A pointer that the code follows without testing is an option, and
  \<open>None\<close> as a result stands for following a null pointer. Assertions are ghost fields (\<open>ss_asserts\<close>,
  \<open>tok_asserts\<close>, \<open>tz_asserts\<close>, \<open>at_asserts\<close>, \<open>stack_asserts\<close>, \<open>fl_asserts\<close>, \<open>dom_asserts\<close>,
  \<open>cs_asserts\<close>) that become and stay false when a condition of an \<open>ASSERT\<close> is false, so that \<^emph>\<open>no assertion fails\<close> is a property and not an
  assumption. Calls into DOM nodes are recorded as events in the order the code makes them.

  \<^bold>\<open>Input.\<close>
  \<^item> \<open>Prelude\<close>: character types, string literals, the collections of simplification rules, lists.
  \<^item> \<open>Wtf_Ascii\<close>, \<open>Wtf_Strings\<close>: \<open>wtf/ASCIICType.h\<close> and the caseless comparisons of
    \<open>wtf/text/StringCommon.h\<close>, with what exactly the latter accept.
  \<^item> \<open>Segmented_String\<close>: \<open>platform/text/SegmentedString.{h,cpp}\<close>, function by function.
    \<open>Segmented_String_View\<close>: the invariant, the list of characters still to be read, and that each
    operation acts on that list; the locales \<open>input_source\<close> and \<open>rewindable_source\<close> state what readers
    rely on and are interpreted on it.
  \<^item> \<open>Html_Input_Stream\<close>: \<open>HTMLInputStream.h\<close>; the locale \<open>insertion_stream\<close> is the contract of nested
    insertion points.
  \<^item> \<open>Input_Preprocessor\<close>: \<open>InputStreamPreprocessor.h\<close> against a reference definition on lists.

  \<^bold>\<open>Character references.\<close>
  \<^item> \<open>Html_Entity_Search\<close>: \<open>HTMLEntitySearch.{h,cpp}\<close>. The table is made by a script of the build and
    is a parameter, with sortedness as a named hypothesis; the two binary searches are shown to give
    the range of the entries with a prefix.
  \<^item> \<open>Html_Entity_Parser\<close>, \<open>Html_Entity_Decoding\<close>: \<open>HTMLEntityParser.{h,cpp}\<close> and the template of
    \<open>xml/parser/CharacterReferenceParserInlines.h\<close>; longest match, values of numeric references,
    what is pushed back.

  \<^bold>\<open>Tokens.\<close>
  \<^item> \<open>Html_Token\<close>, \<open>Html_Token_Invariant\<close>: \<open>HTMLToken.h\<close> and well-formedness per type of token.
  \<^item> \<open>Html_Tokenizer\<close>, \<open>Html_Tokenizer_States\<close>: the members and helpers of \<open>HTMLTokenizer.{h,cpp}\<close> and
    the 71 blocks of \<open>processToken\<close>; the \<open>goto\<close>s of the macros are the result of a block.
  \<^item> \<open>Html_Tokenizer_Invariant\<close>, \<open>Html_Tokenizer_Safety\<close>: each block keeps the invariant, the jumps
    end, no assertion fails.
  \<^item> \<open>Html_Token_Session\<close>: everything a document parser may do with tokenizer and stream, as an
    inductive relation, and the properties in every state it reaches.
  \<^item> \<open>Atomic_Html_Token\<close>: \<open>AtomicHTMLToken.h\<close> and what it keeps of a token.

  \<^bold>\<open>Tree construction.\<close>
  \<^item> \<open>Html_Stack_Item\<close>: \<open>HTMLStackItem.h\<close>; a node is its identity and its tag.
  \<^item> \<open>Html_Element_Stack\<close>: \<open>HTMLElementStack.{h,cpp}\<close>. \<open>Html_Element_Stack_Invariant\<close> and
    \<open>Html_Element_Stack_Calls\<close>: where root, head and body are, and that every operation keeps it.
    \<open>Html_Element_Stack_Scope\<close>: the scope queries and the loops that pop to a marker, once, in the
    locale \<open>scope_marker\<close>, which is interpreted on the nine marker functions.
    \<open>Html_Element_Stack_Properties\<close>: the calls of the tree builder with their guards as a relation.
  \<^item> \<open>Html_Formatting_List\<close>, \<open>Html_Formatting_List_Properties\<close>: \<open>HTMLFormattingElementList.{h,cpp}\<close>
    with markers, bookmarks and the limit of three alike elements.
  \<^item> \<open>Html_Parser_Idioms\<close>, \<open>Html_Parser_Idioms_Properties\<close>: \<open>HTMLParserIdioms.{h,cpp}\<close> against
    reference definitions on whole strings.

  \<^bold>\<open>The tree.\<close>
  \<^item> \<open>Dom_Tree\<close>: the five pointers of a node (\<open>dom/Node.h\<close>, \<open>dom/ContainerNode.h\<close>) in a store of nodes,
    and the operations of \<open>dom/ContainerNode.cpp\<close> for the parser. \<open>Dom_Tree_Links\<close>: the relation
    \<open>dom_rep\<close> between the pointers and the list of the children of every node, and that each operation is
    the operation on these lists.
  \<^item> \<open>Html_Construction_Site\<close>: \<open>HTMLConstructionSite.{h,cpp}\<close> with what it calls of \<open>dom/Element.cpp\<close>,
    \<open>dom/CharacterData.cpp\<close>, \<open>dom/Text.cpp\<close> and \<open>platform/URL.cpp\<close>. The generated factory of elements,
    the classes of elements and the Unicode library are the record \<open>ElementEnvironment\<close>, an argument;
    \<open>env_ok\<close> (the factory makes an HTML element of the name it is given) and \<open>breaks_ok\<close> (what the
    break iterator documents) are the hypotheses about it.
  \<^item> \<open>Html_Construction_Site_Invariant\<close>, \<open>Html_Construction_Site_Steps\<close>: the invariant \<open>site_ok\<close> of
    stack, list and tree together, foster parenting, and the execution of insertions. The hypothesis
    \<open>foster_ok\<close> is about fragments only: a table right above the root of a fragment has a parent that can
    take foster children.
  \<^item> \<open>Html_Reconstruction\<close>, \<open>Html_Element_Insertion\<close>, \<open>Html_Text_Insertion\<close>: reconstruction of the
    formatting elements, start tags, what the content policy keeps out, and text.
  \<^item> \<open>Html_Adoption_Agency\<close>: \<open>processAnyOtherEndTagForInBody\<close> and \<open>callTheAdoptionAgency\<close> of
    \<open>HTMLTreeBuilder.cpp\<close>. \<open>Html_End_Tags\<close>: the former. \<open>Html_Adoption_Tasks\<close>, \<open>Html_Adoption_Inner\<close>,
    \<open>Html_Adoption_Finish\<close>, \<open>Html_Adoption_Agency_Properties\<close>: the tasks of the adoption agency, its
    inner loop, the end of a round, and all of it.

  \<^bold>\<open>Loops and bounds.\<close> Loops that follow the structure of a list are structural recursion. The loops
  of the searches and of popping have termination proofs. The loops whose end depends on the source
  (\<open>run\<close>, the jumps of the tokenizer; \<open>processNextInputCharacter\<close>; the loops of the entity parser) or on
  the links of the tree (\<open>getChildNodes_loop\<close>, \<open>removeChildren_loop\<close>, \<open>insertText_loop\<close>) are partial functions in the option type, where not ending is \<open>None\<close>, and the theorems state that the
  result is \<open>Some\<close>. The two loops of the adoption agency have the limits of the code, eight and three.
  The loop over a list of numbers has fuel, the length of the text, and each
  round consumes a character, so it is never spent. The hypotheses on lengths (a source of less than
  two to the thirty-second characters, counters that do not wrap) are the ranges of the code's own
  counters.

  \<^bold>\<open>Not modelled.\<close>
  \<^item> The insertion modes of \<open>HTMLTreeBuilder\<close>; its calls on the stack of open elements are a relation with
    the guards of the code. Of the DOM, everything but the links, names, attributes and text of nodes:
    documents, renderers, frames, form owners, and the scripts that notifications of the tree may run.
  \<^item> \<open>HTMLDocumentParser\<close>, \<open>HTMLParserScheduler\<close>, \<open>HTMLScriptRunner\<close>, \<open>HTMLResourcePreloader\<close>,
    \<open>TextDocumentParser\<close>: they tie the parser to the frame, the loader, timers and the script engine,
    and have no state of their own that could be stated without those.
  \<^item> \<open>HTMLPreloadScanner\<close>, \<open>CSSPreloadScanner\<close>, \<open>HTMLSrcsetParser\<close>, \<open>HTMLMetaCharsetParser\<close>,
    \<open>HTMLSourceTracker\<close>, \<open>XSSAuditor\<close>: further clients of the tokenizer, independent of what is here.
  \<^item> The conversion of decimal text to floating point in \<open>HTMLParserIdioms\<close> is a parameter; the entity
    table is generated by the build and a parameter.
  \<^item> The rest of WebCore, JavaScriptCore, WebKit, WTF and bmalloc, the third-party libraries and the
    tools: programs of their own size, which the parser does not call or calls only through the
    operations named above.
\<close>

end
